(* ===== verification/Prelude.thy ===== *)
theory Prelude
  imports Main "HOL-Library.Word"
begin

text \<open>
  Shared ground of the development: the machine integers the Rust code uses, their
  saturating operations, little-endian byte strings, decimal and hexadecimal text, the
  sorted association lists that stand for \<^verbatim>\<open>BTreeMap\<close>, and the interface (a locale) of
  every encoder/decoder pair. Unchecked \<open>+\<close> and \<open>-\<close> on \<open>u64\<close> wrap, as in a release
  build of the Rust code; \<open>saturating_add\<close> and \<open>saturating_sub\<close> are written out.
\<close>

section \<open>Collections of facts\<close>

named_theorems episode_defs \<open>definitions of the operations of an episode\<close>
named_theorems wire_simps \<open>lengths and round trips of wire formats\<close>

section \<open>Machine integers\<close>

type_synonym u8 = "8 word"
type_synonym u16 = "16 word"
type_synonym u32 = "32 word"
type_synonym u64 = "64 word"
type_synonym bytes = "u8 list"

definition sat_add :: "'a::len word \<Rightarrow> 'a word \<Rightarrow> 'a word" where
  "sat_add a b = (if a \<le> a + b then a + b else - 1)"

definition sat_sub :: "'a::len word \<Rightarrow> 'a word \<Rightarrow> 'a word" where
  "sat_sub a b = (if b \<le> a then a - b else 0)"

lemma unat_sat_sub: "unat (sat_sub a b) = unat a - unat b"
  by (auto simp: sat_sub_def unat_sub word_le_nat_alt)

lemma unat_sat_add: "unat a + unat b < 2 ^ LENGTH('a) \<Longrightarrow> unat (sat_add a b) = unat a + unat b" for a b :: "'a::len word"
  by (auto simp: sat_add_def unat_word_ariths word_le_nat_alt)

lemma sat_sub_le: "sat_sub a b \<le> a"
  by (simp add: word_le_nat_alt unat_sat_sub)

lemma sat_sub_zero [simp]: "sat_sub a 0 = a" "sat_sub a a = 0"
  by (simp_all add: sat_sub_def)

lemma sat_add_no_overflow: "a \<le> a + b \<Longrightarrow> sat_sub (sat_add a b) b = a"
  by (auto simp: sat_add_def sat_sub_def word_le_nat_alt)
    (metis add.commute olen_add_eqv word_le_nat_alt)

lemma sat_add_ge: "a \<le> sat_add a b"
  by (auto simp: sat_add_def word_order.extremum)

lemma unat_succ: "w \<noteq> - 1 \<Longrightarrow> unat (w + 1) = Suc (unat w)"
  by (metis add.commute add_eq_0_iff unatSuc)

lemma succ_le_iff: "w \<noteq> - 1 \<Longrightarrow> w + 1 \<le> n \<longleftrightarrow> w < n" for w n :: "'a::len word"
  by (simp add: word_le_nat_alt word_less_nat_alt unat_succ Suc_le_eq)

section \<open>Little-endian bytes\<close>

fun nat_le :: "nat \<Rightarrow> nat \<Rightarrow> bytes" where
  "nat_le 0 n = []"
| "nat_le (Suc k) n = of_nat (n mod 256) # nat_le k (n div 256)"

fun le_nat :: "bytes \<Rightarrow> nat" where
  "le_nat [] = 0"
| "le_nat (b # bs) = unat b + 256 * le_nat bs"

lemma nat_le_numeral: "nat_le (numeral k) n = of_nat (n mod 256) # nat_le (pred_numeral k) (n div 256)"
  unfolding numeral_eq_Suc [of k] nat_le.simps ..

lemma length_nat_le [simp, wire_simps]: "length (nat_le k n) = k"
  by (induction k n rule: nat_le.induct) auto

lemma unat_byte_mod: "unat (of_nat (n mod 256) :: u8) = n mod 256"
  by (simp add: unat_of_nat)

lemma le_nat_nat_le: "le_nat (nat_le k n) = n mod 256 ^ k"
  by (induction k n rule: nat_le.induct) (auto simp: unat_byte_mod mod_mult2_eq)

lemma le_nat_bound: "le_nat bs < 256 ^ length bs"
proof (induction bs)
  case Nil
  then show ?case by simp
next
  case (Cons b bs)
  have "unat b < 256" using unsigned_less [of b] by simp
  with Cons show ?case by simp
qed

lemma nat_le_le_nat: "length bs = k \<Longrightarrow> nat_le k (le_nat bs) = bs"
proof (induction bs arbitrary: k)
  case Nil
  then show ?case by simp
next
  case (Cons b bs)
  have b: "unat b < 256" using unsigned_less [of b] by simp
  then have "of_nat ((unat b + 256 * le_nat bs) mod 256) = b"
    by simp
  moreover have "(unat b + 256 * le_nat bs) div 256 = le_nat bs"
    using b by simp
  ultimately show ?case using Cons by (cases k) auto
qed

definition u16_le :: "u16 \<Rightarrow> bytes" where "u16_le w = nat_le 2 (unat w)"
definition u32_le :: "u32 \<Rightarrow> bytes" where "u32_le w = nat_le 4 (unat w)"
definition u64_le :: "u64 \<Rightarrow> bytes" where "u64_le w = nat_le 8 (unat w)"
definition u64_be :: "u64 \<Rightarrow> bytes" where "u64_be w = rev (nat_le 8 (unat w))"
definition le_u16 :: "bytes \<Rightarrow> u16" where "le_u16 bs = of_nat (le_nat bs)"
definition le_u32 :: "bytes \<Rightarrow> u32" where "le_u32 bs = of_nat (le_nat bs)"
definition le_u64 :: "bytes \<Rightarrow> u64" where "le_u64 bs = of_nat (le_nat bs)"
definition be_u64 :: "bytes \<Rightarrow> u64" where "be_u64 bs = of_nat (le_nat (rev bs))"

lemma length_le_bytes [simp, wire_simps]:
  "length (u16_le a) = 2" "length (u32_le b) = 4" "length (u64_le c) = 8" "length (u64_be c) = 8"
  by (simp_all add: u16_le_def u32_le_def u64_le_def u64_be_def)

lemma le_word_roundtrip [simp, wire_simps]:
  "le_u16 (u16_le a) = a" "le_u32 (u32_le b) = b" "le_u64 (u64_le c) = c" "be_u64 (u64_be c) = c"
proof -
  have "unat a < 2 ^ 16" "unat b < 2 ^ 32" "unat c < 2 ^ 64"
    using unsigned_less [of a] unsigned_less [of b] unsigned_less [of c] by simp_all
  then show "le_u16 (u16_le a) = a" "le_u32 (u32_le b) = b" "le_u64 (u64_le c) = c"
    "be_u64 (u64_be c) = c"
    by (simp_all add: le_u16_def u16_le_def le_u32_def u32_le_def le_u64_def u64_le_def
        be_u64_def u64_be_def le_nat_nat_le)
qed

lemma unat_le_u16: "length bs = 2 \<Longrightarrow> unat (le_u16 bs) = le_nat bs"
  using le_nat_bound [of bs] by (simp add: le_u16_def unat_of_nat)

lemma u16_le_of_bytes: "length bs = 2 \<Longrightarrow> u16_le (le_u16 bs) = bs"
  by (simp add: u16_le_def unat_le_u16 nat_le_le_nat)

lemma u64_le_of_bytes: "length bs = 8 \<Longrightarrow> u64_le (le_u64 bs) = bs"
  using le_nat_bound [of bs] by (simp add: u64_le_def le_u64_def unat_of_nat nat_le_le_nat)

lemma u32_le_of_bytes: "length bs = 4 \<Longrightarrow> u32_le (le_u32 bs) = bs"
  using le_nat_bound [of bs] by (simp add: u32_le_def le_u32_def unat_of_nat nat_le_le_nat)

text \<open>The bytes of a UTF-8 string, and its Borsh form.\<close>

definition ascii :: "string \<Rightarrow> bytes" where
  "ascii s = map (of_char :: char \<Rightarrow> u8) s"

definition borsh_string :: "string \<Rightarrow> bytes" where
  "borsh_string s = u32_le (of_nat (length s)) @ ascii s"

section \<open>Decimal text\<close>

text \<open>
  \<^verbatim>\<open>format!("{}", n)\<close> for an unsigned integer, and \<^verbatim>\<open>str::parse::<u64>\<close>: an optional
  leading plus sign, then one or more ASCII digits, whose value must fit 64 bits.
\<close>

definition digit_char :: "nat \<Rightarrow> char" where
  "digit_char d = char_of (48 + d)"

definition char_digit :: "char \<Rightarrow> nat option" where
  "char_digit c = (let n = (of_char c :: nat) in if 48 \<le> n \<and> n \<le> 57 then Some (n - 48) else None)"

fun show_nat :: "nat \<Rightarrow> string" where
  "show_nat n = (if n < 10 then [digit_char n] else show_nat (n div 10) @ [digit_char (n mod 10)])"

declare show_nat.simps [simp del]

fun read_digits :: "nat \<Rightarrow> string \<Rightarrow> nat option" where
  "read_digits acc [] = Some acc"
| "read_digits acc (c # cs) =
     (case char_digit c of None \<Rightarrow> None | Some d \<Rightarrow> read_digits (10 * acc + d) cs)"

definition show_u64 :: "u64 \<Rightarrow> string" where
  "show_u64 w = show_nat (unat w)"

definition parse_u64 :: "string \<Rightarrow> u64 option" where
  "parse_u64 s =
     (let ds = (case s of [] \<Rightarrow> [] | c # cs \<Rightarrow> (if c = CHR ''+'' then cs else s))
      in if ds = [] then None
         else case read_digits 0 ds of
                None \<Rightarrow> None
              | Some n \<Rightarrow> (if n < 2 ^ 64 then Some (of_nat n) else None))"

lemma char_digit_digit_char [simp]: "d < 10 \<Longrightarrow> char_digit (digit_char d) = Some d"
  by (simp add: char_digit_def digit_char_def)

lemma read_digits_append:
  "read_digits acc (xs @ ys) =
     (case read_digits acc xs of None \<Rightarrow> None | Some n \<Rightarrow> read_digits n ys)"
  by (induction acc xs rule: read_digits.induct) (auto split: option.splits)

lemma read_show_nat: "read_digits 0 (show_nat n) = Some n"
proof (induction n rule: show_nat.induct)
  case (1 n)
  then show ?case
    by (cases "n < 10") (auto simp: show_nat.simps [of n] read_digits_append)
qed

lemma show_nat_digits: "\<forall>c \<in> set (show_nat n). char_digit c \<noteq> None"
proof (induction n rule: show_nat.induct)
  case (1 n)
  then show ?case
    by (cases "n < 10") (auto simp: show_nat.simps [of n])
qed

lemma show_nat_not_Nil [simp]: "show_nat n \<noteq> []"
  by (subst show_nat.simps) auto

lemma char_digit_plus [simp]: "char_digit (CHR ''+'') = None"
  by (simp add: char_digit_def)

lemma char_digit_underscore [simp]: "char_digit (CHR ''_'') = None"
  by (simp add: char_digit_def)

lemma show_nat_no_sep: "CHR ''_'' \<notin> set (show_nat n)" "CHR ''+'' \<notin> set (show_nat n)"
  using show_nat_digits [of n] by fastforce+

lemma parse_show_u64 [simp]: "parse_u64 (show_u64 w) = Some w"
proof -
  obtain c cs where s: "show_nat (unat w) = c # cs"
    using show_nat_not_Nil [of "unat w"] by (cases "show_nat (unat w)") auto
  have "c \<noteq> CHR ''+''" using show_nat_no_sep(2) [of "unat w"] s by auto
  moreover have "unat w < 2 ^ 64" using unsigned_less [of w] by simp
  ultimately show ?thesis
    using read_show_nat [of "unat w"] s by (simp add: parse_u64_def show_u64_def Let_def)
qed

section \<open>Blank text\<close>

text \<open>
  \<^verbatim>\<open>s.trim().is_empty()\<close> on a UTF-8 string: every code point is Unicode white space. A
  \<open>string\<close> here is the list of the UTF-8 bytes, so the multi-byte white space code points are
  matched by their byte sequences; \<open>length\<close> is \<^verbatim>\<open>str::len\<close>.
\<close>

definition ascii_ws :: "char \<Rightarrow> bool" where
  "ascii_ws c = (let n = (of_char c :: nat) in (9 \<le> n \<and> n \<le> 13) \<or> n = 32)"

definition ws2 :: "char \<Rightarrow> char \<Rightarrow> bool" where
  "ws2 a b = (of_char a = (0xC2 :: nat) \<and> (of_char b = (0x85 :: nat) \<or> of_char b = (0xA0 :: nat)))"

definition ws3 :: "char \<Rightarrow> char \<Rightarrow> char \<Rightarrow> bool" where
  "ws3 a b c = (let x = (of_char a :: nat); y = (of_char b :: nat); z = (of_char c :: nat) in
     (x = 0xE1 \<and> y = 0x9A \<and> z = 0x80) \<or>
     (x = 0xE2 \<and> y = 0x80 \<and> ((0x80 \<le> z \<and> z \<le> 0x8A) \<or> z = 0xA8 \<or> z = 0xA9 \<or> z = 0xAF)) \<or>
     (x = 0xE2 \<and> y = 0x81 \<and> z = 0x9F) \<or>
     (x = 0xE3 \<and> y = 0x80 \<and> z = 0x80))"

fun is_blank :: "string \<Rightarrow> bool" where
  "is_blank [] = True"
| "is_blank [a] = ascii_ws a"
| "is_blank [a, b] = (if ascii_ws a then is_blank [b] else ws2 a b)"
| "is_blank (a # b # c # s) =
     (if ascii_ws a then is_blank (b # c # s)
      else if ws2 a b then is_blank (c # s)
      else ws3 a b c \<and> is_blank s)"

text \<open>\<^verbatim>\<open>str::trim\<close>, \<^verbatim>\<open>str::split\<close> at a character, and \<^verbatim>\<open>str::lines\<close> up to the carriage
  returns that \<^verbatim>\<open>trim\<close> removes.\<close>

fun trim_start :: "string \<Rightarrow> string" where
  "trim_start (a # b # c # s) =
     (if ascii_ws a then trim_start (b # c # s)
      else if ws2 a b then trim_start (c # s)
      else if ws3 a b c then trim_start s
      else a # b # c # s)"
| "trim_start [a, b] = (if ascii_ws a then trim_start [b] else if ws2 a b then [] else [a, b])"
| "trim_start [a] = (if ascii_ws a then [] else [a])"
| "trim_start [] = []"

fun trim_rev :: "string \<Rightarrow> string" where
  "trim_rev (c # b # a # s) =
     (if ascii_ws c then trim_rev (b # a # s)
      else if ws2 b c then trim_rev (a # s)
      else if ws3 a b c then trim_rev s
      else c # b # a # s)"
| "trim_rev [c, b] = (if ascii_ws c then trim_rev [b] else if ws2 b c then [] else [c, b])"
| "trim_rev [c] = (if ascii_ws c then [] else [c])"
| "trim_rev [] = []"

definition trim :: "string \<Rightarrow> string" where
  "trim s = rev (trim_rev (rev (trim_start s)))"

fun split_char :: "char \<Rightarrow> string \<Rightarrow> string list" where
  "split_char d [] = [[]]"
| "split_char d (x # xs) = (if x = d then [] # split_char d xs else (x # hd (split_char d xs)) # tl (split_char d xs))"

definition lines_of :: "string \<Rightarrow> string list" where
  "lines_of s = (let ps = split_char (CHR 0x0A) s in if last ps = [] then butlast ps else ps)"

text \<open>Text without white space and without bytes beyond ASCII is its own trimmed form.\<close>

definition plain_char :: "char \<Rightarrow> bool" where
  "plain_char c \<longleftrightarrow> \<not> ascii_ws c \<and> (of_char c :: nat) < 128"

lemma trim_plain: "list_all plain_char s \<Longrightarrow> trim s = s"
proof -
  have s: "list_all plain_char t \<Longrightarrow> trim_start t = t" for t
    by (induction t rule: trim_start.induct) (auto simp: plain_char_def ws2_def ws3_def Let_def)
  have r: "list_all plain_char t \<Longrightarrow> trim_rev t = t" for t
    by (induction t rule: trim_rev.induct) (auto simp: plain_char_def ws2_def ws3_def Let_def)
  assume "list_all plain_char s"
  then show ?thesis using s r [of "rev s"] by (simp add: trim_def)
qed

lemma split_char_not_Nil [simp]: "split_char d s \<noteq> []"
  by (cases s) auto

lemma split_char_none: "d \<notin> set s \<Longrightarrow> split_char d s = [s]"
  by (induction s) auto

lemma split_char_append: "d \<notin> set s \<Longrightarrow> split_char d (s @ d # t) = s # split_char d t"
  by (induction s) auto

lemma digit_plain: "char_digit c \<noteq> None \<Longrightarrow> plain_char c"
  by (auto simp: char_digit_def plain_char_def ascii_ws_def Let_def split: if_splits)

lemma lines_of_concat: "\<forall>s \<in> set ss. CHR 0x0A \<notin> set s \<Longrightarrow> lines_of (concat (map (\<lambda>s. s @ [CHR 0x0A]) ss)) = ss"
proof -
  assume "\<forall>s \<in> set ss. CHR 0x0A \<notin> set s"
  then have "split_char (CHR 0x0A) (concat (map (\<lambda>s. s @ [CHR 0x0A]) ss)) = ss @ [[]]"
    by (induction ss) (simp_all add: split_char_append)
  then show ?thesis by (simp add: lines_of_def)
qed

section \<open>Sorted association lists\<close>

text \<open>
  A \<^verbatim>\<open>BTreeMap\<close> whose entries are iterated over: an association list kept sorted by key.
  Lookup is \<^const>\<open>map_of\<close>; the two update laws need no well-formedness.
\<close>

type_synonym ('k, 'v) bmap = "('k \<times> 'v) list"

fun bm_insert :: "'k::linorder \<Rightarrow> 'v \<Rightarrow> ('k, 'v) bmap \<Rightarrow> ('k, 'v) bmap" where
  "bm_insert k v [] = [(k, v)]"
| "bm_insert k v ((k', v') # m) =
     (if k < k' then (k, v) # (k', v') # m
      else if k = k' then (k, v) # m
      else (k', v') # bm_insert k v m)"

definition bm_remove :: "'k \<Rightarrow> ('k, 'v) bmap \<Rightarrow> ('k, 'v) bmap" where
  "bm_remove k m = filter (\<lambda>e. fst e \<noteq> k) m"

definition bm_wf :: "('k::linorder, 'v) bmap \<Rightarrow> bool" where
  "bm_wf m = sorted_wrt (<) (map fst m)"

lemma map_of_bm_insert [simp]: "map_of (bm_insert k v m) = (map_of m)(k \<mapsto> v)"
  by (induction k v m rule: bm_insert.induct) auto

lemma map_of_bm_remove [simp]: "map_of (bm_remove k m) = (map_of m)(k := None)"
proof (rule ext)
  fix x
  show "map_of (bm_remove k m) x = ((map_of m)(k := None)) x"
    by (induction m) (auto simp: bm_remove_def)
qed

lemma bm_wf_Nil [simp]: "bm_wf []"
  by (simp add: bm_wf_def)

lemma bm_wf_Cons: "bm_wf ((k, v) # m) \<longleftrightarrow> (\<forall>k' \<in> fst ` set m. k < k') \<and> bm_wf m"
  by (auto simp: bm_wf_def)

lemma fst_set_bm_insert: "fst ` set (bm_insert k v m) = insert k (fst ` set m)"
  by (induction k v m rule: bm_insert.induct) auto

lemma bm_wf_insert [simp]: "bm_wf m \<Longrightarrow> bm_wf (bm_insert k v m)"
proof (induction k v m rule: bm_insert.induct)
  case (2 k v k' v' m)
  then show ?case
    by (auto simp: bm_wf_Cons fst_set_bm_insert)
qed (simp add: bm_wf_def)

lemma bm_wf_remove [simp]: "bm_wf m \<Longrightarrow> bm_wf (bm_remove k m)"
  by (induction m) (auto simp: bm_remove_def bm_wf_def)

lemma bm_wf_distinct: "bm_wf m \<Longrightarrow> distinct (map fst m)"
  by (simp add: bm_wf_def strict_sorted_iff)

lemma map_of_rebuild:
  assumes "distinct (map fst m)"
  shows "map (\<lambda>k. (k, the (map_of m k))) (map fst m) = m"
proof -
  have "map (\<lambda>e. (fst e, the (map_of m (fst e)))) m = map (\<lambda>e. e) m"
    using assms by (intro map_cong) auto
  then show ?thesis by (simp add: comp_def)
qed

lemma bm_ext:
  assumes "bm_wf m" "bm_wf m'" "map_of m = map_of m'"
  shows "m = m'"
proof -
  have d: "distinct (map fst m)" "distinct (map fst m')"
    using assms by (simp_all add: bm_wf_distinct)
  have "set (map fst m) = set (map fst m')"
    using assms(3) by (metis dom_map_of_conv_image_fst list.set_map)
  then have "map fst m = map fst m'"
    using assms(1,2) unfolding bm_wf_def by (simp add: strict_sorted_equal)
  then show ?thesis
    using map_of_rebuild [OF d(1)] map_of_rebuild [OF d(2)] assms(3) by simp
qed

section \<open>Codecs as interfaces\<close>

text \<open>
  What the users of a wire format rely on: decoding an encoded value gives it back. A
  \<^emph>\<open>stream\<close> codec also leaves the bytes that follow untouched, which is what lets
  fields be read one after the other.
\<close>

locale codec =
  fixes enc :: "'a \<Rightarrow> bytes" and dec :: "bytes \<Rightarrow> 'a option" and ok :: "'a \<Rightarrow> bool"
  assumes dec_enc: "ok x \<Longrightarrow> dec (enc x) = Some x"
begin

lemma enc_inject: "ok x \<Longrightarrow> ok y \<Longrightarrow> enc x = enc y \<Longrightarrow> x = y"
  by (metis dec_enc option.inject)

lemma dec_unique: "ok x \<Longrightarrow> dec (enc x) = Some y \<Longrightarrow> y = x"
  by (simp add: dec_enc)

end

locale stream_codec =
  fixes put :: "'a \<Rightarrow> bytes" and get :: "bytes \<Rightarrow> ('a \<times> bytes) option" and ok :: "'a \<Rightarrow> bool"
  assumes get_put: "ok x \<Longrightarrow> get (put x @ rest) = Some (x, rest)"

sublocale stream_codec \<subseteq> whole: codec put "\<lambda>bs. map_option fst (get bs)" ok
  by unfold_locales (use get_put [where rest = "[]"] in simp)

fun get_many :: "(bytes \<Rightarrow> ('a \<times> bytes) option) \<Rightarrow> nat \<Rightarrow> bytes \<Rightarrow> ('a list \<times> bytes) option" where
  "get_many g 0 bs = Some ([], bs)"
| "get_many g (Suc n) bs =
     (case g bs of
        None \<Rightarrow> None
      | Some (x, bs') \<Rightarrow>
          (case get_many g n bs' of None \<Rightarrow> None | Some (xs, r) \<Rightarrow> Some (x # xs, r)))"

context stream_codec
begin

lemma get_many_concat:
  "list_all ok xs \<Longrightarrow> get_many get (length xs) (concat (map put xs) @ rest) = Some (xs, rest)"
  by (induction xs) (simp_all add: get_put)

end

text \<open>\<^verbatim>\<open>str::contains\<close>.\<close>

definition contains :: "string \<Rightarrow> string \<Rightarrow> bool" where
  "contains s p = list_ex (\<lambda>i. take (length p) (drop i s) = p) [0..<Suc (length s)]"

section \<open>Bytes as text, numbers in unary\<close>

text \<open>Used by the concrete instances that the theorems are applied to.\<close>

lemma char_byte [simp]: "of_char (char_of (unat b)) = (b :: u8)"
proof -
  have "of_char (char_of (unat b)) = (of_nat (of_char (char_of (unat b))) :: u8)" by (simp only: of_nat_of_char)
  also have "\<dots> = of_nat (unat b mod 256)" by (simp only: of_char_of)
  also have "unat b mod 256 = unat b"
  proof -
    have "unat b < 256" using unsigned_less [of b] by simp
    then show ?thesis by simp
  qed
  finally show ?thesis by simp
qed

definition enc_nats :: "nat list \<Rightarrow> bytes" where
  "enc_nats ns = concat (map (\<lambda>n. replicate n 1 @ [0]) ns)"

fun dec_nats :: "nat \<Rightarrow> bytes \<Rightarrow> nat list" where
  "dec_nats k [] = []"
| "dec_nats k (b # bs) = (if b = 0 then k # dec_nats 0 bs else dec_nats (Suc k) bs)"

lemma dec_nats_ones: "dec_nats k (replicate n 1 @ 0 # bs) = (k + n) # dec_nats 0 bs"
  by (induction n arbitrary: k) auto

lemma dec_enc_nats: "dec_nats 0 (enc_nats ns) = ns"
  by (induction ns) (simp_all add: enc_nats_def dec_nats_ones)

end
