(* ===== verification/Episode.thy ===== *)
theory Episode
  imports Prelude "HOL-Library.List_Lexorder"
begin

text \<open>
  The injection points of the framework (\<^verbatim>\<open>kdapp/src/episode.rs\<close>, \<^verbatim>\<open>kdapp/src/pki.rs\<close>):
  keys and signatures with their Borsh encodings, the payload metadata, the \<^verbatim>\<open>Episode\<close> trait
  as a record of its operations, and, as the locale \<open>episode_contract\<close>, the contract the trait
  documents: \<^verbatim>\<open>execute\<close> returns a rollback object that takes the episode back to the state
  before the call. The cryptographic primitives of \<^verbatim>\<open>secp256k1\<close> and \<^verbatim>\<open>sha2\<close> are the
  parameters collected in the record \<open>crypto\<close>.
\<close>

section \<open>Keys, signatures and messages\<close>

text \<open>
  A \<^verbatim>\<open>PublicKey\<close> is identified with its compressed serialisation (33 bytes, injective), a
  \<^verbatim>\<open>Signature\<close> with its DER form.
\<close>

datatype pubkey = PubKey (pk_bytes: bytes)

datatype sig = Sig (sig_der: bytes)

record crypto =
  sha256 :: "bytes \<Rightarrow> bytes"
  ecdsa_sign :: "bytes \<Rightarrow> bytes \<Rightarrow> bytes"          \<comment> \<open>secret key, digest\<close>
  ecdsa_verify :: "bytes \<Rightarrow> bytes \<Rightarrow> bytes \<Rightarrow> bool" \<comment> \<open>digest, signature, public key\<close>
  pk_slice_ok :: "bytes \<Rightarrow> bool"                   \<comment> \<open>\<^verbatim>\<open>PublicKey::from_slice\<close> succeeds\<close>
  der_ok :: "bytes \<Rightarrow> bool"                        \<comment> \<open>\<^verbatim>\<open>Signature::from_der\<close> succeeds\<close>

instantiation pubkey :: linorder
begin

definition less_eq_pubkey :: "pubkey \<Rightarrow> pubkey \<Rightarrow> bool" where
  "less_eq_pubkey a b = (pk_bytes a \<le> pk_bytes b)"

definition less_pubkey :: "pubkey \<Rightarrow> pubkey \<Rightarrow> bool" where
  "less_pubkey a b = (pk_bytes a < pk_bytes b)"

instance
  by standard (auto simp: less_eq_pubkey_def less_pubkey_def intro: pubkey.expand)

end

definition put_pubkey :: "pubkey \<Rightarrow> bytes" where
  "put_pubkey pk = pk_bytes pk"

definition get_pubkey :: "crypto \<Rightarrow> bytes \<Rightarrow> (pubkey \<times> bytes) option" where
  "get_pubkey cr bs =
     (if length bs < 33 then None
      else let buf = take 33 bs in
        if pk_slice_ok cr buf then Some (PubKey buf, drop 33 bs) else None)"

definition put_sig :: "sig \<Rightarrow> bytes" where
  "put_sig s = u32_le (of_nat (length (sig_der s))) @ sig_der s"

definition get_sig :: "crypto \<Rightarrow> bytes \<Rightarrow> (sig \<times> bytes) option" where
  "get_sig cr bs =
     (if length bs < 4 then None
      else let len = unat (le_u32 (take 4 bs)); r = drop 4 bs in
        if length r < len then None
        else let buf = take len r in
          if der_ok cr buf then Some (Sig buf, drop len r) else None)"

definition pubkey_ok :: "crypto \<Rightarrow> pubkey \<Rightarrow> bool" where
  "pubkey_ok cr pk \<longleftrightarrow> length (pk_bytes pk) = 33 \<and> pk_slice_ok cr (pk_bytes pk)"

definition sig_ok :: "crypto \<Rightarrow> sig \<Rightarrow> bool" where
  "sig_ok cr s \<longleftrightarrow> length (sig_der s) < 2 ^ 32 \<and> der_ok cr (sig_der s)"

interpretation pubkey_borsh: stream_codec put_pubkey "get_pubkey cr" "pubkey_ok cr" for cr
  by unfold_locales (auto simp: put_pubkey_def get_pubkey_def pubkey_ok_def Let_def)

interpretation sig_borsh: stream_codec put_sig "get_sig cr" "sig_ok cr" for cr
  by unfold_locales (auto simp: put_sig_def get_sig_def sig_ok_def Let_def unat_of_nat)

definition to_message :: "crypto \<Rightarrow> bytes \<Rightarrow> bytes" where
  "to_message cr object_bytes = sha256 cr object_bytes"

definition sign_message :: "crypto \<Rightarrow> bytes \<Rightarrow> bytes \<Rightarrow> sig" where
  "sign_message cr secret_key message = Sig (ecdsa_sign cr secret_key message)"

definition verify_signature :: "crypto \<Rightarrow> pubkey \<Rightarrow> bytes \<Rightarrow> sig \<Rightarrow> bool" where
  "verify_signature cr public_key message signature =
     ecdsa_verify cr message (sig_der signature) (pk_bytes public_key)"

section \<open>Metadata and errors\<close>

type_synonym hash = bytes
type_synonym episode_id = u32

definition default_hash :: hash where
  "default_hash = replicate 32 0"

datatype 'e episode_error = Unauthorized | InvalidSignature | InvalidCommand 'e | DeleteEpisode

record tx_output_info =
  out_value :: u64
  script_version :: u16
  script_bytes :: "bytes option"

record metadata =
  accepting_hash :: hash
  accepting_daa :: u64
  accepting_time :: u64
  tx_id :: hash
  tx_outputs :: "tx_output_info list option"

section \<open>The Episode trait\<close>

text \<open>
  A trait implementation is a record of its three methods. A method that takes
  \<^verbatim>\<open>&mut self\<close> returns the new state also when it fails; \<^const>\<open>None\<close> stands for a panic
  of the method (an index out of bounds, an \<^verbatim>\<open>unwrap\<close> of nothing).
\<close>

record ('g, 'c, 'r, 'e) episode_impl =
  ep_initialize :: "pubkey list \<Rightarrow> metadata \<Rightarrow> 'g"
  ep_execute :: "'g \<Rightarrow> 'c \<Rightarrow> pubkey option \<Rightarrow> metadata \<Rightarrow> ('g \<times> ('e episode_error + 'r)) option"
  ep_rollback :: "'g \<Rightarrow> 'r \<Rightarrow> ('g \<times> bool) option"

datatype ('g, 'c) episode_event =
    OnInitialize episode_id 'g
  | OnCommand episode_id 'g 'c "pubkey option" metadata
  | OnRollback episode_id 'g

text \<open>
  The contract. \<open>ginv\<close> is what the implementation keeps of its state, \<open>ok_init\<close> the
  participant lists it is built for, and \<open>sim g2 g\<close> says how faithfully a rolled back state
  \<open>g2\<close> stands for the state \<open>g\<close> before the command (equality for an implementation that
  restores everything). The relation has to survive a series of rollbacks, hence the law
  starts from any \<open>g1\<close> related to the state after the command.
\<close>

locale episode_contract =
  fixes ep :: "('g, 'c, 'r, 'e) episode_impl"
    and ginv :: "'g \<Rightarrow> bool"
    and sim :: "'g \<Rightarrow> 'g \<Rightarrow> bool"
    and ok_init :: "pubkey list \<Rightarrow> bool"
  assumes init_inv: "ok_init ps \<Longrightarrow> ginv (ep_initialize ep ps md)"
    and exec_total: "ginv g \<Longrightarrow> ep_execute ep g c a md \<noteq> None"
    and exec_inv: "ginv g \<Longrightarrow> ep_execute ep g c a md = Some (g', Inr r) \<Longrightarrow> ginv g'"
    and exec_err: "ginv g \<Longrightarrow> ep_execute ep g c a md = Some (g', Inl e) \<Longrightarrow> g' = g"
    and sim_refl: "ginv g \<Longrightarrow> sim g g"
    and sim_trans: "sim g1 g2 \<Longrightarrow> sim g2 g3 \<Longrightarrow> sim g1 g3"
    and sim_inv: "sim g1 g \<Longrightarrow> ginv g \<Longrightarrow> ginv g1"
    and rollback_sim: "ginv g \<Longrightarrow> ep_execute ep g c a md = Some (g', Inr r) \<Longrightarrow> sim g1 g' \<Longrightarrow>
      \<exists>g2. ep_rollback ep g1 r = Some (g2, True) \<and> sim g2 g"

text \<open>
  Running a list of commands keeps the rollback objects of the successful ones, newest last;
  rolling back takes them from the end.
\<close>

type_synonym 'c call = "'c \<times> pubkey option \<times> metadata"

fun exec_calls :: "('g, 'c, 'r, 'e) episode_impl \<Rightarrow> 'g \<Rightarrow> 'c call list \<Rightarrow> ('g \<times> 'r list) option" where
  "exec_calls ep g [] = Some (g, [])"
| "exec_calls ep g ((c, a, md) # cs) =
     (case ep_execute ep g c a md of
        None \<Rightarrow> None
      | Some (g', Inl e) \<Rightarrow> exec_calls ep g' cs
      | Some (g', Inr r) \<Rightarrow> map_option (\<lambda>(h, rs). (h, r # rs)) (exec_calls ep g' cs))"

fun undo_calls :: "('g, 'c, 'r, 'e) episode_impl \<Rightarrow> 'g \<Rightarrow> 'r list \<Rightarrow> 'g option" where
  "undo_calls ep g [] = Some g"
| "undo_calls ep g (r # rs) =
     (case undo_calls ep g rs of
        None \<Rightarrow> None
      | Some g' \<Rightarrow> (case ep_rollback ep g' r of Some (g'', True) \<Rightarrow> Some g'' | _ \<Rightarrow> None))"

context episode_contract
begin

lemma exec_inv_any: "ginv g \<Longrightarrow> ep_execute ep g c a md = Some (g', res) \<Longrightarrow> ginv g'"
  by (cases res) (auto dest: exec_inv exec_err)

lemma exec_calls_total: "ginv g \<Longrightarrow> \<exists>h rs. exec_calls ep g cs = Some (h, rs) \<and> ginv h"
proof (induction cs arbitrary: g)
  case Nil
  then show ?case by simp
next
  case (Cons x cs)
  obtain c a md where x: "x = (c, a, md)" by (cases x)
  obtain g' res where ex: "ep_execute ep g c a md = Some (g', res)"
    using exec_total [OF Cons.prems] by fast
  then have "ginv g'" using Cons.prems exec_inv_any by blast
  with Cons.IH [of g'] ex x show ?case
    by (cases res) auto
qed

text \<open>Every series of commands, failing ones included, is undone by its rollback objects.\<close>

lemma undo_exec_calls:
  assumes "ginv g" and "exec_calls ep g cs = Some (h, rs)" and "sim h1 h"
  shows "\<exists>g1. undo_calls ep h1 rs = Some g1 \<and> sim g1 g"
  using assms
proof (induction cs arbitrary: g rs)
  case Nil
  then show ?case by simp
next
  case (Cons x cs)
  obtain c a md where x: "x = (c, a, md)" by (cases x)
  obtain g' res where ex: "ep_execute ep g c a md = Some (g', res)"
    using exec_total [OF Cons.prems(1)] by fast
  have ginv': "ginv g'" using Cons.prems(1) ex exec_inv_any by blast
  show ?case
  proof (cases res)
    case (Inl e)
    then have "g' = g" using exec_err Cons.prems(1) ex by blast
    with Cons Inl ex x show ?thesis by auto
  next
    case (Inr r)
    then obtain rs' where rs: "exec_calls ep g' cs = Some (h, rs')" "rs = r # rs'"
      using Cons.prems(2) ex x by auto
    obtain g1 where "undo_calls ep h1 rs' = Some g1" "sim g1 g'"
      using Cons.IH [OF ginv' rs(1) Cons.prems(3)] by blast
    with rollback_sim [OF Cons.prems(1) ex [unfolded Inr]] rs(2) show ?thesis by fastforce
  qed
qed

end

end
