(* ===== verification/Generator.thy ===== *)
theory Generator
  imports Episode
begin

text \<open>
  Transactions that carry commands (\<^verbatim>\<open>kdapp/src/generator.rs\<close>): the id pattern, the payload
  header (prefix and nonce) and the search for a nonce whose transaction id matches the
  pattern. The transaction id (\<^verbatim>\<open>finalize\<close> then \<^verbatim>\<open>id\<close> of \<^verbatim>\<open>kaspa_consensus_core\<close>), the signing
  of inputs and the script of an address are parameters.
\<close>

unbundle bit_operations_syntax

type_synonym pattern = "(u8 \<times> u8) list"
type_synonym prefix = u32

section \<open>Patterns\<close>

fun check_pattern :: "hash \<Rightarrow> pattern \<Rightarrow> bool" where
  "check_pattern words [] = True"
| "check_pattern words ((pos, val) # ps) =
     (let word = words ! (unat pos div 8)
      in if (drop_bit (unat pos mod 8) word AND 1) \<noteq> val then False else check_pattern words ps)"

lemma low_bit_eq: "(w :: 'a::len word) AND 1 = of_bool (bit w 0)"
  by (simp add: and_one_eq odd_iff_mod_2_eq_one bit_0 flip: mod_2_eq_odd)

lemma check_pattern_bits:
  "check_pattern words ps \<longleftrightarrow>
     (\<forall>(pos, val) \<in> set ps. of_bool (bit (words ! (unat pos div 8)) (unat pos mod 8)) = val)"
  by (induction words ps rule: check_pattern.induct)
    (auto simp: low_bit_eq bit_drop_bit_eq Let_def)

section \<open>The payload header\<close>

definition pack_header :: "bytes \<Rightarrow> prefix \<Rightarrow> bytes" where
  "pack_header inner_data prefix = u32_le prefix @ u32_le 0 @ inner_data"

definition check_header :: "bytes \<Rightarrow> prefix \<Rightarrow> bool" where
  "check_header payload prefix =
     (if length payload < 8 then False else take 4 payload = u32_le prefix)"

definition set_nonce :: "bytes \<Rightarrow> u32 \<Rightarrow> bytes option" where
  "set_nonce data nonce =
     (if length data < 8 then None else Some (take 4 data @ u32_le nonce @ drop 8 data))"

definition strip_header :: "bytes \<Rightarrow> bytes option" where
  "strip_header payload = (if length payload < 8 then None else Some (drop 8 payload))"

definition header :: "prefix \<Rightarrow> u32 \<Rightarrow> bytes \<Rightarrow> bytes" where
  "header prefix nonce inner = u32_le prefix @ u32_le nonce @ inner"

lemma pack_header_eq: "pack_header inner prefix = header prefix 0 inner"
  by (simp add: pack_header_def header_def)

lemma set_nonce_header [simp]: "set_nonce (header p n inner) n' = Some (header p n' inner)"
  by (simp add: set_nonce_def header_def)

lemma strip_header_header [simp]: "strip_header (header p n inner) = Some inner"
  by (simp add: strip_header_def header_def)

lemma check_header_header [simp]: "check_header (header p n inner) q \<longleftrightarrow> q = p"
proof -
  have "u32_le p = u32_le q \<Longrightarrow> q = p"
    by (metis le_word_roundtrip(2))
  then show ?thesis by (auto simp: check_header_def header_def)
qed

lemma check_header_strip: "check_header payload p \<Longrightarrow> strip_header payload = Some (drop 8 payload)"
  by (simp add: check_header_def strip_header_def split: if_splits)

interpretation payload_codec: codec "\<lambda>inner. pack_header inner prefix" strip_header "\<lambda>_. True" for prefix
  by unfold_locales (simp add: pack_header_eq)

section \<open>Building transactions\<close>

record outpoint =
  op_txid :: hash
  op_index :: u32

record utxo_entry =
  utxo_amount :: u64
  utxo_script :: bytes

record tx_input =
  previous_outpoint :: outpoint
  signature_script :: bytes
  input_sequence :: u64
  sig_op_count :: u8

record tx_output =
  output_value :: u64
  script_public_key :: bytes

record transaction =
  tx_inputs :: "tx_input list"
  tx_outs :: "tx_output list"
  tx_payload :: bytes

record tx_env =
  id_of :: "transaction \<Rightarrow> hash"
  sign_tx :: "transaction \<Rightarrow> utxo_entry list \<Rightarrow> transaction"

record generator =
  gen_pattern :: pattern
  gen_prefix :: prefix

text \<open>
  The nonce loop: \<^verbatim>\<open>checked_add(1).unwrap()\<close> panics after the last nonce.
\<close>

function find_nonce :: "tx_env \<Rightarrow> pattern \<Rightarrow> transaction \<Rightarrow> u32 \<Rightarrow> transaction option" where
  "find_nonce te pat tx nonce =
     (if check_pattern (id_of te tx) pat then Some tx
      else if nonce = - 1 then None
      else case set_nonce (tx_payload tx) (nonce + 1) of
             None \<Rightarrow> None
           | Some pl \<Rightarrow> find_nonce te pat (tx\<lparr>tx_payload := pl\<rparr>) (nonce + 1))"
  by pat_completeness auto
termination
proof (relation "measure (\<lambda>(te, pat, tx, nonce). 2 ^ 32 - unat nonce)", goal_cases)
  case (2 te pat tx nonce pl)
  have "unat (nonce + 1) = Suc (unat nonce)" "unat nonce < 2 ^ 32"
    using 2(2) unsigned_less [of nonce] by (simp_all add: unat_succ)
  then show ?case by simp
qed simp

declare find_nonce.simps [simp del]

definition build_inputs :: "(outpoint \<times> utxo_entry) list \<Rightarrow> tx_input list" where
  "build_inputs utxos =
     map (\<lambda>(op, _). \<lparr>previous_outpoint = op, signature_script = [], input_sequence = 0, sig_op_count = 1\<rparr>) utxos"

definition build_outputs :: "u64 \<Rightarrow> u64 \<Rightarrow> bytes \<Rightarrow> tx_output list" where
  "build_outputs send_amount num_outs spk =
     map (\<lambda>_. \<lparr>output_value = send_amount div num_outs, script_public_key = spk\<rparr>) [0..<unat num_outs]"

definition build_transaction ::
  "tx_env \<Rightarrow> generator \<Rightarrow> (outpoint \<times> utxo_entry) list \<Rightarrow> u64 \<Rightarrow> u64 \<Rightarrow> bytes \<Rightarrow> bytes \<Rightarrow> transaction option" where
  "build_transaction te g utxos send_amount num_outs recipient_script payload =
     (let unsigned = \<lparr>tx_inputs = build_inputs utxos,
                      tx_outs = build_outputs send_amount num_outs recipient_script,
                      tx_payload = pack_header payload (gen_prefix g)\<rparr>
      in map_option (\<lambda>tx. sign_tx te tx (map snd utxos))
           (find_nonce te (gen_pattern g) unsigned 0))"

definition build_command_transaction ::
  "tx_env \<Rightarrow> generator \<Rightarrow> outpoint \<times> utxo_entry \<Rightarrow> bytes \<Rightarrow> bytes \<Rightarrow> u64 \<Rightarrow> transaction option" where
  "build_command_transaction te g utxo recipient_script cmd_bytes fee =
     build_transaction te g [utxo] (utxo_amount (snd utxo) - fee) 1 recipient_script cmd_bytes"

definition get_first_output_utxo :: "tx_env \<Rightarrow> transaction \<Rightarrow> (outpoint \<times> utxo_entry) option" where
  "get_first_output_utxo te tx =
     (case tx_outs tx of
        [] \<Rightarrow> None
      | o1 # _ \<Rightarrow> Some (\<lparr>op_txid = id_of te tx, op_index = 0\<rparr>,
                       \<lparr>utxo_amount = output_value o1, utxo_script = script_public_key o1\<rparr>))"

text \<open>
  The search tries the nonces in order, so it returns exactly when some nonce from the
  current one on matches, with the first such nonce in the payload and all else unchanged.
\<close>

lemma find_nonce_spec:
  assumes "tx_payload tx = header p nonce inner"
  shows "find_nonce te pat tx nonce =
     (if \<exists>n \<ge> nonce. check_pattern (id_of te (tx\<lparr>tx_payload := header p n inner\<rparr>)) pat
      then Some (tx\<lparr>tx_payload := header p
        (LEAST n. n \<ge> nonce \<and> check_pattern (id_of te (tx\<lparr>tx_payload := header p n inner\<rparr>)) pat) inner\<rparr>)
      else None)"
  using assms
proof (induction te pat tx nonce rule: find_nonce.induct)
  case (1 te pat tx nonce)
  let ?ok = "\<lambda>n. check_pattern (id_of te (tx\<lparr>tx_payload := header p n inner\<rparr>)) pat"
  have same: "tx\<lparr>tx_payload := header p nonce inner\<rparr> = tx"
    using "1.prems" by simp
  show ?case
  proof (cases "?ok nonce")
    case True
    then have "(LEAST n. n \<ge> nonce \<and> ?ok n) = nonce"
      by (intro Least_equality) auto
    with True same show ?thesis
      by (subst find_nonce.simps) (auto simp del: fun_upd_apply)
  next
    case no: False
    have step: "n \<ge> nonce \<and> ?ok n \<longleftrightarrow> n \<ge> nonce + 1 \<and> ?ok n" if "nonce \<noteq> - 1" for n
      using no succ_le_iff [OF that, of n] by (cases "n = nonce") auto
    show ?thesis
    proof (cases "nonce = - 1")
      case True
      then have "\<not> (\<exists>n \<ge> nonce. ?ok n)" using no by (auto simp: word_order.extremum_unique)
      with True no same show ?thesis by (subst find_nonce.simps) simp
    next
      case False
      let ?tx = "tx\<lparr>tx_payload := header p (nonce + 1) inner\<rparr>"
      have "find_nonce te pat tx nonce = find_nonce te pat ?tx (nonce + 1)"
        using False no same "1.prems" by (subst find_nonce.simps) simp
      also have "\<dots> = (if \<exists>n \<ge> nonce + 1. ?ok n
          then Some (tx\<lparr>tx_payload := header p (LEAST n. n \<ge> nonce + 1 \<and> ?ok n) inner\<rparr>) else None)"
        using "1.IH" [of "header p (nonce + 1) inner"] False no same "1.prems" by simp
      finally show ?thesis using step [OF False] by simp
    qed
  qed
qed

lemma find_nonce_header:
  assumes "find_nonce te pat tx nonce = Some tx'" "tx_payload tx = header p nonce inner"
  shows "\<exists>n. tx' = tx\<lparr>tx_payload := header p n inner\<rparr> \<and> check_pattern (id_of te tx') pat"
proof -
  let ?P = "\<lambda>k. k \<ge> nonce \<and> check_pattern (id_of te (tx\<lparr>tx_payload := header p k inner\<rparr>)) pat"
  show ?thesis
    using assms(1) find_nonce_spec [OF assms(2), of te pat] LeastI_ex [of ?P] by (auto split: if_splits)
qed

lemma find_nonce_keeps:
  "find_nonce te pat tx nonce = Some tx' \<Longrightarrow> tx_inputs tx' = tx_inputs tx \<and> tx_outs tx' = tx_outs tx"
proof (induction te pat tx nonce rule: find_nonce.induct)
  case (1 te pat tx nonce)
  show ?case
    using "1.prems" "1.IH" by (subst (asm) find_nonce.simps) (auto split: if_splits option.splits)
qed

text \<open>What a built transaction carries; signing is one of the parameters.\<close>

lemma built_transaction:
  assumes "build_transaction te g utxos send n script payload = Some tx"
  shows "\<exists>tx0 k. tx = sign_tx te tx0 (map snd utxos) \<and> check_pattern (id_of te tx0) (gen_pattern g) \<and>
    tx0 = \<lparr>tx_inputs = build_inputs utxos, tx_outs = build_outputs send n script, tx_payload = header (gen_prefix g) k payload\<rparr>"
  using assms by (auto simp: build_transaction_def Let_def pack_header_eq dest!: find_nonce_header)

text \<open>What the node answers to a submitted transaction.\<close>

datatype submit_answer = Submitted | SubmitFailed string

end
