(* ===== verification/Engine.thy ===== *)
theory Engine
  imports Generator
begin

text \<open>
  The engine (\<^verbatim>\<open>kdapp/src/engine.rs\<close>): the episodes of one type with a rollback stack each, the
  map from accepting block to what has to be reverted with it, and the loop over block
  events. Handlers are state transformers of a world of their own type, called in list order
  with the event; \<^const>\<open>None\<close> is a panic of the engine thread. The Borsh form of the messages
  is derived code, so encoder and decoder are fields of the configuration.
\<close>

section \<open>State and messages\<close>

definition EPISODE_LIFETIME :: u64 where "EPISODE_LIFETIME = 2592000"
definition SAMPLE_REMOVAL_TIME :: u64 where "SAMPLE_REMOVAL_TIME = 432000"

record ('g, 'r) wrapper =
  ew_episode :: 'g
  rollback_stack :: "'r list"  \<comment> \<open>top of the stack last\<close>

datatype 'c episode_message =
    NewEpisode episode_id "pubkey list"
  | SignedCommand episode_id 'c pubkey sig
  | UnsignedCommand episode_id 'c
  | Revert episode_id

datatype engine_msg =
    BlkAccepted hash u64 u64 "(hash \<times> bytes \<times> tx_output_info list option) list"
  | BlkReverted hash
  | Exit

record ('g, 'r) engine =
  episodes :: "episode_id \<rightharpoonup> ('g, 'r) wrapper"
  revert_map :: "hash \<rightharpoonup> (episode_id \<times> metadata) list"
  next_filtering :: u64
  creation_times :: "episode_id \<rightharpoonup> u64"

record ('g, 'c, 'r, 'e, 'w) config =
  cfg_ep :: "('g, 'c, 'r, 'e) episode_impl"
  cfg_crypto :: crypto
  cmd_bytes :: "'c \<Rightarrow> bytes"
  decode_msg :: "bytes \<Rightarrow> 'c episode_message option"
  handlers :: "(('g, 'c) episode_event \<Rightarrow> 'w \<Rightarrow> 'w) list"

fun msg_episode_id :: "'c episode_message \<Rightarrow> episode_id" where
  "msg_episode_id (NewEpisode i _) = i"
| "msg_episode_id (SignedCommand i _ _ _) = i"
| "msg_episode_id (UnsignedCommand i _) = i"
| "msg_episode_id (Revert i) = i"

definition new_signed_command ::
  "('g, 'c, 'r, 'e, 'w) config \<Rightarrow> episode_id \<Rightarrow> 'c \<Rightarrow> bytes \<Rightarrow> pubkey \<Rightarrow> 'c episode_message" where
  "new_signed_command cfg i cmd sk pk =
     (let msg = to_message (cfg_crypto cfg) (cmd_bytes cfg cmd);
          sg = sign_message (cfg_crypto cfg) sk msg
      in SignedCommand i cmd pk sg)"

section \<open>The wrapper\<close>

definition wrapper_initialize ::
  "('g, 'c, 'r, 'e, 'w) config \<Rightarrow> pubkey list \<Rightarrow> metadata \<Rightarrow> ('g, 'r) wrapper" where
  "wrapper_initialize cfg participants md =
     \<lparr>ew_episode = ep_initialize (cfg_ep cfg) participants md, rollback_stack = []\<rparr>"

definition execute_unsigned ::
  "('g, 'c, 'r, 'e, 'w) config \<Rightarrow> ('g, 'r) wrapper \<Rightarrow> 'c \<Rightarrow> metadata \<Rightarrow>
     (('g, 'r) wrapper \<times> ('e episode_error + unit)) option" where
  "execute_unsigned cfg wr cmd md =
     (case ep_execute (cfg_ep cfg) (ew_episode wr) cmd None md of
        None \<Rightarrow> None
      | Some (g, Inl err) \<Rightarrow> Some (wr\<lparr>ew_episode := g\<rparr>, Inl err)
      | Some (g, Inr r) \<Rightarrow>
          Some (\<lparr>ew_episode = g, rollback_stack = rollback_stack wr @ [r]\<rparr>, Inr ()))"

definition execute_signed ::
  "('g, 'c, 'r, 'e, 'w) config \<Rightarrow> ('g, 'r) wrapper \<Rightarrow> 'c \<Rightarrow> pubkey \<Rightarrow> sig \<Rightarrow> metadata \<Rightarrow>
     (('g, 'r) wrapper \<times> ('e episode_error + unit)) option" where
  "execute_signed cfg wr cmd pk sg md =
     (if \<not> verify_signature (cfg_crypto cfg) pk (to_message (cfg_crypto cfg) (cmd_bytes cfg cmd)) sg
      then Some (wr, Inl InvalidSignature)
      else case ep_execute (cfg_ep cfg) (ew_episode wr) cmd (Some pk) md of
        None \<Rightarrow> None
      | Some (g, Inl err) \<Rightarrow> Some (wr\<lparr>ew_episode := g\<rparr>, Inl err)
      | Some (g, Inr r) \<Rightarrow>
          Some (\<lparr>ew_episode = g, rollback_stack = rollback_stack wr @ [r]\<rparr>, Inr ()))"

text \<open>
  A failed \<^verbatim>\<open>Episode::rollback\<close> is only logged ("a severe bug in episode impl or engine code");
  the flag it returned is kept in the result.
\<close>

definition wrapper_rollback ::
  "('g, 'c, 'r, 'e, 'w) config \<Rightarrow> ('g, 'r) wrapper \<Rightarrow>
     (('g, 'r) wrapper \<times> ('e episode_error + bool)) option" where
  "wrapper_rollback cfg wr =
     (if rollback_stack wr = [] then Some (wr, Inl DeleteEpisode)
      else case ep_rollback (cfg_ep cfg) (ew_episode wr) (last (rollback_stack wr)) of
             None \<Rightarrow> None
           | Some (g, res) \<Rightarrow>
               Some (\<lparr>ew_episode = g, rollback_stack = butlast (rollback_stack wr)\<rparr>, Inr res))"

section \<open>The engine\<close>

definition new_engine :: "('g, 'r) engine" where
  "new_engine = \<lparr>episodes = Map.empty, revert_map = Map.empty, next_filtering = 0, creation_times = Map.empty\<rparr>"

definition is_expired :: "('g, 'r) engine \<Rightarrow> u64 \<Rightarrow> episode_id \<Rightarrow> bool" where
  "is_expired e daa_score i =
     (case creation_times e i of
        None \<Rightarrow> False
      | Some creation_time \<Rightarrow> creation_time < sat_sub daa_score EPISODE_LIFETIME)"

definition filter_old_episodes :: "('g, 'r) engine \<Rightarrow> u64 \<Rightarrow> ('g, 'r) engine" where
  "filter_old_episodes e daa_score =
     (if daa_score > next_filtering e + SAMPLE_REMOVAL_TIME
      then e\<lparr>episodes := (\<lambda>i. if is_expired e daa_score i then None else episodes e i),
             creation_times := (\<lambda>i. if is_expired e daa_score i then None else creation_times e i),
             next_filtering := daa_score\<rparr>
      else e)"

definition notify ::
  "('g, 'c, 'r, 'e, 'w) config \<Rightarrow> ('g, 'c) episode_event \<Rightarrow> 'w \<Rightarrow> 'w" where
  "notify cfg ev w = fold (\<lambda>h. h ev) (handlers cfg) w"

definition finish_command ::
  "('g, 'c, 'r, 'e, 'w) config \<Rightarrow> episode_id \<Rightarrow> 'c \<Rightarrow> pubkey option \<Rightarrow> metadata \<Rightarrow>
   ('g, 'r) engine \<times> 'w \<Rightarrow> (('g, 'r) wrapper \<times> ('e episode_error + unit)) option \<Rightarrow>
   ((('g, 'r) engine \<times> 'w) \<times> (episode_id \<times> metadata) option) option" where
  "finish_command cfg i cmd auth md s res =
     (case res of
        None \<Rightarrow> None
      | Some (wr, Inl _) \<Rightarrow> Some (((fst s)\<lparr>episodes := (episodes (fst s))(i \<mapsto> wr)\<rparr>, snd s), None)
      | Some (wr, Inr _) \<Rightarrow>
          Some (((fst s)\<lparr>episodes := (episodes (fst s))(i \<mapsto> wr)\<rparr>,
                 notify cfg (OnCommand i (ew_episode wr) cmd auth md) (snd s)),
                Some (i, md)))"

fun handle_message ::
  "('g, 'c, 'r, 'e, 'w) config \<Rightarrow> 'c episode_message \<Rightarrow> metadata \<Rightarrow> ('g, 'r) engine \<times> 'w \<Rightarrow>
     ((('g, 'r) engine \<times> 'w) \<times> (episode_id \<times> metadata) option) option" where
  "handle_message cfg (NewEpisode i participants) md (e, w) =
     (if episodes e i \<noteq> None then Some ((e, w), None)
      else let wr = wrapper_initialize cfg participants md;
               w' = notify cfg (OnInitialize i (ew_episode wr)) w
           in Some ((e\<lparr>episodes := (episodes e)(i \<mapsto> wr),
                       creation_times := (creation_times e)(i \<mapsto> accepting_daa md)\<rparr>, w'),
                    Some (i, md)))"
| "handle_message cfg (SignedCommand i cmd pk sg) md (e, w) =
     (case episodes e i of
        None \<Rightarrow> Some ((e, w), None)
      | Some wr \<Rightarrow> finish_command cfg i cmd (Some pk) md (e, w) (execute_signed cfg wr cmd pk sg md))"
| "handle_message cfg (UnsignedCommand i cmd) md (e, w) =
     (case episodes e i of
        None \<Rightarrow> Some ((e, w), None)
      | Some wr \<Rightarrow> finish_command cfg i cmd None md (e, w) (execute_unsigned cfg wr cmd md))"
| "handle_message cfg (Revert i) md (e, w) =
     (case episodes e i of
        None \<Rightarrow> Some ((e, w), None)
      | Some wr \<Rightarrow>
          (case wrapper_rollback cfg wr of
             None \<Rightarrow> None
           | Some (wr', res) \<Rightarrow>
               let w' = notify cfg (OnRollback i (ew_episode wr')) w;
                   e' = e\<lparr>episodes := (episodes e)(i \<mapsto> wr')\<rparr>
               in if res = Inl DeleteEpisode
                  then Some ((e'\<lparr>episodes := (episodes e')(i := None),
                                 creation_times := (creation_times e')(i := None)\<rparr>, w'), None)
                  else Some ((e', w'), None)))"

fun process_txs ::
  "('g, 'c, 'r, 'e, 'w) config \<Rightarrow> hash \<Rightarrow> u64 \<Rightarrow> u64 \<Rightarrow>
   (hash \<times> bytes \<times> tx_output_info list option) list \<Rightarrow> ('g, 'r) engine \<times> 'w \<Rightarrow>
   ((('g, 'r) engine \<times> 'w) \<times> (episode_id \<times> metadata) list) option" where
  "process_txs cfg h daa time [] s = Some (s, [])"
| "process_txs cfg h daa time ((tid, payload, outs) # txs) s =
     (case decode_msg cfg payload of
        None \<Rightarrow> process_txs cfg h daa time txs s
      | Some (Revert _) \<Rightarrow> process_txs cfg h daa time txs s
      | Some action \<Rightarrow>
          (case handle_message cfg action
                  \<lparr>accepting_hash = h, accepting_daa = daa, accepting_time = time,
                   tx_id = tid, tx_outputs = outs\<rparr> s of
             None \<Rightarrow> None
           | Some (s', r) \<Rightarrow>
               map_option (\<lambda>(s'', rv). (s'', (case r of None \<Rightarrow> rv | Some x \<Rightarrow> x # rv)))
                 (process_txs cfg h daa time txs s')))"

text \<open>The assertion that a revert yields no new revert entry is the \<^const>\<open>None\<close> branch.\<close>

fun revert_all ::
  "('g, 'c, 'r, 'e, 'w) config \<Rightarrow> hash \<Rightarrow> (episode_id \<times> metadata) list \<Rightarrow> ('g, 'r) engine \<times> 'w \<Rightarrow>
     (('g, 'r) engine \<times> 'w) option" where
  "revert_all cfg h [] s = Some s"
| "revert_all cfg h ((i, md) # rs) s =
     (case handle_message cfg (Revert i) (md\<lparr>accepting_hash := h\<rparr>) s of
        Some (s', None) \<Rightarrow> revert_all cfg h rs s'
      | _ \<Rightarrow> None)"

fun engine_step ::
  "('g, 'c, 'r, 'e, 'w) config \<Rightarrow> engine_msg \<Rightarrow> ('g, 'r) engine \<times> 'w \<Rightarrow> (('g, 'r) engine \<times> 'w) option" where
  "engine_step cfg (BlkAccepted h daa time txs) (e, w) =
     (case process_txs cfg h daa time txs (filter_old_episodes e daa, w) of
        None \<Rightarrow> None
      | Some ((e', w'), rv) \<Rightarrow> Some (e'\<lparr>revert_map := (revert_map e')(h \<mapsto> rv)\<rparr>, w'))"
| "engine_step cfg (BlkReverted h) (e, w) =
     (case revert_map e h of
        None \<Rightarrow> Some (e, w)
      | Some rv \<Rightarrow> revert_all cfg h (rev rv) (e\<lparr>revert_map := (revert_map e)(h := None)\<rparr>, w))"
| "engine_step cfg Exit s = Some s"

text \<open>The receive loop: it ends at \<^const>\<open>Exit\<close> or when the channel closes (end of the list).\<close>

fun start ::
  "('g, 'c, 'r, 'e, 'w) config \<Rightarrow> engine_msg list \<Rightarrow> ('g, 'r) engine \<times> 'w \<Rightarrow> (('g, 'r) engine \<times> 'w) option" where
  "start cfg [] s = Some s"
| "start cfg (m # ms) s =
     (if m = Exit then Some s
      else case engine_step cfg m s of None \<Rightarrow> None | Some s' \<Rightarrow> start cfg ms s')"

end
