(* ===== verification/Reorg.thy ===== *)
theory Reorg
  imports Engine
begin

text \<open>
  What the engine promises about DAG reorgs when its episode type keeps the contract of
  \<open>episode_contract\<close>: no panic, every rollback object fits the state it is applied to, and
  reverting accepted blocks, newest first, takes every episode back to where it was.
\<close>

section \<open>Related engine states\<close>

definition wr_sim :: "('g \<Rightarrow> 'g \<Rightarrow> bool) \<Rightarrow> ('g, 'r) wrapper \<Rightarrow> ('g, 'r) wrapper \<Rightarrow> bool" where
  "wr_sim sim w1 w2 \<longleftrightarrow> sim (ew_episode w1) (ew_episode w2) \<and> rollback_stack w1 = rollback_stack w2"

definition eng_sim :: "('g \<Rightarrow> 'g \<Rightarrow> bool) \<Rightarrow> ('g, 'r) engine \<Rightarrow> ('g, 'r) engine \<Rightarrow> bool" where
  "eng_sim sim e1 e2 \<longleftrightarrow>
     (\<forall>i. rel_option (wr_sim sim) (episodes e1 i) (episodes e2 i)) \<and>
     creation_times e1 = creation_times e2 \<and> next_filtering e1 = next_filtering e2"

text \<open>The rollback stack of an episode can be unwound down to a state the episode accepts.\<close>

inductive unwinds ::
  "('g, 'c, 'r, 'e) episode_impl \<Rightarrow> ('g \<Rightarrow> bool) \<Rightarrow> ('g \<Rightarrow> 'g \<Rightarrow> bool) \<Rightarrow> 'g \<Rightarrow> 'r list \<Rightarrow> bool"
  for ep ginv sim where
  base: "ginv g \<Longrightarrow> unwinds ep ginv sim g []"
| push: "unwinds ep ginv sim g rs \<Longrightarrow> ep_execute ep g c a md = Some (g', Inr r) \<Longrightarrow> sim g1 g' \<Longrightarrow>
    unwinds ep ginv sim g1 (rs @ [r])"

inductive_cases unwinds_snocE: "unwinds ep ginv sim g (rs @ [r])"

definition eng_ok ::
  "('g, 'c, 'r, 'e) episode_impl \<Rightarrow> ('g \<Rightarrow> bool) \<Rightarrow> ('g \<Rightarrow> 'g \<Rightarrow> bool) \<Rightarrow> ('g, 'r) engine \<Rightarrow> bool" where
  "eng_ok ep ginv sim e \<longleftrightarrow>
     dom (episodes e) = dom (creation_times e) \<and>
     (\<forall>i wr. episodes e i = Some wr \<longrightarrow> unwinds ep ginv sim (ew_episode wr) (rollback_stack wr))"

fun msg_ok :: "(pubkey list \<Rightarrow> bool) \<Rightarrow> 'c episode_message \<Rightarrow> bool" where
  "msg_ok ok_init (NewEpisode i ps) = ok_init ps"
| "msg_ok ok_init m = True"

fun event_ok :: "('g, 'c, 'r, 'e, 'w) config \<Rightarrow> (pubkey list \<Rightarrow> bool) \<Rightarrow> engine_msg \<Rightarrow> bool" where
  "event_ok cfg ok_init (BlkAccepted h daa t txs) =
     (\<forall>(tid, payload, outs) \<in> set txs. pred_option (msg_ok ok_init) (decode_msg cfg payload))"
| "event_ok cfg ok_init m = True"

section \<open>Facts that need no contract\<close>

lemma handle_revert_None:
  "handle_message cfg (Revert i) md s = Some (s', r) \<Longrightarrow> r = None"
  by (cases s) (auto simp: Let_def split: option.splits if_splits prod.splits)

lemma finish_frame:
  "finish_command cfg i cmd a md s res = Some ((e', w'), r) \<Longrightarrow>
     revert_map e' = revert_map (fst s) \<and> next_filtering e' = next_filtering (fst s)"
  by (cases res) (auto simp: finish_command_def split: sum.splits)

lemma handle_frame:
  assumes "handle_message cfg m md (e, w) = Some ((e', w'), r)"
  shows "revert_map e' = revert_map e \<and> next_filtering e' = next_filtering e"
proof (cases m)
  case (NewEpisode i ps)
  with assms show ?thesis by (auto simp: Let_def split: if_splits)
next
  case (SignedCommand i c pk sg)
  with assms show ?thesis by (auto split: option.splits dest: finish_frame)
next
  case (UnsignedCommand i c)
  with assms show ?thesis by (auto split: option.splits dest: finish_frame)
next
  case (Revert i)
  with assms show ?thesis
    by (auto simp: Let_def split: option.splits if_splits)
qed

lemma process_txs_Cons_Some:
  fixes s :: "('g, 'r) engine \<times> 'w"
  assumes "process_txs cfg h daa t ((tid, payload, outs) # txs) s = Some (s', rv)"
  obtains (skip) "process_txs cfg h daa t txs s = Some (s', rv)"
      "\<And>x. process_txs cfg h daa t ((tid, payload, outs) # txs) (x :: ('g, 'r) engine \<times> 'w) =
         process_txs cfg h daa t txs x"
  | (act) m s1 r rv' where "decode_msg cfg payload = Some m" "\<And>i. m \<noteq> Revert i"
      "handle_message cfg m \<lparr>accepting_hash = h, accepting_daa = daa, accepting_time = t,
         tx_id = tid, tx_outputs = outs\<rparr> s = Some (s1, r)"
      "process_txs cfg h daa t txs s1 = Some (s', rv')"
      "rv = (case r of None \<Rightarrow> rv' | Some x \<Rightarrow> x # rv')"
proof (cases "decode_msg cfg payload")
  case None
  with assms show ?thesis by (intro skip) simp_all
next
  case (Some m)
  show ?thesis
  proof (cases "\<exists>i. m = Revert i")
    case True
    with assms Some show ?thesis by (intro skip) auto
  next
    case False
    with assms Some obtain s1 r rv' where "handle_message cfg m \<lparr>accepting_hash = h, accepting_daa = daa,
        accepting_time = t, tx_id = tid, tx_outputs = outs\<rparr> s = Some (s1, r)"
      "process_txs cfg h daa t txs s1 = Some (s', rv')"
      "rv = (case r of None \<Rightarrow> rv' | Some x \<Rightarrow> x # rv')"
      by (cases m) (auto split: option.splits simp del: handle_message.simps)
    with False Some show ?thesis by (intro act) auto
  qed
qed

lemma process_txs_frame:
  assumes "process_txs cfg h daa t txs (e, w) = Some ((e', w'), rv)"
  shows "revert_map e' = revert_map e \<and> next_filtering e' = next_filtering e"
  using assms
proof (induction txs arbitrary: e w rv)
  case Nil
  then show ?case by simp
next
  case (Cons x txs)
  obtain tid payload outs where x: "x = (tid, payload, outs)" by (cases x)
  from Cons.prems [unfolded x] show ?case
  proof (cases rule: process_txs_Cons_Some)
    case skip
    from Cons.IH [OF skip(1)] show ?thesis .
  next
    case (act m s1 r rv')
    obtain e1 w1 where s1: "s1 = (e1, w1)" by (cases s1)
    show ?thesis
      using Cons.IH [OF act(4) [unfolded s1]] handle_frame [OF act(3) [unfolded s1]] by simp
  qed
qed

lemma revert_all_frame:
  "revert_all cfg h rs (e, w) = Some (e', w') \<Longrightarrow>
     revert_map e' = revert_map e \<and> next_filtering e' = next_filtering e"
proof (induction rs arbitrary: e w)
  case Nil
  then show ?case by simp
next
  case (Cons x rs)
  obtain i md where x: "x = (i, md)" by (cases x)
  from Cons.prems obtain e2 w2 where "handle_message cfg (Revert i) (md\<lparr>accepting_hash := h\<rparr>) (e, w) = Some ((e2, w2), None)"
    "revert_all cfg h rs (e2, w2) = Some (e', w')"
    by (auto simp: x split: option.splits prod.splits simp del: handle_message.simps)
  with Cons.IH handle_frame show ?case by metis
qed

lemma revert_all_append:
  "revert_all cfg h (xs @ ys) s =
     (case revert_all cfg h xs s of None \<Rightarrow> None | Some s' \<Rightarrow> revert_all cfg h ys s')"
proof (induction xs arbitrary: s)
  case Nil
  then show ?case by simp
next
  case (Cons x xs)
  then show ?case
    by (cases x) (auto split: option.splits prod.splits simp del: handle_message.simps)
qed

lemma start_append:
  "Exit \<notin> set ms \<Longrightarrow> start cfg (ms @ ms') s =
     (case start cfg ms s of None \<Rightarrow> None | Some s' \<Rightarrow> start cfg ms' s')"
  by (induction ms arbitrary: s) (auto split: option.splits)

lemma filter_old_noop: "daa \<le> next_filtering e + SAMPLE_REMOVAL_TIME \<Longrightarrow> filter_old_episodes e daa = e"
  by (auto simp: filter_old_episodes_def not_less [symmetric])

lemma filter_old_revert_map [simp]: "revert_map (filter_old_episodes e daa) = revert_map e"
  by (simp add: filter_old_episodes_def)

abbreviation accepted :: "hash \<times> u64 \<times> u64 \<times> (hash \<times> bytes \<times> tx_output_info list option) list \<Rightarrow> engine_msg" where
  "accepted \<equiv> \<lambda>(h, daa, t, txs). BlkAccepted h daa t txs"

lemma start_accept_frame:
  "start cfg (map accepted bs) (e, w) = Some (e', w') \<Longrightarrow> h \<notin> set (map fst bs) \<Longrightarrow>
     revert_map e' h = revert_map e h"
proof (induction bs arbitrary: e w)
  case Nil
  then show ?case by simp
next
  case (Cons c cs)
  obtain h' d' t' txs' where c: "c = (h', d', t', txs')" by (cases c)
  from Cons.prems(1) obtain eb wb where "engine_step cfg (BlkAccepted h' d' t' txs') (e, w) = Some (eb, wb)"
    "start cfg (map accepted cs) (eb, wb) = Some (e', w')"
    by (auto simp: c split: option.splits simp del: engine_step.simps)
  moreover from this(1) have "revert_map eb h = revert_map e h"
    using Cons.prems(2) c by (auto split: option.splits dest!: process_txs_frame)
  ultimately show ?case using Cons.IH Cons.prems(2) by auto
qed

lemma start_accept_window:
  "start cfg (map accepted bs) (e, w) = Some (e', w') \<Longrightarrow>
     \<forall>b \<in> set bs. fst (snd b) \<le> next_filtering e + SAMPLE_REMOVAL_TIME \<Longrightarrow> next_filtering e' = next_filtering e"
proof (induction bs arbitrary: e w)
  case (Cons c cs)
  obtain h d t txs where c: "c = (h, d, t, txs)" by (cases c)
  from Cons.prems(1) obtain eb wb where s: "engine_step cfg (BlkAccepted h d t txs) (e, w) = Some (eb, wb)"
    "start cfg (map accepted cs) (eb, wb) = Some (e', w')"
    by (auto simp: c split: option.splits simp del: engine_step.simps)
  have "filter_old_episodes e d = e" using Cons.prems(2) by (simp add: c filter_old_noop)
  with s(1) have "next_filtering eb = next_filtering e"
    by (auto split: option.splits dest!: process_txs_frame)
  with Cons.IH [OF s(2)] Cons.prems(2) show ?case by simp
qed simp

lemma eng_ok_filter: "eng_ok ep ginv sim e \<Longrightarrow> eng_ok ep ginv sim (filter_old_episodes e daa)"
  unfolding eng_ok_def filter_old_episodes_def by (auto simp: dom_def set_eq_iff)

lemma eng_ok_revert_map [simp]:
  "eng_ok ep ginv sim (e\<lparr>revert_map := m\<rparr>) = eng_ok ep ginv sim e"
  by (simp add: eng_ok_def)

lemma eng_sim_revert_map [simp]:
  "eng_sim sim (e1\<lparr>revert_map := m\<rparr>) e2 = eng_sim sim e1 e2"
  "eng_sim sim e1 (e2\<lparr>revert_map := m\<rparr>) = eng_sim sim e1 e2"
  by (simp_all add: eng_sim_def)

lemma eng_ok_new: "eng_ok ep ginv sim new_engine"
  by (simp add: eng_ok_def new_engine_def)

lemma eng_sim_eq: "eng_sim (=) e1 e2 \<longleftrightarrow> e1 = e2\<lparr>revert_map := revert_map e1\<rparr>"
proof -
  have "rel_option (wr_sim (=)) = ((=) :: ('a, 'b) wrapper option \<Rightarrow> _)"
  proof -
    have "wr_sim (=) = ((=) :: ('a, 'b) wrapper \<Rightarrow> _)"
      by (auto simp: wr_sim_def fun_eq_iff)
    then show ?thesis by (simp add: option.rel_eq)
  qed
  then show ?thesis by (cases e1, cases e2) (auto simp: eng_sim_def fun_eq_iff)
qed


text \<open>The world of the handlers has no influence on the engine.\<close>

definition engine_of :: "((('g, 'r) engine \<times> 'w) \<times> 'x) option \<Rightarrow> (('g, 'r) engine \<times> 'x) option" where
  "engine_of res = map_option (\<lambda>(s, x). (fst s, x)) res"

lemma engine_of_simps [simp]:
  "engine_of None = None" "engine_of (Some ((e, w), x)) = Some (e, x)"
  by (simp_all add: engine_of_def)

lemma engine_of_eq_Some: "engine_of res = Some (e, x) \<longleftrightarrow> (\<exists>w. res = Some ((e, w), x))"
  by (auto simp: engine_of_def)

lemma handle_message_world:
  "engine_of (handle_message cfg m md (e, w)) = engine_of (handle_message cfg m md (e, w'))"
proof (cases m)
  case (NewEpisode i ps)
  then show ?thesis by (simp add: Let_def)
next
  case (SignedCommand i c pk sg)
  then show ?thesis by (simp add: finish_command_def split: option.splits sum.splits)
next
  case (UnsignedCommand i c)
  then show ?thesis by (simp add: finish_command_def split: option.splits sum.splits)
next
  case (Revert i)
  then show ?thesis by (simp add: Let_def split: option.splits)
qed

lemma process_txs_world:
  "process_txs cfg h daa t txs (e, w) = Some ((e', w1), rv) \<Longrightarrow>
     \<exists>w2. process_txs cfg h daa t txs (e, w') = Some ((e', w2), rv)"
proof (induction txs arbitrary: e w w' rv)
  case Nil
  then show ?case by simp
next
  case (Cons x txs)
  obtain tid payload outs where x: "x = (tid, payload, outs)" by (cases x)
  from Cons.prems [unfolded x] show ?case
  proof (cases rule: process_txs_Cons_Some)
    case skip
    from Cons.IH [OF skip(1), of w'] skip(2) show ?thesis by (simp only: x)
  next
    case (act m s1 r rv')
    obtain ea wa where sa: "s1 = (ea, wa)" by (cases s1)
    let ?md = "\<lparr>accepting_hash = h, accepting_daa = daa, accepting_time = t, tx_id = tid, tx_outputs = outs\<rparr>"
    have "engine_of (handle_message cfg m ?md (e, w')) = Some (ea, r)"
      using handle_message_world [of cfg m ?md e w' w] act(3) sa by simp
    then obtain wb where "handle_message cfg m ?md (e, w') = Some ((ea, wb), r)"
      by (auto simp: engine_of_eq_Some)
    moreover obtain wc where "process_txs cfg h daa t txs (ea, wb) = Some ((e', wc), rv')"
      using Cons.IH act(4) sa by blast
    ultimately show ?thesis using act(1,2,5)
      by (cases m) (auto simp: x simp del: handle_message.simps)
  qed
qed

lemma revert_all_world:
  "revert_all cfg h rs (e, w) = Some (e', w1) \<Longrightarrow> \<exists>w2. revert_all cfg h rs (e, w') = Some (e', w2)"
proof (induction rs arbitrary: e w w')
  case Nil
  then show ?case by simp
next
  case (Cons x rs)
  obtain i md where x: "x = (i, md)" by (cases x)
  from Cons.prems obtain ea wa where h: "handle_message cfg (Revert i) (md\<lparr>accepting_hash := h\<rparr>) (e, w) = Some ((ea, wa), None)"
    "revert_all cfg h rs (ea, wa) = Some (e', w1)"
    by (auto simp: x split: option.splits prod.splits simp del: handle_message.simps)
  then obtain wb where "handle_message cfg (Revert i) (md\<lparr>accepting_hash := h\<rparr>) (e, w') = Some ((ea, wb), None)"
    using handle_message_world [of cfg "Revert i" "md\<lparr>accepting_hash := h\<rparr>" e w' w]
    by (auto simp: engine_of_eq_Some simp del: handle_message.simps)
  with Cons.IH [OF h(2), of wb] show ?case by (auto simp: x simp del: handle_message.simps)
qed

lemma engine_step_world:
  "engine_step cfg m (e, w) = Some (e', w1) \<Longrightarrow> \<exists>w2. engine_step cfg m (e, w') = Some (e', w2)"
proof (cases m)
  case (BlkAccepted h daa t txs)
  assume "engine_step cfg m (e, w) = Some (e', w1)"
  then obtain ea wa rv where p: "process_txs cfg h daa t txs (filter_old_episodes e daa, w) = Some ((ea, wa), rv)"
    and e': "e' = ea\<lparr>revert_map := (revert_map ea)(h \<mapsto> rv)\<rparr>"
    by (auto simp: BlkAccepted split: option.splits)
  from process_txs_world [OF p, of w'] e' show ?thesis by (auto simp: BlkAccepted)
next
  case (BlkReverted h)
  assume "engine_step cfg m (e, w) = Some (e', w1)"
  with BlkReverted show ?thesis by (auto split: option.splits intro: revert_all_world)
qed simp

lemma start_world:
  "start cfg ms (e, w) = Some (e', w1) \<Longrightarrow> \<exists>w2. start cfg ms (e, w') = Some (e', w2)"
proof (induction ms arbitrary: e w w')
  case Nil
  then show ?case by simp
next
  case (Cons m ms)
  show ?case
  proof (cases "m = Exit")
    case True
    with Cons.prems show ?thesis by simp
  next
    case False
    with Cons.prems obtain ea wa where s: "engine_step cfg m (e, w) = Some (ea, wa)"
      "start cfg ms (ea, wa) = Some (e', w1)"
      by (auto split: option.splits simp del: engine_step.simps)
    obtain wb where "engine_step cfg m (e, w') = Some (ea, wb)"
      using engine_step_world [OF s(1)] by blast
    with Cons.IH [OF s(2), of wb] False show ?thesis by (auto simp del: engine_step.simps)
  qed
qed

section \<open>What the contract gives\<close>

context episode_contract
begin

lemma unwinds_inv: "unwinds ep ginv sim g rs \<Longrightarrow> ginv g"
  by (induction rule: unwinds.induct) (auto dest: exec_inv sim_inv)

lemma unwinds_sim: "unwinds ep ginv sim g rs \<Longrightarrow> sim g1 g \<Longrightarrow> unwinds ep ginv sim g1 rs"
  by (erule unwinds.cases) (auto intro: unwinds.intros dest: sim_inv sim_trans)

lemma unwinds_exec:
  "unwinds ep ginv sim g rs \<Longrightarrow> ep_execute ep g c a md = Some (g', Inr r) \<Longrightarrow>
     unwinds ep ginv sim g' (rs @ [r])"
  by (rule unwinds.push) (auto dest: unwinds_inv exec_inv intro: sim_refl)

text \<open>Popping never fails and leaves a state that can be unwound further.\<close>

lemma unwinds_rollback:
  assumes "unwinds ep ginv sim g1 (rs @ [r])"
  shows "\<exists>g2. ep_rollback ep g1 r = Some (g2, True) \<and> unwinds ep ginv sim g2 rs"
proof -
  obtain g c a md g' where u: "unwinds ep ginv sim g rs"
      "ep_execute ep g c a md = Some (g', Inr r)" "sim g1 g'"
    using assms by (rule unwinds_snocE) auto
  obtain g2 where "ep_rollback ep g1 r = Some (g2, True)" "sim g2 g"
    using rollback_sim [OF unwinds_inv [OF u(1)] u(2,3)] by blast
  with u(1) show ?thesis by (auto dest: unwinds_sim)
qed

lemma execute_signed_cases:
  assumes "cfg_ep cfg = ep" and "unwinds ep ginv sim (ew_episode wr) (rollback_stack wr)"
  obtains (err) x where "execute_signed cfg wr c pk sg md = Some (wr, Inl x)"
  | (ok) g r where "execute_signed cfg wr c pk sg md =
        Some (\<lparr>ew_episode = g, rollback_stack = rollback_stack wr @ [r]\<rparr>, Inr ())"
      "ep_execute ep (ew_episode wr) c (Some pk) md = Some (g, Inr r)"
proof -
  note i = unwinds_inv [OF assms(2)]
  obtain g res where ex: "ep_execute ep (ew_episode wr) c (Some pk) md = Some (g, res)"
    using exec_total [OF i] by fast
  show ?thesis
  proof (cases "\<exists>x. execute_signed cfg wr c pk sg md = Some (wr, Inl x)")
    case True
    then show ?thesis using err by blast
  next
    case False
    then obtain r where r: "res = Inr r"
      using assms(1) ex exec_err [OF i] by (cases res) (auto simp: execute_signed_def split: if_splits)
    with False assms(1) ex have "execute_signed cfg wr c pk sg md =
        Some (\<lparr>ew_episode = g, rollback_stack = rollback_stack wr @ [r]\<rparr>, Inr ())"
      by (auto simp: execute_signed_def split: if_splits)
    then show ?thesis using ok ex r by blast
  qed
qed

lemma execute_unsigned_cases:
  assumes "cfg_ep cfg = ep" and "unwinds ep ginv sim (ew_episode wr) (rollback_stack wr)"
  obtains (err) x where "execute_unsigned cfg wr c md = Some (wr, Inl x)"
  | (ok) g r where "execute_unsigned cfg wr c md =
        Some (\<lparr>ew_episode = g, rollback_stack = rollback_stack wr @ [r]\<rparr>, Inr ())"
      "ep_execute ep (ew_episode wr) c None md = Some (g, Inr r)"
proof -
  note i = unwinds_inv [OF assms(2)]
  obtain g res where ex: "ep_execute ep (ew_episode wr) c None md = Some (g, res)"
    using exec_total [OF i] by fast
  show ?thesis
  proof (cases "\<exists>x. execute_unsigned cfg wr c md = Some (wr, Inl x)")
    case True
    then show ?thesis using err by blast
  next
    case False
    then obtain r where r: "res = Inr r"
      using assms(1) ex exec_err [OF i] by (cases res) (auto simp: execute_unsigned_def)
    with False assms(1) ex have "execute_unsigned cfg wr c md =
        Some (\<lparr>ew_episode = g, rollback_stack = rollback_stack wr @ [r]\<rparr>, Inr ())"
      by (auto simp: execute_unsigned_def)
    then show ?thesis using ok ex r by blast
  qed
qed

lemma action_cases:
  assumes cfg: "cfg_ep cfg = ep" and ok: "eng_ok ep ginv sim e" and m: "msg_ok ok_init m"
    and nr: "\<And>i. m \<noteq> Revert i"
  obtains (skip) "handle_message cfg m md (e, w) = Some ((e, w), None)"
  | (create) i ps w' where "episodes e i = None" "ok_init ps"
      "handle_message cfg m md (e, w) = Some ((e\<lparr>
         episodes := (episodes e)(i \<mapsto> \<lparr>ew_episode = ep_initialize ep ps md, rollback_stack = []\<rparr>),
         creation_times := (creation_times e)(i \<mapsto> accepting_daa md)\<rparr>, w'), Some (i, md))"
  | (exec) i wr g c a r w' where "episodes e i = Some wr"
      "ep_execute ep (ew_episode wr) c a md = Some (g, Inr r)"
      "handle_message cfg m md (e, w) = Some ((e\<lparr>episodes := (episodes e)(i \<mapsto>
         \<lparr>ew_episode = g, rollback_stack = rollback_stack wr @ [r]\<rparr>)\<rparr>, w'), Some (i, md))"
proof (cases m)
  case (NewEpisode i ps)
  show ?thesis
  proof (cases "episodes e i")
    case None
    with NewEpisode m cfg show ?thesis
      by (intro create [of i ps]) (auto simp: Let_def wrapper_initialize_def)
  next
    case (Some wr)
    with NewEpisode show ?thesis by (intro skip) simp
  qed
next
  case (SignedCommand i c pk sg)
  show ?thesis
  proof (cases "episodes e i")
    case None
    with SignedCommand show ?thesis by (intro skip) simp
  next
    case (Some wr)
    with ok have "unwinds ep ginv sim (ew_episode wr) (rollback_stack wr)" by (simp add: eng_ok_def)
    with cfg show ?thesis
    proof (cases rule: execute_signed_cases [where c = c and pk = pk and sg = sg and md = md, consumes 2])
      case (err x)
      with SignedCommand Some show ?thesis
        by (intro skip) (simp add: finish_command_def fun_upd_idem)
    next
      case (ok g r)
      with SignedCommand Some show ?thesis
        by (intro exec [of i wr c "Some pk" g r]) (auto simp: finish_command_def)
    qed
  qed
next
  case (UnsignedCommand i c)
  show ?thesis
  proof (cases "episodes e i")
    case None
    with UnsignedCommand show ?thesis by (intro skip) simp
  next
    case (Some wr)
    with ok have "unwinds ep ginv sim (ew_episode wr) (rollback_stack wr)" by (simp add: eng_ok_def)
    with cfg show ?thesis
    proof (cases rule: execute_unsigned_cases [where c = c and md = md, consumes 2])
      case (err x)
      with UnsignedCommand Some show ?thesis
        by (intro skip) (simp add: finish_command_def fun_upd_idem)
    next
      case (ok g r)
      with UnsignedCommand Some show ?thesis
        by (intro exec [of i wr c None g r]) (auto simp: finish_command_def)
    qed
  qed
next
  case (Revert i)
  with nr show ?thesis by blast
qed

lemma revert_unknown: "episodes e i = None \<Longrightarrow> handle_message cfg (Revert i) md (e, w) = Some ((e, w), None)"
  by simp

lemma revert_empty:
  "episodes e i = Some wr \<Longrightarrow> rollback_stack wr = [] \<Longrightarrow>
     \<exists>w'. handle_message cfg (Revert i) md (e, w) = Some ((e\<lparr>episodes := (episodes e)(i := None),
        creation_times := (creation_times e)(i := None)\<rparr>, w'), None)"
  by (simp add: wrapper_rollback_def Let_def)

lemma revert_pop:
  "cfg_ep cfg = ep \<Longrightarrow> episodes e i = Some wr \<Longrightarrow> rollback_stack wr = rs @ [r] \<Longrightarrow>
     ep_rollback ep (ew_episode wr) r = Some (g, True) \<Longrightarrow>
     \<exists>w'. handle_message cfg (Revert i) md (e, w) = Some ((e\<lparr>episodes := (episodes e)(i \<mapsto>
        \<lparr>ew_episode = g, rollback_stack = rs\<rparr>)\<rparr>, w'), None)"
  by (simp add: wrapper_rollback_def Let_def)

lemma eng_ok_action:
  assumes cfg: "cfg_ep cfg = ep" and ok: "eng_ok ep ginv sim e" and m: "msg_ok ok_init m"
    and nr: "\<And>i. m \<noteq> Revert i"
  shows "\<exists>e' w' r. handle_message cfg m md (e, w) = Some ((e', w'), r) \<and> eng_ok ep ginv sim e'"
  using assms
proof (cases rule: action_cases [where md = md and w = w, consumes 4])
  case skip
  with ok show ?thesis by blast
next
  case (create i ps w')
  with ok init_inv show ?thesis
    by (auto simp: eng_ok_def intro: unwinds.base simp del: handle_message.simps)
next
  case (exec i wr g c a r w')
  with ok show ?thesis
    by (auto simp: eng_ok_def intro: unwinds_exec simp del: handle_message.simps)
qed

lemma eng_ok_revert:
  assumes cfg: "cfg_ep cfg = ep" and ok: "eng_ok ep ginv sim e"
  shows "\<exists>e' w'. handle_message cfg (Revert i) md (e, w) = Some ((e', w'), None) \<and> eng_ok ep ginv sim e'"
proof (cases "episodes e i")
  case None
  with ok show ?thesis by simp
next
  case (Some wr)
  then have u: "unwinds ep ginv sim (ew_episode wr) (rollback_stack wr)"
    using ok by (simp add: eng_ok_def)
  show ?thesis
  proof (cases "rollback_stack wr" rule: rev_cases)
    case Nil
    from revert_empty [OF Some Nil, of cfg md w] ok show ?thesis
      by (auto simp: eng_ok_def simp del: handle_message.simps)
  next
    case (snoc rs r)
    obtain g where g: "ep_rollback ep (ew_episode wr) r = Some (g, True)" "unwinds ep ginv sim g rs"
      using unwinds_rollback u snoc by metis
    have "i \<in> dom (creation_times e)" using ok Some by (metis domI eng_ok_def)
    with revert_pop [OF cfg Some snoc g(1), of md w] ok g(2) show ?thesis
      by (auto simp: eng_ok_def simp del: handle_message.simps)
  qed
qed

text \<open>The undo of one message, from any state related to the one it led to.\<close>

lemma undo_action:
  assumes cfg: "cfg_ep cfg = ep" and ok: "eng_ok ep ginv sim e" and m: "msg_ok ok_init m"
    and nr: "\<And>i. m \<noteq> Revert i"
    and run: "handle_message cfg m md (e, w) = Some ((e', w'), r)"
    and rel: "eng_sim sim e1 e'"
  shows "case r of
      None \<Rightarrow> e' = e
    | Some (i, md') \<Rightarrow> \<exists>e2 w2. handle_message cfg (Revert i) md2 (e1, w1) = Some ((e2, w2), None) \<and>
        eng_sim sim e2 e"
  using cfg ok m nr
proof (cases rule: action_cases [where md = md and w = w, consumes 4])
  case skip
  with run show ?thesis by simp
next
  case (create i ps w'')
  with run have r: "r = Some (i, md)" and e': "e' = e\<lparr>
      episodes := (episodes e)(i \<mapsto> \<lparr>ew_episode = ep_initialize ep ps md, rollback_stack = []\<rparr>),
      creation_times := (creation_times e)(i \<mapsto> accepting_daa md)\<rparr>" by simp_all
  have "rel_option (wr_sim sim) (episodes e1 i) (episodes e' i)"
    using rel by (simp add: eng_sim_def)
  then obtain wr1 where wr1: "episodes e1 i = Some wr1" "rollback_stack wr1 = []"
    by (auto simp: e' option_rel_Some2 wr_sim_def)
  have none: "creation_times e i = None"
    using ok create(1) unfolding eng_ok_def by (metis domIff)
  from revert_empty [OF wr1, of cfg md2 w1] obtain w2 where
    "handle_message cfg (Revert i) md2 (e1, w1) = Some ((e1\<lparr>episodes := (episodes e1)(i := None),
        creation_times := (creation_times e1)(i := None)\<rparr>, w2), None)" by blast
  moreover have "eng_sim sim (e1\<lparr>episodes := (episodes e1)(i := None),
        creation_times := (creation_times e1)(i := None)\<rparr>) e"
    using rel create(1) none by (auto simp: e' eng_sim_def fun_upd_idem_iff fun_eq_iff split: if_splits)
  ultimately show ?thesis using r by auto
next
  case (exec i wr g c a r0 w'')
  with run have r: "r = Some (i, md)" and e': "e' = e\<lparr>episodes := (episodes e)(i \<mapsto>
      \<lparr>ew_episode = g, rollback_stack = rollback_stack wr @ [r0]\<rparr>)\<rparr>" by simp_all
  have "rel_option (wr_sim sim) (episodes e1 i) (episodes e' i)"
    using rel by (simp add: eng_sim_def)
  then obtain wr1 where wr1: "episodes e1 i = Some wr1"
      "rollback_stack wr1 = rollback_stack wr @ [r0]" and s1: "sim (ew_episode wr1) g"
    by (auto simp: e' option_rel_Some2 wr_sim_def)
  have "ginv (ew_episode wr)" using ok exec(1) by (auto simp: eng_ok_def dest: unwinds_inv)
  then obtain g2 where g2: "ep_rollback ep (ew_episode wr1) r0 = Some (g2, True)" "sim g2 (ew_episode wr)"
    using rollback_sim exec(2) s1 by blast
  from revert_pop [OF cfg wr1 g2(1), of md2 w1] obtain w2 where
    "handle_message cfg (Revert i) md2 (e1, w1) = Some ((e1\<lparr>episodes := (episodes e1)(i \<mapsto>
        \<lparr>ew_episode = g2, rollback_stack = rollback_stack wr\<rparr>)\<rparr>, w2), None)" by blast
  moreover have "eng_sim sim (e1\<lparr>episodes := (episodes e1)(i \<mapsto>
        \<lparr>ew_episode = g2, rollback_stack = rollback_stack wr\<rparr>)\<rparr>) e"
    using rel exec(1) g2(2) by (auto simp: e' eng_sim_def wr_sim_def split: if_splits)
  ultimately show ?thesis using r by auto
qed

lemma process_txs_ok:
  assumes "cfg_ep cfg = ep" and "eng_ok ep ginv sim e" and "event_ok cfg ok_init (BlkAccepted h daa t txs)"
  shows "\<exists>e' w' rv. process_txs cfg h daa t txs (e, w) = Some ((e', w'), rv) \<and> eng_ok ep ginv sim e'"
  using assms(2,3)
proof (induction txs arbitrary: e w)
  case Nil
  then show ?case by simp
next
  case (Cons x txs)
  obtain tid payload outs where x: "x = (tid, payload, outs)" by (cases x)
  have rest: "event_ok cfg ok_init (BlkAccepted h daa t txs)" using Cons.prems(2) by auto
  note IH = Cons.IH [OF _ rest]
  show ?case
  proof (cases "\<exists>m. decode_msg cfg payload = Some m \<and> (\<forall>i. m \<noteq> Revert i)")
    case False
    then have "process_txs cfg h daa t (x # txs) (e, w) = process_txs cfg h daa t txs (e, w)"
      by (auto simp: x split: option.splits episode_message.splits)
    with IH [OF Cons.prems(1)] show ?thesis by auto
  next
    case True
    then obtain m where m: "decode_msg cfg payload = Some m" "\<And>i. m \<noteq> Revert i" by blast
    have mok: "msg_ok ok_init m" using Cons.prems(2) m(1) by (auto simp: x)
    let ?md = "\<lparr>accepting_hash = h, accepting_daa = daa, accepting_time = t, tx_id = tid, tx_outputs = outs\<rparr>"
    obtain e1 w1 r where h1: "handle_message cfg m ?md (e, w) = Some ((e1, w1), r)" "eng_ok ep ginv sim e1"
      using eng_ok_action [OF assms(1) Cons.prems(1) mok m(2)] by blast
    obtain e2 w2 rv where "process_txs cfg h daa t txs (e1, w1) = Some ((e2, w2), rv)" "eng_ok ep ginv sim e2"
      using IH [OF h1(2)] by blast
    with h1 m show ?thesis
      by (cases m) (auto simp: x simp del: handle_message.simps)
  qed
qed

lemma revert_all_ok:
  assumes "cfg_ep cfg = ep" and "eng_ok ep ginv sim e"
  shows "\<exists>e' w'. revert_all cfg h rs (e, w) = Some (e', w') \<and> eng_ok ep ginv sim e'"
  using assms(2)
proof (induction rs arbitrary: e w)
  case Nil
  then show ?case by simp
next
  case (Cons x rs)
  obtain i md where x: "x = (i, md)" by (cases x)
  obtain e1 w1 where "handle_message cfg (Revert i) (md\<lparr>accepting_hash := h\<rparr>) (e, w) = Some ((e1, w1), None)"
    "eng_ok ep ginv sim e1"
    using eng_ok_revert [OF assms(1) Cons.prems] by blast
  with Cons.IH [of e1 w1] show ?case by (auto simp: x simp del: handle_message.simps)
qed

text \<open>Safety: no sequence of block events makes the engine panic, and the invariant holds throughout.\<close>

lemma engine_step_ok:
  assumes "cfg_ep cfg = ep" and "eng_ok ep ginv sim e" and "event_ok cfg ok_init m"
  shows "\<exists>e' w'. engine_step cfg m (e, w) = Some (e', w') \<and> eng_ok ep ginv sim e'"
proof (cases m)
  case (BlkAccepted h daa t txs)
  from process_txs_ok [OF assms(1) eng_ok_filter [OF assms(2)], of h daa t txs daa w] assms(3)
  show ?thesis by (auto simp: BlkAccepted)
next
  case (BlkReverted h)
  show ?thesis
  proof (cases "revert_map e h")
    case None
    with assms(2) show ?thesis by (simp add: BlkReverted)
  next
    case (Some rv)
    with revert_all_ok [OF assms(1), of "e\<lparr>revert_map := (revert_map e)(h := None)\<rparr>" h "rev rv" w] assms(2)
    show ?thesis by (simp add: BlkReverted)
  qed
next
  case Exit
  with assms(2) show ?thesis by simp
qed

lemma start_ok:
  assumes "cfg_ep cfg = ep" and "eng_ok ep ginv sim e" and "\<forall>m \<in> set ms. event_ok cfg ok_init m"
  shows "\<exists>e' w'. start cfg ms (e, w) = Some (e', w') \<and> eng_ok ep ginv sim e'"
  using assms(2,3)
proof (induction ms arbitrary: e w)
  case Nil
  then show ?case by simp
next
  case (Cons m ms)
  obtain e1 w1 where s1: "engine_step cfg m (e, w) = Some (e1, w1)" "eng_ok ep ginv sim e1"
    using engine_step_ok [OF assms(1) Cons.prems(1), of m w] Cons.prems(2) by auto
  with Cons.IH [of e1 w1] Cons.prems show ?case by (cases "m = Exit") auto
qed

text \<open>The entries a block recorded, reverted newest first, undo the block.\<close>

lemma undo_txs:
  assumes "cfg_ep cfg = ep" and "eng_ok ep ginv sim e" and "event_ok cfg ok_init (BlkAccepted h daa t txs)"
    and "process_txs cfg h daa t txs (e, w) = Some ((e', w'), rv)" and "eng_sim sim e1 e'"
  shows "\<exists>e2 w2. revert_all cfg h (rev rv) (e1, w1) = Some (e2, w2) \<and> eng_sim sim e2 e"
  using assms(2-5)
proof (induction txs arbitrary: e w rv)
  case Nil
  then show ?case by simp
next
  case (Cons x txs)
  obtain tid payload outs where x: "x = (tid, payload, outs)" by (cases x)
  have rest: "event_ok cfg ok_init (BlkAccepted h daa t txs)" using Cons.prems(2) by auto
  from Cons.prems(3) [unfolded x] show ?case
  proof (cases rule: process_txs_Cons_Some)
    case skip
    with Cons.IH [OF Cons.prems(1) rest] Cons.prems(4) show ?thesis by blast
  next
    case (act m s1 r rv')
    have mok: "msg_ok ok_init m" using Cons.prems(2) act(1) by (auto simp: x)
    obtain ea wa where sa: "s1 = (ea, wa)" by (cases s1)
    note hm = act(3) [unfolded sa]
    have "eng_ok ep ginv sim ea"
      using eng_ok_action [OF assms(1) Cons.prems(1) mok act(2)] hm
      by (metis (no_types, lifting) option.inject prod.inject)
    then obtain e2 w2 where e2: "revert_all cfg h (rev rv') (e1, w1) = Some (e2, w2)" "eng_sim sim e2 ea"
      using Cons.IH [OF _ rest act(4) [unfolded sa] Cons.prems(4)] by blast
    show ?thesis
    proof (cases r)
      case None
      with undo_action [OF assms(1) Cons.prems(1) mok act(2) hm e2(2)] e2 act(5) show ?thesis by auto
    next
      case (Some p)
      obtain i md' where p: "p = (i, md')" by (cases p)
      with undo_action [OF assms(1) Cons.prems(1) mok act(2) hm e2(2)] Some obtain e3 w3 where
        "handle_message cfg (Revert i) (md'\<lparr>accepting_hash := h\<rparr>) (e2, w2) = Some ((e3, w3), None)"
        "eng_sim sim e3 e" by (fastforce simp del: handle_message.simps)
      with e2(1) act(5) Some p show ?thesis
        by (auto simp: revert_all_append simp del: handle_message.simps)
    qed
  qed
qed

text \<open>
  One block. The state the engine returns to is the one after the expiry filter of the accepted
  block, which a revert does not undo.
\<close>

lemma revert_block:
  assumes "cfg_ep cfg = ep" and "eng_ok ep ginv sim e" and "event_ok cfg ok_init (BlkAccepted h daa t txs)"
    and "engine_step cfg (BlkAccepted h daa t txs) (e, w) = Some (e', w')"
    and "eng_sim sim e1 e'" and "revert_map e1 h = revert_map e' h"
  shows "\<exists>e2 w2. engine_step cfg (BlkReverted h) (e1, w1) = Some (e2, w2) \<and>
    eng_sim sim e2 (filter_old_episodes e daa) \<and> revert_map e2 = (revert_map e1)(h := None)"
proof -
  from assms(4) obtain ea rv where pt: "process_txs cfg h daa t txs (filter_old_episodes e daa, w) = Some ((ea, w'), rv)"
    and e': "e' = ea\<lparr>revert_map := (revert_map ea)(h \<mapsto> rv)\<rparr>"
    by (auto split: option.splits)
  let ?e1 = "e1\<lparr>revert_map := (revert_map e1)(h := None)\<rparr>"
  have "eng_sim sim ?e1 ea" using assms(5) by (simp add: e')
  from undo_txs [OF assms(1) eng_ok_filter [OF assms(2)] assms(3) pt this, of w1]
  obtain e2 w2 where e2: "revert_all cfg h (rev rv) (?e1, w1) = Some (e2, w2)"
    "eng_sim sim e2 (filter_old_episodes e daa)" by blast
  with revert_all_frame [OF e2(1)] assms(6) show ?thesis by (simp add: e')
qed

lemma eng_ok_accept:
  "cfg_ep cfg = ep \<Longrightarrow> eng_ok ep ginv sim e \<Longrightarrow> event_ok cfg ok_init m \<Longrightarrow>
     engine_step cfg m (e, w) = Some (e', w') \<Longrightarrow> eng_ok ep ginv sim e'"
  using engine_step_ok [of cfg e m w] by auto

lemma eng_sim_refl: "eng_ok ep ginv sim e \<Longrightarrow> eng_sim sim e e"
  unfolding eng_sim_def
proof (intro conjI allI refl)
  fix i
  assume "eng_ok ep ginv sim e"
  then show "rel_option (wr_sim sim) (episodes e i) (episodes e i)"
    by (cases "episodes e i") (auto simp: eng_ok_def wr_sim_def dest!: unwinds_inv sim_refl)
qed

text \<open>
  A chain of blocks with distinct hashes, none of which triggers the expiry filter, reverted
  from the newest to the oldest.
\<close>

lemma revert_chain:
  assumes "cfg_ep cfg = ep" and "eng_ok ep ginv sim e"
    and "\<forall>(h, daa, t, txs) \<in> set bs. event_ok cfg ok_init (BlkAccepted h daa t txs) \<and>
           daa \<le> next_filtering e + SAMPLE_REMOVAL_TIME"
    and "distinct (map fst bs)"
    and "start cfg (map accepted bs) (e, w) = Some (e', w')"
    and "eng_sim sim e1 e'" and "\<forall>h \<in> set (map fst bs). revert_map e1 h = revert_map e' h"
  shows "\<exists>e2 w2. start cfg (map (\<lambda>b. BlkReverted (fst b)) (rev bs)) (e1, w1) = Some (e2, w2) \<and>
    eng_sim sim e2 e \<and>
    revert_map e2 = (\<lambda>h. if h \<in> set (map fst bs) then None else revert_map e1 h)"
  using assms(2-5,7)
proof (induction bs arbitrary: e w)
  case Nil
  with assms(6) show ?case by simp
next
  case (Cons b bs)
  obtain h daa t txs where b: "b = (h, daa, t, txs)" by (cases b)
  have noexp: "filter_old_episodes e daa = e"
    using Cons.prems(2) by (auto simp: b intro: filter_old_noop)
  have evok: "event_ok cfg ok_init (BlkAccepted h daa t txs)" using Cons.prems(2) b by auto
  from Cons.prems(4) obtain ea wa where sa: "engine_step cfg (BlkAccepted h daa t txs) (e, w) = Some (ea, wa)"
    and rest: "start cfg (map accepted bs) (ea, wa) = Some (e', w')"
    by (auto simp: b split: option.splits simp del: engine_step.simps)
  have nf: "next_filtering ea = next_filtering e"
    using sa noexp process_txs_frame by (fastforce split: option.splits)
  have oka: "eng_ok ep ginv sim ea" using eng_ok_accept [OF assms(1) Cons.prems(1) evok sa] .
  have hnot: "h \<notin> set (map fst bs)" and dist: "distinct (map fst bs)" using Cons.prems(3) b by auto
  have keep: "revert_map e' h = revert_map ea h" using start_accept_frame [OF rest hnot] .
  obtain e2 w2 where e2: "start cfg (map (\<lambda>b. BlkReverted (fst b)) (rev bs)) (e1, w1) = Some (e2, w2)"
      "eng_sim sim e2 ea" "revert_map e2 = (\<lambda>h. if h \<in> set (map fst bs) then None else revert_map e1 h)"
    using Cons.IH [OF oka _ dist rest] Cons.prems(2,5) nf by auto
  have "revert_map e2 h = revert_map ea h"
    using e2(3) hnot keep Cons.prems(5) b by auto
  from revert_block [OF assms(1) Cons.prems(1) evok sa e2(2) this, of w2] obtain e3 w3 where
    e3: "engine_step cfg (BlkReverted h) (e2, w2) = Some (e3, w3)" "eng_sim sim e3 e"
      "revert_map e3 = (revert_map e2)(h := None)" by (auto simp: noexp)
  have "Exit \<notin> set (map (\<lambda>b. BlkReverted (fst b)) (rev bs))" by auto
  with e2(1) e3 have "start cfg (map (\<lambda>b. BlkReverted (fst b)) (rev (b # bs))) (e1, w1) = Some (e3, w3)"
    by (simp add: b start_append del: engine_step.simps)
  with e3(2,3) e2(3) show ?case by (auto simp: b fun_eq_iff)
qed

end


section \<open>Episodes that restore their state exactly\<close>

text \<open>
  The blocks of a series of events that are still on the chain, newest first: a block is accepted
  while it is not on the chain, and only the newest block is reverted.
\<close>

type_synonym chain_block = "hash \<times> u64 \<times> u64 \<times> (hash \<times> bytes \<times> tx_output_info list option) list"

fun canonical :: "chain_block list \<Rightarrow> engine_msg list \<Rightarrow> chain_block list option" where
  "canonical st [] = Some st"
| "canonical st (BlkAccepted h daa t txs # ms) =
     (if h \<in> fst ` set st then None else canonical ((h, daa, t, txs) # st) ms)"
| "canonical [] (BlkReverted h # ms) = None"
| "canonical (b # st) (BlkReverted h # ms) = (if fst b = h then canonical st ms else None)"
| "canonical st (Exit # ms) = None"

text \<open>A block whose games the episode accepts, within the filter window of the engine and new to it.\<close>

fun fresh_event :: "('g, 'c, 'r, 'e, 'w) config \<Rightarrow> (pubkey list \<Rightarrow> bool) \<Rightarrow> ('g, 'r) engine \<Rightarrow> engine_msg \<Rightarrow> bool" where
  "fresh_event cfg ok_init e (BlkAccepted h daa t txs) \<longleftrightarrow> event_ok cfg ok_init (BlkAccepted h daa t txs) \<and>
     daa \<le> next_filtering e + SAMPLE_REMOVAL_TIME \<and> revert_map e h = None"
| "fresh_event cfg ok_init e m \<longleftrightarrow> True"

lemma fresh_accepted:
  "fresh_event cfg ok_init e (accepted b) \<longleftrightarrow> event_ok cfg ok_init (accepted b) \<and>
     fst (snd b) \<le> next_filtering e + SAMPLE_REMOVAL_TIME \<and> revert_map e (fst b) = None"
  by (cases b) (simp del: event_ok.simps)

locale exact_episode_contract = episode_contract ep ginv "(=)" ok_init
  for ep :: "('g, 'c, 'r, 'e) episode_impl" and ginv ok_init
begin

lemma undo_chain_exact:
  assumes "cfg_ep cfg = ep" and ok: "eng_ok ep ginv (=) e"
    and "\<forall>b \<in> set bs. event_ok cfg ok_init (accepted b) \<and>
           fst (snd b) \<le> next_filtering e + SAMPLE_REMOVAL_TIME \<and> revert_map e (fst b) = None"
    and "distinct (map fst bs)"
    and "start cfg (map accepted bs) (e, w) = Some (e', w')"
  shows "\<exists>w2. start cfg (map (\<lambda>b. BlkReverted (fst b)) (rev bs)) (e', w1) = Some (e, w2)"
proof -
  have ok': "eng_ok ep ginv (=) e'"
    using start_ok [OF assms(1) ok, of "map accepted bs" w] assms(3,5) by auto
  have bs: "\<forall>(h, daa, t, txs) \<in> set bs. event_ok cfg ok_init (BlkAccepted h daa t txs) \<and>
      daa \<le> next_filtering e + SAMPLE_REMOVAL_TIME"
    using assms(3) by (fastforce simp del: event_ok.simps)
  obtain e2 w2 where e2: "start cfg (map (\<lambda>b. BlkReverted (fst b)) (rev bs)) (e', w1) = Some (e2, w2)"
      "eng_sim (=) e2 e" "revert_map e2 = (\<lambda>h. if h \<in> set (map fst bs) then None else revert_map e' h)"
    using revert_chain [OF assms(1) ok bs assms(4,5) eng_sim_refl [OF ok'], of w1] by blast
  have "revert_map e2 = revert_map e"
    using e2(3) assms(3) start_accept_frame [OF assms(5)] by (fastforce simp: fun_eq_iff)
  with e2(1,2) show ?thesis by (simp add: eng_sim_eq)
qed

lemma reorg_exact:
  assumes "cfg_ep cfg = ep" and "\<forall>m \<in> set ms. event_ok cfg ok_init m"
    and "start cfg ms (new_engine, w0) = Some (e, w)"
    and "\<forall>b \<in> set bs. event_ok cfg ok_init (accepted b) \<and>
           fst (snd b) \<le> next_filtering e + SAMPLE_REMOVAL_TIME \<and> revert_map e (fst b) = None"
    and "distinct (map fst bs)"
    and "start cfg (map accepted bs) (e, w) = Some (e', w')"
  shows "\<exists>w2. start cfg (map (\<lambda>b. BlkReverted (fst b)) (rev bs)) (e', w') = Some (e, w2)"
proof -
  have "eng_ok ep ginv (=) e"
    using start_ok [OF assms(1) eng_ok_new assms(2), of w0] assms(3) by auto
  from undo_chain_exact [OF assms(1) this assms(4-6)] show ?thesis .
qed

text \<open>Whatever was accepted and reverted in between, only the blocks still on the chain count.\<close>

lemma canonical_run:
  assumes "cfg_ep cfg = ep" and ok: "eng_ok ep ginv (=) e"
    and "\<forall>m \<in> set evs. fresh_event cfg ok_init e m" and "\<forall>b \<in> set st0. fresh_event cfg ok_init e (accepted b)"
    and "distinct (map fst st0)" and "canonical st0 evs = Some st"
    and "start cfg (map accepted (rev st0)) (e, w) = Some (e0, w0)"
  shows "\<exists>e' w1 w2. start cfg evs (e0, wx) = Some (e', w1) \<and>
    start cfg (map accepted (rev st)) (e, w) = Some (e', w2)"
  using assms(3-7)
proof (induction st0 evs arbitrary: e0 w0 wx rule: canonical.induct)
  case (1 st0)
  then show ?case by simp
next
  case (2 st0 h daa t txs ms)
  let ?b = "(h, daa, t, txs)"
  from "2.prems"(4) have h: "h \<notin> fst ` set st0" "canonical (?b # st0) ms = Some st" by (auto split: if_splits)
  have ok0: "eng_ok ep ginv (=) e0"
    using start_ok [OF assms(1) ok, of "map accepted (rev st0)" w] "2.prems"(2,5) by (auto simp: fresh_accepted)
  have b: "fresh_event cfg ok_init e (accepted ?b)" using "2.prems"(1) by simp
  have bok: "event_ok cfg ok_init (BlkAccepted h daa t txs)" using b by simp
  obtain e1 w1 where s: "engine_step cfg (BlkAccepted h daa t txs) (e0, w0) = Some (e1, w1)"
    using engine_step_ok [OF assms(1) ok0, of "BlkAccepted h daa t txs" w0] bok by blast
  obtain wy where wy: "engine_step cfg (BlkAccepted h daa t txs) (e0, wx) = Some (e1, wy)"
    using engine_step_world [OF s] by blast
  have "Exit \<notin> set (map accepted (rev st0))" by auto
  with "2.prems"(5) s have "start cfg (map accepted (rev (?b # st0))) (e, w) = Some (e1, w1)"
    by (simp add: start_append del: engine_step.simps)
  with "2.IH" [OF h(1) _ _ _ h(2), of e1 w1 wy] "2.prems"(1-3) b h(1) wy show ?case
    by (auto simp del: engine_step.simps)
next
  case (3 h ms)
  then show ?case by simp
next
  case (4 b st0 h ms)
  from "4.prems"(4) have h: "fst b = h" "canonical st0 ms = Some st" by (auto split: if_splits)
  have "Exit \<notin> set (map accepted (rev st0))" by auto
  with "4.prems"(5) obtain e1 w1 where s: "start cfg (map accepted (rev st0)) (e, w) = Some (e1, w1)"
      "start cfg (map accepted [b]) (e1, w1) = Some (e0, w0)"
    using start_append [of "map accepted (rev st0)" cfg "map accepted [b]" "(e, w)"]
    by (auto simp del: start.simps split: option.splits)
  have ok1: "eng_ok ep ginv (=) e1"
    using start_ok [OF assms(1) ok, of "map accepted (rev st0)" w] "4.prems"(2) s(1) by (auto simp: fresh_accepted)
  have "next_filtering e1 = next_filtering e"
    using start_accept_window [OF s(1)] "4.prems"(2) by (auto simp: fresh_accepted)
  moreover have "revert_map e1 (fst b) = revert_map e (fst b)"
    using start_accept_frame [OF s(1), of "fst b"] "4.prems"(3) by auto
  ultimately obtain w2 where "start cfg [BlkReverted h] (e0, wx) = Some (e1, w2)"
    using undo_chain_exact [OF assms(1) ok1 _ _ s(2), of wx] "4.prems"(2) h(1) by (auto simp: fresh_accepted simp del: start.simps)
  with "4.IH" [OF h(1) _ _ _ h(2) s(1), of w2] "4.prems"(1-3) show ?case
    by (auto simp del: engine_step.simps split: option.splits)
next
  case (5 st0 ms)
  then show ?case by simp
qed

lemma canonical_chain:
  assumes "cfg_ep cfg = ep" and "\<forall>m \<in> set ms. event_ok cfg ok_init m"
    and "start cfg ms (new_engine, w0) = Some (e, w)"
    and "\<forall>m \<in> set evs. fresh_event cfg ok_init e m" and "canonical [] evs = Some st"
  shows "\<exists>e' w1 w2. start cfg evs (e, w) = Some (e', w1) \<and>
    start cfg (map accepted (rev st)) (e, w) = Some (e', w2)"
proof -
  have "eng_ok ep ginv (=) e"
    using start_ok [OF assms(1) eng_ok_new assms(2), of w0] assms(3) by auto
  from canonical_run [OF assms(1) this assms(4) _ _ assms(5)] show ?thesis by simp
qed

end

end
