(* ===== verification/TicTacToe.thy ===== *)
theory TicTacToe
  imports Reorg
begin

text \<open>
  The tic-tac-toe episode (\<^verbatim>\<open>tictactoe/src/game.rs\<close>): at most six symbols stay on the board,
  the seventh move removes the oldest one. The theory models every operation, proves the board
  invariant and that the episode keeps the framework's contract when it is created for one or
  two players; with three players a rollback hands the turn to the wrong player.
\<close>

datatype ttt_error = OutOfBounds | Occupied | NotPlayersTurn | GameOver | NoNewPlayers | TTTUnauthorized

record ttt_move =
  row :: nat
  col :: nat

record ttt_undo =
  rb_mv :: ttt_move
  removed_mv :: "ttt_move option"
  rb_prev_timestamp :: u64

type_synonym board = "pubkey option list list"

record ttt =
  board :: board
  players :: "pubkey list"
  current_index :: nat
  timestamp :: u64
  move_history :: "(nat \<times> nat) list"  \<comment> \<open>oldest move first\<close>

datatype ttt_status = InProgress pubkey | Winner pubkey | Draw

record ttt_state =
  st_board :: board
  first_player :: pubkey
  status :: ttt_status

definition cell :: "board \<Rightarrow> nat \<Rightarrow> nat \<Rightarrow> pubkey option" where
  "cell b r c = b ! r ! c"

definition set_cell :: "board \<Rightarrow> nat \<Rightarrow> nat \<Rightarrow> pubkey option \<Rightarrow> board" where
  "set_cell b r c v = b[r := (b ! r)[c := v]]"

section \<open>Operations\<close>

definition ttt_initialize :: "pubkey list \<Rightarrow> metadata \<Rightarrow> ttt" where
  "ttt_initialize participants md =
     \<lparr>board = replicate 3 (replicate 3 None), players = participants, current_index = 0,
      timestamp = accepting_time md, move_history = []\<rparr>"

definition drop_oldest :: "ttt \<Rightarrow> ttt \<times> ttt_move option" where
  "drop_oldest g =
     (if length (move_history g) = 6
      then case move_history g of
             [] \<Rightarrow> (g, None)
           | (old_row, old_col) # rest \<Rightarrow>
               (g\<lparr>board := set_cell (board g) old_row old_col None, move_history := rest\<rparr>,
                Some \<lparr>row = old_row, col = old_col\<rparr>)
      else (g, None))"

definition ttt_execute ::
  "ttt \<Rightarrow> ttt_move \<Rightarrow> pubkey option \<Rightarrow> metadata \<Rightarrow> (ttt \<times> (ttt_error episode_error + ttt_undo)) option" where
  "ttt_execute g cmd authorization md =
     (case authorization of
        None \<Rightarrow> Some (g, Inl Unauthorized)
      | Some player \<Rightarrow>
          if length (players g) \<le> current_index g then None
          else if player \<noteq> players g ! current_index g then Some (g, Inl (InvalidCommand NotPlayersTurn))
          else if row cmd \<ge> 3 \<or> col cmd \<ge> 3 then Some (g, Inl (InvalidCommand OutOfBounds))
          else if cell (board g) (row cmd) (col cmd) \<noteq> None then Some (g, Inl (InvalidCommand Occupied))
          else let (g1, removed) = drop_oldest g in
            Some (g1\<lparr>board := set_cell (board g1) (row cmd) (col cmd) (Some player),
                     move_history := move_history g1 @ [(row cmd, col cmd)],
                     timestamp := accepting_time md,
                     current_index := (current_index g + 1) mod length (players g)\<rparr>,
                  Inr \<lparr>rb_mv = cmd, removed_mv = removed, rb_prev_timestamp = timestamp g\<rparr>))"

definition ttt_rollback :: "ttt \<Rightarrow> ttt_undo \<Rightarrow> (ttt \<times> bool) option" where
  "ttt_rollback g rb =
     (let r = row (rb_mv rb); c = col (rb_mv rb) in
      if r \<ge> 3 \<or> c \<ge> 3 then None
      else if cell (board g) r c = None then Some (g, False)
      else if players g = [] then None
      else let g1 = g\<lparr>timestamp := rb_prev_timestamp rb,
                      board := set_cell (board g) r c None,
                      current_index := (current_index g + 1) mod length (players g),
                      move_history := butlast (move_history g)\<rparr>
        in case removed_mv rb of
             None \<Rightarrow> Some (g1, True)
           | Some mv \<Rightarrow>
               if row mv \<ge> 3 \<or> col mv \<ge> 3 then None
               else Some (g1\<lparr>board := set_cell (board g1) (row mv) (col mv)
                                        (Some (players g1 ! current_index g1)),
                             move_history := (row mv, col mv) # move_history g1\<rparr>, True))"

definition lines :: "((nat \<times> nat) \<times> (nat \<times> nat) \<times> (nat \<times> nat)) list" where
  "lines =
     [((0,0), (0,1), (0,2)), ((1,0), (1,1), (1,2)), ((2,0), (2,1), (2,2)),
      ((0,0), (1,0), (2,0)), ((0,1), (1,1), (2,1)), ((0,2), (1,2), (2,2)),
      ((0,0), (1,1), (2,2)), ((0,2), (1,1), (2,0))]"

fun line_winner :: "board \<Rightarrow> (nat \<times> nat) \<times> (nat \<times> nat) \<times> (nat \<times> nat) \<Rightarrow> pubkey option" where
  "line_winner b ((r1, c1), (r2, c2), (r3, c3)) =
     (case (cell b r1 c1, cell b r2 c2, cell b r3 c3) of
        (Some p1, Some p2, Some p3) \<Rightarrow> (if p1 = p2 \<and> p2 = p3 then Some p1 else None)
      | _ \<Rightarrow> None)"

fun first_winner :: "board \<Rightarrow> ((nat \<times> nat) \<times> (nat \<times> nat) \<times> (nat \<times> nat)) list \<Rightarrow> pubkey option" where
  "first_winner b [] = None"
| "first_winner b (l # ls) =
     (case line_winner b l of Some p \<Rightarrow> Some p | None \<Rightarrow> first_winner b ls)"

definition check_winner :: "ttt \<Rightarrow> pubkey option" where
  "check_winner g = first_winner (board g) lines"

definition is_draw :: "ttt \<Rightarrow> bool" where
  "is_draw g = list_all (list_all (\<lambda>c. c \<noteq> None)) (board g)"

definition poll :: "ttt \<Rightarrow> ttt_state option" where
  "poll g =
     (if players g = [] then None
      else case check_winner g of
        Some winner \<Rightarrow> Some \<lparr>st_board = board g, first_player = players g ! 0, status = Winner winner\<rparr>
      | None \<Rightarrow>
          if is_draw g then Some \<lparr>st_board = board g, first_player = players g ! 0, status = Draw\<rparr>
          else if length (players g) \<le> current_index g then None
          else Some \<lparr>st_board = board g, first_player = players g ! 0,
                     status = InProgress (players g ! current_index g)\<rparr>)"

definition ttt_episode :: "(ttt, ttt_move, ttt_undo, ttt_error) episode_impl" where
  "ttt_episode = \<lparr>ep_initialize = ttt_initialize, ep_execute = ttt_execute, ep_rollback = ttt_rollback\<rparr>"

section \<open>Boards\<close>

definition shape :: "board \<Rightarrow> bool" where
  "shape b \<longleftrightarrow> length b = 3 \<and> (\<forall>r < 3. length (b ! r) = 3)"

lemma shape_set_cell [simp]: "shape b \<Longrightarrow> shape (set_cell b r c v)"
  by (cases "r < 3") (auto simp: shape_def set_cell_def nth_list_update list_update_beyond)

lemma cell_set_cell:
  "shape b \<Longrightarrow> r < 3 \<Longrightarrow> c < 3 \<Longrightarrow>
     cell (set_cell b r c v) r' c' = (if r' = r \<and> c' = c then v else cell b r' c')"
  by (auto simp: shape_def set_cell_def cell_def nth_list_update)

lemma board_ext:
  assumes "shape b" "shape b'" "\<And>r c. r < 3 \<Longrightarrow> c < 3 \<Longrightarrow> cell b r c = cell b' r c"
  shows "b = b'"
proof (rule nth_equalityI)
  show "length b = length b'" using assms by (simp add: shape_def)
  fix r assume "r < length b"
  with assms show "b ! r = b' ! r"
    by (intro nth_equalityI) (auto simp: shape_def cell_def)
qed

section \<open>The invariant\<close>

text \<open>
  The cells of the history, newest first, belong to the players in turn, going backwards from
  the one to move; every other cell is empty.
\<close>

fun owners :: "board \<Rightarrow> pubkey list \<Rightarrow> nat \<Rightarrow> (nat \<times> nat) list \<Rightarrow> bool" where
  "owners b ps cur [] = True"
| "owners b ps cur ((r, c) # hs) =
     (cell b r c = Some (ps ! ((cur + 1) mod length ps)) \<and> owners b ps (cur + 1) hs)"

definition ttt_inv :: "ttt \<Rightarrow> bool" where
  "ttt_inv g \<longleftrightarrow>
     shape (board g) \<and> (length (players g) = 1 \<or> length (players g) = 2) \<and>
     current_index g < length (players g) \<and>
     length (move_history g) \<le> 6 \<and> distinct (move_history g) \<and>
     (\<forall>(r, c) \<in> set (move_history g). r < 3 \<and> c < 3) \<and>
     (\<forall>r < 3. \<forall>c < 3. (r, c) \<notin> set (move_history g) \<longrightarrow> cell (board g) r c = None) \<and>
     owners (board g) (players g) (current_index g) (rev (move_history g))"

definition ttt_ok_init :: "pubkey list \<Rightarrow> bool" where
  "ttt_ok_init ps \<longleftrightarrow> length ps = 1 \<or> length ps = 2"

lemma owners_mod: "cur mod length ps = cur' mod length ps \<Longrightarrow> owners b ps cur hs = owners b ps cur' hs"
proof (induction b ps cur hs arbitrary: cur' rule: owners.induct)
  case (2 b ps cur r c hs)
  then have "(cur + 1) mod length ps = (cur' + 1) mod length ps" by (metis mod_add_left_eq)
  with 2 show ?case by simp
qed simp

lemma owners_append: "owners b ps cur (xs @ ys) \<longleftrightarrow> owners b ps cur xs \<and> owners b ps (cur + length xs) ys"
  by (induction b ps cur xs rule: owners.induct) auto

lemma owners_cells: "owners b ps cur hs \<Longrightarrow> (r, c) \<in> set hs \<Longrightarrow> cell b r c \<noteq> None"
  by (induction b ps cur hs rule: owners.induct) auto

lemma owners_update:
  "shape b \<Longrightarrow> r < 3 \<Longrightarrow> c < 3 \<Longrightarrow> (r, c) \<notin> set hs \<Longrightarrow> owners b ps cur hs \<Longrightarrow>
     owners (set_cell b r c v) ps cur hs"
  by (induction b ps cur hs rule: owners.induct) (auto simp: cell_set_cell)

lemma turn_back:
  "n = 1 \<or> n = 2 \<Longrightarrow> i < n \<Longrightarrow> ((i + 1) mod n + 1) mod n = i"
  "n = 1 \<or> n = 2 \<Longrightarrow> i < n \<Longrightarrow> (i + 5 + 1) mod n = (i :: nat)"
  by (auto simp: less_2_cases_iff)

lemma ttt_inv_init: "ttt_ok_init ps \<Longrightarrow> ttt_inv (ttt_initialize ps md)"
proof -
  have "r = 0 \<or> r = 1 \<or> r = 2" if "r < 3" for r :: nat using that by auto
  then show "ttt_ok_init ps \<Longrightarrow> ttt_inv (ttt_initialize ps md)"
    by (auto simp: ttt_ok_init_def ttt_inv_def ttt_initialize_def shape_def cell_def)
qed

lemma ttt_execute_cases:
  assumes "ttt_inv g" and "ttt_execute g cmd auth md = Some (g', res)"
  obtains (err) e where "g' = g" "res = Inl e"
  | (ok) player g1 removed where "auth = Some player" "player = players g ! current_index g"
      "row cmd < 3" "col cmd < 3" "cell (board g) (row cmd) (col cmd) = None"
      "drop_oldest g = (g1, removed)"
      "g' = g1\<lparr>board := set_cell (board g1) (row cmd) (col cmd) (Some player),
               move_history := move_history g1 @ [(row cmd, col cmd)],
               timestamp := accepting_time md,
               current_index := (current_index g + 1) mod length (players g)\<rparr>"
      "res = Inr \<lparr>rb_mv = cmd, removed_mv = removed, rb_prev_timestamp = timestamp g\<rparr>"
proof (cases auth)
  case None
  with assms err show ?thesis by (auto simp: ttt_execute_def)
next
  case (Some player)
  obtain g1 removed where d: "drop_oldest g = (g1, removed)" by (cases "drop_oldest g")
  have cur: "current_index g < length (players g)" using assms(1) by (simp add: ttt_inv_def)
  show ?thesis
  proof (cases "player = players g ! current_index g \<and> row cmd < 3 \<and> col cmd < 3 \<and>
      cell (board g) (row cmd) (col cmd) = None")
    case True
    with Some assms(2) d cur show ?thesis
      by (intro ok [of player g1 removed]) (simp_all add: ttt_execute_def)
  next
    case False
    with Some assms(2) cur have "\<exists>e. g' = g \<and> res = Inl e"
      by (auto simp: ttt_execute_def not_le [symmetric] split: if_splits)
    then show ?thesis using err by blast
  qed
qed

lemma drop_oldest_cases:
  assumes "ttt_inv g" and "drop_oldest g = (g1, removed)"
  obtains (keep) "length (move_history g) < 6" "g1 = g" "removed = None"
  | (drop) r c rest where "move_history g = (r, c) # rest" "length rest = 5" "r < 3" "c < 3"
      "g1 = g\<lparr>board := set_cell (board g) r c None, move_history := rest\<rparr>"
      "removed = Some \<lparr>row = r, col = c\<rparr>"
  using assms by (cases "move_history g") (auto simp: drop_oldest_def ttt_inv_def split: if_splits)

text \<open>Dropping the oldest symbol leaves the invariant intact and makes room.\<close>

lemma ttt_inv_drop:
  assumes "ttt_inv g" and "drop_oldest g = (g1, removed)"
  shows "ttt_inv g1 \<and> length (move_history g1) < 6 \<and> players g1 = players g \<and>
    current_index g1 = current_index g \<and> timestamp g1 = timestamp g \<and>
    (\<forall>r c. r < 3 \<longrightarrow> c < 3 \<longrightarrow> cell (board g) r c = None \<longrightarrow> cell (board g1) r c = None)"
  using assms
proof (cases rule: drop_oldest_cases)
  case keep
  with assms(1) show ?thesis by simp
next
  case (drop r c rest)
  with assms(1) have "owners (board g) (players g) (current_index g) (rev rest)"
    by (simp add: ttt_inv_def owners_append)
  with drop assms(1) show ?thesis
    by (auto simp: ttt_inv_def cell_set_cell intro: owners_update)
qed

lemma ttt_inv_place:
  assumes "ttt_inv g" and "length (move_history g) < 6" and "r < 3" "c < 3" and "cell (board g) r c = None"
  shows "ttt_inv (g\<lparr>board := set_cell (board g) r c (Some (players g ! current_index g)),
    move_history := move_history g @ [(r, c)], timestamp := t,
    current_index := (current_index g + 1) mod length (players g)\<rparr>)"
proof -
  let ?n = "length (players g)" and ?b = "set_cell (board g) r c (Some (players g ! current_index g))"
  have inv: "shape (board g)" "?n = 1 \<or> ?n = 2" "current_index g < ?n"
      "owners (board g) (players g) (current_index g) (rev (move_history g))"
    using assms(1) by (simp_all add: ttt_inv_def)
  have new: "(r, c) \<notin> set (move_history g)"
    using assms(5) owners_cells [OF inv(4), of r c] by auto
  have turn: "((current_index g + 1) mod ?n + 1) mod ?n = current_index g"
    using turn_back(1) [OF inv(2,3)] .
  have "owners ?b (players g) (current_index g) (rev (move_history g))"
    using owners_update [OF inv(1) assms(3,4) _ inv(4)] new by simp
  then have "owners ?b (players g) ((current_index g + 1) mod ?n + 1) (rev (move_history g))"
    using turn inv(3) by (subst owners_mod [where cur' = "current_index g"]) simp_all
  then have "owners ?b (players g) ((current_index g + 1) mod ?n) (rev (move_history g @ [(r, c)]))"
    using turn assms(3,4) inv(1) by (simp add: cell_set_cell)
  with assms new inv(3) show ?thesis
    by (auto simp: ttt_inv_def cell_set_cell)
qed

lemma ttt_inv_execute:
  assumes "ttt_inv g" and "ttt_execute g cmd auth md = Some (g', res)"
  shows "ttt_inv g'"
  using assms
proof (cases rule: ttt_execute_cases)
  case (err e)
  with assms show ?thesis by simp
next
  case (ok player g1 removed)
  note d = ttt_inv_drop [OF assms(1) ok(6)]
  have "ttt_inv (g1\<lparr>board := set_cell (board g1) (row cmd) (col cmd) (Some (players g1 ! current_index g1)),
      move_history := move_history g1 @ [(row cmd, col cmd)], timestamp := accepting_time md,
      current_index := (current_index g1 + 1) mod length (players g1)\<rparr>)"
    using d ok(3-5) by (intro ttt_inv_place) auto
  with d ok(2,7) show ?thesis by simp
qed

text \<open>A rollback right after the command gives turn the very same state.\<close>

lemma ttt_rollback_execute:
  assumes "ttt_inv g" and "ttt_execute g cmd auth md = Some (g', Inr rb)"
  shows "ttt_rollback g' rb = Some (g, True)"
  using assms
proof (cases rule: ttt_execute_cases)
  case (err e)
  then show ?thesis by simp
next
  case (ok player g1 removed)
  let ?n = "length (players g)"
  have inv: "shape (board g)" "?n = 1 \<or> ?n = 2" "current_index g < ?n"
      "owners (board g) (players g) (current_index g) (rev (move_history g))"
    using assms(1) by (simp_all add: ttt_inv_def)
  have ne: "players g \<noteq> []" using inv(3) by auto
  have turn: "((current_index g + 1) mod ?n + 1) mod ?n = current_index g"
    using turn_back(1) [OF inv(2,3)] .
  from assms(1) ok(6) show ?thesis
  proof (cases rule: drop_oldest_cases)
    case keep
    have "set_cell (set_cell (board g) (row cmd) (col cmd) (Some player)) (row cmd) (col cmd) None = board g"
      using inv(1) ok(3-5) by (intro board_ext) (auto simp: cell_set_cell)
    with keep ok turn ne show ?thesis
      by (simp add: ttt_rollback_def Let_def cell_set_cell inv(1))
  next
    case (drop r c rest)
    have "owners (board g) (players g) (current_index g + 5) [(r, c)]"
      using inv(4) drop(1,2) by (simp add: owners_append del: owners.simps)
    moreover have "(current_index g + 5 + 1) mod ?n = current_index g" using turn_back(2) [OF inv(2,3)] .
    ultimately have owner: "cell (board g) r c = Some (players g ! current_index g)" by simp
    have "set_cell (set_cell (set_cell (set_cell (board g) r c None) (row cmd) (col cmd) (Some player))
        (row cmd) (col cmd) None) r c (Some (players g ! current_index g)) = board g"
      using inv(1) ok(3-5) drop(3,4) owner by (intro board_ext) (auto simp: cell_set_cell)
    with drop ok turn ne show ?thesis
      by (simp add: ttt_rollback_def Let_def cell_set_cell inv(1))
  qed
qed

lemma ttt_execute_total: "ttt_inv g \<Longrightarrow> ttt_execute g cmd auth md \<noteq> None"
  by (cases auth) (auto simp: ttt_execute_def ttt_inv_def Let_def split: prod.splits)

interpretation ttt: exact_episode_contract ttt_episode ttt_inv ttt_ok_init
proof (unfold_locales, goal_cases)
  case (1 ps md)
  then show ?case by (simp add: ttt_episode_def ttt_inv_init)
next
  case (2 g c a md)
  then show ?case by (simp add: ttt_episode_def ttt_execute_total)
next
  case (3 g c a md g' r)
  then show ?case by (simp add: ttt_episode_def ttt_inv_execute)
next
  case (4 g c a md g' e)
  then show ?case by (auto simp: ttt_episode_def elim: ttt_execute_cases)
next
  case (8 g c a md g' r g1)
  then show ?case by (simp add: ttt_episode_def ttt_rollback_execute)
qed auto

section \<open>Properties of the game\<close>

lemma ttt_reachable_inv:
  "ttt_ok_init ps \<Longrightarrow> exec_calls ttt_episode (ttt_initialize ps md) cs = Some (g, rs) \<Longrightarrow> ttt_inv g"
  using ttt.exec_calls_total [OF ttt_inv_init, of ps md cs] by (auto simp: ttt_episode_def)

lemma card_squares_le: "distinct hs \<Longrightarrow> length hs \<le> 6 \<Longrightarrow> \<exists>r < 3. \<exists>c < 3. (r, c) \<notin> set (hs :: (nat \<times> nat) list)"
proof (rule ccontr)
  assume hs: "distinct hs" "length hs \<le> 6" and "\<not> (\<exists>r < 3. \<exists>c < 3. (r, c) \<notin> set hs)"
  then have "{..<3} \<times> {..<3} \<subseteq> set hs" by auto
  then have "card ({..<3 :: nat} \<times> {..<3 :: nat}) \<le> card (set hs)" by (intro card_mono) auto
  with hs show False by (simp add: distinct_card)
qed

lemma ttt_inv_free_cell:
  assumes "ttt_inv g" shows "\<exists>r < 3. \<exists>c < 3. cell (board g) r c = None"
proof -
  obtain r c where "r < 3" "c < 3" "(r, c) \<notin> set (move_history g)"
    using card_squares_le [of "move_history g"] assms by (auto simp: ttt_inv_def)
  moreover have "\<forall>r < 3. \<forall>c < 3. (r, c) \<notin> set (move_history g) \<longrightarrow> cell (board g) r c = None"
    using assms by (simp add: ttt_inv_def)
  ultimately show ?thesis by blast
qed

lemma ttt_inv_not_draw:
  assumes "ttt_inv g" shows "\<not> is_draw g"
proof -
  obtain r c where rc: "r < 3" "c < 3" "cell (board g) r c = None" using ttt_inv_free_cell [OF assms] by blast
  have "length (board g) = 3" "length (board g ! r) = 3" using assms rc(1) by (simp_all add: ttt_inv_def shape_def)
  with rc have "\<not> list_all (\<lambda>c. c \<noteq> None) (board g ! r)" by (auto simp: cell_def list_all_length)
  with rc(1) \<open>length (board g) = 3\<close> show ?thesis by (auto simp: is_draw_def list_all_length)
qed

text \<open>
  In every state a game for one or two players reaches by any series of commands, a cell is
  occupied exactly when it is in the move history, which holds at most six cells, each once: so the
  board is never full, and \<^verbatim>\<open>poll\<close> answers and never with \<^verbatim>\<open>Draw\<close>.
\<close>

theorem ttt_board_bounded:
  assumes "ttt_ok_init ps" and "exec_calls ttt_episode (ttt_initialize ps md) cs = Some (g, rs)"
  shows "(\<forall>r < 3. \<forall>c < 3. cell (board g) r c \<noteq> None \<longleftrightarrow> (r, c) \<in> set (move_history g)) \<and>
    length (move_history g) \<le> 6 \<and> distinct (move_history g) \<and>
    (\<exists>st. poll g = Some st \<and> status st \<noteq> Draw)"
proof -
  have inv: "ttt_inv g" using ttt_reachable_inv assms .
  have occ: "cell (board g) r c \<noteq> None" if "(r, c) \<in> set (move_history g)" for r c
    using inv that owners_cells [of "board g" "players g" "current_index g" "rev (move_history g)" r c]
    by (simp add: ttt_inv_def)
  have "\<forall>r < 3. \<forall>c < 3. (r, c) \<notin> set (move_history g) \<longrightarrow> cell (board g) r c = None"
    using inv by (simp add: ttt_inv_def)
  with occ have "cell (board g) r c \<noteq> None \<longleftrightarrow> (r, c) \<in> set (move_history g)" if "r < 3" "c < 3" for r c
    using that by metis
  moreover have "\<exists>st. poll g = Some st \<and> status st \<noteq> Draw"
  proof -
    have "players g \<noteq> []" "current_index g < length (players g)" using inv by (auto simp: ttt_inv_def)
    with ttt_inv_not_draw [OF inv] show ?thesis by (cases "check_winner g") (simp_all add: poll_def)
  qed
  ultimately show ?thesis using inv unfolding ttt_inv_def by blast
qed

definition demo_md :: metadata where
  "demo_md = \<lparr>accepting_hash = [], accepting_daa = 0, accepting_time = 5, tx_id = [], tx_outputs = None\<rparr>"

theorem ttt_board_bounded_witness:
  "\<exists>g rs. exec_calls ttt_episode (ttt_initialize [PubKey [1]] demo_md)
      [(\<lparr>row = 1, col = 1\<rparr>, Some (PubKey [1]), demo_md)] = Some (g, rs) \<and>
    (\<exists>st. poll g = Some st \<and> status st \<noteq> Draw)"
proof -
  have "\<exists>g rs. exec_calls ttt_episode (ttt_initialize [PubKey [1]] demo_md)
      [(\<lparr>row = 1, col = 1\<rparr>, Some (PubKey [1]), demo_md)] = Some (g, rs)"
    by (simp add: ttt_episode_def ttt_initialize_def ttt_execute_def cell_def drop_oldest_def set_cell_def numeral_3_eq_3)
  then obtain g rs where g: "exec_calls ttt_episode (ttt_initialize [PubKey [1]] demo_md)
      [(\<lparr>row = 1, col = 1\<rparr>, Some (PubKey [1]), demo_md)] = Some (g, rs)" by blast
  from ttt_board_bounded [OF _ g] g show ?thesis by (auto simp: ttt_ok_init_def)
qed

text \<open>
  With more than two players a rollback does not restore the game: the turn moves one step
  forward instead of back, so after a legal first move and its rollback it is not the turn of
  the player who moved.
\<close>

theorem ttt_rollback_wrong_turn:
  assumes "length ps \<ge> 3" and "row mv < 3" and "col mv < 3"
  shows "\<exists>g rb g2. ttt_execute (ttt_initialize ps md) mv (Some (ps ! 0)) md = Some (g, Inr rb) \<and>
    ttt_rollback g rb = Some (g2, True) \<and> current_index g2 = 2 mod length ps \<and>
    current_index g2 \<noteq> current_index (ttt_initialize ps md)"
proof -
  have "shape (replicate 3 (replicate 3 None))" by (simp add: shape_def)
  moreover have "cell (replicate 3 (replicate 3 None)) (row mv) (col mv) = None"
    using assms by (simp add: cell_def)
  moreover have "ps \<noteq> []" using assms(1) by auto
  moreover have "Suc (Suc 0 mod length ps) mod length ps = 2 mod length ps"
    using assms(1) by (simp add: mod_Suc_eq numeral_2_eq_2)
  moreover have "2 mod length ps \<noteq> 0" using assms(1) by simp
  ultimately show ?thesis using assms
    by (auto simp: ttt_execute_def ttt_initialize_def drop_oldest_def ttt_rollback_def Let_def cell_set_cell)
qed

theorem ttt_rollback_wrong_turn_witness:
  "\<exists>g rb g2. ttt_execute (ttt_initialize [PubKey [1], PubKey [2], PubKey [3]] demo_md)
      \<lparr>row = 0, col = 2\<rparr> (Some (PubKey [1])) demo_md = Some (g, Inr rb) \<and>
    ttt_rollback g rb = Some (g2, True) \<and> current_index g2 = 2"
  using ttt_rollback_wrong_turn [of "[PubKey [1], PubKey [2], PubKey [3]]" "\<lparr>row = 0, col = 2\<rparr>" demo_md]
  by auto

end
