(* ===== verification/Engine_Properties.thy ===== *)
theory Engine_Properties
  imports TicTacToe
begin

text \<open>
  The promises of the engine as statements about the code's model, for every episode type where
  no contract is needed and for the tic-tac-toe episode where it is. The witnesses run the
  engine on a small game with two players; their signature scheme signs by appending the
  message to the key.
\<close>

section \<open>A concrete configuration\<close>

definition demo_crypto :: crypto where
  "demo_crypto = \<lparr>sha256 = (\<lambda>b. b), ecdsa_sign = (\<lambda>sk m. sk @ m),
     ecdsa_verify = (\<lambda>m s pk. s = pk @ m), pk_slice_ok = (\<lambda>_. True), der_ok = (\<lambda>_. True)\<rparr>"

definition demo_move :: "u8 \<Rightarrow> u8 \<Rightarrow> ttt_move" where
  "demo_move r c = \<lparr>row = unat r, col = unat c\<rparr>"

fun demo_decode :: "bytes \<Rightarrow> ttt_move episode_message option" where
  "demo_decode [k] =
     (if k = 0 then Some (NewEpisode 7 [PubKey [1], PubKey [2]])
      else if k = 1 then Some (Revert 7)
      else if k = 2 then Some (NewEpisode 8 []) else None)"
| "demo_decode [k, r, c, s] =
     Some (SignedCommand 7 (demo_move r c) (PubKey [k]) (Sig [s, r, c]))"
| "demo_decode _ = None"

definition demo_cfg :: "(ttt, ttt_move, ttt_undo, ttt_error, nat) config" where
  "demo_cfg = \<lparr>cfg_ep = ttt_episode, cfg_crypto = demo_crypto,
     cmd_bytes = (\<lambda>mv. [of_nat (row mv), of_nat (col mv)]), decode_msg = demo_decode,
     handlers = [\<lambda>ev n. n + 1]\<rparr>"

lemmas demo_simps = demo_cfg_def demo_crypto_def demo_move_def ttt_episode_def

lemmas run_simps = demo_simps filter_old_episodes_def new_engine_def
  wrapper_initialize_def wrapper_rollback_def ttt_initialize_def ttt_rollback_def notify_def Let_def
  finish_command_def execute_signed_def execute_unsigned_def verify_signature_def to_message_def
  ttt_execute_def cell_def set_cell_def drop_oldest_def SAMPLE_REMOVAL_TIME_def numeral_3_eq_3

definition demo_block :: "hash \<times> u64 \<times> u64 \<times> (hash \<times> bytes \<times> tx_output_info list option) list" where
  "demo_block = ([9], 5, 50, [([10], [0], None), ([11], [1, 0, 0, 1], None), ([12], [2, 1, 1, 2], None)])"

definition demo_block2 :: "hash \<times> u64 \<times> u64 \<times> (hash \<times> bytes \<times> tx_output_info list option) list" where
  "demo_block2 = ([19], 6, 60, [([13], [1, 0, 1, 1], None), ([14], [1], None)])"

definition demo_side :: "hash \<times> u64 \<times> u64 \<times> (hash \<times> bytes \<times> tx_output_info list option) list" where
  "demo_side = ([29], 6, 60, [([15], [1, 2, 2, 1], None)])"

definition demo_state :: "(ttt, ttt_undo) engine" where
  "demo_state = fst (the (start demo_cfg [accepted demo_block] (new_engine, 0)))"

lemma demo_state_run: "start demo_cfg [accepted demo_block] (new_engine, 0) = Some (demo_state, 3)"
  by (simp add: demo_state_def demo_block_def run_simps)

lemma demo_state_fields: "next_filtering demo_state = 0" "revert_map demo_state [19] = None"
    "revert_map demo_state [29] = None"
  by (simp_all add: demo_state_def demo_block_def run_simps)

section \<open>Reorgs\<close>

text \<open>
  C2: an engine of tic-tac-toe games (every game created for one or two players), reached from
  the empty engine by any sequence of block events, that accepts a chain of blocks with distinct
  hashes new to it, all within the filter window, and then sees them reverted from the newest to the
  oldest, is in exactly the state it was in before the chain. The scope matters: an episode that
  restores less, as the login and the comment rooms do, is covered by its own claim, and a game of
  three or more players does not restore whose turn it is.
\<close>

theorem ttt_reorg_exact:
  assumes "cfg_ep cfg = ttt_episode" and "\<forall>m \<in> set ms. event_ok cfg ttt_ok_init m"
    and "start cfg ms (new_engine, w0) = Some (e, w)"
    and "\<forall>b \<in> set bs. event_ok cfg ttt_ok_init (accepted b) \<and>
           fst (snd b) \<le> next_filtering e + SAMPLE_REMOVAL_TIME \<and> revert_map e (fst b) = None"
    and "distinct (map fst bs)"
    and "start cfg (map accepted bs) (e, w) = Some (e', w')"
  shows "\<exists>w2. start cfg (map (\<lambda>b. BlkReverted (fst b)) (rev bs)) (e', w') = Some (e, w2)"
  using assms by (rule ttt.reorg_exact)

text \<open>The state after a game of two moves, a block with the third move, and its reversal.\<close>

theorem ttt_reorg_exact_witness:
  "\<exists>e' w' w2. start demo_cfg [accepted demo_block2] (demo_state, 3) = Some (e', w') \<and>
     episodes e' 7 \<noteq> episodes demo_state 7 \<and>
     start demo_cfg [BlkReverted [19]] (e', w') = Some (demo_state, w2)"
proof -
  have run: "\<exists>e' w'. start demo_cfg [accepted demo_block2] (demo_state, 3) = Some (e', w') \<and>
      episodes e' 7 \<noteq> episodes demo_state 7"
    by (simp add: demo_state_def demo_block_def demo_block2_def run_simps)
  then obtain e' w' where e': "start demo_cfg [accepted demo_block2] (demo_state, 3) = Some (e', w')"
      "episodes e' 7 \<noteq> episodes demo_state 7" by blast
  have "\<exists>w2. start demo_cfg (map (\<lambda>b. BlkReverted (fst b)) (rev [demo_block2])) (e', w') = Some (demo_state, w2)"
  proof (rule ttt_reorg_exact [where ms = "[accepted demo_block]" and ?w0.0 = 0 and w = 3])
    show "cfg_ep demo_cfg = ttt_episode" by (simp add: demo_cfg_def)
    show "\<forall>m \<in> set [accepted demo_block]. event_ok demo_cfg ttt_ok_init m"
      by (simp add: demo_block_def demo_cfg_def ttt_ok_init_def)
    show "start demo_cfg [accepted demo_block] (new_engine, 0) = Some (demo_state, 3)"
      by (rule demo_state_run)
    show "\<forall>b \<in> set [demo_block2]. event_ok demo_cfg ttt_ok_init (accepted b) \<and>
        fst (snd b) \<le> next_filtering demo_state + SAMPLE_REMOVAL_TIME \<and> revert_map demo_state (fst b) = None"
      by (simp add: demo_block2_def demo_cfg_def demo_state_fields SAMPLE_REMOVAL_TIME_def)
    show "start demo_cfg (map accepted [demo_block2]) (demo_state, 3) = Some (e', w')"
      using e'(1) by simp
  qed simp
  then have "\<exists>w2. start demo_cfg [BlkReverted [19]] (e', w') = Some (demo_state, w2)"
    by (simp only: demo_block2_def rev.simps append.simps list.map fst_conv)
  with e' show ?thesis by blast
qed

text \<open>
  C1: only the blocks that are still on the chain count. Take an engine of tic-tac-toe games, every
  game created for one or two players, reached from the empty engine by any sequence of block events.
  Let any further blocks be accepted and reverted, branches within branches, blocks taken back and
  accepted again, as long as no block is accepted while it is on the chain, only the newest block is
  reverted, and the blocks are within the filter window and new to the engine at the beginning. The
  engine does not panic and ends in exactly the state that accepting the blocks still on the chain,
  oldest first, gives.
\<close>

theorem ttt_canonical_chain:
  assumes "cfg_ep cfg = ttt_episode" and "\<forall>m \<in> set ms. event_ok cfg ttt_ok_init m"
    and "start cfg ms (new_engine, w0) = Some (e, w)"
    and "\<forall>m \<in> set evs. fresh_event cfg ttt_ok_init e m" and "canonical [] evs = Some st"
  shows "\<exists>e' w1 w2. start cfg evs (e, w) = Some (e', w1) \<and>
    start cfg (map accepted (rev st)) (e, w) = Some (e', w2)"
  using assms by (rule ttt.canonical_chain)

text \<open>
  After a game of two moves: a side block and a block on top of it are accepted, both are reverted, and
  the upper block is accepted again on its own. The engine is as if only that had happened.
\<close>

theorem ttt_canonical_chain_witness:
  "\<exists>e' w1 w2. start demo_cfg [accepted demo_side, accepted demo_block2, BlkReverted [19], BlkReverted [29],
       accepted demo_block2] (demo_state, 3) = Some (e', w1) \<and>
     start demo_cfg [accepted demo_block2] (demo_state, 3) = Some (e', w2)"
proof -
  have "\<exists>e' w1 w2. start demo_cfg [accepted demo_side, accepted demo_block2, BlkReverted [19], BlkReverted [29],
       accepted demo_block2] (demo_state, 3) = Some (e', w1) \<and>
     start demo_cfg (map accepted (rev [demo_block2])) (demo_state, 3) = Some (e', w2)"
  proof (rule ttt_canonical_chain)
    show "cfg_ep demo_cfg = ttt_episode" by (simp add: demo_cfg_def)
    show "\<forall>m \<in> set [accepted demo_block]. event_ok demo_cfg ttt_ok_init m"
      by (simp add: demo_block_def demo_cfg_def ttt_ok_init_def)
    show "start demo_cfg [accepted demo_block] (new_engine, 0) = Some (demo_state, 3)"
      by (rule demo_state_run)
    show "\<forall>m \<in> set [accepted demo_side, accepted demo_block2, BlkReverted [19], BlkReverted [29], accepted demo_block2].
        fresh_event demo_cfg ttt_ok_init demo_state m"
      by (simp add: demo_side_def demo_block2_def demo_cfg_def demo_state_fields SAMPLE_REMOVAL_TIME_def)
    show "canonical [] [accepted demo_side, accepted demo_block2, BlkReverted [19], BlkReverted [29],
        accepted demo_block2] = Some [demo_block2]"
      by (simp add: demo_side_def demo_block2_def)
  qed
  then show ?thesis by simp
qed

text \<open>
  C3: an engine of tic-tac-toe games for one or two players never panics, whatever blocks are
  accepted or reverted in whatever order, and in every state it reaches the rollback stack of
  every game can be unwound: each rollback object is accepted by the state it is applied to.
\<close>

theorem ttt_engine_never_panics:
  assumes "cfg_ep cfg = ttt_episode" and "\<forall>m \<in> set ms. event_ok cfg ttt_ok_init m"
  shows "\<exists>e w. start cfg ms (new_engine, w0) = Some (e, w) \<and>
    (\<forall>i wr. episodes e i = Some wr \<longrightarrow> rollback_stack wr \<noteq> [] \<longrightarrow>
       (\<exists>wr'. wrapper_rollback cfg wr = Some (wr', Inr True)))"
proof -
  obtain e w where s: "start cfg ms (new_engine, w0) = Some (e, w)" and ok: "eng_ok ttt_episode ttt_inv (=) e"
    using ttt.start_ok [OF assms(1) eng_ok_new assms(2)] by blast
  have "\<exists>wr'. wrapper_rollback cfg wr = Some (wr', Inr True)"
    if "episodes e i = Some wr" "rollback_stack wr \<noteq> []" for i wr
  proof -
    obtain rs r where rs: "rollback_stack wr = rs @ [r]" using \<open>rollback_stack wr \<noteq> []\<close> by (cases "rollback_stack wr" rule: rev_cases) auto
    have "unwinds ttt_episode ttt_inv (=) (ew_episode wr) (rollback_stack wr)"
      using ok that(1) by (simp add: eng_ok_def)
    with rs have "unwinds ttt_episode ttt_inv (=) (ew_episode wr) (rs @ [r])" by simp
    from ttt.unwinds_rollback [OF this] rs assms(1) show ?thesis
      by (auto simp: wrapper_rollback_def)
  qed
  with s show ?thesis by blast
qed

theorem ttt_engine_never_panics_witness:
  "\<exists>e w. start demo_cfg [accepted demo_block, accepted demo_block2, BlkReverted [9], BlkReverted [19]]
     (new_engine, 0) = Some (e, w) \<and>
    (\<forall>i wr. episodes e i = Some wr \<longrightarrow> rollback_stack wr \<noteq> [] \<longrightarrow>
       (\<exists>wr'. wrapper_rollback demo_cfg wr = Some (wr', Inr True)))"
  by (rule ttt_engine_never_panics)
    (simp_all add: demo_cfg_def demo_block_def demo_block2_def ttt_ok_init_def)

text \<open>
  The guard on the number of players matters. A \<^verbatim>\<open>NewEpisode\<close> message without participants is
  accepted, and the first correctly signed command for that game, by anybody, makes the engine
  thread panic (\<^verbatim>\<open>self.players[self.current_index]\<close> on an empty vector).
\<close>

theorem ttt_empty_game_panics:
  assumes "cfg_ep cfg = ttt_episode" and "episodes e i = None"
    and "verify_signature (cfg_crypto cfg) pk (to_message (cfg_crypto cfg) (cmd_bytes cfg mv)) sg"
  shows "\<exists>e' w'. handle_message cfg (NewEpisode i []) md (e, w) = Some ((e', w'), Some (i, md)) \<and>
    handle_message cfg (SignedCommand i mv pk sg) md' (e', w') = None"
  using assms
  by (simp add: Let_def wrapper_initialize_def execute_signed_def finish_command_def ttt_episode_def
      ttt_initialize_def ttt_execute_def)

theorem ttt_empty_game_panics_witness:
  "\<exists>e' w'. handle_message demo_cfg (NewEpisode 8 []) \<lparr>accepting_hash = [], accepting_daa = 0, accepting_time = 0,
       tx_id = [], tx_outputs = None\<rparr> (new_engine, 0) = Some ((e', w'), Some (8, \<lparr>accepting_hash = [],
       accepting_daa = 0, accepting_time = 0, tx_id = [], tx_outputs = None\<rparr>)) \<and>
    handle_message demo_cfg (SignedCommand 8 (demo_move 0 0) (PubKey [1]) (Sig [1, 0, 0])) \<lparr>accepting_hash = [],
       accepting_daa = 0, accepting_time = 0, tx_id = [], tx_outputs = None\<rparr> (e', w') = None"
  by (rule ttt_empty_game_panics)
    (simp_all add: demo_simps new_engine_def verify_signature_def to_message_def)

section \<open>Guards\<close>

text \<open>
  Reverts cannot be injected. A block whose payloads do not parse or are \<^verbatim>\<open>Revert\<close> messages
  leaves the engine as it was after the expiry filter, calls no handler, and records nothing to
  be reverted with the block.
\<close>

theorem illegal_reverts_ignored:
  assumes "\<forall>(tid, payload, outs) \<in> set txs. decode_msg cfg payload = None \<or> (\<exists>i. decode_msg cfg payload = Some (Revert i))"
  shows "engine_step cfg (BlkAccepted h daa t txs) (e, w) =
    Some ((filter_old_episodes e daa)\<lparr>revert_map := (revert_map e)(h \<mapsto> [])\<rparr>, w)"
proof -
  have "process_txs cfg h daa t txs s = Some (s, [])" for s
    using assms by (induction txs) auto
  then show ?thesis by simp
qed

theorem illegal_reverts_ignored_witness:
  "engine_step demo_cfg (BlkAccepted [3] 6 60 [([1], [1], None), ([2], [5, 5], None)]) (demo_state, 3) =
    Some ((filter_old_episodes demo_state 6)\<lparr>revert_map := (revert_map demo_state)([3] \<mapsto> [])\<rparr>, 3)"
  by (rule illegal_reverts_ignored) (simp add: demo_cfg_def)

text \<open>
  A command whose signature does not verify under the key it names changes nothing: the
  engine, the handlers' world and the revert record of the block are untouched.
\<close>

theorem bad_signature_rejected:
  assumes "\<not> verify_signature (cfg_crypto cfg) pk (to_message (cfg_crypto cfg) (cmd_bytes cfg cmd)) sg"
  shows "handle_message cfg (SignedCommand i cmd pk sg) md (e, w) = Some ((e, w), None)"
  using assms by (auto simp: execute_signed_def finish_command_def fun_upd_idem split: option.splits)

theorem bad_signature_rejected_witness:
  "handle_message demo_cfg (SignedCommand 7 (demo_move 2 2) (PubKey [1]) (Sig [2, 2, 2]))
     \<lparr>accepting_hash = [], accepting_daa = 0, accepting_time = 0, tx_id = [], tx_outputs = None\<rparr>
     (demo_state, 3) = Some ((demo_state, 3), None)"
  by (rule bad_signature_rejected) (simp add: demo_simps verify_signature_def to_message_def)

text \<open>
  The expiry filter. Once the accepting score is more than a sampling interval past the last
  filtering, exactly the episodes created more than \<^verbatim>\<open>EPISODE_LIFETIME\<close> before it disappear,
  together with their creation times; the others, the revert map, and everything before that
  point, stay.
\<close>

theorem filter_old_exact:
  assumes "daa > next_filtering e + SAMPLE_REMOVAL_TIME"
  shows "episodes (filter_old_episodes e daa) i =
      (case creation_times e i of
         Some t \<Rightarrow> (if unat t + 2592000 < unat daa then None else episodes e i)
       | None \<Rightarrow> episodes e i) \<and>
    (creation_times (filter_old_episodes e daa) i = None \<longleftrightarrow>
      (case creation_times e i of Some t \<Rightarrow> unat t + 2592000 < unat daa | None \<Rightarrow> True)) \<and>
    next_filtering (filter_old_episodes e daa) = daa \<and>
    revert_map (filter_old_episodes e daa) = revert_map e"
proof -
  have "t < sat_sub daa EPISODE_LIFETIME \<longleftrightarrow> unat t + 2592000 < unat daa" for t
    by (auto simp: word_less_nat_alt unat_sat_sub EPISODE_LIFETIME_def)
  with assms show ?thesis
    by (auto simp: filter_old_episodes_def is_expired_def split: option.splits)
qed

theorem filter_old_exact_witness:
  "episodes (filter_old_episodes demo_state 3000000) 7 = None"
  using filter_old_exact [of demo_state 3000000 7]
  by (simp add: demo_state_fields SAMPLE_REMOVAL_TIME_def) (simp add: demo_state_def demo_block_def run_simps)

end
