(* ===== verification/Proxy.thy ===== *)
theory Proxy
  imports Engine
begin

text \<open>
  The listener (\<^verbatim>\<open>kdapp/src/proxy.rs\<close>) follows the virtual chain of a node: per accepting
  block it collects the payloads of the accepted transactions that some engine may want, and
  sends each engine its own, in acceptance order and without the header. The node is a
  parameter: its answers to the RPC calls. The engine map is a list of
  (prefix, pattern) pairs in the iteration order of the hash map, and the channel of an engine
  is named by its prefix.
\<close>

section \<open>What the node answers\<close>

record rpc_output =
  ro_value :: u64
  ro_version :: u16
  ro_script :: bytes

record rpc_tx =
  rt_id :: "hash option"  \<comment> \<open>\<^verbatim>\<open>verbose_data\<close>, of which only the id is read\<close>
  rt_payload :: bytes
  rt_outputs :: "rpc_output list"

record rpc_verbose =
  selected_parent :: hash
  merge_set_blues :: "hash list"
  merge_set_reds :: "hash list"

record rpc_block =
  rb_timestamp :: u64
  rb_daa :: u64
  rb_verbose :: "rpc_verbose option"
  rb_txs :: "rpc_tx list"

record chain_block =
  cb_hash :: hash
  cb_tx_ids :: "hash list"

record vcb =
  removed_hashes :: "hash list"
  accepted_blocks :: "chain_block list"

type_synonym get_block = "hash \<Rightarrow> bool \<Rightarrow> rpc_block option"  \<comment> \<open>with or without transactions\<close>
type_synonym engine_map = "(prefix \<times> pattern) list"
type_synonym payload_slots = "hash \<rightharpoonup> bytes option"
type_synonym output_slots = "hash \<rightharpoonup> tx_output_info list option"

section \<open>Collecting payloads\<close>

definition required_txs :: "engine_map \<Rightarrow> hash list \<Rightarrow> hash list" where
  "required_txs engines ids =
     filter (\<lambda>i. list_ex (\<lambda>(_, pat). check_pattern i pat) engines) (drop 1 ids)"

text \<open>\<open>with_script\<close> is the cargo feature \<^verbatim>\<open>tx-script-bytes\<close>.\<close>

definition output_info :: "bool \<Rightarrow> rpc_output \<Rightarrow> tx_output_info" where
  "output_info with_script out =
     \<lparr>out_value = ro_value out, script_version = ro_version out,
      script_bytes = (if with_script then Some (ro_script out) else None)\<rparr>"

definition take_tx ::
  "bool \<Rightarrow> rpc_tx \<Rightarrow> payload_slots \<times> output_slots \<times> nat \<Rightarrow> payload_slots \<times> output_slots \<times> nat" where
  "take_tx with_script tx = (\<lambda>(ps, os, num).
     case rt_id tx of
       None \<Rightarrow> (ps, os, num)
     | Some i \<Rightarrow>
         (case ps i of
            Some None \<Rightarrow>
              (ps(i \<mapsto> Some (rt_payload tx)),
               (if os i = None then os else os(i \<mapsto> Some (map (output_info with_script) (rt_outputs tx)))),
               num - 1)
          | _ \<Rightarrow> (ps, os, num)))"

text \<open>
  The two loops with \<^verbatim>\<open>break 'outer\<close>: the flag of the result says that the last required
  transaction was found. The counter is only tested after it was decremented, and the loop is
  entered with a positive counter, so testing it first is the same.
\<close>

fun scan_txs ::
  "bool \<Rightarrow> rpc_tx list \<Rightarrow> payload_slots \<times> output_slots \<times> nat \<Rightarrow> payload_slots \<times> output_slots \<times> nat" where
  "scan_txs with_script [] s = s"
| "scan_txs with_script (tx # txs) (ps, os, num) =
     (if num = 0 then (ps, os, num)
      else scan_txs with_script txs (take_tx with_script tx (ps, os, num)))"

fun scan_blocks ::
  "bool \<Rightarrow> get_block \<Rightarrow> hash list \<Rightarrow> payload_slots \<times> output_slots \<times> nat \<Rightarrow>
     payload_slots \<times> output_slots \<times> nat" where
  "scan_blocks with_script gb [] s = s"
| "scan_blocks with_script gb (h # hs) (ps, os, num) =
     (if num = 0 then (ps, os, num)
      else case gb h True of
        None \<Rightarrow> scan_blocks with_script gb hs (ps, os, num)
      | Some b \<Rightarrow> scan_blocks with_script gb hs (scan_txs with_script (drop 1 (rb_txs b)) (ps, os, num)))"

section \<open>Dispatching to the engines\<close>

fun associate ::
  "pattern \<Rightarrow> prefix \<Rightarrow> hash list \<Rightarrow> payload_slots \<times> output_slots \<Rightarrow>
     (hash \<times> bytes \<times> tx_output_info list option) list \<times> payload_slots \<times> output_slots" where
  "associate pat p [] (ps, os) = ([], ps, os)"
| "associate pat p (i # ids) (ps, os) =
     (case (if check_pattern i pat then ps i else None) of
        Some (Some payload) \<Rightarrow>
          (if check_header payload p
           then let (txs, ps', os') = associate pat p ids (ps(i := None), os(i := None))
                in ((i, drop 8 payload, (case os i of Some o' \<Rightarrow> o' | None \<Rightarrow> None)) # txs, ps', os')
           else associate pat p ids (ps, os))
      | _ \<Rightarrow> associate pat p ids (ps, os))"

fun dispatch ::
  "hash \<Rightarrow> rpc_block \<Rightarrow> hash list \<Rightarrow> engine_map \<Rightarrow> payload_slots \<times> output_slots \<Rightarrow> nat \<Rightarrow>
     (prefix \<times> engine_msg) list" where
  "dispatch h blk req [] s consumed = []"
| "dispatch h blk req ((p, pat) # engines) (ps, os) consumed =
     (let (txs, ps', os') = associate pat p req (ps, os);
          consumed' = consumed + length txs;
          msg = (if txs = [] then []
                 else [(p, BlkAccepted h (rb_daa blk) (rb_timestamp blk div 1000) txs)])
      in msg @ (if consumed' = length req then [] else dispatch h blk req engines (ps', os') consumed'))"

definition accept_chain_block ::
  "bool \<Rightarrow> get_block \<Rightarrow> engine_map \<Rightarrow> chain_block \<Rightarrow> (prefix \<times> engine_msg) list" where
  "accept_chain_block with_script gb engines ncb =
     (let req = required_txs engines (cb_tx_ids ncb);
          ps = (\<lambda>i. if i \<in> set req then Some None else None);
          os = (\<lambda>i. if i \<in> set req then Some None else None);
          num = length (remdups req)
      in if num = 0 then []
         else case gb (cb_hash ncb) False of
           None \<Rightarrow> []
         | Some blk \<Rightarrow>
             (case rb_verbose blk of
                None \<Rightarrow> []
              | Some v \<Rightarrow>
                  let (ps', os', left) =
                        scan_blocks with_script gb (merge_set_blues v @ merge_set_reds v) (ps, os, num)
                  in if left \<noteq> 0 then [] else dispatch (cb_hash ncb) blk req engines (ps', os') 0))"

section \<open>The loop\<close>

record tick =
  exit_flag :: bool
  vcb_answer :: "hash \<Rightarrow> vcb option"
  reconnect_ok :: bool
  sink_answer :: "hash option"
  block_answer :: get_block

definition revert_msgs :: "engine_map \<Rightarrow> hash list \<Rightarrow> (prefix \<times> engine_msg) list" where
  "revert_msgs engines rcbs =
     concat (map (\<lambda>rcb. map (\<lambda>(p, _). (p, BlkReverted rcb)) engines) rcbs)"

definition poll_node ::
  "bool \<Rightarrow> engine_map \<Rightarrow> tick \<Rightarrow> hash \<Rightarrow> hash \<times> (prefix \<times> engine_msg) list" where
  "poll_node with_script engines t sink =
     (case vcb_answer t sink of
        None \<Rightarrow>
          (if \<not> reconnect_ok t then (sink, [])
           else case sink_answer t of Some s \<Rightarrow> (s, []) | None \<Rightarrow> (sink, []))
      | Some v \<Rightarrow>
          (if accepted_blocks v = [] then (sink, [])
           else (cb_hash (last (accepted_blocks v)),
                 revert_msgs engines (removed_hashes v) @
                 concat (map (accept_chain_block with_script (block_answer t) engines) (accepted_blocks v)))))"

text \<open>
  The first tick whose flag is set ends the loop and sends \<^verbatim>\<open>Exit\<close> to every engine; a list of
  ticks without one is a run that is still going.
\<close>

fun listen :: "bool \<Rightarrow> engine_map \<Rightarrow> tick list \<Rightarrow> hash \<Rightarrow> (prefix \<times> engine_msg) list" where
  "listen with_script engines [] sink = []"
| "listen with_script engines (t # ts) sink =
     (if exit_flag t then map (\<lambda>(p, _). (p, Exit)) engines
      else let (sink', msgs) = poll_node with_script engines t sink
           in msgs @ listen with_script engines ts sink')"

text \<open>
  The start: the first answer, or after a reconnect the second, gives the sink; without one
  the listener returns and no engine hears of it.
\<close>

definition run_listener ::
  "bool \<Rightarrow> engine_map \<Rightarrow> hash option \<Rightarrow> bool \<Rightarrow> hash option \<Rightarrow> tick list \<Rightarrow> (prefix \<times> engine_msg) list" where
  "run_listener with_script engines info reconnected info2 ts =
     (case info of
        Some sink \<Rightarrow> listen with_script engines ts sink
      | None \<Rightarrow>
          (if \<not> reconnected then []
           else case info2 of Some sink \<Rightarrow> listen with_script engines ts sink | None \<Rightarrow> []))"

section \<open>What each engine receives\<close>

text \<open>
  The transactions of the merged blocks the node could deliver, in scan order without the
  coinbase transactions, and the first one with a given id.
\<close>

definition merged_txs :: "get_block \<Rightarrow> rpc_verbose \<Rightarrow> rpc_tx list" where
  "merged_txs gb v = concat (map (\<lambda>h. case gb h True of None \<Rightarrow> [] | Some b \<Rightarrow> drop 1 (rb_txs b))
     (merge_set_blues v @ merge_set_reds v))"

definition find_tx :: "rpc_tx list \<Rightarrow> hash \<Rightarrow> rpc_tx option" where
  "find_tx txs i = List.find (\<lambda>t. rt_id t = Some i) txs"

text \<open>The transactions of an accepting block that belong to one engine, as it gets them.\<close>

definition engine_txs ::
  "bool \<Rightarrow> rpc_tx list \<Rightarrow> pattern \<Rightarrow> prefix \<Rightarrow> hash list \<Rightarrow> (hash \<times> bytes \<times> tx_output_info list option) list" where
  "engine_txs ws txs pat p ids =
     concat (map (\<lambda>i. case find_tx txs i of
         Some t \<Rightarrow> if check_pattern i pat \<and> check_header (rt_payload t) p
                   then [(i, drop 8 (rt_payload t), Some (map (output_info ws) (rt_outputs t)))] else []
       | None \<Rightarrow> []) ids)"

definition slots_of :: "bool \<Rightarrow> hash set \<Rightarrow> rpc_tx list \<Rightarrow> payload_slots \<times> output_slots \<times> nat" where
  "slots_of ws R txs =
     ((\<lambda>i. if i \<in> R then Some (map_option rt_payload (find_tx txs i)) else None),
      (\<lambda>i. if i \<in> R then Some (map_option (\<lambda>t. map (output_info ws) (rt_outputs t)) (find_tx txs i)) else None),
      card {i \<in> R. find_tx txs i = None})"

lemma find_append: "List.find P (xs @ ys) = (case List.find P xs of None \<Rightarrow> List.find P ys | Some x \<Rightarrow> Some x)"
  by (induction xs) auto

lemma find_tx_snoc:
  "find_tx (txs @ [t]) i = (if find_tx txs i = None \<and> rt_id t = Some i then Some t else find_tx txs i)"
  by (auto simp: find_tx_def find_append split: option.splits)

lemma take_tx_slots:
  assumes "finite R" shows "take_tx ws t (slots_of ws R txs) = slots_of ws R (txs @ [t])"
proof (cases "rt_id t")
  case None
  then have "find_tx (txs @ [t]) = find_tx txs" by (simp add: fun_eq_iff find_tx_snoc)
  with None show ?thesis by (simp add: take_tx_def slots_of_def cong: if_cong)
next
  case (Some i)
  show ?thesis
  proof (cases "i \<in> R \<and> find_tx txs i = None")
    case True
    have "{j \<in> R. find_tx (txs @ [t]) j = None} = {j \<in> R. find_tx txs j = None} - {i}"
      using Some True by (auto simp: find_tx_snoc)
    with True assms have "card {j \<in> R. find_tx (txs @ [t]) j = None} = card {j \<in> R. find_tx txs j = None} - 1"
      by simp
    with Some True show ?thesis
      by (auto simp: take_tx_def slots_of_def find_tx_snoc fun_eq_iff)
  next
    case False
    then have "find_tx (txs @ [t]) j = find_tx txs j" if "j \<in> R" for j
      using Some that by (auto simp: find_tx_snoc)
    then have eq: "slots_of ws R (txs @ [t]) = slots_of ws R txs"
      by (auto simp: slots_of_def fun_eq_iff cong: conj_cong)
    from False Some show ?thesis
      unfolding eq by (auto simp: take_tx_def slots_of_def)
  qed
qed

lemma slots_full:
  assumes "finite R" and "snd (snd (slots_of ws R txs)) = 0"
  shows "slots_of ws R (txs @ txs') = slots_of ws R txs"
proof -
  have all: "find_tx txs i \<noteq> None" if "i \<in> R" for i
    using assms that by (auto simp: slots_of_def)
  then have "find_tx (txs @ txs') i = find_tx txs i" if "i \<in> R" for i
    using that by (force simp: find_tx_def find_append split: option.splits)
  then show ?thesis by (auto simp: slots_of_def fun_eq_iff cong: conj_cong)
qed

lemma scan_txs_slots:
  "finite R \<Longrightarrow> scan_txs ws txs (slots_of ws R done) = slots_of ws R (done @ txs)"
proof (induction txs arbitrary: "done")
  case (Cons t txs)
  obtain ps os num where s: "slots_of ws R done = (ps, os, num)" by (cases "slots_of ws R done")
  show ?case
  proof (cases "num = 0")
    case True
    with s slots_full [OF Cons.prems, of ws "done" "t # txs"] show ?thesis by simp
  next
    case False
    have "scan_txs ws (t # txs) (slots_of ws R done) = scan_txs ws txs (slots_of ws R (done @ [t]))"
      using False take_tx_slots [OF Cons.prems, of ws t "done"] by (simp add: s)
    with Cons show ?thesis by simp
  qed
qed simp

lemma scan_blocks_slots:
  "finite R \<Longrightarrow> scan_blocks ws gb hs (slots_of ws R done) =
     slots_of ws R (done @ concat (map (\<lambda>h. case gb h True of None \<Rightarrow> [] | Some b \<Rightarrow> drop 1 (rb_txs b)) hs))"
proof (induction hs arbitrary: "done")
  case (Cons h hs)
  obtain ps os num where s: "slots_of ws R done = (ps, os, num)" by (cases "slots_of ws R done")
  show ?case
  proof (cases "num = 0")
    case True
    with s slots_full [OF Cons.prems, of ws "done"] show ?thesis by simp
  next
    case False
    show ?thesis
    proof (cases "gb h True")
      case None
      with False Cons.IH [OF Cons.prems, of "done"] show ?thesis by (simp add: s)
    next
      case (Some b)
      with False Cons.IH [OF Cons.prems, of "done @ drop 1 (rb_txs b)"]
        scan_txs_slots [OF Cons.prems, of ws "drop 1 (rb_txs b)" "done"] show ?thesis
        by (simp add: s)
    qed
  qed
qed simp

lemma check_header_unique: "check_header pl p \<Longrightarrow> check_header pl q \<Longrightarrow> p = q"
  by (metis check_header_def le_word_roundtrip(2))

text \<open>The slots once everything was found and the ids in \<open>C\<close> were handed out.\<close>

definition open_slots :: "bool \<Rightarrow> (hash \<Rightarrow> rpc_tx) \<Rightarrow> hash set \<Rightarrow> payload_slots \<times> output_slots" where
  "open_slots ws f A =
     ((\<lambda>i. if i \<in> A then Some (Some (rt_payload (f i))) else None),
      (\<lambda>i. if i \<in> A then Some (Some (map (output_info ws) (rt_outputs (f i)))) else None))"

definition tx_entry :: "bool \<Rightarrow> (hash \<Rightarrow> rpc_tx) \<Rightarrow> hash \<Rightarrow> hash \<times> bytes \<times> tx_output_info list option" where
  "tx_entry ws f i = (i, drop 8 (rt_payload (f i)), Some (map (output_info ws) (rt_outputs (f i))))"

definition mine :: "(hash \<Rightarrow> rpc_tx) \<Rightarrow> pattern \<Rightarrow> prefix \<Rightarrow> hash \<Rightarrow> bool" where
  "mine f pat p i \<longleftrightarrow> check_pattern i pat \<and> check_header (rt_payload (f i)) p"

lemma associate_open:
  "distinct ids \<Longrightarrow> associate pat p ids (open_slots ws f A) =
     (map (tx_entry ws f) (filter (\<lambda>i. i \<in> A \<and> mine f pat p i) ids),
      open_slots ws f (A - {i \<in> set ids. mine f pat p i}))"
proof (induction ids arbitrary: A)
  case Nil
  then show ?case by (simp add: open_slots_def)
next
  case (Cons i ids)
  show ?case
  proof (cases "i \<in> A \<and> mine f pat p i")
    case True
    have upd: "((fst (open_slots ws f A))(i := None), (snd (open_slots ws f A))(i := None)) = open_slots ws f (A - {i})"
      by (auto simp: open_slots_def fun_eq_iff)
    have "filter (\<lambda>j. j \<in> A - {i} \<and> mine f pat p j) ids = filter (\<lambda>j. j \<in> A \<and> mine f pat p j) ids"
      using Cons.prems by (intro filter_cong) auto
    moreover have "A - {i} - {j \<in> set ids. mine f pat p j} = A - {j \<in> set (i # ids). mine f pat p j}"
      using True by auto
    ultimately show ?thesis
      using True Cons.IH [of "A - {i}"] Cons.prems upd
      by (simp add: open_slots_def mine_def tx_entry_def)
  next
    case False
    then have "A - {j \<in> set (i # ids). mine f pat p j} = A - {j \<in> set ids. mine f pat p j}" by auto
    with False Cons.IH [of A] Cons.prems show ?thesis
      by (auto simp: open_slots_def mine_def)
  qed
qed

definition engine_msgs ::
  "bool \<Rightarrow> (hash \<Rightarrow> rpc_tx) \<Rightarrow> hash \<Rightarrow> rpc_block \<Rightarrow> hash list \<Rightarrow> prefix \<times> pattern \<Rightarrow> (prefix \<times> engine_msg) list" where
  "engine_msgs ws f h blk ids = (\<lambda>(p, pat).
     let txs = map (tx_entry ws f) (filter (mine f pat p) ids)
     in if txs = [] then [] else [(p, BlkAccepted h (rb_daa blk) (rb_timestamp blk div 1000) txs)])"

lemma engine_msgs_none:
  "(\<And>i. i \<in> set ids \<Longrightarrow> \<not> mine f pat p i) \<Longrightarrow> engine_msgs ws f h blk ids (p, pat) = []"
  by (auto simp: engine_msgs_def Let_def filter_empty_conv)

lemma dispatch_open:
  assumes "distinct req" and "distinct (map fst engines)" and "A \<subseteq> set req"
    and "\<forall>(p, pat) \<in> set engines. \<forall>i \<in> set req - A. \<not> mine f pat p i"
    and "consumed = card (set req - A)"
  shows "dispatch h blk req engines (open_slots ws f A) consumed = concat (map (engine_msgs ws f h blk req) engines)"
  using assms(2-)
proof (induction engines arbitrary: A consumed)
  case (Cons e engines)
  obtain p pat where e: "e = (p, pat)" by (cases e)
  let ?B = "A - {i \<in> set req. mine f pat p i}"
  let ?txs = "map (tx_entry ws f) (filter (mine f pat p) req)"
  have filt: "filter (\<lambda>i. i \<in> A \<and> mine f pat p i) req = filter (mine f pat p) req"
    using Cons.prems(3) e by (intro filter_cong) auto
  have "set req - ?B = (set req - A) \<union> set (filter (mine f pat p) req)" by auto
  moreover have "(set req - A) \<inter> set (filter (mine f pat p) req) = {}" using Cons.prems(3) e by auto
  moreover have "card (set (filter (mine f pat p) req)) = length ?txs"
    using distinct_card [OF distinct_filter [OF assms(1)], of "mine f pat p"] by (simp del: set_filter)
  ultimately have consumed: "consumed + length ?txs = card (set req - ?B)"
    using Cons.prems(4) by (simp add: card_Un_disjoint)
  have rest: "\<not> mine f pat' p' i" if "(p', pat') \<in> set engines" "i \<in> set req - ?B" for p' pat' i
  proof
    assume m: "mine f pat' p' i"
    with that Cons.prems(3) have "i \<in> A" by fastforce
    with that(2) have "mine f pat p i" by auto
    with m have "p = p'" by (auto simp: mine_def intro: check_header_unique)
    with Cons.prems(1) that(1) e show False by force
  qed
  have IH: "dispatch h blk req engines (open_slots ws f ?B) (consumed + length ?txs) =
      concat (map (engine_msgs ws f h blk req) engines)"
    using Cons.prems(1,2) rest consumed by (intro Cons.IH) auto
  have stop: "concat (map (engine_msgs ws f h blk req) engines) = []" if "consumed + length ?txs = length req"
  proof -
    have "card (set req - ?B) = card (set req)" using that consumed assms(1) by (simp add: distinct_card)
    then have "set req - ?B = set req" by (intro card_subset_eq) auto
    with rest show ?thesis by (fastforce intro: engine_msgs_none)
  qed
  show ?case
    using IH stop associate_open [OF assms(1), of pat p ws f A] filt
    by (auto simp: e engine_msgs_def Let_def open_slots_def)
qed simp

lemma engine_txs_required:
  assumes "(p, pat) \<in> set engines" and "\<not> (\<exists>i \<in> set (required_txs engines ids). find_tx txs i = None)"
  shows "map (tx_entry ws (\<lambda>i. the (find_tx txs i))) (filter (mine (\<lambda>i. the (find_tx txs i)) pat p) (required_txs engines ids)) =
    engine_txs ws txs pat p (drop 1 ids)"
proof -
  have pat: "list_ex (\<lambda>(_, pat). check_pattern i pat) engines" if "check_pattern i pat" for i
    using assms(1) that by (auto simp: list_ex_iff)
  have "(\<forall>i \<in> set (filter (\<lambda>i. list_ex (\<lambda>(_, pat). check_pattern i pat) engines) js). find_tx txs i \<noteq> None) \<Longrightarrow>
    map (tx_entry ws (\<lambda>i. the (find_tx txs i))) (filter (mine (\<lambda>i. the (find_tx txs i)) pat p)
      (filter (\<lambda>i. list_ex (\<lambda>(_, pat). check_pattern i pat) engines) js)) = engine_txs ws txs pat p js" for js
  proof (induction js)
    case Nil
    then show ?case by (simp add: engine_txs_def)
  next
    case (Cons j js)
    then show ?case using pat [of j]
      by (cases "list_ex (\<lambda>(_, pat). check_pattern j pat) engines"; cases "find_tx txs j")
        (auto simp: engine_txs_def mine_def tx_entry_def)
  qed
  with assms(2) show ?thesis by (auto simp: required_txs_def)
qed

text \<open>
  C4: delivery to the engines is exact and all-or-nothing. When the accepting block and its verbose
  data are available, either some transaction matching an engine's pattern is in no merged block
  the node delivers, and nobody hears of the block; or every engine gets, in one message,
  exactly the accepted non-coinbase transactions with its pattern and prefix, in acceptance
  order, stripped of the header, with their outputs and the block's time in seconds (engines
  without such a transaction get nothing). The order in which the engines are visited, the
  entries other engines consumed and the early exits of the loops do not matter.
\<close>

theorem accept_chain_block_exact:
  assumes "distinct (drop 1 (cb_tx_ids ncb))" and "distinct (map fst engines)"
    and "gb (cb_hash ncb) False = Some blk" and "rb_verbose blk = Some v"
  shows "accept_chain_block ws gb engines ncb =
    (if \<exists>i \<in> set (required_txs engines (cb_tx_ids ncb)). find_tx (merged_txs gb v) i = None then []
     else concat (map (\<lambda>(p, pat).
       let txs = engine_txs ws (merged_txs gb v) pat p (drop 1 (cb_tx_ids ncb))
       in if txs = [] then [] else [(p, BlkAccepted (cb_hash ncb) (rb_daa blk) (rb_timestamp blk div 1000) txs)])
       engines))"
proof -
  let ?req = "required_txs engines (cb_tx_ids ncb)" and ?M = "merged_txs gb v"
  let ?f = "\<lambda>i. the (find_tx ?M i)"
  have dist: "distinct ?req" using assms(1) by (simp add: required_txs_def)
  have start: "((\<lambda>i. if i \<in> set ?req then Some None else None), (\<lambda>i. if i \<in> set ?req then Some None else None),
      card (set ?req)) = slots_of ws (set ?req) []"
    by (auto simp: slots_of_def find_tx_def fun_eq_iff)
  have scan: "scan_blocks ws gb (merge_set_blues v @ merge_set_reds v) (slots_of ws (set ?req) []) = slots_of ws (set ?req) ?M"
    using scan_blocks_slots [of "set ?req" ws gb _ "[]"] by (simp add: merged_txs_def)
  have missing: "snd (snd (slots_of ws (set ?req) ?M)) \<noteq> 0 \<longleftrightarrow> (\<exists>i \<in> set ?req. find_tx ?M i = None)"
    by (auto simp: slots_of_def)
  have acc: "accept_chain_block ws gb engines ncb =
      (if \<exists>i \<in> set ?req. find_tx ?M i = None then []
       else dispatch (cb_hash ncb) blk ?req engines (fst (slots_of ws (set ?req) ?M), fst (snd (slots_of ws (set ?req) ?M))) 0)"
  proof (cases "?req = []")
    case True
    have "dispatch (cb_hash ncb) blk [] engines s 0 = []" for s
      by (cases engines; cases s) auto
    with True show ?thesis by (simp add: accept_chain_block_def)
  next
    case False
    then have "accept_chain_block ws gb engines ncb =
      (let (ps', os', left) = slots_of ws (set ?req) ?M
       in if left \<noteq> 0 then [] else dispatch (cb_hash ncb) blk ?req engines (ps', os') 0)"
      using assms(3,4)
      by (simp only: accept_chain_block_def Let_def length_remdups_card_conv start) (simp add: scan)
    with missing show ?thesis by (auto simp: split_beta Let_def)
  qed
  show ?thesis
  proof (cases "\<exists>i \<in> set ?req. find_tx ?M i = None")
    case True
    with acc show ?thesis by simp
  next
    case False
    then have found: "find_tx ?M i = Some (?f i)" if "i \<in> set ?req" for i using that by auto
    have slots: "(fst (slots_of ws (set ?req) ?M), fst (snd (slots_of ws (set ?req) ?M))) = open_slots ws ?f (set ?req)"
      using found by (auto simp: slots_of_def open_slots_def fun_eq_iff)
    have d: "dispatch (cb_hash ncb) blk ?req engines (open_slots ws ?f (set ?req)) 0 =
        concat (map (engine_msgs ws ?f (cb_hash ncb) blk ?req) engines)"
      using dist assms(2) by (intro dispatch_open) auto
    have "engine_msgs ws ?f (cb_hash ncb) blk ?req e = (\<lambda>(p, pat).
       let txs = engine_txs ws ?M pat p (drop 1 (cb_tx_ids ncb))
       in if txs = [] then [] else [(p, BlkAccepted (cb_hash ncb) (rb_daa blk) (rb_timestamp blk div 1000) txs)]) e"
      if "e \<in> set engines" for e
    proof -
      obtain p pat where e: "e = (p, pat)" by (cases e)
      have "map (tx_entry ws ?f) (filter (mine ?f pat p) ?req) = engine_txs ws ?M pat p (drop 1 (cb_tx_ids ncb))"
        using False that unfolding e by (intro engine_txs_required)
      then show ?thesis by (simp only: e engine_msgs_def prod.case)
    qed
    then have eq: "map (engine_msgs ws ?f (cb_hash ncb) blk ?req) engines = map (\<lambda>(p, pat).
       let txs = engine_txs ws ?M pat p (drop 1 (cb_tx_ids ncb))
       in if txs = [] then [] else [(p, BlkAccepted (cb_hash ncb) (rb_daa blk) (rb_timestamp blk div 1000) txs)]) engines"
      by (rule map_cong [OF refl])
    show ?thesis by (simp only: acc if_not_P [OF False] slots d eq)
  qed
qed

text \<open>Two engines, four accepted transactions, the last of them in a red merged block.\<close>

definition demo_engines :: engine_map where
  "demo_engines = [(5, [(0, 1)]), (6, [(0, 1), (1, 1)])]"

definition demo_rpc_tx :: "u8 \<Rightarrow> bytes \<Rightarrow> rpc_tx" where
  "demo_rpc_tx i payload = \<lparr>rt_id = Some [i], rt_payload = payload,
     rt_outputs = [\<lparr>ro_value = 9, ro_version = 0, ro_script = [1]\<rparr>]\<rparr>"

definition demo_node :: get_block where
  "demo_node h full =
     (let txs = (if h = [201] then [demo_rpc_tx 90 [], demo_rpc_tx 1 [5, 0, 0, 0, 7, 0, 0, 0, 42], demo_rpc_tx 2 []]
                 else if h = [202] then [demo_rpc_tx 91 [], demo_rpc_tx 3 [6, 0, 0, 0, 7, 0, 0, 0, 43]] else [])
      in if h = [203] then None
         else Some \<lparr>rb_timestamp = 1500, rb_daa = 77,
           rb_verbose = Some \<lparr>selected_parent = [201], merge_set_blues = [[203], [201]], merge_set_reds = [[202]]\<rparr>,
           rb_txs = (if full then txs else [])\<rparr>)"

theorem accept_chain_block_exact_witness:
  "accept_chain_block False demo_node demo_engines \<lparr>cb_hash = [200], cb_tx_ids = [[90], [3], [2], [1]]\<rparr> =
    [(5, BlkAccepted [200] 77 1 [([1], [42], Some [\<lparr>out_value = 9, script_version = 0, script_bytes = None\<rparr>])]),
     (6, BlkAccepted [200] 77 1 [([3], [43], Some [\<lparr>out_value = 9, script_version = 0, script_bytes = None\<rparr>])])]"
proof -
  let ?v = "\<lparr>selected_parent = [201], merge_set_blues = [[203], [201]], merge_set_reds = [[202]]\<rparr>"
  let ?M = "[demo_rpc_tx 1 [5, 0, 0, 0, 7, 0, 0, 0, 42], demo_rpc_tx 2 [], demo_rpc_tx 3 [6, 0, 0, 0, 7, 0, 0, 0, 43]]"
  have merged: "merged_txs demo_node ?v = ?M"
    by (simp add: merged_txs_def demo_node_def)
  have "required_txs demo_engines [[90], [3], [2], [1]] = [[3], [1]]"
    by (simp add: required_txs_def demo_engines_def)
  then have found: "\<not> (\<exists>i \<in> set (required_txs demo_engines [[90], [3], [2], [1]]). find_tx ?M i = None)"
    by (simp add: find_tx_def demo_rpc_tx_def)
  have txs: "engine_txs False ?M [(0, 1)] 5 [[3], [2], [1]] =
        [([1], [42], Some [\<lparr>out_value = 9, script_version = 0, script_bytes = None\<rparr>])]"
      "engine_txs False ?M [(0, 1), (1, 1)] 6 [[3], [2], [1]] =
        [([3], [43], Some [\<lparr>out_value = 9, script_version = 0, script_bytes = None\<rparr>])]"
    by (simp_all add: engine_txs_def find_tx_def demo_rpc_tx_def check_header_def u32_le_def output_info_def
        nat_le_numeral)
  show ?thesis
    using accept_chain_block_exact [of "\<lparr>cb_hash = [200], cb_tx_ids = [[90], [3], [2], [1]]\<rparr>" demo_engines
        demo_node "\<lparr>rb_timestamp = 1500, rb_daa = 77, rb_verbose = Some ?v, rb_txs = []\<rparr>" ?v False,
        unfolded chain_block.simps merged, simplified found if_False]
    by (simp add: demo_node_def demo_engines_def txs)
qed

section \<open>From the generator to the listener\<close>

text \<open>
  C10: a transaction the generator builds is one the listener delivers. If signing changes neither the
  id nor the payload (the id does not cover signatures), the id of a built transaction matches
  the generator's pattern, its payload carries the generator's prefix, no other prefix matches
  it, and stripping the header gives the payload back.
\<close>

theorem generated_tx_routable:
  assumes "\<And>tx es. id_of te (sign_tx te tx es) = id_of te tx" and "\<And>tx es. tx_payload (sign_tx te tx es) = tx_payload tx"
    and "build_transaction te g utxos send n script payload = Some tx"
  shows "check_pattern (id_of te tx) (gen_pattern g) \<and> strip_header (tx_payload tx) = Some payload \<and>
    (\<forall>p. check_header (tx_payload tx) p \<longleftrightarrow> p = gen_prefix g)"
  using built_transaction [OF assms(3)] assms(1,2) by auto

theorem generated_tx_routable_witness:
  "\<exists>tx. build_transaction \<lparr>id_of = (\<lambda>tx. drop 4 (tx_payload tx)), sign_tx = (\<lambda>tx _. tx)\<rparr>
      \<lparr>gen_pattern = [(0, 0), (1, 0)], gen_prefix = 5\<rparr> [] 10 1 [] [9] = Some tx \<and>
    strip_header (tx_payload tx) = Some [9]"
proof -
  let ?te = "\<lparr>id_of = (\<lambda>tx. drop 4 (tx_payload tx)), sign_tx = (\<lambda>tx _. tx)\<rparr>"
  have "\<exists>tx. build_transaction ?te \<lparr>gen_pattern = [(0, 0), (1, 0)], gen_prefix = 5\<rparr> [] 10 1 [] [9] = Some tx"
    by (simp add: build_transaction_def pack_header_def u32_le_def nat_le_numeral find_nonce.simps)
  then obtain tx where tx: "build_transaction ?te \<lparr>gen_pattern = [(0, 0), (1, 0)], gen_prefix = 5\<rparr> [] 10 1 [] [9] = Some tx"
    by blast
  have "strip_header (tx_payload tx) = Some [9]"
    using generated_tx_routable [OF _ _ tx] by simp
  with tx show ?thesis by blast
qed

end
