(* ===== verification/Lottery.thy ===== *)
theory Lottery
  imports Engine
begin

text \<open>
  The lottery episode (\<^verbatim>\<open>kas-draw/src/episode.rs\<close>): its commands, its state, every operation of
  its \<^verbatim>\<open>Episode\<close> implementation, the invariant the commands keep, the conservation of the
  money that goes through the prize pool, and what its rollbacks do not restore.
\<close>

section \<open>Data\<close>

datatype lottery_command =
    BuyTicket "u8 list" u64
  | ExecuteDraw string
  | ClaimPrize u64 u64
  | CloseEpisode

datatype lottery_rollback =
    UndoBuyTicket u64
  | UndoExecuteDraw u64 u64
  | UndoClaimPrize u64
  | UndoClose

datatype lottery_error = InvalidNumbers | IncorrectPrice | NoTicket | DrawNotReady | LotteryUnauthorized

record ticket =
  ticket_id :: u64
  ticket_player :: pubkey
  ticket_numbers :: "u8 list"
  ticket_round :: u64

record lottery =
  ticket_price :: u64
  numbers_range :: "u8 \<times> u8"
  numbers_per_ticket :: u8
  draw_interval_secs :: u64
  current_round :: u64
  round_start_time :: u64
  next_draw_time :: u64
  prize_pool :: u64
  authorized :: "pubkey list"
  tickets :: "(u64, ticket) bmap"
  next_ticket_id :: u64
  last_winner :: "u64 option"
  winner_paid :: bool
  paused :: bool

type_synonym lottery_result = "lottery \<times> (lottery_error episode_error + lottery_rollback)"

section \<open>Operations\<close>

definition validate_numbers :: "lottery \<Rightarrow> u8 list \<Rightarrow> bool" where
  "validate_numbers g numbers =
     (if numbers_per_ticket g \<noteq> 5 then False
      else let (lo, hi) = numbers_range g; v = sort numbers
        in successively (<) v \<and> list_all (\<lambda>n. n \<ge> lo \<and> n \<le> hi) v)"

definition lottery_initialize :: "pubkey list \<Rightarrow> metadata \<Rightarrow> lottery" where
  "lottery_initialize participants md =
     \<lparr>ticket_price = 100000000, numbers_range = (1, 35), numbers_per_ticket = 5, draw_interval_secs = 15,
      current_round = 0, round_start_time = accepting_time md, next_draw_time = accepting_time md + 15,
      prize_pool = 0, authorized = participants, tickets = [], next_ticket_id = 1, last_winner = None,
      winner_paid = False, paused = False\<rparr>"

definition buy_ticket :: "lottery \<Rightarrow> u8 list \<Rightarrow> u64 \<Rightarrow> pubkey option \<Rightarrow> metadata \<Rightarrow> lottery_result" where
  "buy_ticket g numbers entry_amount authorization md =
     (case authorization of
        None \<Rightarrow> (g, Inl Unauthorized)
      | Some pk \<Rightarrow>
          if pk \<notin> set (authorized g) then (g, Inl Unauthorized)
          else if \<not> validate_numbers g numbers then (g, Inl (InvalidCommand InvalidNumbers))
          else if entry_amount \<noteq> ticket_price g then (g, Inl (InvalidCommand IncorrectPrice))
          else if (case tx_outputs md of
                     None \<Rightarrow> False
                   | Some outs \<Rightarrow> \<not> list_ex (\<lambda>out. out_value out \<ge> ticket_price g) outs)
            then (g, Inl (InvalidCommand IncorrectPrice))
          else let i = next_ticket_id g;
                   t = \<lparr>ticket_id = i, ticket_player = pk, ticket_numbers = numbers, ticket_round = current_round g\<rparr>
            in (g\<lparr>next_ticket_id := i + 1, tickets := bm_insert i t (tickets g),
                  prize_pool := sat_add (prize_pool g) entry_amount\<rparr>,
                Inr (UndoBuyTicket i)))"

text \<open>\<^verbatim>\<open>usize\<close> has 64 bits; the keys of a \<^verbatim>\<open>BTreeMap\<close> come sorted, the code sorts them again.\<close>

definition execute_draw :: "lottery \<Rightarrow> metadata \<Rightarrow> lottery_result" where
  "execute_draw g md =
     (if accepting_time md < next_draw_time g then (g, Inl (InvalidCommand DrawNotReady))
      else let g1 = (if tickets g \<noteq> [] then
                let ids = sort (map fst (tickets g));
                    idx = unat (le_u64 (take 8 (accepting_hash md))) mod length ids
                in g\<lparr>last_winner := Some (ids ! idx), winner_paid := False\<rparr>
              else g)
        in (g1\<lparr>next_draw_time := accepting_time md + draw_interval_secs g1\<rparr>,
            Inr (UndoExecuteDraw (current_round g1) (prize_pool g1))))"

definition claim_prize :: "lottery \<Rightarrow> u64 \<Rightarrow> lottery_result" where
  "claim_prize g i =
     (case (last_winner g, map_of (tickets g) i) of
        (Some wid, Some _) \<Rightarrow>
          if wid = i \<and> \<not> winner_paid g
          then (g\<lparr>prize_pool := 0, winner_paid := True\<rparr>, Inr (UndoClaimPrize i))
          else (g, Inl (InvalidCommand NoTicket))
      | _ \<Rightarrow> (g, Inl (InvalidCommand NoTicket)))"

definition close_episode :: "lottery \<Rightarrow> lottery_result" where
  "close_episode g =
     (if paused g then (g, Inl (InvalidCommand LotteryUnauthorized))
      else (g\<lparr>paused := True\<rparr>, Inr UndoClose))"

definition lottery_execute :: "lottery \<Rightarrow> lottery_command \<Rightarrow> pubkey option \<Rightarrow> metadata \<Rightarrow> lottery_result" where
  "lottery_execute g cmd authorization md =
     (if paused g then (g, Inl (InvalidCommand LotteryUnauthorized))
      else case cmd of
        BuyTicket numbers entry_amount \<Rightarrow> buy_ticket g numbers entry_amount authorization md
      | ExecuteDraw _ \<Rightarrow> execute_draw g md
      | ClaimPrize i _ \<Rightarrow> claim_prize g i
      | CloseEpisode \<Rightarrow> close_episode g)"

fun lottery_rollback_cmd :: "lottery \<Rightarrow> lottery_rollback \<Rightarrow> lottery \<times> bool" where
  "lottery_rollback_cmd g (UndoBuyTicket i) =
     (case map_of (tickets g) i of
        Some _ \<Rightarrow> (g\<lparr>tickets := bm_remove i (tickets g), prize_pool := sat_sub (prize_pool g) (ticket_price g)\<rparr>, True)
      | None \<Rightarrow> (g, False))"
| "lottery_rollback_cmd g (UndoExecuteDraw round_before prize_pool_before) =
     (g\<lparr>current_round := round_before, prize_pool := prize_pool_before, last_winner := None, winner_paid := False\<rparr>, True)"
| "lottery_rollback_cmd g (UndoClaimPrize _) = (g\<lparr>prize_pool := ticket_price g, winner_paid := False\<rparr>, True)"
| "lottery_rollback_cmd g UndoClose = (g\<lparr>paused := False\<rparr>, True)"

definition lottery_episode :: "(lottery, lottery_command, lottery_rollback, lottery_error) episode_impl" where
  "lottery_episode = \<lparr>ep_initialize = lottery_initialize,
     ep_execute = (\<lambda>g cmd a md. Some (lottery_execute g cmd a md)),
     ep_rollback = (\<lambda>g rb. Some (lottery_rollback_cmd g rb))\<rparr>"

section \<open>The invariant\<close>

lemma successively_strict: "successively (<) (xs :: 'a::linorder list) \<longleftrightarrow> sorted_wrt (<) xs"
  by (rule successively_conv_sorted_wrt) (auto simp: transp_on_def)

lemma length_bm_insert_fresh: "k \<notin> fst ` set m \<Longrightarrow> length (bm_insert k v m) = Suc (length m)"
  by (induction k v m rule: bm_insert.induct) auto

lemma set_bm_insert_fresh: "k \<notin> fst ` set m \<Longrightarrow> set (bm_insert k v m) = insert (k, v) (set m)"
  by (induction k v m rule: bm_insert.induct) auto

definition ticket_ok :: "lottery \<Rightarrow> u64 \<Rightarrow> ticket \<Rightarrow> bool" where
  "ticket_ok g i t \<longleftrightarrow> ticket_id t = i \<and> i \<noteq> 0 \<and> i < next_ticket_id g \<and> ticket_player t \<in> set (authorized g) \<and>
     distinct (ticket_numbers t) \<and> (\<forall>n \<in> set (ticket_numbers t). 1 \<le> n \<and> n \<le> 35)"

definition lottery_inv :: "lottery \<Rightarrow> bool" where
  "lottery_inv g \<longleftrightarrow> ticket_price g = 100000000 \<and> numbers_range g = (1, 35) \<and> numbers_per_ticket g = 5 \<and>
     bm_wf (tickets g) \<and> unat (next_ticket_id g) = Suc (length (tickets g)) \<and>
     (\<forall>(i, t) \<in> set (tickets g). ticket_ok g i t) \<and>
     (case last_winner g of None \<Rightarrow> \<not> winner_paid g | Some wid \<Rightarrow> wid \<in> fst ` set (tickets g))"

lemma lottery_init_inv: "lottery_inv (lottery_initialize ps md)"
  by (simp add: lottery_inv_def lottery_initialize_def)

text \<open>What a successful command does, one case per command.\<close>

lemma lottery_ok_cases:
  assumes "lottery_execute g c a md = (g', Inr r)"
  obtains (buy) numbers pk t where "c = BuyTicket numbers (ticket_price g)" "a = Some pk" "pk \<in> set (authorized g)"
      "validate_numbers g numbers"
      "t = \<lparr>ticket_id = next_ticket_id g, ticket_player = pk, ticket_numbers = numbers, ticket_round = current_round g\<rparr>"
      "g' = g\<lparr>next_ticket_id := next_ticket_id g + 1, tickets := bm_insert (next_ticket_id g) t (tickets g),
         prize_pool := sat_add (prize_pool g) (ticket_price g)\<rparr>" "r = UndoBuyTicket (next_ticket_id g)"
  | (draw) src wid where "c = ExecuteDraw src" "tickets g \<noteq> []" "wid \<in> fst ` set (tickets g)"
      "g' = g\<lparr>last_winner := Some wid, winner_paid := False, next_draw_time := accepting_time md + draw_interval_secs g\<rparr>"
      "r = UndoExecuteDraw (current_round g) (prize_pool g)"
  | (empty) src where "c = ExecuteDraw src" "tickets g = []"
      "g' = g\<lparr>next_draw_time := accepting_time md + draw_interval_secs g\<rparr>"
      "r = UndoExecuteDraw (current_round g) (prize_pool g)"
  | (claim) i rd where "c = ClaimPrize i rd" "last_winner g = Some i" "\<not> winner_paid g" "map_of (tickets g) i \<noteq> None"
      "g' = g\<lparr>prize_pool := 0, winner_paid := True\<rparr>" "r = UndoClaimPrize i"
  | (close) "c = CloseEpisode" "g' = g\<lparr>paused := True\<rparr>" "r = UndoClose"
proof (cases c)
  case (BuyTicket numbers amount)
  with assms obtain pk where "a = Some pk"
    by (auto simp: lottery_execute_def buy_ticket_def split: if_splits option.splits)
  with assms BuyTicket show ?thesis
    by (intro buy [of numbers pk]) (auto simp: lottery_execute_def buy_ticket_def Let_def split: if_splits option.splits)
next
  case (ExecuteDraw src)
  show ?thesis
  proof (cases "tickets g = []")
    case True
    with assms ExecuteDraw show ?thesis
      by (intro empty) (auto simp: lottery_execute_def execute_draw_def Let_def split: if_splits)
  next
    case False
    let ?ids = "sort (map fst (tickets g))"
    let ?idx = "unat (le_u64 (take 8 (accepting_hash md))) mod length ?ids"
    have "?ids ! ?idx \<in> set ?ids" using False by (intro nth_mem) simp
    then have "?ids ! ?idx \<in> fst ` set (tickets g)" by simp
    with assms ExecuteDraw False show ?thesis
      by (intro draw [of src "?ids ! ?idx"]) (auto simp: lottery_execute_def execute_draw_def Let_def split: if_splits)
  qed
next
  case (ClaimPrize i rd)
  with assms show ?thesis
    by (intro claim [of i rd]) (auto simp: lottery_execute_def claim_prize_def split: if_splits option.splits)
next
  case CloseEpisode
  with assms show ?thesis
    by (intro close) (auto simp: lottery_execute_def close_episode_def split: if_splits)
qed

lemma lottery_err: "lottery_execute g c a md = (g', Inl e) \<Longrightarrow> g' = g"
  by (cases c) (auto simp: lottery_execute_def buy_ticket_def execute_draw_def claim_prize_def close_episode_def Let_def
      split: if_splits option.splits)

lemma validate_numbersD:
  "validate_numbers g ns \<Longrightarrow> numbers_range g = (lo, hi) \<Longrightarrow> distinct ns \<and> (\<forall>n \<in> set ns. lo \<le> n \<and> n \<le> hi)"
  by (auto simp: validate_numbers_def successively_strict strict_sorted_iff list_all_iff split: if_splits)

lemma lottery_inv_step:
  assumes "lottery_inv g" and "lottery_execute g c a md = (g', Inr r)" and "length (tickets g) < 2 ^ 63"
  shows "lottery_inv g'"
  using assms(2)
proof (cases rule: lottery_ok_cases)
  case (buy numbers pk t)
  have nxt: "unat (next_ticket_id g) = Suc (length (tickets g))" using assms(1) by (simp add: lottery_inv_def)
  moreover have "unat (- 1 :: u64) = 2 ^ 64 - 1" by (simp add: unsigned_minus_1_eq_mask mask_eq_exp_minus_1)
  ultimately have nz: "next_ticket_id g \<noteq> - 1" "next_ticket_id g \<noteq> 0" using assms(3) by auto
  have lt: "next_ticket_id g < next_ticket_id g + 1" using unat_succ [OF nz(1)] by (simp add: word_less_nat_alt)
  have fresh: "next_ticket_id g \<notin> fst ` set (tickets g)"
    using assms(1) by (auto simp: lottery_inv_def ticket_ok_def)
  have t: "ticket_ok g' (next_ticket_id g) t"
    using validate_numbersD [OF buy(4), of 1 35] assms(1) nz lt buy(3) by (simp add: buy(5,6) ticket_ok_def lottery_inv_def)
  have "ticket_ok g' i u" if "(i, u) \<in> set (tickets g)" for i u
    using assms(1) that lt by (fastforce simp: buy(6) ticket_ok_def lottery_inv_def)
  with t assms(1) nxt fresh show ?thesis
    by (auto simp: buy(6) lottery_inv_def set_bm_insert_fresh length_bm_insert_fresh unat_succ [OF nz(1)] split: option.splits)
next
  case (claim i rd)
  with assms(1) show ?thesis by (auto simp: lottery_inv_def ticket_ok_def)
qed (use assms(1) in \<open>auto simp: lottery_inv_def ticket_ok_def split: option.splits\<close>)

lemma length_bm_insert_le: "length (bm_insert k v m) \<le> Suc (length m)"
  by (induction k v m rule: bm_insert.induct) auto

lemma tickets_grow:
  assumes "lottery_execute g c a md = (g', res)"
  shows "length (tickets g') \<le> Suc (length (tickets g))"
proof (cases res)
  case (Inr r)
  with assms have "lottery_execute g c a md = (g', Inr r)" by simp
  then show ?thesis by (cases rule: lottery_ok_cases) (auto simp: length_bm_insert_le)
qed (use assms lottery_err [of g c a md g'] in auto)

section \<open>Runs of commands\<close>

text \<open>What the successful claims of a run paid out.\<close>

fun claimed :: "lottery \<Rightarrow> lottery_command call list \<Rightarrow> nat" where
  "claimed g [] = 0"
| "claimed g ((c, a, md) # cs) =
     (case lottery_execute g c a md of
        (g', Inr (UndoClaimPrize _)) \<Rightarrow> unat (prize_pool g) + claimed g' cs
      | (g', _) \<Rightarrow> claimed g' cs)"

definition is_draw :: "lottery_rollback \<Rightarrow> bool" where
  "is_draw r = (case r of UndoExecuteDraw _ _ \<Rightarrow> True | _ \<Rightarrow> False)"

definition is_claim :: "lottery_rollback \<Rightarrow> bool" where
  "is_claim r = (case r of UndoClaimPrize _ \<Rightarrow> True | _ \<Rightarrow> False)"

definition open_claims :: "lottery \<Rightarrow> nat" where
  "open_claims g = (if last_winner g \<noteq> None \<and> \<not> winner_paid g then 1 else 0)"

lemma lottery_step_keys:
  "lottery_execute g c a md = (g', res) \<Longrightarrow> authorized g' = authorized g"
  by (cases res) (auto dest: lottery_err elim: lottery_ok_cases)

lemma lottery_step_claims:
  assumes "lottery_execute g c a md = (g', Inr r)"
  shows "of_bool (is_claim r) + open_claims g' \<le> of_bool (is_draw r) + open_claims g"
  using assms by (cases rule: lottery_ok_cases) (auto simp: is_claim_def is_draw_def open_claims_def)

lemma lottery_step_pool:
  assumes "lottery_execute g c a md = (g', Inr r)" and "lottery_inv g"
    and "unat (prize_pool g) \<le> 100000000 * length (tickets g)" and "100000000 * Suc (length (tickets g)) < 2 ^ 64"
  shows "unat (prize_pool g') + (if is_claim r then unat (prize_pool g) else 0) + 100000000 * length (tickets g) =
    unat (prize_pool g) + 100000000 * length (tickets g')"
    and "unat (prize_pool g') \<le> 100000000 * length (tickets g')"
proof -
  show sum: "unat (prize_pool g') + (if is_claim r then unat (prize_pool g) else 0) + 100000000 * length (tickets g) =
    unat (prize_pool g) + 100000000 * length (tickets g')"
    using assms(1)
  proof (cases rule: lottery_ok_cases)
    case (buy numbers pk t)
    have "next_ticket_id g \<notin> fst ` set (tickets g)" "ticket_price g = 100000000"
      using assms(2) by (auto simp: lottery_inv_def ticket_ok_def)
    then show ?thesis
      using assms(3,4) by (simp add: buy(6,7) is_claim_def unat_sat_add length_bm_insert_fresh)
  qed (auto simp: is_claim_def)
  with assms(3) show "unat (prize_pool g') \<le> 100000000 * length (tickets g')" by simp
qed

lemma lottery_calls:
  assumes "exec_calls lottery_episode g cs = Some (h, rs)" and "lottery_inv g"
    and "length (tickets g) + length cs \<le> 10 ^ 11"
    and "unat (prize_pool g) \<le> 100000000 * length (tickets g)"
  shows "lottery_inv h" "authorized h = authorized g"
    "unat (prize_pool h) + claimed g cs + 100000000 * length (tickets g) = unat (prize_pool g) + 100000000 * length (tickets h)"
    "length (filter is_claim rs) + open_claims h \<le> length (filter is_draw rs) + open_claims g"
proof -
  have "lottery_inv h \<and> authorized h = authorized g \<and>
    unat (prize_pool h) + claimed g cs + 100000000 * length (tickets g) = unat (prize_pool g) + 100000000 * length (tickets h) \<and>
    length (filter is_claim rs) + open_claims h \<le> length (filter is_draw rs) + open_claims g"
    using assms
  proof (induction cs arbitrary: g rs)
    case (Cons x cs)
    obtain c a md where x: "x = (c, a, md)" by (cases x)
    obtain g' res where ex: "lottery_execute g c a md = (g', res)" by fastforce
    show ?case
    proof (cases res)
      case (Inl e)
      with ex have "g' = g" using lottery_err by simp
      with Cons ex Inl show ?thesis by (simp add: x lottery_episode_def)
    next
      case (Inr r)
      note step = ex [unfolded Inr]
      from Cons.prems(1) step obtain rs' where rs: "exec_calls lottery_episode g' cs = Some (h, rs')" "rs = r # rs'"
        by (auto simp: x lottery_episode_def)
      have small: "100000000 * Suc (length (tickets g)) < (2 :: nat) ^ 64" "length (tickets g) < 2 ^ 63"
        using Cons.prems(3) by simp_all
      note pool = lottery_step_pool [OF step Cons.prems(2,4) small(1)]
      have c: "claimed g (x # cs) = (if is_claim r then unat (prize_pool g) else 0) + claimed g' cs"
        using step by (simp add: x is_claim_def split: lottery_rollback.split)
      have "length (tickets g') + length cs \<le> 10 ^ 11" using tickets_grow [OF step] Cons.prems(3) by simp
      from Cons.IH [OF rs(1) lottery_inv_step [OF Cons.prems(2) step small(2)] this pool(2)]
        pool(1) c rs(2) lottery_step_keys [OF step] lottery_step_claims [OF step]
      show ?thesis by auto
    qed
  qed (simp)
  then show "lottery_inv h" "authorized h = authorized g"
    "unat (prize_pool h) + claimed g cs + 100000000 * length (tickets g) = unat (prize_pool g) + 100000000 * length (tickets h)"
    "length (filter is_claim rs) + open_claims h \<le> length (filter is_draw rs) + open_claims g"
    by blast+
qed

section \<open>Properties\<close>

text \<open>
  C11: no money is made or lost. After any series of up to 10^11 commands, failed ones included, the
  prize pool and the prizes paid out add up to the price of the tickets sold, and there were at
  most as many successful claims as draws: a draw pays at most once.
\<close>

theorem lottery_conserves_money:
  assumes "exec_calls lottery_episode (lottery_initialize ps md) cs = Some (g, rs)" and "length cs \<le> 10 ^ 11"
  shows "unat (prize_pool g) + claimed (lottery_initialize ps md) cs = 100000000 * length (tickets g) \<and>
    length (filter is_claim rs) \<le> length (filter is_draw rs)"
proof -
  have i: "length (tickets (lottery_initialize ps md)) + length cs \<le> 10 ^ 11"
    "unat (prize_pool (lottery_initialize ps md)) \<le> 100000000 * length (tickets (lottery_initialize ps md))"
    using assms(2) by (simp_all add: lottery_initialize_def)
  show ?thesis
    using lottery_calls(3,4) [OF assms(1) lottery_init_inv i] by (simp add: lottery_initialize_def open_claims_def)
qed

text \<open>
  The shape of a lottery. After any series of up to 10^11 commands the tickets are numbered from 1
  below \<^verbatim>\<open>next_ticket_id\<close> without a gap, each belongs to a participant and carries distinct numbers
  between 1 and 35, and the last winner is a ticket that exists.
\<close>

theorem lottery_well_formed:
  assumes "exec_calls lottery_episode (lottery_initialize ps md) cs = Some (g, rs)" and "length cs \<le> 10 ^ 11"
  shows "fst ` set (tickets g) = {1 ..< next_ticket_id g} \<and>
    (\<forall>i t. map_of (tickets g) i = Some t \<longrightarrow> ticket_id t = i \<and> ticket_player t \<in> set ps \<and>
       distinct (ticket_numbers t) \<and> set (ticket_numbers t) \<subseteq> {1..35}) \<and>
    set_option (last_winner g) \<subseteq> fst ` set (tickets g)"
proof -
  have i: "length (tickets (lottery_initialize ps md)) + length cs \<le> 10 ^ 11"
    "unat (prize_pool (lottery_initialize ps md)) \<le> 100000000 * length (tickets (lottery_initialize ps md))"
    using assms(2) by (simp_all add: lottery_initialize_def)
  note run = lottery_calls(1,2) [OF assms(1) lottery_init_inv i]
  have keys: "authorized g = ps" using run(2) by (simp add: lottery_initialize_def)
  have ok: "ticket_ok g i t" if "(i, t) \<in> set (tickets g)" for i t using run(1) that by (auto simp: lottery_inv_def)
  have n: "unat (next_ticket_id g) = Suc (length (tickets g))" "distinct (map fst (tickets g))"
    using run(1) by (auto simp: lottery_inv_def dest: bm_wf_distinct)
  have "fst ` set (tickets g) \<subseteq> {1 ..< next_ticket_id g}"
    using ok by (fastforce simp: ticket_ok_def word_le_nat_alt word_less_nat_alt unat_gt_0 Suc_le_eq)
  moreover have "card {1 ..< next_ticket_id g} = card (fst ` set (tickets g))"
  proof -
    have "unat ` {1 ..< next_ticket_id g} = {1 ..< unat (next_ticket_id g)}"
    proof (intro set_eqI iffI)
      fix k
      assume "k \<in> {1 ..< unat (next_ticket_id g)}"
      then have k: "1 \<le> k" "k < unat (next_ticket_id g)" "k < 2 ^ 64"
        using less_trans [OF _ unsigned_less [of "next_ticket_id g", where 'a = nat], of k] by auto
      then have "unat (of_nat k :: u64) = k" by (simp add: unat_of_nat)
      with k have "(of_nat k :: u64) \<in> {1 ..< next_ticket_id g}" by (simp add: word_le_nat_alt word_less_nat_alt)
      with \<open>unat (of_nat k) = k\<close> show "k \<in> unat ` {1 ..< next_ticket_id g}" by (metis image_eqI)
    qed (auto simp: word_le_nat_alt word_less_nat_alt)
    moreover have "inj_on unat {1 ..< next_ticket_id g}" by (simp add: inj_on_def word_unat_eq_iff)
    ultimately have "card {1 ..< next_ticket_id g} = card {1 ..< unat (next_ticket_id g)}" by (metis card_image)
    also have "\<dots> = length (tickets g)" using n(1) by simp
    also have "\<dots> = card (fst ` set (tickets g))" using n(2) distinct_card by force
    finally show ?thesis .
  qed
  ultimately have all: "fst ` set (tickets g) = {1 ..< next_ticket_id g}" by (metis card_subset_eq finite)
  have "ticket_id t = i \<and> ticket_player t \<in> set ps \<and> distinct (ticket_numbers t) \<and> set (ticket_numbers t) \<subseteq> {1..35}"
    if "map_of (tickets g) i = Some t" for i t
    using ok [OF map_of_SomeD [OF that]] keys by (auto simp: ticket_ok_def)
  moreover have "set_option (last_winner g) \<subseteq> fst ` set (tickets g)"
    using run(1) by (auto simp: lottery_inv_def split: option.splits)
  ultimately show ?thesis using all by blast
qed

definition lottery_demo_meta :: "u64 \<Rightarrow> u8 \<Rightarrow> metadata" where
  "lottery_demo_meta t b = \<lparr>accepting_hash = b # replicate 31 0, accepting_daa = 0, accepting_time = t, tx_id = [b], tx_outputs = None\<rparr>"

definition lottery_demo_calls :: "lottery_command call list" where
  "lottery_demo_calls =
     [(BuyTicket [7, 3, 1, 9, 35] 100000000, Some (PubKey [2]), lottery_demo_meta 1 1),
      (BuyTicket [7, 3, 3, 9, 35] 100000000, Some (PubKey [2]), lottery_demo_meta 2 1),
      (BuyTicket [1, 2, 3, 4, 5] 100000000, Some (PubKey [2]), lottery_demo_meta 3 1),
      (ExecuteDraw [], None, lottery_demo_meta 20 1), (ClaimPrize 2 0, None, lottery_demo_meta 21 1)]"

definition lottery_demo :: lottery where
  "lottery_demo = \<lparr>ticket_price = 100000000, numbers_range = (1, 35), numbers_per_ticket = 5, draw_interval_secs = 15,
     current_round = 0, round_start_time = 0, next_draw_time = 35, prize_pool = 200000000, authorized = [PubKey [2]],
     tickets = [(1, \<lparr>ticket_id = 1, ticket_player = PubKey [2], ticket_numbers = [7, 3, 1, 9, 35], ticket_round = 0\<rparr>),
       (2, \<lparr>ticket_id = 2, ticket_player = PubKey [2], ticket_numbers = [1, 2, 3, 4, 5], ticket_round = 0\<rparr>)],
     next_ticket_id = 3, last_winner = Some 2, winner_paid = False, paused = False\<rparr>"

lemmas lottery_run = lottery_episode_def lottery_initialize_def lottery_demo_meta_def lottery_demo_calls_def lottery_demo_def
  lottery_execute_def buy_ticket_def execute_draw_def claim_prize_def validate_numbers_def Let_def

lemma le_nat_zeros: "le_nat (replicate n 0) = 0"
  by (induction n) simp_all

lemma lottery_demo_index: "unat (le_u64 (b # replicate 7 0)) = unat b"
  using unsigned_less [of b, where 'a = nat] by (simp only: le_u64_def le_nat.simps le_nat_zeros) (simp add: unsigned_ucast_eq take_bit_nat_eq_self)

lemma lottery_demo_run:
  "exec_calls lottery_episode (lottery_initialize [PubKey [2]] (lottery_demo_meta 0 0)) lottery_demo_calls =
     Some (lottery_demo\<lparr>prize_pool := 0, winner_paid := True\<rparr>,
       [UndoBuyTicket 1, UndoBuyTicket 2, UndoExecuteDraw 0 200000000, UndoClaimPrize 2])"
  by code_simp

lemma lottery_demo_fields:
  "map fst (tickets lottery_demo) = [1, 2]" "last_winner lottery_demo = Some 2" "\<not> winner_paid lottery_demo"
  "prize_pool lottery_demo = 200000000" "next_draw_time lottery_demo = 35" "\<not> paused lottery_demo"
  "map_of (tickets lottery_demo) 2 \<noteq> None" "length (tickets lottery_demo) = 2"
  "ticket_price lottery_demo = 100000000" "snd (lottery_execute lottery_demo (ExecuteDraw []) None (lottery_demo_meta 40 1)) = Inr (UndoExecuteDraw 0 200000000)"
  by (simp_all add: lottery_demo_def lottery_execute_def execute_draw_def lottery_demo_meta_def Let_def word_less_nat_alt)

lemma lottery_demo_inv: "lottery_inv lottery_demo"
  by (simp add: lottery_inv_def lottery_demo_def bm_wf_def ticket_ok_def word_le_nat_alt)

theorem lottery_conserves_money_witness:
  "claimed (lottery_initialize [PubKey [2]] (lottery_demo_meta 0 0)) lottery_demo_calls = 200000000"
  using lottery_conserves_money [OF lottery_demo_run] lottery_demo_fields(8)
  by (simp add: lottery_demo_calls_def [THEN arg_cong, of length, simplified])

theorem lottery_well_formed_witness:
  "fst ` set (tickets lottery_demo) = {1 ..< next_ticket_id lottery_demo}"
  using lottery_well_formed [OF lottery_demo_run]
  by (simp add: lottery_demo_calls_def [THEN arg_cong, of length, simplified])

text \<open>
  What each rollback leaves behind. For a command that succeeded on a lottery with its
  invariant (and no saturated pool), the rollback object always applies, and the state after it
  differs from the state before the command in exactly these fields: a purchase leaves the next
  ticket number advanced, a draw leaves the next draw postponed and clears the previous winner, a
  claim sets the pool to the price of one ticket, whatever it held; closing is undone exactly.
\<close>

theorem lottery_rollback_residue:
  assumes "lottery_inv g" and "lottery_execute g c a md = (g', Inr r)" and "unat (prize_pool g) < 2 ^ 63"
  shows "lottery_rollback_cmd g' r =
    (case c of
       BuyTicket _ _ \<Rightarrow> g\<lparr>next_ticket_id := next_ticket_id g + 1\<rparr>
     | ExecuteDraw _ \<Rightarrow> g\<lparr>next_draw_time := accepting_time md + draw_interval_secs g, last_winner := None, winner_paid := False\<rparr>
     | ClaimPrize _ _ \<Rightarrow> g\<lparr>prize_pool := ticket_price g\<rparr>
     | CloseEpisode \<Rightarrow> g, True)"
  using assms(2)
proof (cases rule: lottery_ok_cases)
  case (buy numbers pk t)
  have price: "ticket_price g = 100000000" using assms(1) by (simp add: lottery_inv_def)
  have "prize_pool g \<le> prize_pool g + ticket_price g"
    using assms(3) by (simp add: price word_le_nat_alt unat_word_ariths)
  moreover have "next_ticket_id g \<notin> fst ` set (tickets g)" using assms(1) by (auto simp: lottery_inv_def ticket_ok_def)
  then have "bm_remove (next_ticket_id g) (bm_insert (next_ticket_id g) t (tickets g)) = tickets g"
    using assms(1) by (intro bm_ext) (auto simp: lottery_inv_def fun_upd_idem map_of_eq_None_iff)
  ultimately show ?thesis by (simp add: buy(1,6,7) sat_add_no_overflow)
qed (use assms(2) in \<open>auto simp: lottery_execute_def split: if_splits\<close>)

lemma lottery_demo_claim:
  "lottery_execute lottery_demo (ClaimPrize 2 0) None md = (lottery_demo\<lparr>prize_pool := 0, winner_paid := True\<rparr>, Inr (UndoClaimPrize 2))"
  using lottery_demo_fields(7) by (simp add: lottery_execute_def claim_prize_def lottery_demo_fields(2,3,6) split: option.split)

theorem lottery_rollback_residue_witness:
  "lottery_rollback_cmd (fst (lottery_execute lottery_demo (ClaimPrize 2 0) None (lottery_demo_meta 21 1))) (UndoClaimPrize 2) =
    (lottery_demo\<lparr>prize_pool := 100000000\<rparr>, True) \<and> prize_pool lottery_demo = 200000000"
proof -
  have "unat (prize_pool lottery_demo) < 2 ^ 63" by (simp add: lottery_demo_fields(4))
  from lottery_rollback_residue [OF lottery_demo_inv lottery_demo_claim this]
  show ?thesis unfolding lottery_demo_claim fst_conv lottery_demo_fields(4,9) lottery_command.case by (intro conjI) (assumption, rule refl)
qed

text \<open>
  A reorg takes the prize away. If a winner has not claimed yet and a later draw is executed and
  rolled back, the winner can no longer claim: the same claim that succeeded before the draw is
  refused, and so is every other claim.
\<close>

theorem undone_draw_loses_winner:
  assumes "lottery_execute g (ClaimPrize wid rd) a1 md1 = (g1, Inr r1)"
    and "lottery_execute g (ExecuteDraw src) a2 md2 = (g2, Inr r2)"
    and "lottery_rollback_cmd g2 r2 = (g3, b)"
  shows "lottery_execute g3 (ClaimPrize i rd') a3 md3 = (g3, Inl (InvalidCommand NoTicket))"
proof -
  have "\<not> paused g" using assms(1) by (auto simp: lottery_execute_def split: if_splits)
  from assms(2) have "paused g2 = paused g" by (cases rule: lottery_ok_cases) auto
  moreover from assms(2) obtain x y where "r2 = UndoExecuteDraw x y" by (cases rule: lottery_ok_cases) auto
  ultimately have "last_winner g3 = None" "\<not> paused g3" using assms(3) \<open>\<not> paused g\<close> by auto
  then show ?thesis by (simp add: lottery_execute_def claim_prize_def)
qed

theorem undone_draw_loses_winner_witness:
  "\<exists>g2 r2. lottery_execute lottery_demo (ExecuteDraw []) None (lottery_demo_meta 40 1) = (g2, Inr r2) \<and>
    snd (lottery_execute lottery_demo (ClaimPrize 2 0) None (lottery_demo_meta 41 1)) = Inr (UndoClaimPrize 2) \<and>
    snd (lottery_execute (fst (lottery_rollback_cmd g2 r2)) (ClaimPrize 2 0) None (lottery_demo_meta 41 1)) = Inl (InvalidCommand NoTicket)"
proof -
  obtain g2 r2 where d: "lottery_execute lottery_demo (ExecuteDraw []) None (lottery_demo_meta 40 1) = (g2, Inr r2)"
    using lottery_demo_fields(10) by (metis prod.collapse)
  obtain g3 b where "lottery_rollback_cmd g2 r2 = (g3, b)" by fastforce
  with undone_draw_loses_winner [OF lottery_demo_claim d this] lottery_demo_claim d show ?thesis by fastforce
qed


end
