(* ===== verification/Tlv.thy ===== *)
theory Tlv
  imports Engine
begin

text \<open>
  The TLV datagrams of the merchant's off-chain transport (\<^verbatim>\<open>kdapp-merchant/src/tlv.rs\<close>): layout,
  encoder and decoder, and the keyed digest. BLAKE2b-512 is the parameter \<open>blake\<close>; hashing
  with a prefix is hashing the concatenation, as the crate documents.
\<close>

definition DEMO_HMAC_KEY :: bytes where
  "DEMO_HMAC_KEY = [0x6b, 0x64, 0x61, 0x70, 0x70, 0x2d, 0x64, 0x65, 0x6d, 0x6f, 0x2d, 0x73, 0x65, 0x63, 0x72, 0x65, 0x74]"

definition TLV_VERSION :: u8 where "TLV_VERSION = 1"

datatype msg_kind = MNew | MCmd | MAck | MClose | MAckClose | MCheckpoint

definition kind_u8 :: "msg_kind \<Rightarrow> u8" where
  "kind_u8 k = (case k of MNew \<Rightarrow> 0 | MCmd \<Rightarrow> 1 | MAck \<Rightarrow> 2 | MClose \<Rightarrow> 3 | MAckClose \<Rightarrow> 4 | MCheckpoint \<Rightarrow> 5)"

definition kind_from_u8 :: "u8 \<Rightarrow> msg_kind option" where
  "kind_from_u8 v =
     (if v = 0 then Some MNew else if v = 1 then Some MCmd else if v = 2 then Some MAck
      else if v = 3 then Some MClose else if v = 4 then Some MAckClose
      else if v = 5 then Some MCheckpoint else None)"

lemma kind_from_kind [simp]: "kind_from_u8 (kind_u8 k) = Some k"
  by (cases k) (simp_all add: kind_from_u8_def kind_u8_def)

lemma kind_from_u8_Some: "kind_from_u8 v = Some k \<Longrightarrow> v = kind_u8 k"
  by (auto simp: kind_from_u8_def kind_u8_def split: if_splits)

lemma kind_u8_inject [simp]: "kind_u8 a = kind_u8 b \<longleftrightarrow> a = b"
  by (metis kind_from_kind option.inject)

record tlv =
  tlv_version :: u8
  tlv_type :: u8
  tlv_episode :: u64
  tlv_seq :: u64
  tlv_state_hash :: bytes
  tlv_payload :: bytes
  tlv_auth :: bytes

definition bytes_for_sign :: "tlv \<Rightarrow> bytes" where
  "bytes_for_sign m =
     [tlv_version m, tlv_type m] @ u64_le (tlv_episode m) @ u64_le (tlv_seq m) @ tlv_state_hash m @
     u16_le (of_nat (length (tlv_payload m))) @ tlv_payload m"

definition tlv_digest :: "(bytes \<Rightarrow> bytes) \<Rightarrow> bytes \<Rightarrow> tlv \<Rightarrow> bytes" where
  "tlv_digest blake key m = take 32 (blake (key @ bytes_for_sign m))"

definition tlv_sign :: "(bytes \<Rightarrow> bytes) \<Rightarrow> bytes \<Rightarrow> tlv \<Rightarrow> tlv" where
  "tlv_sign blake key m = m\<lparr>tlv_auth := tlv_digest blake key m\<rparr>"

definition tlv_verify :: "(bytes \<Rightarrow> bytes) \<Rightarrow> bytes \<Rightarrow> tlv \<Rightarrow> bool" where
  "tlv_verify blake key m \<longleftrightarrow> tlv_auth m = tlv_digest blake key m"

definition tlv_encode :: "tlv \<Rightarrow> bytes" where
  "tlv_encode m = bytes_for_sign m @ tlv_auth m"

definition tlv_decode :: "bytes \<Rightarrow> tlv option" where
  "tlv_decode bs =
     (if length bs < 1 + 1 + 8 + 8 + 32 + 2 + 32 then None
      else let version = bs ! 0; ty = bs ! 1 in
        if version \<noteq> TLV_VERSION then None
        else case kind_from_u8 ty of
          None \<Rightarrow> None
        | Some _ \<Rightarrow>
            let episode = le_u64 (take 8 (drop 2 bs)); sq = le_u64 (take 8 (drop 10 bs));
                state_hash = take 32 (drop 18 bs); payload_len = unat (le_u16 (take 2 (drop 50 bs)))
            in if length bs < 52 + payload_len + 32 then None
               else Some \<lparr>tlv_version = version, tlv_type = ty, tlv_episode = episode, tlv_seq = sq,
                     tlv_state_hash = state_hash, tlv_payload = take payload_len (drop 52 bs),
                     tlv_auth = take 32 (drop (52 + payload_len) bs)\<rparr>)"

definition hash_state :: "(bytes \<Rightarrow> bytes) \<Rightarrow> bytes \<Rightarrow> bytes" where
  "hash_state blake bs = take 32 (blake bs)"

section \<open>Round trip\<close>

text \<open>What the Rust types guarantee of a message, the current version, and a payload whose length fits 16 bits.\<close>

definition tlv_ok :: "tlv \<Rightarrow> bool" where
  "tlv_ok m \<longleftrightarrow> tlv_version m = TLV_VERSION \<and> kind_from_u8 (tlv_type m) \<noteq> None \<and>
     length (tlv_state_hash m) = 32 \<and> length (tlv_payload m) < 2 ^ 16 \<and> length (tlv_auth m) = 32"

lemma length_tlv_encode: "tlv_ok m \<Longrightarrow> length (tlv_encode m) = 84 + length (tlv_payload m)"
  by (simp add: tlv_encode_def bytes_for_sign_def tlv_ok_def)

lemma drop_exact: "length a = n \<Longrightarrow> drop n (a @ b) = b"
  by simp

lemma decode_encode_append:
  assumes "tlv_ok m" shows "tlv_decode (tlv_encode m @ rest) = Some m"
proof -
  have h: "length (tlv_state_hash m) = 32" "length (tlv_auth m) = 32" "tlv_version m = TLV_VERSION"
      "unat (of_nat (length (tlv_payload m)) :: u16) = length (tlv_payload m)"
    using assms by (simp_all add: tlv_ok_def unat_of_nat)
  obtain k where k: "kind_from_u8 (tlv_type m) = Some k" using assms by (auto simp: tlv_ok_def)
  let ?h = "[tlv_version m, tlv_type m] @ u64_le (tlv_episode m) @ u64_le (tlv_seq m) @ tlv_state_hash m"
  let ?l = "u16_le (of_nat (length (tlv_payload m)))"
  have e: "tlv_encode m @ rest = ?h @ ?l @ tlv_payload m @ tlv_auth m @ rest"
    by (simp add: tlv_encode_def bytes_for_sign_def)
  have e52: "tlv_encode m @ rest = (?h @ ?l) @ tlv_payload m @ tlv_auth m @ rest"
    and ea: "tlv_encode m @ rest = (?h @ ?l @ tlv_payload m) @ tlv_auth m @ rest"
    by (simp_all add: e)
  have "drop 50 (tlv_encode m @ rest) = ?l @ tlv_payload m @ tlv_auth m @ rest"
    unfolding e by (rule drop_exact) (simp add: h)
  moreover have "drop 52 (tlv_encode m @ rest) = tlv_payload m @ tlv_auth m @ rest"
    unfolding e52 by (rule drop_exact) (simp add: h)
  moreover have "length (tlv_encode m @ rest) = 84 + length (tlv_payload m) + length rest"
    using h by (simp add: tlv_encode_def bytes_for_sign_def)
  moreover have "drop (52 + length (tlv_payload m)) (tlv_encode m @ rest) = tlv_auth m @ rest"
    unfolding ea by (rule drop_exact) (simp add: h)
  moreover have "(tlv_encode m @ rest) ! 0 = tlv_version m" "(tlv_encode m @ rest) ! 1 = tlv_type m"
      "take 8 (drop 2 (tlv_encode m @ rest)) = u64_le (tlv_episode m)"
      "take 8 (drop 10 (tlv_encode m @ rest)) = u64_le (tlv_seq m)"
      "take 32 (drop 18 (tlv_encode m @ rest)) = tlv_state_hash m"
    unfolding e using h by (simp_all add: take_Cons')
  ultimately show ?thesis
    using h k by (cases m) (simp add: tlv_decode_def Let_def)
qed

interpretation tlv_wire: codec tlv_encode tlv_decode tlv_ok
  by unfold_locales (use decode_encode_append [where rest = "[]"] in simp)

text \<open>What decodes is well-formed, and its encoding is the prefix of the bytes it was read from.\<close>

lemma tlv_decode_Some:
  assumes "tlv_decode bs = Some m"
  shows "tlv_ok m" "bs = tlv_encode m @ drop (84 + length (tlv_payload m)) bs"
proof -
  let ?n = "unat (le_u16 (take 2 (drop 50 bs)))"
  have len: "84 + ?n \<le> length bs" and k: "kind_from_u8 (bs ! 1) \<noteq> None" and v: "bs ! 0 = TLV_VERSION"
    and m: "m = \<lparr>tlv_version = bs ! 0, tlv_type = bs ! 1, tlv_episode = le_u64 (take 8 (drop 2 bs)),
      tlv_seq = le_u64 (take 8 (drop 10 bs)), tlv_state_hash = take 32 (drop 18 bs),
      tlv_payload = take ?n (drop 52 bs), tlv_auth = take 32 (drop (52 + ?n) bs)\<rparr>"
    using assms by (auto simp: tlv_decode_def Let_def split: if_splits option.splits)
  have n: "?n < 2 ^ 16" using unsigned_less [of "le_u16 (take 2 (drop 50 bs))"] by simp
  then show ok: "tlv_ok m" using m k v len by (simp add: tlv_ok_def)
  have pl: "length (tlv_payload m) = ?n" using m len by simp
  have lenb: "u16_le (of_nat (length (tlv_payload m))) = take 2 (drop 50 bs)"
    using len by (simp add: pl u16_le_of_bytes)
  have "tlv_encode m = take 1 bs @ take 1 (drop 1 bs) @ take 8 (drop 2 bs) @ take 8 (drop 10 bs) @
      take 32 (drop 18 bs) @ take 2 (drop 50 bs) @ take ?n (drop 52 bs) @ take 32 (drop (52 + ?n) bs)"
  proof -
    have b0: "take (Suc 0) bs @ take (Suc 0) (drop (Suc 0) bs) @ ys = bs ! 0 # bs ! Suc 0 # ys" for ys
      using len by (cases bs; cases "tl bs") auto
    show ?thesis using lenb len by (simp add: tlv_encode_def bytes_for_sign_def m u64_le_of_bytes b0)
  qed
  also have "\<dots> = take (84 + ?n) bs"
    using take_add [of "52 + ?n" 32 bs] take_add [of 52 ?n bs] take_add [of 50 2 bs] take_add [of 18 32 bs]
      take_add [of 10 8 bs] take_add [of 2 8 bs] take_add [of 1 1 bs, folded numeral_2_eq_2]
    by (simp only: append_assoc) (simp add: numeral_2_eq_2)
  finally show "bs = tlv_encode m @ drop (84 + length (tlv_payload m)) bs" by (simp add: pl)
qed

lemma verify_sign [simp]: "tlv_verify blake key (tlv_sign blake key m)"
  by (simp add: tlv_verify_def tlv_sign_def tlv_digest_def bytes_for_sign_def)

end
