(* ===== verification/Routers.thy ===== *)
theory Routers
  imports Tlv
begin

text \<open>
  The routers that feed TLV messages to the engine (\<^verbatim>\<open>kdapp-merchant/src/udp_router.rs\<close> and
  \<^verbatim>\<open>tcp_router.rs\<close>) and, as a locale, what any such router promises: per episode the accepted
  messages are numbered in order. The clock reading of a message and the digest are parameters.
  A failed send to the engine or to the peer is only logged, so an output is what is sent.
\<close>

section \<open>Sequenced routers\<close>

text \<open>
  \<open>accepts s x\<close> is the episode and number of the message \<open>x\<close> if the router in state \<open>s\<close> takes
  it, with a flag that says whether it ends the episode for the router.
\<close>

fun chained :: "u64 option \<Rightarrow> (u64 \<times> bool) list \<Rightarrow> bool" where
  "chained prev [] = True"
| "chained prev ((s, final) # xs) =
     (s = (case prev of None \<Rightarrow> 0 | Some p \<Rightarrow> p + 1) \<and> chained (if final then None else Some s) xs)"

fun chain_end :: "u64 option \<Rightarrow> (u64 \<times> bool) list \<Rightarrow> u64 option" where
  "chain_end prev [] = prev"
| "chain_end prev ((s, final) # xs) = chain_end (if final then None else Some s) xs"

fun accepted_run :: "('s \<Rightarrow> 'i \<Rightarrow> 's) \<Rightarrow> ('s \<Rightarrow> 'i \<Rightarrow> (u64 \<times> u64 \<times> bool) option) \<Rightarrow> 's \<Rightarrow> 'i list \<Rightarrow> (u64 \<times> u64 \<times> bool) list" where
  "accepted_run step acc s [] = []"
| "accepted_run step acc s (x # xs) =
     (case acc s x of None \<Rightarrow> [] | Some a \<Rightarrow> [a]) @ accepted_run step acc (step s x) xs"

definition of_episode :: "u64 \<Rightarrow> (u64 \<times> u64 \<times> bool) list \<Rightarrow> (u64 \<times> bool) list" where
  "of_episode ep as = map snd (filter (\<lambda>a. fst a = ep) as)"

lemma of_episode_simps [simp]:
  "of_episode ep [] = []"
  "of_episode ep ((e, x) # as) = (if e = ep then x # of_episode ep as else of_episode ep as)"
  "of_episode ep (as @ bs) = of_episode ep as @ of_episode ep bs"
  by (simp_all add: of_episode_def)

locale sequenced_router =
  fixes step :: "'s \<Rightarrow> 'i \<Rightarrow> 's"
    and accepts :: "'s \<Rightarrow> 'i \<Rightarrow> (u64 \<times> u64 \<times> bool) option"
    and last_seq :: "'s \<Rightarrow> u64 \<rightharpoonup> u64"
  assumes refuse: "accepts s x = None \<Longrightarrow> last_seq (step s x) = last_seq s"
    and in_order: "accepts s x = Some (ep, n, final) \<Longrightarrow> n = (case last_seq s ep of None \<Rightarrow> 0 | Some p \<Rightarrow> p + 1)"
    and record_seq: "accepts s x = Some (ep, n, final) \<Longrightarrow>
      last_seq (step s x) = (last_seq s)(ep := if final then None else Some n)"
begin

lemma accepted_chained:
  "chained (last_seq s ep) (of_episode ep (accepted_run step accepts s xs)) \<and>
     last_seq (foldl step s xs) ep = chain_end (last_seq s ep) (of_episode ep (accepted_run step accepts s xs))"
proof (induction xs arbitrary: s)
  case (Cons x xs)
  show ?case
  proof (cases "accepts s x")
    case None
    with Cons [of "step s x"] refuse [OF None] show ?thesis by simp
  next
    case (Some a)
    obtain e n final where a: "a = (e, n, final)" by (cases a)
    with Some Cons [of "step s x"] in_order [of s x e n final] record_seq [of s x e n final] show ?thesis
      by (cases "e = ep") auto
  qed
qed simp

end

lemma chained_no_final:
  "chained prev xs \<Longrightarrow> \<forall>x \<in> set xs. \<not> snd x \<Longrightarrow>
     map fst xs = (case prev of None \<Rightarrow> map of_nat [0..<length xs]
       | Some p \<Rightarrow> map (\<lambda>k. p + 1 + of_nat k) [0..<length xs])"
proof (induction xs arbitrary: prev)
  case (Cons x xs)
  obtain s where x: "x = (s, False)" using Cons.prems(2) by (cases x) auto
  have s: "s = (case prev of None \<Rightarrow> 0 | Some p \<Rightarrow> p + 1)" and c: "chained (Some s) xs"
    using Cons.prems(1) unfolding x chained.simps if_False by blast+
  have IH: "map fst xs = map (\<lambda>k. s + 1 + of_nat k) [0..<length xs]"
    using Cons.IH [OF c] Cons.prems(2) by simp
  have up: "[0..<Suc (length xs)] = 0 # map Suc [0..<length xs]"
    by (metis map_Suc_upt upt_conv_Cons zero_less_Suc)
  show ?case using x s IH by (cases prev) (simp_all add: up add.assoc del: upt_Suc)
qed (simp split: option.splits)

section \<open>The UDP router\<close>

record ack_state =
  as_seq :: u64
  as_ack :: bytes

type_synonym router = "u64 \<rightharpoonup> ack_state"

datatype router_out = Reply bytes | ToEngine engine_msg

datatype admission = Accept | Replay bytes | Reject

definition udp_admit :: "msg_kind \<Rightarrow> ack_state option \<Rightarrow> u64 \<Rightarrow> admission" where
  "udp_admit mt entry sq =
     (case mt of
        MNew \<Rightarrow>
          (case entry of
             None \<Rightarrow> if sq = 0 then Accept else Reject
           | Some info \<Rightarrow> if sq = as_seq info then Replay (as_ack info) else Reject)
      | MAck \<Rightarrow> Reject
      | MAckClose \<Rightarrow> Reject
      | _ \<Rightarrow>
          (case entry of
             None \<Rightarrow> Reject
           | Some info \<Rightarrow>
               if sq = as_seq info + 1 then Accept
               else if sq = as_seq info then Replay (as_ack info) else Reject))"

definition udp_deliver :: "(bytes \<Rightarrow> bytes) \<Rightarrow> u64 \<Rightarrow> router \<Rightarrow> tlv \<Rightarrow> msg_kind \<Rightarrow> router \<times> router_out list" where
  "udp_deliver blake now st msg mt =
     (let event = (if mt = MCheckpoint then []
            else [ToEngine (BlkAccepted default_hash (tlv_seq msg) now [(default_hash, tlv_payload msg, None)])]);
          ack = tlv_sign blake DEMO_HMAC_KEY
            \<lparr>tlv_version = TLV_VERSION, tlv_type = (if mt = MClose then kind_u8 MAckClose else kind_u8 MAck),
             tlv_episode = tlv_episode msg, tlv_seq = tlv_seq msg, tlv_state_hash = tlv_state_hash msg,
             tlv_payload = [], tlv_auth = replicate 32 0\<rparr>;
          ack_bytes = tlv_encode ack
      in (st(tlv_episode msg \<mapsto> \<lparr>as_seq = tlv_seq msg, as_ack = ack_bytes\<rparr>), event @ [Reply ack_bytes]))"

definition udp_step :: "(bytes \<Rightarrow> bytes) \<Rightarrow> u64 \<Rightarrow> router \<Rightarrow> bytes \<Rightarrow> router \<times> router_out list" where
  "udp_step blake now st dgram =
     (case tlv_decode (take (64 * 1024) dgram) of
        None \<Rightarrow> (st, [])
      | Some msg \<Rightarrow>
          if tlv_version msg \<noteq> TLV_VERSION then (st, [])
          else case kind_from_u8 (tlv_type msg) of
            None \<Rightarrow> (st, [])
          | Some mt \<Rightarrow>
              if \<not> tlv_verify blake DEMO_HMAC_KEY msg then (st, [])
              else (case udp_admit mt (st (tlv_episode msg)) (tlv_seq msg) of
                      Reject \<Rightarrow> (st, [])
                    | Replay ack \<Rightarrow> (st, [Reply ack])
                    | Accept \<Rightarrow> udp_deliver blake now st msg mt))"

text \<open>The receive loop over the datagrams that arrive, each with the clock reading at that time.\<close>

fun udp_run :: "(bytes \<Rightarrow> bytes) \<Rightarrow> router \<Rightarrow> (u64 \<times> bytes) list \<Rightarrow> router \<times> router_out list" where
  "udp_run blake st [] = (st, [])"
| "udp_run blake st ((now, d) # ds) =
     (let (st1, out) = udp_step blake now st d; (st2, out2) = udp_run blake st1 ds in (st2, out @ out2))"

section \<open>The TCP router\<close>

definition tcp_admit :: "msg_kind \<Rightarrow> ack_state option \<Rightarrow> u64 \<Rightarrow> admission" where
  "tcp_admit mt entry sq =
     (if mt = MNew then
        (case entry of
           None \<Rightarrow> if sq = 0 then Accept else Reject
         | Some info \<Rightarrow> if sq = as_seq info then Replay (as_ack info) else Reject)
      else if mt = MCmd \<or> mt = MClose \<or> mt = MCheckpoint then
        (case entry of
           Some info \<Rightarrow>
             if sq = as_seq info + 1 then Accept
             else if sq = as_seq info then Replay (as_ack info)
             else Reject
         | None \<Rightarrow> Reject)
      else Reject)"

definition tcp_message :: "(bytes \<Rightarrow> bytes) \<Rightarrow> u64 \<Rightarrow> router \<Rightarrow> bytes \<Rightarrow> router \<times> router_out list" where
  "tcp_message blake now st msg_bytes =
     (case tlv_decode msg_bytes of
        None \<Rightarrow> (st, [])
      | Some msg \<Rightarrow>
          if tlv_version msg \<noteq> TLV_VERSION then (st, [])
          else case kind_from_u8 (tlv_type msg) of
            None \<Rightarrow> (st, [])
          | Some mt \<Rightarrow>
              if \<not> tlv_verify blake DEMO_HMAC_KEY msg then (st, [])
              else (case tcp_admit mt (st (tlv_episode msg)) (tlv_seq msg) of
                      Reject \<Rightarrow> (st, [])
                    | Replay ack \<Rightarrow> (st, [Reply ack])
                    | Accept \<Rightarrow>
                        let event = (if mt = MCheckpoint then []
                              else [ToEngine (BlkAccepted default_hash (tlv_seq msg) now
                                      [(default_hash, tlv_payload msg, None)])]);
                            ack_type = (if mt = MClose then kind_u8 MAckClose else kind_u8 MAck);
                            ack = tlv_sign blake DEMO_HMAC_KEY
                              \<lparr>tlv_version = TLV_VERSION, tlv_type = ack_type, tlv_episode = tlv_episode msg,
                               tlv_seq = tlv_seq msg, tlv_state_hash = tlv_state_hash msg, tlv_payload = [],
                               tlv_auth = replicate 32 0\<rparr>
                        in (st(tlv_episode msg \<mapsto> \<lparr>as_seq = tlv_seq msg, as_ack = tlv_encode ack\<rparr>),
                            event @ [Reply (tlv_encode ack)])))"

text \<open>
  \<^verbatim>\<open>handle_stream\<close>: \<^verbatim>\<open>read_exact\<close> of the header and of the tail whose length the header announces;
  the stream ends where a read fails. The list of clock readings has one entry per message.
\<close>

function handle_stream :: "(bytes \<Rightarrow> bytes) \<Rightarrow> router \<Rightarrow> u64 list \<Rightarrow> bytes \<Rightarrow> router \<times> router_out list" where
  "handle_stream blake st nows stream =
     (if length stream < 52 then (st, [])
      else let header = take 52 stream; payload_len = unat (le_u16 [header ! 50, header ! 51]); r = drop 52 stream
        in if length r < payload_len + 32 then (st, [])
           else let now = (case nows of [] \<Rightarrow> 0 | n # _ \<Rightarrow> n);
                    (st1, out) = tcp_message blake now st (header @ take (payload_len + 32) r);
                    (st2, out2) = handle_stream blake st1 (drop 1 nows) (drop (payload_len + 32) r)
                in (st2, out @ out2))"
  by pat_completeness auto
termination by (relation "measure (\<lambda>(_, _, _, stream). length stream)") auto

declare handle_stream.simps [simp del]

fun tcp_run :: "(bytes \<Rightarrow> bytes) \<Rightarrow> router \<Rightarrow> (u64 list \<times> bytes) list \<Rightarrow> router \<times> router_out list" where
  "tcp_run blake st [] = (st, [])"
| "tcp_run blake st ((nows, stream) # ss) =
     (let (st1, out) = handle_stream blake st nows stream; (st2, out2) = tcp_run blake st1 ss in (st2, out @ out2))"

section \<open>What the routers accept\<close>

text \<open>The message of a datagram that passes decoding and authentication, and its admission.\<close>

definition authentic :: "(bytes \<Rightarrow> bytes) \<Rightarrow> bytes \<Rightarrow> (tlv \<times> msg_kind) option" where
  "authentic blake d =
     (case tlv_decode d of
        None \<Rightarrow> None
      | Some m \<Rightarrow>
          (case kind_from_u8 (tlv_type m) of
             None \<Rightarrow> None
           | Some k \<Rightarrow> if tlv_verify blake DEMO_HMAC_KEY m then Some (m, k) else None))"

lemma decode_version: "tlv_decode d = Some m \<Longrightarrow> tlv_version m = TLV_VERSION"
  using tlv_decode_Some(1) by (simp add: tlv_ok_def)

lemma udp_step_authentic:
  "udp_step blake now st d =
     (case authentic blake (take (64 * 1024) d) of
        None \<Rightarrow> (st, [])
      | Some (m, k) \<Rightarrow>
          (case udp_admit k (st (tlv_episode m)) (tlv_seq m) of
             Reject \<Rightarrow> (st, [])
           | Replay ack \<Rightarrow> (st, [Reply ack])
           | Accept \<Rightarrow> udp_deliver blake now st m k))"
  by (auto simp: udp_step_def authentic_def decode_version split: option.splits)

lemma tcp_admit_udp_admit: "tcp_admit k e n = udp_admit k e n"
  by (cases k) (simp_all add: tcp_admit_def udp_admit_def)

lemma tcp_message_authentic:
  "tcp_message blake now st d =
     (case authentic blake d of
        None \<Rightarrow> (st, [])
      | Some (m, k) \<Rightarrow>
          (case udp_admit k (st (tlv_episode m)) (tlv_seq m) of
             Reject \<Rightarrow> (st, [])
           | Replay ack \<Rightarrow> (st, [Reply ack])
           | Accept \<Rightarrow> udp_deliver blake now st m k))"
  by (auto simp: tcp_message_def authentic_def decode_version tcp_admit_udp_admit udp_deliver_def Let_def
      split: option.splits admission.splits)

definition udp_accepts :: "(bytes \<Rightarrow> bytes) \<Rightarrow> router \<Rightarrow> u64 \<times> bytes \<Rightarrow> (u64 \<times> u64 \<times> bool) option" where
  "udp_accepts blake st x =
     (case authentic blake (take (64 * 1024) (snd x)) of
        None \<Rightarrow> None
      | Some (m, k) \<Rightarrow>
          if udp_admit k (st (tlv_episode m)) (tlv_seq m) = Accept then Some (tlv_episode m, tlv_seq m, False) else None)"

lemma udp_admit_Accept:
  "udp_admit k e n = Accept \<Longrightarrow> n = (case e of None \<Rightarrow> 0 | Some info \<Rightarrow> as_seq info + 1)"
  by (cases k; cases e) (auto simp: udp_admit_def split: if_splits)

interpretation udp: sequenced_router "\<lambda>st x. fst (udp_step blake (fst x) st (snd x))" "udp_accepts blake"
  "\<lambda>st. map_option as_seq \<circ> st" for blake
proof
  fix st x
  assume "udp_accepts blake st x = None"
  then show "map_option as_seq \<circ> fst (udp_step blake (fst x) st (snd x)) = map_option as_seq \<circ> st"
    by (auto simp: udp_accepts_def udp_step_authentic split: option.splits if_splits admission.splits)
next
  fix st x ep n final
  assume a: "udp_accepts blake st x = Some (ep, n, final)"
  then show "n = (case (map_option as_seq \<circ> st) ep of None \<Rightarrow> 0 | Some p \<Rightarrow> p + 1)"
    by (auto simp: udp_accepts_def split: option.splits if_splits dest!: udp_admit_Accept)
  show "map_option as_seq \<circ> fst (udp_step blake (fst x) st (snd x)) =
      (map_option as_seq \<circ> st)(ep := if final then None else Some n)"
    using a by (auto simp: udp_accepts_def udp_step_authentic udp_deliver_def Let_def fun_eq_iff
        split: option.splits if_splits)
qed

section \<open>TCP mirrors UDP\<close>

definition framed :: "bytes \<Rightarrow> bool" where
  "framed d \<longleftrightarrow> 52 \<le> length d \<and> length d \<le> 64 * 1024 \<and> length d = 84 + unat (le_u16 (take 2 (drop 50 d)))"

lemma header_len: "52 \<le> length d \<Longrightarrow> le_u16 [take 52 (d @ r) ! 50, take 52 (d @ r) ! 51] = le_u16 (take 2 (drop 50 d))"
proof -
  assume "52 \<le> length d"
  have split: "drop 50 d = d ! 50 # d ! 51 # drop 52 d"
    using Cons_nth_drop_Suc [of 50 d] Cons_nth_drop_Suc [of 51 d] \<open>52 \<le> length d\<close> by simp
  have "take 2 (drop 50 d) = [d ! 50, d ! 51]" unfolding split by simp
  moreover have "take 52 (d @ r) ! 50 = d ! 50" "take 52 (d @ r) ! 51 = d ! 51"
    using \<open>52 \<le> length d\<close> by (subst nth_take; simp add: nth_append)+
  ultimately show ?thesis by simp
qed

lemma handle_stream_cons:
  assumes "framed d"
  shows "handle_stream blake st (now # nows) (d @ r) =
    (let (st1, out) = udp_step blake now st d; (st2, out2) = handle_stream blake st1 nows r in (st2, out @ out2))"
proof -
  define n where "n = unat (le_u16 (take 2 (drop 50 d)))"
  have len: "52 \<le> length d" "length d \<le> 64 * 1024" "length d = 84 + n"
    using assms unfolding framed_def n_def by blast+
  then have "length (drop 52 d) = n + 32" by simp
  then have parts: "take 52 (d @ r) @ take (n + 32) (drop 52 (d @ r)) = d" "drop (n + 32) (drop 52 (d @ r)) = r"
    using len(1) append_take_drop_id [of 52 d] by simp_all
  have plen: "unat (le_u16 [take 52 (d @ r) ! 50, take 52 (d @ r) ! 51]) = n"
    using header_len [OF len(1)] by (simp add: n_def)
  have eq: "tcp_message blake now st d = udp_step blake now st d"
    using len(2) by (simp add: tcp_message_authentic udp_step_authentic)
  have enough: "\<not> length (d @ r) < 52" "\<not> length (drop 52 (d @ r)) < n + 32" using len by simp_all
  show ?thesis
    by (subst handle_stream.simps) (simp only: Let_def enough plen parts eq if_False list.case drop0 drop_Suc One_nat_def list.sel)
qed

text \<open>
  C9: "TCP router mirroring the semantics of UdpRouter": on one connection, any sequence of framed
  messages (valid or not, in any order) leads the TCP router to the same state, the same engine
  events and the same replies as the same messages sent as datagrams.
\<close>

theorem tcp_mirrors_udp:
  assumes "\<forall>(now, d) \<in> set ds. framed d"
  shows "handle_stream blake st (map fst ds) (concat (map snd ds)) = udp_run blake st ds"
  using assms
proof (induction ds arbitrary: st)
  case Nil
  then show ?case by (simp add: handle_stream.simps)
next
  case (Cons x ds)
  obtain now d where x: "x = (now, d)" by (cases x)
  with Cons.prems have "framed d" by simp
  from handle_stream_cons [OF this] Cons x show ?case by (simp add: split_beta Let_def)
qed

text \<open>A message and its frame, used by the witnesses: BLAKE2b is replaced by a checksum of 32 bytes.\<close>

definition demo_blake :: "bytes \<Rightarrow> bytes" where
  "demo_blake bs = replicate 64 (sum_list bs)"

definition demo_tlv :: "msg_kind \<Rightarrow> u64 \<Rightarrow> bytes \<Rightarrow> tlv" where
  "demo_tlv k n pl = tlv_sign demo_blake DEMO_HMAC_KEY \<lparr>tlv_version = TLV_VERSION, tlv_type = kind_u8 k, tlv_episode = 4,
     tlv_seq = n, tlv_state_hash = replicate 32 0, tlv_payload = pl, tlv_auth = replicate 32 0\<rparr>"

lemma demo_tlv_ok: "length pl < 2 ^ 16 \<Longrightarrow> tlv_ok (demo_tlv k n pl)"
  by (simp add: demo_tlv_def tlv_sign_def tlv_ok_def tlv_digest_def demo_blake_def)

lemma framed_encode:
  assumes "tlv_ok m" and "length (tlv_payload m) \<le> 65000" shows "framed (tlv_encode m)"
proof -
  let ?h = "[tlv_version m, tlv_type m] @ u64_le (tlv_episode m) @ u64_le (tlv_seq m) @ tlv_state_hash m"
  let ?l = "u16_le (of_nat (length (tlv_payload m)))"
  have "tlv_encode m = ?h @ ?l @ tlv_payload m @ tlv_auth m" by (simp add: tlv_encode_def bytes_for_sign_def)
  then have "drop 50 (tlv_encode m) = ?l @ tlv_payload m @ tlv_auth m"
    using assms(1) by (simp only:) (rule drop_exact, simp add: tlv_ok_def)
  then have "unat (le_u16 (take 2 (drop 50 (tlv_encode m)))) = length (tlv_payload m)"
    using assms(1) by (simp add: tlv_ok_def unat_of_nat)
  with length_tlv_encode [OF assms(1)] assms(2) show ?thesis by (simp add: framed_def)
qed

theorem tcp_mirrors_udp_witness:
  "handle_stream demo_blake Map.empty [7, 8]
     (tlv_encode (demo_tlv MNew 0 [5]) @ tlv_encode (demo_tlv MCmd 1 [6, 6])) =
   udp_run demo_blake Map.empty [(7, tlv_encode (demo_tlv MNew 0 [5])), (8, tlv_encode (demo_tlv MCmd 1 [6, 6]))]"
  using tcp_mirrors_udp [of "[(7, tlv_encode (demo_tlv MNew 0 [5])), (8, tlv_encode (demo_tlv MCmd 1 [6, 6]))]"
      demo_blake Map.empty] framed_encode [OF demo_tlv_ok]
  by (simp add: demo_tlv_def tlv_sign_def)

section \<open>In order, exactly once\<close>

text \<open>
  The accepted messages of an episode are numbered 0, 1, 2, and so on without a gap or a
  repetition, whatever datagrams arrive in whatever order, and the router's record is the last of them.
\<close>

theorem udp_accepts_in_order:
  "let log = of_episode ep (accepted_run (\<lambda>st x. fst (udp_step blake (fst x) st (snd x))) (udp_accepts blake) Map.empty ds);
       final = foldl (\<lambda>st x. fst (udp_step blake (fst x) st (snd x))) Map.empty ds
   in map fst log = map of_nat [0..<length log] \<and>
      map_option as_seq (final ep) = (if log = [] then None else Some (of_nat (length log - 1)))"
proof -
  let ?log = "of_episode ep (accepted_run (\<lambda>st x. fst (udp_step blake (fst x) st (snd x))) (udp_accepts blake) Map.empty ds)"
  have c: "chained None ?log" "map_option as_seq (foldl (\<lambda>st x. fst (udp_step blake (fst x) st (snd x))) Map.empty ds ep) =
      chain_end None ?log"
    using udp.accepted_chained [where s = Map.empty and ep = ep and xs = ds and blake = blake] by simp_all
  have nf: "\<forall>x \<in> set (accepted_run (\<lambda>st x. fst (udp_step blake (fst x) st (snd x))) (udp_accepts blake) st ds). \<not> snd (snd x)" for st
    by (induction ds arbitrary: st) (auto simp: udp_accepts_def split: option.splits if_splits)
  then have nf': "\<forall>x \<in> set ?log. \<not> snd x" unfolding of_episode_def by force
  have ends: "chain_end prev xs = (if xs = [] then prev else Some (fst (last xs)))" if "\<forall>x \<in> set xs. \<not> snd x" for prev xs
    using that by (induction prev xs rule: chain_end.induct) auto
  have seqs: "map fst ?log = map of_nat [0..<length ?log]" using chained_no_final [OF c(1) nf'] by simp
  moreover have "fst (last ?log) = of_nat (length ?log - 1)" if "?log \<noteq> []"
    using that arg_cong [OF seqs, of last] by (simp add: last_map last_conv_nth)
  ultimately show ?thesis using c(2) ends [OF nf'] by (simp add: Let_def)
qed

end
