(* ===== verification/Draw_Offchain.thy ===== *)
theory Draw_Offchain
  imports Lottery Routers
begin

text \<open>
  The off-chain transport of the lottery (\<^verbatim>\<open>kas-draw/src\<close>): its TLV messages without a digest
  (\<^verbatim>\<open>tlv.rs\<close>), the router in front of the engine (\<^verbatim>\<open>offchain.rs\<close>), the client with the file
  that holds the next sequence numbers (\<^verbatim>\<open>offchain_client.rs\<close>) and the command that uses it
  (\<^verbatim>\<open>OffchainSend\<close> in \<^verbatim>\<open>main.rs\<close>). The kinds of messages and the version are those of \<^verbatim>\<open>Tlv\<close>.
\<close>

section \<open>Messages\<close>

record draw_tlv =
  dt_version :: u8
  dt_type :: u8
  dt_episode :: u64
  dt_seq :: u64
  dt_state_hash :: bytes
  dt_payload :: bytes

definition draw_encode :: "draw_tlv \<Rightarrow> bytes" where
  "draw_encode m =
     [dt_version m, dt_type m] @ u64_le (dt_episode m) @ u64_le (dt_seq m) @ dt_state_hash m @
     u16_le (of_nat (length (dt_payload m))) @ dt_payload m"

definition draw_decode :: "bytes \<Rightarrow> draw_tlv option" where
  "draw_decode bs =
     (if length bs < 1 + 1 + 8 + 8 + 32 + 2 then None
      else let version = bs ! 0; ty = bs ! 1 in
        if version \<noteq> TLV_VERSION then None
        else case kind_from_u8 ty of
          None \<Rightarrow> None
        | Some _ \<Rightarrow>
            let episode = le_u64 (take 8 (drop 2 bs)); sq = le_u64 (take 8 (drop 10 bs));
                state_hash = take 32 (drop 18 bs); payload_len = unat (le_u16 (take 2 (drop 50 bs)))
            in if length bs < 52 + payload_len then None
               else Some \<lparr>dt_version = version, dt_type = ty, dt_episode = episode, dt_seq = sq,
                     dt_state_hash = state_hash, dt_payload = take payload_len (drop 52 bs)\<rparr>)"

definition draw_tlv_ok :: "draw_tlv \<Rightarrow> bool" where
  "draw_tlv_ok m \<longleftrightarrow> dt_version m = TLV_VERSION \<and> kind_from_u8 (dt_type m) \<noteq> None \<and>
     length (dt_state_hash m) = 32 \<and> length (dt_payload m) < 2 ^ 16"

text \<open>The format is that of the merchant without the digest: both decoders agree up to it.\<close>

definition with_auth :: "draw_tlv \<Rightarrow> tlv" where
  "with_auth m = \<lparr>tlv_version = dt_version m, tlv_type = dt_type m, tlv_episode = dt_episode m, tlv_seq = dt_seq m,
     tlv_state_hash = dt_state_hash m, tlv_payload = dt_payload m, tlv_auth = replicate 32 0\<rparr>"

definition without_auth :: "tlv \<Rightarrow> draw_tlv" where
  "without_auth m = \<lparr>dt_version = tlv_version m, dt_type = tlv_type m, dt_episode = tlv_episode m, dt_seq = tlv_seq m,
     dt_state_hash = tlv_state_hash m, dt_payload = tlv_payload m\<rparr>"

lemma draw_decode_tlv: "draw_decode bs = map_option without_auth (tlv_decode (bs @ replicate 32 0))"
proof (cases "length bs < 52")
  case True
  then show ?thesis by (simp add: draw_decode_def tlv_decode_def)
next
  case False
  define n where "n = unat (le_u16 (take 2 (drop 50 bs)))"
  have i: "(bs @ replicate 32 0) ! 0 = bs ! 0" "(bs @ replicate 32 0) ! 1 = bs ! 1"
    "take 8 (drop 2 (bs @ replicate 32 0)) = take 8 (drop 2 bs)" "take 8 (drop 10 (bs @ replicate 32 0)) = take 8 (drop 10 bs)"
    "take 32 (drop 18 (bs @ replicate 32 0)) = take 32 (drop 18 bs)" "take 2 (drop 50 (bs @ replicate 32 0)) = take 2 (drop 50 bs)"
    "drop 52 (bs @ replicate 32 0) = drop 52 bs @ replicate 32 0"
    using False by (auto simp: nth_append)
  have k: "take n (drop 52 bs @ replicate 32 0) = take n (drop 52 bs)" if "52 + n \<le> length bs" using that by simp
  show ?thesis
    using False k unfolding draw_decode_def tlv_decode_def i n_def [symmetric] Let_def
    by (auto simp: without_auth_def split: option.split)
qed

interpretation draw_wire: codec draw_encode draw_decode draw_tlv_ok
proof
  fix m
  assume ok: "draw_tlv_ok m"
  have "tlv_encode (with_auth m) = draw_encode m @ replicate 32 0"
    by (simp add: tlv_encode_def bytes_for_sign_def with_auth_def draw_encode_def)
  moreover have "tlv_ok (with_auth m)" using ok by (simp add: draw_tlv_ok_def tlv_ok_def with_auth_def)
  ultimately have "tlv_decode (draw_encode m @ replicate 32 0) = Some (with_auth m)" using tlv_wire.dec_enc by metis
  then show "draw_decode (draw_encode m) = Some m"
    unfolding draw_decode_tlv by (simp add: without_auth_def with_auth_def)
qed

section \<open>The router\<close>

type_synonym draw_router = "u64 \<rightharpoonup> u64"

text \<open>Whether a message is accepted, and whether it is a close.\<close>

definition draw_admit :: "bool \<Rightarrow> msg_kind \<Rightarrow> u64 option \<Rightarrow> u64 \<Rightarrow> bool \<times> bool" where
  "draw_admit close_enabled mt prior sq =
     (case mt of
        MNew \<Rightarrow> (if prior = None \<and> sq = 0 then (True, False) else (False, False))
      | MCmd \<Rightarrow> (case prior of Some prev \<Rightarrow> if sq = prev + 1 then (True, False) else (False, False) | None \<Rightarrow> (False, False))
      | MAck \<Rightarrow> (False, False)
      | MClose \<Rightarrow>
          if \<not> close_enabled then (False, True)
          else (case prior of Some prev \<Rightarrow> if sq = prev + 1 then (True, True) else (False, True) | None \<Rightarrow> (False, True))
      | MAckClose \<Rightarrow> (False, False)
      | MCheckpoint \<Rightarrow>
          (case prior of Some prev \<Rightarrow> if sq = prev + 1 then (True, False) else (False, False) | None \<Rightarrow> (False, False)))"

text \<open>
  One datagram. \<open>alive\<close> says whether the channel to the engine takes the event, \<open>enc\<close> is the
  Borsh encoder of the engine's messages.
\<close>

definition draw_step ::
  "(lottery_command episode_message \<Rightarrow> bytes) \<Rightarrow> bool \<Rightarrow> bool \<Rightarrow> u64 \<times> bool \<Rightarrow> draw_router \<Rightarrow> bytes \<Rightarrow> draw_router \<times> router_out list" where
  "draw_step enc ack_enabled close_enabled env st d =
     (let (now, alive) = env in
      case draw_decode (take (64 * 1024) d) of
        None \<Rightarrow> (st, [])
      | Some msg \<Rightarrow>
          if dt_version msg \<noteq> TLV_VERSION then (st, [])
          else case kind_from_u8 (dt_type msg) of
            None \<Rightarrow> (st, [])
          | Some mt \<Rightarrow>
              let (accepted, is_close) = draw_admit close_enabled mt (st (dt_episode msg)) (dt_seq msg) in
              if \<not> accepted then (st, [])
              else let st1 = st(dt_episode msg \<mapsto> dt_seq msg);
                       payload = (if mt = MClose then enc (UnsignedCommand (ucast (dt_episode msg)) CloseEpisode)
                         else if mt = MCheckpoint then [] else dt_payload msg)
                in if mt \<noteq> MCheckpoint \<and> \<not> alive then (st1, [])
                   else let event = (if mt = MCheckpoint then []
                              else [ToEngine (BlkAccepted default_hash (dt_seq msg) now [(default_hash, payload, None)])]);
                            ack = draw_encode \<lparr>dt_version = TLV_VERSION,
                              dt_type = (if is_close then kind_u8 MAckClose else kind_u8 MAck),
                              dt_episode = dt_episode msg, dt_seq = dt_seq msg, dt_state_hash = dt_state_hash msg, dt_payload = []\<rparr>
                     in ((if is_close then st1(dt_episode msg := None) else st1),
                         event @ (if ack_enabled then [Reply ack] else [])))"

fun draw_run ::
  "(lottery_command episode_message \<Rightarrow> bytes) \<Rightarrow> bool \<Rightarrow> bool \<Rightarrow> draw_router \<Rightarrow> ((u64 \<times> bool) \<times> bytes) list \<Rightarrow> draw_router \<times> router_out list" where
  "draw_run enc acks closes st [] = (st, [])"
| "draw_run enc acks closes st ((env, d) # ds) =
     (let (st1, out) = draw_step enc acks closes env st d; (st2, out2) = draw_run enc acks closes st1 ds in (st2, out @ out2))"

section \<open>The client\<close>

text \<open>The file of sequence numbers: one line \<^verbatim>\<open>episode,number\<close> per episode, in order.\<close>

definition read_line :: "string \<Rightarrow> (u64 \<times> u64) option" where
  "read_line line =
     (case split_char (CHR '','') (trim line) of
        [a, b] \<Rightarrow> (case (parse_u64 a, parse_u64 b) of (Some eid, Some sq) \<Rightarrow> Some (eid, sq) | _ \<Rightarrow> None)
      | _ \<Rightarrow> None)"

definition read_seq_store :: "string option \<Rightarrow> (u64, u64) bmap" where
  "read_seq_store file =
     (case file of
        None \<Rightarrow> []
      | Some s \<Rightarrow> fold (\<lambda>(k, v) m. bm_insert k v m) (List.map_filter read_line (lines_of s)) [])"

definition write_seq_store :: "(u64, u64) bmap \<Rightarrow> string" where
  "write_seq_store m = concat (map (\<lambda>(k, v). show_u64 k @ '','' @ show_u64 v @ [CHR 0x0A]) m)"

definition auto_seq :: "string option \<Rightarrow> u64 \<Rightarrow> string \<Rightarrow> string option \<times> u64" where
  "auto_seq file episode_id typ =
     (let store = read_seq_store file;
          nxt = (case map_of store episode_id of
              Some prev \<Rightarrow> sat_add prev 1
            | None \<Rightarrow> if typ = ''new'' then 0 else 1)
      in (Some (write_seq_store (bm_insert episode_id nxt store)), nxt))"

text \<open>
  \<^verbatim>\<open>send_with_ack\<close>: \<open>replies\<close> is what \<^verbatim>\<open>recv_from\<close> returns in each attempt; the result is the
  number of datagrams sent, the timeouts waited, and whether the acknowledgement came.
\<close>

definition draw_ack_matches :: "draw_tlv \<Rightarrow> u8 \<Rightarrow> bytes \<Rightarrow> bool" where
  "draw_ack_matches m expected_type reply =
     (case draw_decode (take 1024 reply) of
        None \<Rightarrow> False
      | Some ack \<Rightarrow> dt_type ack = expected_type \<and> dt_episode ack = dt_episode m \<and> dt_seq ack = dt_seq m)"

definition double_ms :: "u64 \<Rightarrow> u64" where
  "double_ms a = (if unat a * 2 < 2 ^ 64 then a * 2 else - 1)"

fun draw_attempts :: "draw_tlv \<Rightarrow> u8 \<Rightarrow> u64 \<Rightarrow> bytes option list \<Rightarrow> u64 list \<times> bool" where
  "draw_attempts m expected timeout_ms [] = ([], False)"
| "draw_attempts m expected timeout_ms (r # rs) =
     (if (case r of None \<Rightarrow> False | Some reply \<Rightarrow> draw_ack_matches m expected reply) then ([timeout_ms], True)
      else let (ts, ok) = draw_attempts m expected (double_ms timeout_ms) rs in (timeout_ms # ts, ok))"

definition send_with_ack :: "draw_tlv \<Rightarrow> bool \<Rightarrow> bool \<Rightarrow> bytes option list \<Rightarrow> bytes list \<times> u64 list \<times> bool" where
  "send_with_ack m expect_close_ack wait_ack replies =
     (let expected_type = (if expect_close_ack then kind_u8 MAckClose else kind_u8 MAck) in
      if \<not> wait_ack then ([draw_encode m], [], False)
      else let (timeouts, ok) = draw_attempts m expected_type 300 (take 3 replies)
        in (replicate (length timeouts) (draw_encode m), timeouts, ok))"

definition draw_message :: "msg_kind \<Rightarrow> u64 \<Rightarrow> u64 \<Rightarrow> bytes \<Rightarrow> bytes \<Rightarrow> draw_tlv" where
  "draw_message k episode_id sq state_hash payload =
     \<lparr>dt_version = TLV_VERSION, dt_type = kind_u8 k, dt_episode = episode_id, dt_seq = sq,
      dt_state_hash = state_hash, dt_payload = payload\<rparr>"

definition send_tlv_cmd ::
  "('m \<Rightarrow> bytes) \<Rightarrow> u64 \<Rightarrow> u64 \<Rightarrow> 'm \<Rightarrow> bool \<Rightarrow> bytes option list \<Rightarrow> bytes list \<times> u64 list \<times> bool" where
  "send_tlv_cmd enc episode_id sq msg wait_ack =
     send_with_ack (draw_message MCmd episode_id sq (replicate 32 0) (enc msg)) False wait_ack"

definition send_tlv_new ::
  "('m \<Rightarrow> bytes) \<Rightarrow> u64 \<Rightarrow> u64 \<Rightarrow> 'm \<Rightarrow> bool \<Rightarrow> bytes option list \<Rightarrow> bytes list \<times> u64 list \<times> bool" where
  "send_tlv_new enc episode_id sq msg wait_ack =
     send_with_ack (draw_message MNew episode_id sq (replicate 32 0) (enc msg)) False wait_ack"

definition send_tlv_close :: "u64 \<Rightarrow> u64 \<Rightarrow> bool \<Rightarrow> bytes option list \<Rightarrow> bytes list \<times> u64 list \<times> bool" where
  "send_tlv_close episode_id sq wait_ack =
     send_with_ack (draw_message MClose episode_id sq (replicate 32 0) []) True wait_ack"

lemma draw_message_fields [simp]:
  "dt_version (draw_message k e n h pl) = TLV_VERSION" "dt_type (draw_message k e n h pl) = kind_u8 k"
  "dt_episode (draw_message k e n h pl) = e" "dt_seq (draw_message k e n h pl) = n"
  "dt_state_hash (draw_message k e n h pl) = h" "dt_payload (draw_message k e n h pl) = pl"
  by (simp_all add: draw_message_def)

section \<open>The command \<^verbatim>\<open>OffchainSend\<close>\<close>

text \<open>
  The arguments, and what reading the developer key gives: hex that does not decode, bytes that
  are no key (a panic), or a key pair. \<open>key\<close> is \<^const>\<open>None\<close> when no key is configured.
\<close>

record offchain_args =
  arg_type :: string
  arg_episode :: u32
  arg_force_seq :: "u64 option"
  arg_amount :: "u64 option"
  arg_numbers :: "u8 list"
  arg_entropy :: "string option"
  arg_ticket :: "u64 option"
  arg_round :: "u64 option"
  arg_state_root :: "string option"

datatype dev_key = BadHex | BadKey | DevKey bytes pubkey

datatype cli_result = CliError | CliPanic | CliSend draw_tlv bool

definition offchain_cmd ::
  "crypto \<Rightarrow> (lottery_command \<Rightarrow> bytes) \<Rightarrow> offchain_args \<Rightarrow> dev_key option \<Rightarrow>
     (cli_result + lottery_command episode_message)" where
  "offchain_cmd cr enc_cmd args key =
     (case arg_amount args of
        Some a \<Rightarrow>
          if length (arg_numbers args) \<noteq> 5 then Inl CliError
          else let cmd = BuyTicket (arg_numbers args) a in
            (case key of
               None \<Rightarrow> Inr (UnsignedCommand (arg_episode args) cmd)
             | Some BadHex \<Rightarrow> Inl CliError
             | Some BadKey \<Rightarrow> Inl CliPanic
             | Some (DevKey sk pk) \<Rightarrow>
                 Inr (SignedCommand (arg_episode args) cmd pk (sign_message cr sk (to_message cr (enc_cmd cmd)))))
      | None \<Rightarrow>
          (case arg_entropy args of
             Some ent \<Rightarrow> Inr (UnsignedCommand (arg_episode args) (ExecuteDraw ent))
           | None \<Rightarrow>
               (case (arg_ticket args, arg_round args) of
                  (Some tid, Some r) \<Rightarrow> Inr (UnsignedCommand (arg_episode args) (ClaimPrize tid r))
                | _ \<Rightarrow> Inl CliError)))"

definition offchain_send ::
  "crypto \<Rightarrow> (lottery_command \<Rightarrow> bytes) \<Rightarrow> (lottery_command episode_message \<Rightarrow> bytes) \<Rightarrow> (string \<Rightarrow> bytes option) \<Rightarrow>
     offchain_args \<Rightarrow> dev_key option \<Rightarrow> string option \<Rightarrow> string option \<times> cli_result" where
  "offchain_send cr enc_cmd enc hex32 args key file =
     (if arg_type args \<notin> {''new'', ''cmd'', ''close'', ''ckpt''} then (file, CliError)
      else let ep = ucast (arg_episode args);
               (file', sq) = (case arg_force_seq args of Some s \<Rightarrow> (file, s) | None \<Rightarrow> auto_seq file ep (arg_type args))
        in if arg_type args = ''ckpt'' then
             (file', case arg_state_root args of
                None \<Rightarrow> CliError
              | Some root_hex \<Rightarrow>
                  (case hex32 root_hex of
                     None \<Rightarrow> CliError
                   | Some root \<Rightarrow> CliSend (draw_message MCheckpoint ep sq root []) False))
           else if arg_type args = ''close'' then (file', CliSend (draw_message MClose ep sq (replicate 32 0) []) True)
           else if arg_type args = ''new'' then
             (file', case key of
                None \<Rightarrow> CliSend (draw_message MNew ep sq (replicate 32 0) (enc (NewEpisode (arg_episode args) []))) False
              | Some BadHex \<Rightarrow> CliError
              | Some BadKey \<Rightarrow> CliPanic
              | Some (DevKey sk pk) \<Rightarrow>
                  CliSend (draw_message MNew ep sq (replicate 32 0) (enc (NewEpisode (arg_episode args) [pk]))) False)
           else (file', case offchain_cmd cr enc_cmd args key of
                Inl r \<Rightarrow> r
              | Inr emsg \<Rightarrow> CliSend (draw_message MCmd ep sq (replicate 32 0) (enc emsg)) False))"

section \<open>The router takes messages in order\<close>

definition draw_accepts :: "bool \<Rightarrow> draw_router \<Rightarrow> (u64 \<times> bool) \<times> bytes \<Rightarrow> (u64 \<times> u64 \<times> bool) option" where
  "draw_accepts close_enabled st x =
     (case draw_decode (take (64 * 1024) (snd x)) of
        None \<Rightarrow> None
      | Some msg \<Rightarrow>
          (case kind_from_u8 (dt_type msg) of
             None \<Rightarrow> None
           | Some mt \<Rightarrow>
               (case draw_admit close_enabled mt (st (dt_episode msg)) (dt_seq msg) of
                  (True, is_close) \<Rightarrow> Some (dt_episode msg, dt_seq msg, is_close \<and> snd (fst x))
                | (False, _) \<Rightarrow> None)))"

lemma draw_decode_version: "draw_decode bs = Some m \<Longrightarrow> dt_version m = TLV_VERSION"
  by (auto simp: draw_decode_def Let_def split: if_splits option.splits)

lemma draw_admit_cases:
  assumes "draw_admit c k prior sq = (True, is_close)"
  shows "sq = (case prior of None \<Rightarrow> 0 | Some p \<Rightarrow> p + 1)" "is_close \<longleftrightarrow> k = MClose"
  using assms by (cases k; auto simp: draw_admit_def split: if_splits option.splits)+

lemma draw_step_refused: "draw_accepts c st (env, d) = None \<Longrightarrow> draw_step enc acks c env st d = (st, [])"
  by (auto simp: draw_accepts_def draw_step_def split: option.splits prod.splits bool.splits)

lemma draw_step_accepted:
  assumes "draw_accepts c st (env, d) = Some (ep, n, final)"
  shows "fst (draw_step enc acks c env st d) = st(ep := if final then None else Some n)"
    and "n = (case st ep of None \<Rightarrow> 0 | Some p \<Rightarrow> p + 1)"
proof -
  obtain msg k is_close where m: "draw_decode (take (64 * 1024) d) = Some msg" "kind_from_u8 (dt_type msg) = Some k"
    "draw_admit c k (st (dt_episode msg)) (dt_seq msg) = (True, is_close)"
    "ep = dt_episode msg" "n = dt_seq msg" "final \<longleftrightarrow> is_close \<and> snd env"
    using assms by (auto simp: draw_accepts_def split: option.splits prod.splits bool.splits)
  note a = draw_admit_cases [OF m(3)]
  show "n = (case st ep of None \<Rightarrow> 0 | Some p \<Rightarrow> p + 1)" using a m by simp
  show "fst (draw_step enc acks c env st d) = st(ep := if final then None else Some n)"
    using m(2-6) a(2) draw_decode_version [OF m(1)]
    by (cases env) (auto simp: draw_step_def m(1) [simplified] Let_def)
qed

interpretation draw: sequenced_router "\<lambda>st x. fst (draw_step enc acks c (fst x) st (snd x))" "draw_accepts c" "\<lambda>st. st"
  for enc acks c
proof
  fix st :: draw_router and x
  assume "draw_accepts c st x = None"
  then show "fst (draw_step enc acks c (fst x) st (snd x)) = st" by (cases x) (simp add: draw_step_refused)
next
  fix st x ep n final
  assume "draw_accepts c st x = Some (ep, n, final)"
  then have a: "draw_accepts c st (fst x, snd x) = Some (ep, n, final)" by simp
  show "n = (case st ep of None \<Rightarrow> 0 | Some p \<Rightarrow> p + 1)" using draw_step_accepted(2) [OF a] .
  show "fst (draw_step enc acks c (fst x) st (snd x)) = st(ep := if final then None else Some n)"
    using draw_step_accepted(1) [OF a] .
qed

text \<open>
  C12: the off-chain router of the lottery takes the messages of an episode in order. Whatever
  datagrams arrive, the accepted ones of an episode are numbered 0, 1, 2, and so on, and start again
  at 0 only after a close that reached the engine; the router remembers the last number since then.
\<close>

theorem draw_accepts_in_order:
  "let log = of_episode ep (accepted_run (\<lambda>st x. fst (draw_step enc acks c (fst x) st (snd x))) (draw_accepts c) Map.empty ds)
   in chained None log \<and>
      foldl (\<lambda>st x. fst (draw_step enc acks c (fst x) st (snd x))) Map.empty ds ep = chain_end None log"
  using draw.accepted_chained [where s = Map.empty and ep = ep and xs = ds and enc = enc and acks = acks and c = c]
  by (simp add: Let_def)

section \<open>The sequence file\<close>

lemma no_sep_digits: "c \<in> set (show_u64 w) \<Longrightarrow> plain_char c \<and> c \<noteq> CHR '','' \<and> c \<noteq> CHR 0x0A"
  using show_nat_digits [of "unat w"] digit_plain [of c]
  by (auto simp: show_u64_def) (auto simp: char_digit_def)

lemma read_line_show: "read_line (show_u64 k @ '','' @ show_u64 v) = Some (k, v)"
proof -
  have comma: "plain_char (CHR '','')" by (simp add: plain_char_def ascii_ws_def)
  have "trim (show_u64 k @ '','' @ show_u64 v) = show_u64 k @ '','' @ show_u64 v"
    using no_sep_digits [of _ k] no_sep_digits [of _ v] comma by (intro trim_plain) (auto simp: list_all_iff)
  moreover have "split_char (CHR '','') (show_u64 k @ '','' @ show_u64 v) = [show_u64 k, show_u64 v]"
  proof -
    have "CHR '','' \<notin> set (show_u64 k)" "CHR '','' \<notin> set (show_u64 v)" using no_sep_digits by blast+
    then show ?thesis by (simp add: split_char_append split_char_none)
  qed
  ultimately show ?thesis by (simp add: read_line_def)
qed

lemma fold_bm_insert:
  "bm_wf (m :: ('k::linorder, 'v) bmap) \<Longrightarrow> bm_wf n \<Longrightarrow> bm_wf (fold (\<lambda>(k, v) m. bm_insert k v m) m n) \<and>
     map_of (fold (\<lambda>(k, v) m. bm_insert k v m) m n) = map_of n ++ map_of m"
proof (induction m arbitrary: n)
  case (Cons x m)
  obtain k v where x: "x = (k, v)" by (cases x)
  have wf: "bm_wf m" "map_of m k = None"
    using Cons.prems(1) by (auto simp: x bm_wf_Cons map_of_eq_None_iff)
  then have "(map_of n)(k \<mapsto> v) ++ map_of m = map_of n ++ map_of (x # m)"
    by (auto simp: x map_add_def fun_eq_iff split: option.splits)
  with Cons.IH [OF wf(1), of "bm_insert k v n"] Cons.prems(2) show ?case
    by (simp only: x fold.simps comp_apply prod.case map_of_bm_insert bm_wf_insert simp_thms)
qed simp

lemma seq_store_back:
  assumes "bm_wf m"
  shows "read_seq_store (Some (write_seq_store m)) = m"
proof -
  let ?line = "\<lambda>(k, v). show_u64 k @ '','' @ show_u64 v"
  have "write_seq_store m = concat (map (\<lambda>s. s @ [CHR 0x0A]) (map ?line m))"
    by (simp add: write_seq_store_def comp_def case_prod_unfold)
  moreover have "\<forall>s \<in> set (map ?line m). CHR 0x0A \<notin> set s"
    using no_sep_digits by fastforce
  ultimately have "lines_of (write_seq_store m) = map ?line m" using lines_of_concat by metis
  moreover have "List.map_filter read_line (map ?line m) = m"
    by (induction m) (auto simp: map_filter_simps read_line_show simp del: append.simps)
  ultimately have r: "read_seq_store (Some (write_seq_store m)) = fold (\<lambda>(k, v) m. bm_insert k v m) m []"
    by (simp add: read_seq_store_def)
  then show ?thesis using fold_bm_insert [OF assms bm_wf_Nil] assms by (auto intro: bm_ext)
qed

text \<open>The client reads back exactly the sequence numbers it wrote.\<close>

theorem seq_store_roundtrip:
  assumes "bm_wf m"
  shows "read_seq_store (Some (write_seq_store m)) = m"
  using assms by (rule seq_store_back)

theorem seq_store_roundtrip_witness:
  "read_seq_store (Some (write_seq_store [(3, 7), (12, 18446744073709551615)])) = [(3, 7), (12, 18446744073709551615)]"
  by (rule seq_store_roundtrip) (simp add: bm_wf_def word_less_nat_alt)


section \<open>Client and router\<close>

lemma read_seq_store_wf: "bm_wf (read_seq_store file)"
proof -
  have "bm_wf m \<Longrightarrow> bm_wf (fold (\<lambda>(k, v) m. bm_insert k v m) xs m)" for xs :: "(u64 \<times> u64) list" and m :: "(u64, u64) bmap"
    by (induction xs arbitrary: m) auto
  then show ?thesis by (auto simp: read_seq_store_def split: option.split)
qed

lemma auto_seq_store:
  assumes "auto_seq file ep typ = (file', sq)"
  shows "map_of (read_seq_store file') = (map_of (read_seq_store file))(ep \<mapsto> sq)"
    and "sq = (case map_of (read_seq_store file) ep of Some p \<Rightarrow> sat_add p 1 | None \<Rightarrow> if typ = ''new'' then 0 else 1)"
  using assms seq_store_back [OF bm_wf_insert [OF read_seq_store_wf]] by (auto simp: auto_seq_def Let_def)

text \<open>The datagrams of a series of sends to one episode with automatic numbers.\<close>

fun client_datagrams :: "string option \<Rightarrow> u64 \<Rightarrow> (string \<times> msg_kind \<times> bytes \<times> bytes) list \<Rightarrow> bytes list" where
  "client_datagrams file ep [] = []"
| "client_datagrams file ep ((typ, k, h, pl) # ms) =
     (let (file', sq) = auto_seq file ep typ in draw_encode (draw_message k ep sq h pl) # client_datagrams file' ep ms)"

definition sendable :: "(string \<times> msg_kind \<times> bytes \<times> bytes) list \<Rightarrow> bool" where
  "sendable ms \<longleftrightarrow> (\<forall>(typ, k, h, pl) \<in> set ms. length h = 32 \<and> length pl \<le> 65484)"

lemma draw_decode_message:
  assumes "length h = 32" and "length pl \<le> 65484"
  shows "draw_decode (take (64 * 1024) (draw_encode (draw_message k ep sq h pl))) = Some (draw_message k ep sq h pl)"
proof -
  have "length (draw_encode (draw_message k ep sq h pl)) \<le> 64 * 1024"
    using assms by (simp add: draw_encode_def draw_message_def)
  moreover have "draw_tlv_ok (draw_message k ep sq h pl)" using assms by (simp add: draw_tlv_ok_def draw_message_def)
  ultimately show ?thesis by (simp add: draw_wire.dec_enc)
qed

lemma draw_accepts_message:
  assumes "length h = 32" and "length pl \<le> 65484"
  shows "draw_accepts c st (env, draw_encode (draw_message k ep sq h pl)) =
    (case draw_admit c k (st ep) sq of (True, is_close) \<Rightarrow> Some (ep, sq, is_close \<and> snd env) | (False, _) \<Rightarrow> None)"
  by (simp only: draw_accepts_def snd_conv fst_conv draw_decode_message [OF assms] option.case draw_message_fields kind_from_kind)

lemma gap_refused:
  assumes "st ep = Some p" and "p + 1 \<noteq> sq" and "length h = 32" and "length pl \<le> 65484"
  shows "draw_step enc acks c env st (draw_encode (draw_message k ep sq h pl)) = (st, [])"
  using assms(1,2) draw_accepts_message [OF assms(3,4), of c st env k ep sq]
  by (intro draw_step_refused) (cases k; auto simp: draw_admit_def split: if_splits)

lemma ahead_refused:
  assumes "map_of (read_seq_store content) ep = Some b" and "unat p + 1 < unat (sat_add b 1)" and "st ep = Some p"
    and "sendable ms" and "d \<in> set (client_datagrams content ep ms)"
  shows "draw_step enc acks c env st d = (st, [])"
  using assms(1,2,4,5)
proof (induction ms arbitrary: content b)
  case (Cons m ms)
  obtain ty k h pl where m: "m = (ty, k, h, pl)" by (cases m)
  obtain content' sq where a: "auto_seq content ep ty = (content', sq)" by fastforce
  have sq: "sq = sat_add b 1" and content': "map_of (read_seq_store content') ep = Some sq"
    using auto_seq_store [OF a] Cons.prems(1) by simp_all
  have "unat (p + 1) \<noteq> unat sq" using Cons.prems(2) sq unat_word_ariths(1) [of p 1] by (auto simp: le_less_trans)
  then have "p + 1 \<noteq> sq" by auto
  moreover have "unat p + 1 < unat (sat_add sq 1)"
    using Cons.prems(2) sat_add_ge [of sq 1] by (simp add: sq word_le_nat_alt)
  ultimately show ?case
    using Cons.prems(3,4) Cons.IH [OF content'] gap_refused [where st = st and ep = ep, OF assms(3), of sq h pl enc acks c env k] a m
    by (auto simp: sendable_def)
qed simp

lemma ahead_run_refused:
  assumes "\<And>d env. d \<in> D \<Longrightarrow> draw_step enc acks c env st d = (st, [])" and "snd ` set ds \<subseteq> D"
  shows "draw_run enc acks c st ds = (st, [])"
  using assms(2)
proof (induction ds)
  case (Cons x ds)
  obtain env d where x: "x = (env, d)" by (cases x)
  with Cons assms(1) [of d env] show ?case by simp
qed simp

text \<open>
  One lost message wedges an episode. Once the client has used a number beyond the one the
  router expects (a message that never arrived), every later message the client numbers
  automatically for that episode is refused, however many are sent and in whatever order or number
  of copies they arrive: nothing reaches the engine and nothing is acknowledged.
\<close>

theorem lost_message_wedges_episode:
  assumes "map_of (read_seq_store file) ep = Some b" and "st ep = Some p" and "p < b" and "b \<noteq> - 1"
    and "sendable ms" and "snd ` set ds \<subseteq> set (client_datagrams file ep ms)"
  shows "draw_run enc acks c st ds = (st, [])"
proof (rule ahead_run_refused [OF _ assms(6)])
  have "unat (sat_add b 1) = unat b + 1"
    using unat_succ [OF assms(4)] by (simp add: sat_add_def word_le_nat_alt)
  then have ahead: "unat p + 1 < unat (sat_add b 1)" using assms(3) by (simp add: word_less_nat_alt)
  show "draw_step enc acks c env st d = (st, [])" if "d \<in> set (client_datagrams file ep ms)" for d env
    using ahead_refused [where st = st and ep = ep, OF assms(1) ahead assms(2,5) that] .
qed

text \<open>
  A mistyped command wedges an episode. With client and router in step, an \<^verbatim>\<open>OffchainSend\<close> of
  type \<^verbatim>\<open>cmd\<close> that names no command is refused by the client, but only after it used up a sequence
  number: from then on every automatically numbered message of the episode is refused by the router.
\<close>

theorem refused_arguments_wedge_episode:
  assumes "arg_type args = ''cmd''" and "arg_force_seq args = None" and "arg_amount args = None"
    and "arg_entropy args = None" and "arg_ticket args = None \<or> arg_round args = None"
    and "map_of (read_seq_store file) (ucast (arg_episode args)) = Some p" and "st (ucast (arg_episode args)) = Some p" and "p < - 2"
  shows "\<exists>file'. offchain_send cr enc_cmd enc hex32 args key file = (file', CliError) \<and>
    (\<forall>ms ds. sendable ms \<longrightarrow> snd ` set ds \<subseteq> set (client_datagrams file' (ucast (arg_episode args)) ms) \<longrightarrow>
       draw_run enc acks c st ds = (st, []))"
proof -
  obtain file' sq where a: "auto_seq file (ucast (arg_episode args)) ''cmd'' = (file', sq)" by fastforce
  have p: "p \<noteq> - 1" using assms(8) word_order.extremum_strict by blast
  have sq: "sq = p + 1"
    using auto_seq_store(2) [OF a] assms(6) unat_succ [OF p] by (simp add: sat_add_def word_le_nat_alt)
  have top: "sq \<noteq> - 1"
  proof
    assume "sq = - 1"
    then have "p = - 2" using sq by (simp add: eq_diff_eq [symmetric])
    with assms(8) show False by simp
  qed
  have ahead: "unat p + 1 < unat (sat_add sq 1)"
    using unat_succ [OF p] unat_succ [OF top] by (simp add: sq sat_add_def word_le_nat_alt)
  have known: "map_of (read_seq_store file') (ucast (arg_episode args)) = Some sq" using auto_seq_store(1) [OF a] by simp
  have "draw_run enc acks c st ds = (st, [])"
    if "sendable ms" "snd ` set ds \<subseteq> set (client_datagrams file' (ucast (arg_episode args)) ms)" for ms ds
    by (rule ahead_run_refused [OF ahead_refused [where st = st and ep = "ucast (arg_episode args)", OF known ahead assms(7) that(1)] that(2)])
  moreover have "offchain_send cr enc_cmd enc hex32 args key file = (file', CliError)"
    using assms(1-5) a by (auto simp: offchain_send_def offchain_cmd_def split: option.splits)
  ultimately show ?thesis by blast
qed

definition demo_typo :: offchain_args where
  "demo_typo = \<lparr>arg_type = ''cmd'', arg_episode = 3, arg_force_seq = None, arg_amount = None, arg_numbers = [],
     arg_entropy = None, arg_ticket = Some 1, arg_round = None, arg_state_root = None\<rparr>"

theorem refused_arguments_wedge_episode_witness:
  "\<forall>cr enc_cmd enc hex32 key. \<exists>file'. offchain_send cr enc_cmd enc hex32 demo_typo key (Some (write_seq_store [(3, 7)])) = (file', CliError) \<and>
    (\<forall>ds. snd ` set ds \<subseteq> set (client_datagrams file' 3 [(''cmd'', MCmd, replicate 32 0, [])]) \<longrightarrow>
       draw_run enc True True [3 \<mapsto> 7] ds = ([3 \<mapsto> 7], []))"
proof (intro allI)
  fix cr enc_cmd enc hex32 key
  have "bm_wf [(3 :: u64, 7 :: u64)]" by (simp add: bm_wf_def)
  then have stored: "map_of (read_seq_store (Some (write_seq_store [(3, 7)]))) (ucast (arg_episode demo_typo)) = Some 7"
    by (simp add: seq_store_back demo_typo_def)
  have lt: "(7 :: u64) < - 2" by (simp add: word_less_nat_alt)
  have ep: "ucast (arg_episode demo_typo) = (3 :: u64)" by (simp add: demo_typo_def)
  have ms: "sendable [(''cmd'', MCmd, replicate 32 0, [])]" by (simp add: sendable_def)
  from refused_arguments_wedge_episode [of demo_typo "Some (write_seq_store [(3, 7)])" 7 "[3 \<mapsto> 7]"
      cr enc_cmd enc hex32 key True True, OF _ _ _ _ _ stored _ lt] ms
  show "\<exists>file'. offchain_send cr enc_cmd enc hex32 demo_typo key (Some (write_seq_store [(3, 7)])) = (file', CliError) \<and>
    (\<forall>ds. snd ` set ds \<subseteq> set (client_datagrams file' 3 [(''cmd'', MCmd, replicate 32 0, [])]) \<longrightarrow>
       draw_run enc True True [3 \<mapsto> 7] ds = ([3 \<mapsto> 7], []))"
    by (simp add: ep) (auto simp: demo_typo_def)
qed

text \<open>
  A resent message is never acknowledged. Once a datagram was accepted, its copies are refused
  without a reply, unlike in the merchant's routers. So if the first acknowledgement is lost, the
  client makes all its attempts and reports a failure although the message was accepted, once.
\<close>

theorem resend_never_acknowledged:
  assumes "draw_accepts c st (env, d) = Some (ep, n, final)" and "draw_step enc acks c env st d = (st', out)"
    and "snd ` set ds \<subseteq> {d}"
  shows "draw_run enc acks c st' ds = (st', []) \<and>
    send_with_ack m close_ack True [None, None, None] = (replicate 3 (draw_encode m), [300, 600, 1200], False)"
proof
  have st': "st' = st(ep := if final then None else Some n)"
    using draw_step_accepted(1) [OF assms(1), of enc acks] assms(2) by simp
  have "draw_accepts c st' (env', d) = None" for env'
  proof (rule ccontr)
    assume "draw_accepts c st' (env', d) \<noteq> None"
    then obtain final' where again: "draw_accepts c st' (env', d) = Some (ep, n, final')"
      using assms(1) by (auto simp: draw_accepts_def split: option.splits prod.splits bool.splits)
    have "\<not> final"
    proof
      assume final
      with assms(1) again show False
        by (auto simp: st' draw_accepts_def draw_admit_def split: option.splits prod.splits bool.splits
            msg_kind.splits if_splits)
    qed
    then have "st' ep = Some n" by (simp add: st')
    with draw_step_accepted(2) [OF again] show False by simp
  qed
  then have "draw_step enc acks c env' st' d = (st', [])" for env' by (rule draw_step_refused)
  then show "draw_run enc acks c st' ds = (st', [])" using assms(3) by (intro ahead_run_refused [of "{d}"]) auto
  show "send_with_ack m close_ack True [None, None, None] = (replicate 3 (draw_encode m), [300, 600, 1200], False)"
    by (simp add: send_with_ack_def numeral_3_eq_3 double_ms_def Let_def)
qed

definition demo_draw :: bytes where
  "demo_draw = draw_encode (draw_message MCmd 4 3 (replicate 32 0) [1])"

theorem resend_never_acknowledged_witness:
  "\<exists>st' out. draw_step (\<lambda>_. []) True True (9, True) [4 \<mapsto> 2] demo_draw = (st', out) \<and>
    draw_run (\<lambda>_. []) True True st' [((10, True), demo_draw), ((11, True), demo_draw)] = (st', [])"
proof -
  have a: "draw_accepts True [4 \<mapsto> 2] ((9, True), demo_draw) = Some (4, 3, False)"
    by (simp add: demo_draw_def draw_accepts_message draw_admit_def)
  obtain st' out where s: "draw_step (\<lambda>_. []) True True (9, True) [4 \<mapsto> 2] demo_draw = (st', out)" by fastforce
  have "snd ` set [(((10 :: u64), True), demo_draw), ((11, True), demo_draw)] \<subseteq> {demo_draw}" by simp
  from resend_never_acknowledged [OF a s this] s show ?thesis by blast
qed

end
