(* ===== verification/Merchant_Storage.thy ===== *)
theory Merchant_Storage
  imports Episode
begin

text \<open>
  The data of the merchant dApp (\<^verbatim>\<open>kdapp-merchant/src/episode.rs\<close>) and its write-through
  store (\<^verbatim>\<open>storage.rs\<close>): three trees of byte keys and byte values. The Borsh form of the
  records is derived code, so the encoders and decoders are parameters. Failures of the database
  are ignored by the code (\<^verbatim>\<open>let _ = tree.insert\<close>) and are left out: an insert succeeds.
\<close>

section \<open>Records\<close>

datatype invoice_status = Open | Paid | Acked | Canceled

record invoice =
  inv_id :: u64
  inv_amount :: u64
  inv_memo :: "string option"
  created_at :: u64
  last_update :: u64
  inv_status :: invoice_status
  payer :: "pubkey option"
  carrier_tx :: "hash option"

record subscription =
  sub_id :: u64
  sub_customer :: pubkey
  sub_amount :: u64
  sub_interval :: u64
  next_run :: u64

record customer_info =
  ci_invoices :: "u64 list"
  ci_subscriptions :: "u64 list"

section \<open>The store\<close>

type_synonym tree = "(bytes, bytes) bmap"

record store =
  invoices_tree :: tree
  customers_tree :: tree
  subscriptions_tree :: tree

record merchant_codec =
  enc_invoice :: "invoice \<Rightarrow> bytes"
  dec_invoice :: "bytes \<Rightarrow> invoice option"
  enc_customer :: "customer_info \<Rightarrow> bytes"
  dec_customer :: "bytes \<Rightarrow> customer_info option"
  enc_subscription :: "subscription \<Rightarrow> bytes"
  dec_subscription :: "bytes \<Rightarrow> subscription option"
  key_crypto :: crypto

definition load_tree :: "(bytes \<Rightarrow> 'k option) \<Rightarrow> (bytes \<Rightarrow> 'v option) \<Rightarrow> tree \<Rightarrow> ('k::linorder, 'v) bmap" where
  "load_tree dk dv tree =
     fold (\<lambda>(k, v). bm_insert k v)
       (List.map_filter (\<lambda>(k, v). case dk k of
            None \<Rightarrow> None
          | Some k' \<Rightarrow> map_option (Pair k') (dv v)) tree) []"

definition dec_id :: "bytes \<Rightarrow> u64 option" where
  "dec_id k = (if length k = 8 then Some (be_u64 k) else None)"

definition dec_key :: "crypto \<Rightarrow> bytes \<Rightarrow> pubkey option" where
  "dec_key cr k = (if length k = 33 then (if pk_slice_ok cr k then Some (PubKey k) else None) else None)"

definition load_invoices :: "merchant_codec \<Rightarrow> store \<Rightarrow> (u64, invoice) bmap" where
  "load_invoices mc st = load_tree dec_id (dec_invoice mc) (invoices_tree st)"

definition put_invoice :: "merchant_codec \<Rightarrow> invoice \<Rightarrow> store \<Rightarrow> store" where
  "put_invoice mc iv st =
     st\<lparr>invoices_tree := bm_insert (u64_be (inv_id iv)) (enc_invoice mc iv) (invoices_tree st)\<rparr>"

definition delete_invoice :: "u64 \<Rightarrow> store \<Rightarrow> store" where
  "delete_invoice i st = st\<lparr>invoices_tree := bm_remove (u64_be i) (invoices_tree st)\<rparr>"

definition load_customers :: "merchant_codec \<Rightarrow> store \<Rightarrow> (pubkey, customer_info) bmap" where
  "load_customers mc st = load_tree (dec_key (key_crypto mc)) (dec_customer mc) (customers_tree st)"

definition put_customer :: "merchant_codec \<Rightarrow> pubkey \<Rightarrow> customer_info \<Rightarrow> store \<Rightarrow> store" where
  "put_customer mc pk info st =
     st\<lparr>customers_tree := bm_insert (pk_bytes pk) (enc_customer mc info) (customers_tree st)\<rparr>"

definition load_subscriptions :: "merchant_codec \<Rightarrow> store \<Rightarrow> (u64, subscription) bmap" where
  "load_subscriptions mc st = load_tree dec_id (dec_subscription mc) (subscriptions_tree st)"

definition put_subscription :: "merchant_codec \<Rightarrow> subscription \<Rightarrow> store \<Rightarrow> store" where
  "put_subscription mc sub st =
     st\<lparr>subscriptions_tree := bm_insert (u64_be (sub_id sub)) (enc_subscription mc sub) (subscriptions_tree st)\<rparr>"

definition delete_subscription :: "u64 \<Rightarrow> store \<Rightarrow> store" where
  "delete_subscription i st = st\<lparr>subscriptions_tree := bm_remove (u64_be i) (subscriptions_tree st)\<rparr>"

section \<open>Loading what was stored\<close>

lemma map_of_fold_insert: "map_of (fold (\<lambda>(k, v). bm_insert k v) xs m) = map_of (rev xs @ m)"
  by (induction xs arbitrary: m) (auto simp: fun_eq_iff map_add_def split: option.splits)

lemma bm_wf_fold_insert: "bm_wf m \<Longrightarrow> bm_wf (fold (\<lambda>(k, v). bm_insert k v) xs m)"
  by (induction xs arbitrary: m) auto

lemma bm_wf_load [simp]: "bm_wf (load_tree dk dv t)"
  by (simp add: load_tree_def bm_wf_fold_insert)

text \<open>
  A tree seen through its key codec. \<open>ek\<close> is the encoder of the keys; a key that does not
  decode is skipped.
\<close>

locale tree_keys =
  fixes ek :: "'k::linorder \<Rightarrow> bytes" and dk :: "bytes \<Rightarrow> 'k option" and kok :: "'k \<Rightarrow> bool"
  assumes key_dec: "kok k \<Longrightarrow> dk (ek k) = Some k"
    and key_enc: "dk b = Some k \<Longrightarrow> b = ek k \<and> kok k"
begin

lemma key_neq: "kok k \<Longrightarrow> kok k' \<Longrightarrow> k \<noteq> k' \<Longrightarrow> ek k \<noteq> ek k'"
  by (metis key_dec option.inject)

abbreviation decoded :: "(bytes \<Rightarrow> 'v option) \<Rightarrow> tree \<Rightarrow> ('k \<times> 'v) list" where
  "decoded dv \<equiv> List.map_filter (\<lambda>(k, v). case dk k of None \<Rightarrow> None | Some k' \<Rightarrow> map_option (Pair k') (dv v))"

lemma map_of_decoded:
  "distinct (map fst t) \<Longrightarrow> map_of (decoded dv t) k =
     (if kok k then (case map_of t (ek k) of None \<Rightarrow> None | Some v \<Rightarrow> dv v) else None)"
proof (induction t)
  case Nil
  then show ?case by (simp add: map_filter_simps)
next
  case (Cons e t)
  obtain b v where e: "e = (b, v)" by (cases e)
  have fresh: "map_of t b = None" using Cons.prems e by (simp add: map_of_eq_None_iff)
  show ?case
  proof (cases "dk b = Some k")
    case True
    with key_enc have "b = ek k" "kok k" by auto
    with True Cons fresh e show ?thesis by (cases "dv v") (simp_all add: map_filter_simps)
  next
    case False
    then have "kok k \<Longrightarrow> b \<noteq> ek k" using key_dec by auto
    with False Cons e show ?thesis
      by (cases "dk b"; cases "dv v") (auto simp: map_filter_simps)
  qed
qed

lemma distinct_decoded: "distinct (map fst t) \<Longrightarrow> distinct (map fst (decoded dv t))"
proof (induction t)
  case Nil
  then show ?case by (simp add: map_filter_simps)
next
  case (Cons e t)
  obtain b v where e: "e = (b, v)" by (cases e)
  have fresh: "map_of t b = None" using Cons.prems e by (simp add: map_of_eq_None_iff)
  have "k \<notin> fst ` set (decoded dv t)" if "dk b = Some k" for k
    using map_of_decoded [of t dv k] Cons.prems e fresh key_enc [OF that]
    by (simp add: map_of_eq_None_iff [symmetric])
  with Cons e show ?case
    by (cases "dk b"; cases "dv v") (auto simp: map_filter_simps)
qed

lemma map_of_rev: "distinct (map fst xs) \<Longrightarrow> map_of (rev xs) = map_of xs"
  by (subst map_of_inject_set) (simp_all flip: rev_map)

lemma map_of_load:
  assumes "bm_wf t"
  shows "map_of (load_tree dk dv t) k =
    (if kok k then (case map_of t (ek k) of None \<Rightarrow> None | Some v \<Rightarrow> dv v) else None)"
  using map_of_decoded [of t dv k] map_of_rev [OF distinct_decoded, of t dv] bm_wf_distinct [OF assms]
  by (simp add: load_tree_def map_of_fold_insert)

lemma load_insert:
  assumes "bm_wf t" and "kok k" and "dv (ev v) = Some v"
  shows "load_tree dk dv (bm_insert (ek k) (ev v) t) = bm_insert k v (load_tree dk dv t)"
  using assms key_neq [OF _ assms(2)]
  by (intro bm_ext) (auto simp: fun_eq_iff map_of_load)

lemma load_remove:
  assumes "bm_wf t" and "kok k"
  shows "load_tree dk dv (bm_remove (ek k) t) = bm_remove k (load_tree dk dv t)"
  using assms key_neq [OF _ assms(2)]
  by (intro bm_ext) (auto simp: fun_eq_iff map_of_load)

lemma load_keys: "bm_wf t \<Longrightarrow> map_of (load_tree dk dv t) k = Some v \<Longrightarrow> kok k"
  by (simp add: map_of_load split: if_splits)

end

lemma u64_be_of_bytes: "length bs = 8 \<Longrightarrow> u64_be (be_u64 bs) = bs"
  using le_nat_bound [of "rev bs"]
  by (simp add: u64_be_def be_u64_def unat_of_nat nat_le_le_nat)

interpretation id_keys: tree_keys u64_be dec_id "\<lambda>_. True"
  by unfold_locales (auto simp: dec_id_def u64_be_of_bytes split: if_splits)

interpretation pk_keys: tree_keys pk_bytes "dec_key cr" "pubkey_ok cr" for cr
  by unfold_locales (auto simp: dec_key_def pubkey_ok_def split: if_splits)

text \<open>The decoders undo the encoders: what Borsh documents.\<close>

definition borsh_ok :: "merchant_codec \<Rightarrow> bool" where
  "borsh_ok mc \<longleftrightarrow>
     (\<forall>iv. dec_invoice mc (enc_invoice mc iv) = Some iv) \<and>
     (\<forall>ci. dec_customer mc (enc_customer mc ci) = Some ci) \<and>
     (\<forall>s. dec_subscription mc (enc_subscription mc s) = Some s)"

definition store_wf :: "store \<Rightarrow> bool" where
  "store_wf st \<longleftrightarrow> bm_wf (invoices_tree st) \<and> bm_wf (customers_tree st) \<and> bm_wf (subscriptions_tree st)"

lemma store_wf_updates [simp]:
  assumes "store_wf st"
  shows "store_wf (put_invoice mc iv st)" "store_wf (delete_invoice i st)" "store_wf (put_customer mc pk ci st)"
    "store_wf (put_subscription mc s st)" "store_wf (delete_subscription i st)"
  using assms
  by (simp_all add: store_wf_def put_invoice_def delete_invoice_def put_customer_def put_subscription_def
      delete_subscription_def)

lemma load_invoices_updates [simp]:
  assumes "store_wf st" and "borsh_ok mc"
  shows "load_invoices mc (put_invoice mc iv st) = bm_insert (inv_id iv) iv (load_invoices mc st)"
    "load_invoices mc (delete_invoice i st) = bm_remove i (load_invoices mc st)"
    "load_invoices mc (put_customer mc pk ci st) = load_invoices mc st"
    "load_invoices mc (put_subscription mc s st) = load_invoices mc st"
    "load_invoices mc (delete_subscription i st) = load_invoices mc st"
  using assms
  by (simp_all add: store_wf_def borsh_ok_def load_invoices_def put_invoice_def delete_invoice_def
      put_customer_def put_subscription_def delete_subscription_def id_keys.load_insert id_keys.load_remove)

lemma load_customers_updates [simp]:
  assumes "store_wf st" and "borsh_ok mc"
  shows "load_customers mc (put_invoice mc iv st) = load_customers mc st"
    "load_customers mc (delete_invoice i st) = load_customers mc st"
    "pubkey_ok (key_crypto mc) pk \<Longrightarrow>
       load_customers mc (put_customer mc pk ci st) = bm_insert pk ci (load_customers mc st)"
    "load_customers mc (put_subscription mc s st) = load_customers mc st"
    "load_customers mc (delete_subscription i st) = load_customers mc st"
  using assms
  by (simp_all add: store_wf_def borsh_ok_def load_customers_def put_invoice_def delete_invoice_def
      put_customer_def put_subscription_def delete_subscription_def pk_keys.load_insert)

lemma load_subscriptions_updates [simp]:
  assumes "store_wf st" and "borsh_ok mc"
  shows "load_subscriptions mc (put_invoice mc iv st) = load_subscriptions mc st"
    "load_subscriptions mc (delete_invoice i st) = load_subscriptions mc st"
    "load_subscriptions mc (put_customer mc pk ci st) = load_subscriptions mc st"
    "load_subscriptions mc (put_subscription mc s st) = bm_insert (sub_id s) s (load_subscriptions mc st)"
    "load_subscriptions mc (delete_subscription i st) = bm_remove i (load_subscriptions mc st)"
  using assms
  by (simp_all add: store_wf_def borsh_ok_def load_subscriptions_def put_invoice_def delete_invoice_def
      put_customer_def put_subscription_def delete_subscription_def id_keys.load_insert id_keys.load_remove)

lemma load_wf [simp]:
  "bm_wf (load_invoices mc st)" "bm_wf (load_customers mc st)" "bm_wf (load_subscriptions mc st)"
  by (simp_all add: load_invoices_def load_customers_def load_subscriptions_def)

lemma load_customers_key:
  "store_wf st \<Longrightarrow> map_of (load_customers mc st) pk = Some ci \<Longrightarrow> pubkey_ok (key_crypto mc) pk"
  unfolding load_customers_def store_wf_def by (blast intro: pk_keys.load_keys)

end
