(* ===== verification/Merchant_Episode.thy ===== *)
theory Merchant_Episode
  imports Merchant_Storage
begin

text \<open>
  The receipt episode (\<^verbatim>\<open>kdapp-merchant/src/episode.rs\<close>): invoices, subscriptions and
  customers with a write-through store, one definition per command and per rollback. The
  ledger invariant (a carrier transaction pays one invoice, the customers' lists mirror the
  invoices and subscriptions) and the mirror of the store are kept by every operation, and the
  episode satisfies the framework's contract up to the time of the last update of an invoice,
  which the rollbacks do not restore.
\<close>

section \<open>Commands, rollbacks, errors\<close>

datatype merchant_command =
    CreateInvoice u64 u64 "string option"
  | MarkPaid u64 pubkey
  | AckReceipt u64
  | CancelInvoice u64
  | CreateSubscription u64 pubkey u64 u64
  | ProcessSubscription u64
  | CancelSubscription u64

datatype merchant_rollback =
    UndoCreate u64
  | UndoPaid u64
  | UndoAck u64
  | UndoCancel u64
  | UndoCreateSubscription u64
  | UndoProcessSubscription u64 u64
  | UndoCancelSubscription subscription

datatype merchant_error =
    Exists | NotFound | InvalidAmount | AlreadyPaid | AlreadyAcked | AlreadyCanceled
  | UnknownCustomer | InvalidScript | DuplicatePayment | SubscriptionExists | SubscriptionNotFound

record receipt_episode =
  merchant_keys :: "pubkey list"
  invoices :: "(u64, invoice) bmap"
  subscriptions :: "(u64, subscription) bmap"
  customers :: "(pubkey, customer_info) bmap"
  used_carrier_txs :: "hash set"

text \<open>The episode together with the store it writes through to.\<close>

type_synonym merchant = "receipt_episode \<times> store"
type_synonym merchant_result = "merchant \<times> (merchant_error episode_error + merchant_rollback)"

definition merchant_initialize :: "merchant_codec \<Rightarrow> store \<Rightarrow> pubkey list \<Rightarrow> metadata \<Rightarrow> merchant" where
  "merchant_initialize mc st participants md =
     (let ivs = load_invoices mc st in
      (\<lparr>merchant_keys = participants, invoices = ivs, subscriptions = load_subscriptions mc st,
        customers = load_customers mc st,
        used_carrier_txs = set (List.map_filter (\<lambda>(_, iv). carrier_tx iv) ivs)\<rparr>, st))"

section \<open>Execution\<close>

text \<open>The merchant's authorization, asked for by the two create commands.\<close>

definition merchant_auth :: "receipt_episode \<Rightarrow> pubkey option \<Rightarrow> bool" where
  "merchant_auth ep authorization =
     (case authorization of Some pk \<Rightarrow> pk \<in> set (merchant_keys ep) | None \<Rightarrow> False)"

definition create_invoice ::
  "merchant_codec \<Rightarrow> merchant \<Rightarrow> u64 \<Rightarrow> u64 \<Rightarrow> string option \<Rightarrow> pubkey option \<Rightarrow> metadata \<Rightarrow> merchant_result" where
  "create_invoice mc m invoice_id amount memo authorization md =
     (let (ep, st) = m in
      if map_of (invoices ep) invoice_id \<noteq> None then (m, Inl (InvalidCommand Exists))
      else if amount = 0 then (m, Inl (InvalidCommand InvalidAmount))
      else if \<not> merchant_auth ep authorization then (m, Inl Unauthorized)
      else let created = \<lparr>inv_id = invoice_id, inv_amount = amount, inv_memo = memo,
                 created_at = accepting_time md, last_update = accepting_time md,
                 inv_status = Open, payer = None, carrier_tx = None\<rparr>
        in ((ep\<lparr>invoices := bm_insert invoice_id created (invoices ep)\<rparr>, put_invoice mc created st),
            Inr (UndoCreate invoice_id)))"

definition p2pk_script :: "pubkey \<Rightarrow> bytes" where
  "p2pk_script k = [33] @ pk_bytes k @ [0xac]"

text \<open>The loop over the outputs, with its \<^verbatim>\<open>break\<close>: (\<open>amount_ok\<close>, \<open>script_checked\<close>, \<open>script_ok\<close>).\<close>

fun check_outputs :: "u64 \<Rightarrow> bytes list \<Rightarrow> tx_output_info list \<Rightarrow> bool \<times> bool \<times> bool \<Rightarrow> bool \<times> bool \<times> bool" where
  "check_outputs amount allowed [] flags = flags"
| "check_outputs amount allowed (o1 # os) (amount_ok, script_checked, script_ok) =
     (if out_value o1 \<ge> amount
      then (case script_bytes o1 of
              Some sb \<Rightarrow> if sb \<in> set allowed then (True, True, True)
                         else check_outputs amount allowed os (True, True, script_ok)
            | None \<Rightarrow> check_outputs amount allowed os (True, script_checked, script_ok))
      else check_outputs amount allowed os (amount_ok, script_checked, script_ok))"

definition outputs_error :: "receipt_episode \<Rightarrow> invoice \<Rightarrow> metadata \<Rightarrow> merchant_error option" where
  "outputs_error ep iv md =
     (case tx_outputs md of
        None \<Rightarrow> None
      | Some outs \<Rightarrow>
          let (amount_ok, script_checked, script_ok) =
                check_outputs (inv_amount iv) (map p2pk_script (merchant_keys ep)) outs (False, False, False)
          in if script_checked \<and> \<not> script_ok then Some InvalidScript
             else if \<not> amount_ok then Some InvalidAmount else None)"

definition add_once :: "u64 \<Rightarrow> u64 list \<Rightarrow> u64 list" where
  "add_once i xs = (if i \<in> set xs then xs else xs @ [i])"

definition mark_paid ::
  "merchant_codec \<Rightarrow> merchant \<Rightarrow> u64 \<Rightarrow> pubkey \<Rightarrow> pubkey option \<Rightarrow> metadata \<Rightarrow> merchant_result" where
  "mark_paid mc m invoice_id pk authorization md =
     (let (ep, st) = m in
      if authorization \<noteq> Some pk then (m, Inl Unauthorized)
      else if tx_id md \<in> used_carrier_txs ep then (m, Inl (InvalidCommand DuplicatePayment))
      else case map_of (invoices ep) invoice_id of
        None \<Rightarrow> (m, Inl (InvalidCommand NotFound))
      | Some iv \<Rightarrow>
          if inv_status iv = Canceled then (m, Inl (InvalidCommand AlreadyCanceled))
          else if inv_status iv = Acked \<or> inv_status iv = Paid then (m, Inl (InvalidCommand AlreadyPaid))
          else (case map_of (customers ep) pk of
                  None \<Rightarrow> (m, Inl (InvalidCommand UnknownCustomer))
                | Some info \<Rightarrow>
                    (case outputs_error ep iv md of
                       Some err \<Rightarrow> (m, Inl (InvalidCommand err))
                     | None \<Rightarrow>
                         let iv' = iv\<lparr>inv_status := Paid, last_update := accepting_time md,
                                      payer := Some pk, carrier_tx := Some (tx_id md)\<rparr>;
                             info' = info\<lparr>ci_invoices := add_once invoice_id (ci_invoices info)\<rparr>
                         in ((ep\<lparr>invoices := bm_insert invoice_id iv' (invoices ep),
                                 used_carrier_txs := insert (tx_id md) (used_carrier_txs ep),
                                 customers := bm_insert pk info' (customers ep)\<rparr>,
                              put_customer mc pk info' (put_invoice mc iv' st)),
                             Inr (UndoPaid invoice_id)))))"

definition ack_receipt :: "merchant_codec \<Rightarrow> merchant \<Rightarrow> u64 \<Rightarrow> metadata \<Rightarrow> merchant_result" where
  "ack_receipt mc m invoice_id md =
     (let (ep, st) = m in
      case map_of (invoices ep) invoice_id of
        None \<Rightarrow> (m, Inl (InvalidCommand NotFound))
      | Some iv \<Rightarrow>
          if inv_status iv = Canceled then (m, Inl (InvalidCommand AlreadyCanceled))
          else if inv_status iv = Acked then (m, Inl (InvalidCommand AlreadyAcked))
          else if inv_status iv \<noteq> Paid then (m, Inl (InvalidCommand NotFound))
          else let iv' = iv\<lparr>inv_status := Acked, last_update := accepting_time md\<rparr>
            in ((ep\<lparr>invoices := bm_insert invoice_id iv' (invoices ep)\<rparr>, put_invoice mc iv' st),
                Inr (UndoAck invoice_id)))"

definition cancel_invoice :: "merchant_codec \<Rightarrow> merchant \<Rightarrow> u64 \<Rightarrow> metadata \<Rightarrow> merchant_result" where
  "cancel_invoice mc m invoice_id md =
     (let (ep, st) = m in
      case map_of (invoices ep) invoice_id of
        None \<Rightarrow> (m, Inl (InvalidCommand NotFound))
      | Some iv \<Rightarrow>
          if inv_status iv = Canceled then (m, Inl (InvalidCommand AlreadyCanceled))
          else if inv_status iv = Paid \<or> inv_status iv = Acked then (m, Inl (InvalidCommand AlreadyPaid))
          else let iv' = iv\<lparr>inv_status := Canceled, last_update := accepting_time md\<rparr>
            in ((ep\<lparr>invoices := bm_insert invoice_id iv' (invoices ep)\<rparr>, put_invoice mc iv' st),
                Inr (UndoCancel invoice_id)))"

definition create_subscription ::
  "merchant_codec \<Rightarrow> merchant \<Rightarrow> u64 \<Rightarrow> pubkey \<Rightarrow> u64 \<Rightarrow> u64 \<Rightarrow> pubkey option \<Rightarrow> metadata \<Rightarrow> merchant_result" where
  "create_subscription mc m subscription_id customer amount interval authorization md =
     (let (ep, st) = m in
      if map_of (subscriptions ep) subscription_id \<noteq> None then (m, Inl (InvalidCommand SubscriptionExists))
      else if amount = 0 \<or> interval = 0 then (m, Inl (InvalidCommand InvalidAmount))
      else if \<not> merchant_auth ep authorization then (m, Inl Unauthorized)
      else case map_of (customers ep) customer of
        None \<Rightarrow> (m, Inl (InvalidCommand UnknownCustomer))
      | Some info \<Rightarrow>
          let sub = \<lparr>sub_id = subscription_id, sub_customer = customer, sub_amount = amount,
                sub_interval = interval, next_run = accepting_time md + interval\<rparr>;
              info' = info\<lparr>ci_subscriptions := ci_subscriptions info @ [subscription_id]\<rparr>
          in ((ep\<lparr>customers := bm_insert customer info' (customers ep),
                  subscriptions := bm_insert subscription_id sub (subscriptions ep)\<rparr>,
               put_subscription mc sub (put_customer mc customer info' st)),
              Inr (UndoCreateSubscription subscription_id)))"

definition process_subscription :: "merchant_codec \<Rightarrow> merchant \<Rightarrow> u64 \<Rightarrow> metadata \<Rightarrow> merchant_result" where
  "process_subscription mc m subscription_id md =
     (let (ep, st) = m in
      case map_of (subscriptions ep) subscription_id of
        None \<Rightarrow> (m, Inl (InvalidCommand SubscriptionNotFound))
      | Some sub \<Rightarrow>
          let sub' = sub\<lparr>next_run := accepting_time md + sub_interval sub\<rparr>
          in ((ep\<lparr>subscriptions := bm_insert subscription_id sub' (subscriptions ep)\<rparr>, put_subscription mc sub' st),
              Inr (UndoProcessSubscription subscription_id (next_run sub))))"

text \<open>Both the cancel command and the rollback of a creation take the id off the customer's list.\<close>

definition drop_subscription :: "merchant_codec \<Rightarrow> merchant \<Rightarrow> pubkey \<Rightarrow> u64 \<Rightarrow> merchant" where
  "drop_subscription mc m customer i =
     (let (ep, st) = m in
      case map_of (customers ep) customer of
        None \<Rightarrow> m
      | Some info \<Rightarrow>
          let info' = info\<lparr>ci_subscriptions := filter (\<lambda>j. j \<noteq> i) (ci_subscriptions info)\<rparr>
          in (ep\<lparr>customers := bm_insert customer info' (customers ep)\<rparr>, put_customer mc customer info' st))"

definition cancel_subscription :: "merchant_codec \<Rightarrow> merchant \<Rightarrow> u64 \<Rightarrow> merchant_result" where
  "cancel_subscription mc m subscription_id =
     (let (ep, st) = m in
      case map_of (subscriptions ep) subscription_id of
        None \<Rightarrow> (m, Inl (InvalidCommand SubscriptionNotFound))
      | Some sub \<Rightarrow>
          let (ep', st') = drop_subscription mc
                (ep\<lparr>subscriptions := bm_remove subscription_id (subscriptions ep)\<rparr>, st)
                (sub_customer sub) subscription_id
          in ((ep', delete_subscription subscription_id st'), Inr (UndoCancelSubscription sub)))"

fun merchant_execute ::
  "merchant_codec \<Rightarrow> merchant \<Rightarrow> merchant_command \<Rightarrow> pubkey option \<Rightarrow> metadata \<Rightarrow> merchant_result" where
  "merchant_execute mc m (CreateInvoice i amount memo) authorization md = create_invoice mc m i amount memo authorization md"
| "merchant_execute mc m (MarkPaid i pk) authorization md = mark_paid mc m i pk authorization md"
| "merchant_execute mc m (AckReceipt i) authorization md = ack_receipt mc m i md"
| "merchant_execute mc m (CancelInvoice i) authorization md = cancel_invoice mc m i md"
| "merchant_execute mc m (CreateSubscription i customer amount interval) authorization md =
     create_subscription mc m i customer amount interval authorization md"
| "merchant_execute mc m (ProcessSubscription i) authorization md = process_subscription mc m i md"
| "merchant_execute mc m (CancelSubscription i) authorization md = cancel_subscription mc m i"

section \<open>Rollback\<close>

text \<open>\<open>undo_paid\<close>: the customer's list, the carrier transaction and the invoice, where present.\<close>

definition undo_paid :: "merchant_codec \<Rightarrow> merchant \<Rightarrow> u64 \<Rightarrow> merchant \<times> bool" where
  "undo_paid mc m invoice_id =
     (let (ep, st) = m in
      case map_of (invoices ep) invoice_id of
        None \<Rightarrow> (m, False)
      | Some iv \<Rightarrow>
          let (ep1, st1) = (case payer iv of
                None \<Rightarrow> (ep, st)
              | Some pk \<Rightarrow>
                  (case map_of (customers ep) pk of
                     None \<Rightarrow> (ep, st)
                   | Some info \<Rightarrow>
                       let info' = info\<lparr>ci_invoices := filter (\<lambda>j. j \<noteq> invoice_id) (ci_invoices info)\<rparr>
                       in (ep\<lparr>customers := bm_insert pk info' (customers ep)\<rparr>, put_customer mc pk info' st)));
              used' = (case carrier_tx iv of None \<Rightarrow> used_carrier_txs ep1 | Some tx \<Rightarrow> used_carrier_txs ep1 - {tx});
              iv' = iv\<lparr>inv_status := Open, payer := None, carrier_tx := None\<rparr>
          in ((ep1\<lparr>used_carrier_txs := used', invoices := bm_insert invoice_id iv' (invoices ep1)\<rparr>,
               put_invoice mc iv' st1), True))"

definition set_status :: "merchant_codec \<Rightarrow> merchant \<Rightarrow> u64 \<Rightarrow> invoice_status \<Rightarrow> merchant \<times> bool" where
  "set_status mc m invoice_id s =
     (let (ep, st) = m in
      case map_of (invoices ep) invoice_id of
        None \<Rightarrow> (m, False)
      | Some iv \<Rightarrow>
          let iv' = iv\<lparr>inv_status := s\<rparr>
          in ((ep\<lparr>invoices := bm_insert invoice_id iv' (invoices ep)\<rparr>, put_invoice mc iv' st), True))"

definition undo_create_subscription :: "merchant_codec \<Rightarrow> merchant \<Rightarrow> u64 \<Rightarrow> merchant \<times> bool" where
  "undo_create_subscription mc m i =
     (let (ep, st) = m; st1 = delete_subscription i st in
      case map_of (subscriptions ep) i of
        None \<Rightarrow> ((ep, st1), False)
      | Some sub \<Rightarrow>
          (drop_subscription mc (ep\<lparr>subscriptions := bm_remove i (subscriptions ep)\<rparr>, st1) (sub_customer sub) i, True))"

definition undo_process_subscription :: "merchant_codec \<Rightarrow> merchant \<Rightarrow> u64 \<Rightarrow> u64 \<Rightarrow> merchant \<times> bool" where
  "undo_process_subscription mc m i prev_next_run =
     (let (ep, st) = m in
      case map_of (subscriptions ep) i of
        None \<Rightarrow> (m, False)
      | Some sub \<Rightarrow>
          let sub' = sub\<lparr>next_run := prev_next_run\<rparr>
          in ((ep\<lparr>subscriptions := bm_insert i sub' (subscriptions ep)\<rparr>, put_subscription mc sub' st), True))"

definition undo_cancel_subscription :: "merchant_codec \<Rightarrow> merchant \<Rightarrow> subscription \<Rightarrow> merchant \<times> bool" where
  "undo_cancel_subscription mc m sub =
     (let (ep, st) = m;
          ep1 = ep\<lparr>subscriptions := bm_insert (sub_id sub) sub (subscriptions ep)\<rparr>;
          st1 = put_subscription mc sub st
      in case map_of (customers ep1) (sub_customer sub) of
           None \<Rightarrow> ((ep1, st1), True)
         | Some info \<Rightarrow>
             if sub_id sub \<in> set (ci_subscriptions info) then ((ep1, st1), True)
             else let info' = info\<lparr>ci_subscriptions := ci_subscriptions info @ [sub_id sub]\<rparr>
               in ((ep1\<lparr>customers := bm_insert (sub_customer sub) info' (customers ep1)\<rparr>,
                    put_customer mc (sub_customer sub) info' st1), True))"

fun merchant_rollback_cmd :: "merchant_codec \<Rightarrow> merchant \<Rightarrow> merchant_rollback \<Rightarrow> merchant \<times> bool" where
  "merchant_rollback_cmd mc (ep, st) (UndoCreate i) =
     ((ep\<lparr>invoices := bm_remove i (invoices ep)\<rparr>, delete_invoice i st), map_of (invoices ep) i \<noteq> None)"
| "merchant_rollback_cmd mc m (UndoPaid i) = undo_paid mc m i"
| "merchant_rollback_cmd mc m (UndoAck i) = set_status mc m i Paid"
| "merchant_rollback_cmd mc m (UndoCancel i) = set_status mc m i Open"
| "merchant_rollback_cmd mc m (UndoCreateSubscription i) = undo_create_subscription mc m i"
| "merchant_rollback_cmd mc m (UndoProcessSubscription i prev) = undo_process_subscription mc m i prev"
| "merchant_rollback_cmd mc m (UndoCancelSubscription sub) = undo_cancel_subscription mc m sub"

definition merchant_episode ::
  "merchant_codec \<Rightarrow> store \<Rightarrow> (merchant, merchant_command, merchant_rollback, merchant_error) episode_impl" where
  "merchant_episode mc st =
     \<lparr>ep_initialize = merchant_initialize mc st,
      ep_execute = (\<lambda>m cmd authorization md. Some (merchant_execute mc m cmd authorization md)),
      ep_rollback = (\<lambda>m rb. Some (merchant_rollback_cmd mc m rb))\<rparr>"

section \<open>The ledger invariant\<close>

definition paid_by :: "(u64 \<rightharpoonup> invoice) \<Rightarrow> pubkey \<Rightarrow> u64 set" where
  "paid_by I pk = {i. \<exists>iv. I i = Some iv \<and> payer iv = Some pk}"

definition subscribed :: "(u64 \<rightharpoonup> subscription) \<Rightarrow> pubkey \<Rightarrow> u64 set" where
  "subscribed S pk = {i. \<exists>s. S i = Some s \<and> sub_customer s = pk}"

definition invoice_ok :: "(pubkey \<rightharpoonup> customer_info) \<Rightarrow> u64 \<Rightarrow> invoice \<Rightarrow> bool" where
  "invoice_ok C i iv \<longleftrightarrow> inv_id iv = i \<and>
     (payer iv = None \<longleftrightarrow> carrier_tx iv = None) \<and>
     (payer iv = None \<longleftrightarrow> inv_status iv = Open \<or> inv_status iv = Canceled) \<and>
     (\<forall>pk. payer iv = Some pk \<longrightarrow> C pk \<noteq> None)"

definition ledger_ok ::
  "(u64 \<rightharpoonup> invoice) \<Rightarrow> (u64 \<rightharpoonup> subscription) \<Rightarrow> (pubkey \<rightharpoonup> customer_info) \<Rightarrow> hash set \<Rightarrow> bool" where
  "ledger_ok I S C U \<longleftrightarrow>
     (\<forall>i iv. I i = Some iv \<longrightarrow> invoice_ok C i iv) \<and>
     (\<forall>i j a b tx. I i = Some a \<longrightarrow> I j = Some b \<longrightarrow> carrier_tx a = Some tx \<longrightarrow> carrier_tx b = Some tx \<longrightarrow> i = j) \<and>
     U = {tx. \<exists>i iv. I i = Some iv \<and> carrier_tx iv = Some tx} \<and>
     (\<forall>i s. S i = Some s \<longrightarrow> sub_id s = i) \<and>
     (\<forall>pk info. C pk = Some info \<longrightarrow> set (ci_invoices info) = paid_by I pk \<and>
        set (ci_subscriptions info) = subscribed S pk)"

lemma ledger_okI:
  assumes "\<And>i iv. I i = Some iv \<Longrightarrow> invoice_ok C i iv"
    and "\<And>i j a b tx. I i = Some a \<Longrightarrow> I j = Some b \<Longrightarrow> carrier_tx a = Some tx \<Longrightarrow> carrier_tx b = Some tx \<Longrightarrow> i = j"
    and "U = {tx. \<exists>i iv. I i = Some iv \<and> carrier_tx iv = Some tx}"
    and "\<And>i s. S i = Some s \<Longrightarrow> sub_id s = i"
    and "\<And>pk info. C pk = Some info \<Longrightarrow> set (ci_invoices info) = paid_by I pk"
    and "\<And>pk info. C pk = Some info \<Longrightarrow> set (ci_subscriptions info) = subscribed S pk"
  shows "ledger_ok I S C U"
  using assms unfolding ledger_ok_def by blast

lemma ledger_okD:
  assumes "ledger_ok I S C U"
  shows "I i = Some iv \<Longrightarrow> invoice_ok C i iv"
    and "I i = Some a \<Longrightarrow> I j = Some b \<Longrightarrow> carrier_tx a = Some tx \<Longrightarrow> carrier_tx b = Some tx \<Longrightarrow> i = j"
    and "tx \<in> U \<longleftrightarrow> (\<exists>i iv. I i = Some iv \<and> carrier_tx iv = Some tx)"
    and "S i = Some s \<Longrightarrow> sub_id s = i"
    and "C pk = Some info \<Longrightarrow> set (ci_invoices info) = paid_by I pk"
    and "C pk = Some info \<Longrightarrow> set (ci_subscriptions info) = subscribed S pk"
  using assms unfolding ledger_ok_def by blast+

lemma ex_split_at:
  "(\<exists>j a. M j = Some a \<and> P a) \<longleftrightarrow> (\<exists>a. M i = Some a \<and> P a) \<or> (\<exists>j a. j \<noteq> i \<and> M j = Some a \<and> P a)"
  by metis

lemma ex_upd_at:
  "(\<exists>j a. (M(i := n)) j = Some a \<and> P a) \<longleftrightarrow> (\<exists>a. n = Some a \<and> P a) \<or> (\<exists>j a. j \<noteq> i \<and> M j = Some a \<and> P a)"
  by (subst ex_split_at [where i = i]) (simp add: fun_upd_other cong: conj_cong)

lemma ledger_carriers: "ledger_ok I S C U \<Longrightarrow>
    tx \<in> U \<longleftrightarrow> (\<exists>a. I i = Some a \<and> carrier_tx a = Some tx) \<or> (\<exists>j a. j \<noteq> i \<and> I j = Some a \<and> carrier_tx a = Some tx)"
  using ledger_okD(3) ex_split_at [of I "\<lambda>a. carrier_tx a = Some tx" i] by metis

text \<open>Changing an invoice without touching payer and carrier, or adding or removing an unpaid one.\<close>

lemma ledger_same_payment:
  assumes l: "ledger_ok I S C U" and i: "I i = Some iv"
    and iv': "invoice_ok C i iv'" "payer iv' = payer iv" "carrier_tx iv' = carrier_tx iv"
  shows "ledger_ok (I(i \<mapsto> iv')) S C U"
proof (rule ledger_okI)
  have "paid_by (I(i \<mapsto> iv')) pk = paid_by I pk" for pk
    using i iv'(2) by (auto simp: paid_by_def)
  then show "C pk = Some info \<Longrightarrow> set (ci_invoices info) = paid_by (I(i \<mapsto> iv')) pk" for pk info
    using ledger_okD(5) [OF l] by simp
  show "U = {tx. \<exists>j iv. (I(i \<mapsto> iv')) j = Some iv \<and> carrier_tx iv = Some tx}"
    unfolding set_eq_iff mem_Collect_eq ex_upd_at ledger_carriers [OF l, of _ i] using i iv'(3) by simp
  have carrier: "\<exists>a. I j = Some a \<and> carrier_tx a = Some tx" if "(I(i \<mapsto> iv')) j = Some a" "carrier_tx a = Some tx" for j a tx
    using that i iv'(3) by (cases "j = i") auto
  show "j = k" if "(I(i \<mapsto> iv')) j = Some a" "(I(i \<mapsto> iv')) k = Some b" "carrier_tx a = Some tx" "carrier_tx b = Some tx" for j k a b tx
    using carrier [OF that(1,3)] carrier [OF that(2,4)] ledger_okD(2) [OF l] by blast
qed (use ledger_okD [OF l] iv'(1) in \<open>auto split: if_splits\<close>)

lemma ledger_unpaid:
  assumes l: "ledger_ok I S C U" and i: "\<forall>iv. I i = Some iv \<longrightarrow> payer iv = None"
    and n: "\<forall>iv. n = Some iv \<longrightarrow> invoice_ok C i iv \<and> payer iv = None"
  shows "ledger_ok (I(i := n)) S C U"
proof (rule ledger_okI)
  have none: "carrier_tx iv = None" if "n = Some iv \<or> I i = Some iv" for iv
    using that ledger_okD(1) [OF l, of i iv] i n by (auto simp: invoice_ok_def)
  have "paid_by (I(i := n)) pk = paid_by I pk" for pk
    using i n by (auto simp: paid_by_def)
  then show "C pk = Some info \<Longrightarrow> set (ci_invoices info) = paid_by (I(i := n)) pk" for pk info
    using ledger_okD(5) [OF l] by simp
  show "U = {tx. \<exists>j iv. (I(i := n)) j = Some iv \<and> carrier_tx iv = Some tx}"
    unfolding set_eq_iff mem_Collect_eq ex_upd_at ledger_carriers [OF l, of _ i] using none by auto
  show "j = k" if "(I(i := n)) j = Some a" "(I(i := n)) k = Some b" "carrier_tx a = Some tx" "carrier_tx b = Some tx" for j k a b tx
    using that none ledger_okD(2) [OF l, of j a k b tx] by (auto split: if_splits)
qed (use ledger_okD [OF l] n in \<open>auto split: if_splits\<close>)

lemma ledger_pay:
  assumes l: "ledger_ok I S C U" and i: "I i = Some iv" "payer iv = None" and c: "C pk = Some info" and tx: "tx \<notin> U"
    and iv': "inv_id iv' = inv_id iv" "inv_status iv' = Paid" "payer iv' = Some pk" "carrier_tx iv' = Some tx"
    and info': "set (ci_invoices info') = insert i (set (ci_invoices info))" "ci_subscriptions info' = ci_subscriptions info"
  shows "ledger_ok (I(i \<mapsto> iv')) S (C(pk \<mapsto> info')) (insert tx U)"
proof (rule ledger_okI)
  have none: "carrier_tx iv = None" and idi: "inv_id iv = i"
    using ledger_okD(1) [OF l i(1)] i(2) by (auto simp: invoice_ok_def)
  show "invoice_ok (C(pk \<mapsto> info')) j a" if "(I(i \<mapsto> iv')) j = Some a" for j a
    using that ledger_okD(1) [OF l, of j a] iv' idi by (auto simp: invoice_ok_def split: if_splits)
  show "insert tx U = {t. \<exists>j a. (I(i \<mapsto> iv')) j = Some a \<and> carrier_tx a = Some t}"
    unfolding set_eq_iff mem_Collect_eq ex_upd_at insert_iff ledger_carriers [OF l, of _ i] using iv'(4) i(1) none by auto
  show "j = k" if "(I(i \<mapsto> iv')) j = Some a" "(I(i \<mapsto> iv')) k = Some b" "carrier_tx a = Some t" "carrier_tx b = Some t" for j k a b t
    using that tx iv'(4) ledger_okD(3) [OF l, of tx] ledger_okD(2) [OF l, of j a k b t] by (auto split: if_splits)
  have "paid_by (I(i \<mapsto> iv')) q = (if q = pk then insert i (paid_by I pk) else paid_by I q)" for q
    using i iv'(3) by (auto simp: paid_by_def)
  then show "(C(pk \<mapsto> info')) q = Some ci \<Longrightarrow> set (ci_invoices ci) = paid_by (I(i \<mapsto> iv')) q" for q ci
    using ledger_okD(5) [OF l, of q] c info' by (auto split: if_splits)
  show "(C(pk \<mapsto> info')) q = Some ci \<Longrightarrow> set (ci_subscriptions ci) = subscribed S q" for q ci
    using ledger_okD(6) [OF l, of q] c info' by (auto split: if_splits)
qed (use ledger_okD [OF l] in auto)

lemma ledger_unpay:
  assumes l: "ledger_ok I S C U" and i: "I i = Some iv" "payer iv = Some pk" "carrier_tx iv = Some tx" and c: "C pk = Some info"
    and iv': "inv_id iv' = inv_id iv" "inv_status iv' = Open" "payer iv' = None" "carrier_tx iv' = None"
    and info': "set (ci_invoices info') = set (ci_invoices info) - {i}" "ci_subscriptions info' = ci_subscriptions info"
  shows "ledger_ok (I(i \<mapsto> iv')) S (C(pk \<mapsto> info')) (U - {tx})"
proof (rule ledger_okI)
  have idi: "inv_id iv = i" using ledger_okD(1) [OF l i(1)] by (auto simp: invoice_ok_def)
  show "invoice_ok (C(pk \<mapsto> info')) j a" if "(I(i \<mapsto> iv')) j = Some a" for j a
    using that ledger_okD(1) [OF l, of j a] iv' idi by (auto simp: invoice_ok_def split: if_splits)
  have uniq: "carrier_tx b \<noteq> Some tx" if "j \<noteq> i" "I j = Some b" for j b
    using ledger_okD(2) [OF l i(1) that(2) i(3)] that(1) by blast
  show "U - {tx} = {t. \<exists>j a. (I(i \<mapsto> iv')) j = Some a \<and> carrier_tx a = Some t}"
    unfolding set_eq_iff mem_Collect_eq ex_upd_at Diff_iff ledger_carriers [OF l, of _ i]
    using iv'(4) i(1,3) uniq by auto
  show "j = k" if "(I(i \<mapsto> iv')) j = Some a" "(I(i \<mapsto> iv')) k = Some b" "carrier_tx a = Some t" "carrier_tx b = Some t" for j k a b t
    using that iv'(4) ledger_okD(2) [OF l, of j a k b t] by (auto split: if_splits)
  have "paid_by (I(i \<mapsto> iv')) q = (if q = pk then paid_by I pk - {i} else paid_by I q)" for q
    using i iv'(3) by (auto simp: paid_by_def)
  then show "(C(pk \<mapsto> info')) q = Some ci \<Longrightarrow> set (ci_invoices ci) = paid_by (I(i \<mapsto> iv')) q" for q ci
    using ledger_okD(5) [OF l, of q] c info' by (auto split: if_splits)
  show "(C(pk \<mapsto> info')) q = Some ci \<Longrightarrow> set (ci_subscriptions ci) = subscribed S q" for q ci
    using ledger_okD(6) [OF l, of q] c info' by (auto split: if_splits)
qed (use ledger_okD [OF l] in auto)

text \<open>Subscriptions: a new value (or none) at one id, and the customer's list brought in line.\<close>

lemma ledger_subscription:
  assumes l: "ledger_ok I S C U" and n: "\<forall>s. n = Some s \<longrightarrow> sub_id s = i"
    and old: "\<forall>s. S i = Some s \<longrightarrow> sub_customer s = pk" "\<forall>s. n = Some s \<longrightarrow> sub_customer s = pk"
    and c: "\<forall>info. C pk = Some info \<longrightarrow> C' = C(pk \<mapsto> f info) \<and> ci_invoices (f info) = ci_invoices info \<and>
      set (ci_subscriptions (f info)) = (if n = None then set (ci_subscriptions info) - {i} else insert i (set (ci_subscriptions info)))"
    and nc: "C pk = None \<longrightarrow> C' = C"
  shows "ledger_ok I (S(i := n)) C' U"
proof (rule ledger_okI)
  have dom: "C' q \<noteq> None \<longleftrightarrow> C q \<noteq> None" for q
    using c nc by (cases "C pk") auto
  show "invoice_ok C' j a" if "I j = Some a" for j a
    using ledger_okD(1) [OF l that] dom by (auto simp: invoice_ok_def)
  have inv: "C' q = Some ci \<Longrightarrow> \<exists>co. C q = Some co \<and> ci_invoices ci = ci_invoices co" for q ci
    using c nc by (cases "C pk") (auto split: if_splits)
  show "C' q = Some ci \<Longrightarrow> set (ci_invoices ci) = paid_by I q" for q ci
    using inv [of q ci] ledger_okD(5) [OF l] by auto
  have sub: "subscribed (S(i := n)) q =
      (if q = pk then (if n = None then subscribed S q - {i} else insert i (subscribed S q)) else subscribed S q)" for q
    using old by (auto simp: subscribed_def split: if_splits)
  show "set (ci_subscriptions ci) = subscribed (S(i := n)) q" if "C' q = Some ci" for q ci
  proof (cases "C pk")
    case None
    with that nc have "C q = Some ci" "q \<noteq> pk" by auto
    with ledger_okD(6) [OF l] show ?thesis by (simp add: sub)
  next
    case (Some info)
    with that c ledger_okD(6) [OF l, of q] show ?thesis by (auto simp: sub split: if_splits)
  qed
  show "U = {tx. \<exists>i iv. I i = Some iv \<and> carrier_tx iv = Some tx}" using ledger_okD(3) [OF l] by auto
  show "\<And>j s. (S(i := n)) j = Some s \<Longrightarrow> sub_id s = j"
    using n ledger_okD(4) [OF l] by (auto split: if_splits)
qed (use ledger_okD(2) [OF l] in blast)

end
