(* ===== verification/Merchant_Contract.thy ===== *)
theory Merchant_Contract
  imports Merchant_Episode
begin

text \<open>
  The receipt episode keeps its invariant (ledger and mirror of the store) under every command
  and rollback, and is an instance of the framework's contract.
\<close>

section \<open>The invariant\<close>

fun merchant_inv :: "merchant_codec \<Rightarrow> merchant \<Rightarrow> bool" where
  "merchant_inv mc (ep, st) \<longleftrightarrow>
     store_wf st \<and> load_invoices mc st = invoices ep \<and> load_subscriptions mc st = subscriptions ep \<and>
     load_customers mc st = customers ep \<and>
     ledger_ok (map_of (invoices ep)) (map_of (subscriptions ep)) (map_of (customers ep)) (used_carrier_txs ep)"

lemma merchant_invD:
  assumes "merchant_inv mc (ep, st)"
  shows "store_wf st" "load_invoices mc st = invoices ep" "load_subscriptions mc st = subscriptions ep"
    "load_customers mc st = customers ep"
    "ledger_ok (map_of (invoices ep)) (map_of (subscriptions ep)) (map_of (customers ep)) (used_carrier_txs ep)"
  using assms by simp_all

lemma inv_invoice_ok:
  "merchant_inv mc (ep, st) \<Longrightarrow> map_of (invoices ep) i = Some iv \<Longrightarrow> invoice_ok (map_of (customers ep)) i iv"
  using merchant_invD(5) ledger_okD(1) by blast

lemma inv_customer_key:
  "merchant_inv mc (ep, st) \<Longrightarrow> map_of (customers ep) pk = Some info \<Longrightarrow> pubkey_ok (key_crypto mc) pk"
  using merchant_invD(1,4) load_customers_key by metis

lemma inv_put_invoice:
  assumes "merchant_inv mc (ep, st)" and "borsh_ok mc" and "map_of (invoices ep) i = Some iv"
    and "invoice_ok (map_of (customers ep)) i iv'" "payer iv' = payer iv" "carrier_tx iv' = carrier_tx iv"
  shows "merchant_inv mc (ep\<lparr>invoices := bm_insert i iv' (invoices ep)\<rparr>, put_invoice mc iv' st)"
proof -
  have "inv_id iv' = i" using assms(4) by (simp add: invoice_ok_def)
  then show ?thesis
    using merchant_invD [OF assms(1)] assms(2) ledger_same_payment [OF merchant_invD(5) [OF assms(1)] assms(3-6)]
    by simp
qed

section \<open>Commands keep it\<close>

lemma create_invoice_inv:
  assumes "merchant_inv mc (ep, st)" and "borsh_ok mc" and "create_invoice mc (ep, st) i a memo auth md = (m', res)"
  shows "merchant_inv mc m'"
proof (cases "m' = (ep, st)")
  case False
  let ?c = "\<lparr>inv_id = i, inv_amount = a, inv_memo = memo, created_at = accepting_time md,
    last_update = accepting_time md, inv_status = Open, payer = None, carrier_tx = None\<rparr>"
  have m': "m' = (ep\<lparr>invoices := bm_insert i ?c (invoices ep)\<rparr>, put_invoice mc ?c st)"
      and none: "map_of (invoices ep) i = None"
    using False assms(3) by (auto simp: create_invoice_def Let_def split: if_splits)
  have "ledger_ok ((map_of (invoices ep))(i := Some ?c)) (map_of (subscriptions ep)) (map_of (customers ep)) (used_carrier_txs ep)"
    using none by (intro ledger_unpaid [OF merchant_invD(5) [OF assms(1)]]) (simp_all add: invoice_ok_def)
  then show ?thesis using m' merchant_invD [OF assms(1)] assms(2) by simp
qed (use assms(1) in simp)

lemma mark_paid_ok:
  assumes "mark_paid mc (ep, st) i pk auth md = (m', Inr rb)"
  obtains iv info where "auth = Some pk" "tx_id md \<notin> used_carrier_txs ep" "map_of (invoices ep) i = Some iv"
    "inv_status iv = Open" "map_of (customers ep) pk = Some info" "outputs_error ep iv md = None"
    "rb = UndoPaid i"
    "m' = (ep\<lparr>invoices := bm_insert i (iv\<lparr>inv_status := Paid, last_update := accepting_time md,
                                      payer := Some pk, carrier_tx := Some (tx_id md)\<rparr>) (invoices ep),
             used_carrier_txs := insert (tx_id md) (used_carrier_txs ep),
             customers := bm_insert pk (info\<lparr>ci_invoices := add_once i (ci_invoices info)\<rparr>) (customers ep)\<rparr>,
           put_customer mc pk (info\<lparr>ci_invoices := add_once i (ci_invoices info)\<rparr>)
             (put_invoice mc (iv\<lparr>inv_status := Paid, last_update := accepting_time md,
                                      payer := Some pk, carrier_tx := Some (tx_id md)\<rparr>) st))"
proof -
  obtain iv where iv: "map_of (invoices ep) i = Some iv"
    using assms by (cases "map_of (invoices ep) i") (auto simp: mark_paid_def Let_def split: if_splits)
  obtain info where "map_of (customers ep) pk = Some info"
    using assms iv by (cases "map_of (customers ep) pk") (auto simp: mark_paid_def Let_def split: if_splits)
  moreover have "outputs_error ep iv md = None"
    using assms iv calculation by (cases "outputs_error ep iv md") (auto simp: mark_paid_def Let_def split: if_splits)
  moreover have "inv_status iv = Open"
    using assms iv by (cases "inv_status iv") (auto simp: mark_paid_def Let_def split: if_splits)
  ultimately show thesis
    using assms iv by (intro that [of iv info]) (auto simp: mark_paid_def Let_def split: if_splits)
qed

lemma mark_paid_err: "mark_paid mc m i pk auth md = (m', Inl e) \<Longrightarrow> m' = m"
  by (cases m) (auto simp: mark_paid_def Let_def split: if_splits option.splits)

lemma mark_paid_inv:
  assumes "merchant_inv mc (ep, st)" and "borsh_ok mc" and "mark_paid mc (ep, st) i pk auth md = (m', Inr rb)"
  shows "merchant_inv mc m'"
  using assms(3)
proof (rule mark_paid_ok)
  fix iv :: invoice and info :: customer_info
  let ?iv = "iv\<lparr>inv_status := Paid, last_update := accepting_time md, payer := Some pk, carrier_tx := Some (tx_id md)\<rparr>"
  let ?info = "info\<lparr>ci_invoices := add_once i (ci_invoices info)\<rparr>"
  assume new: "tx_id md \<notin> used_carrier_txs ep" and iv: "map_of (invoices ep) i = Some iv" "inv_status iv = Open"
    and info: "map_of (customers ep) pk = Some info"
    and m': "m' = (ep\<lparr>invoices := bm_insert i ?iv (invoices ep),
      used_carrier_txs := insert (tx_id md) (used_carrier_txs ep),
      customers := bm_insert pk ?info (customers ep)\<rparr>, put_customer mc pk ?info (put_invoice mc ?iv st))"
  have ok: "inv_id iv = i" "payer iv = None"
    using inv_invoice_ok [OF assms(1) iv(1)] iv(2) by (auto simp: invoice_ok_def)
  have "ledger_ok ((map_of (invoices ep))(i \<mapsto> ?iv)) (map_of (subscriptions ep)) ((map_of (customers ep))(pk \<mapsto> ?info))
      (insert (tx_id md) (used_carrier_txs ep))"
    using ok(2) iv(1) new info by (intro ledger_pay [OF merchant_invD(5) [OF assms(1)]]) (auto simp: add_once_def)
  with m' ok(1) merchant_invD [OF assms(1)] assms(2) inv_customer_key [OF assms(1) info] show ?thesis by simp
qed

lemma ack_receipt_inv:
  assumes "merchant_inv mc (ep, st)" and "borsh_ok mc" and "ack_receipt mc (ep, st) i md = (m', res)"
  shows "merchant_inv mc m'"
proof (cases "\<exists>iv. map_of (invoices ep) i = Some iv \<and> inv_status iv = Paid")
  case True
  then obtain iv where iv: "map_of (invoices ep) i = Some iv" "inv_status iv = Paid" by blast
  let ?iv = "iv\<lparr>inv_status := Acked, last_update := accepting_time md\<rparr>"
  have "invoice_ok (map_of (customers ep)) i ?iv"
    using inv_invoice_ok [OF assms(1) iv(1)] iv(2) by (auto simp: invoice_ok_def)
  then have "merchant_inv mc (ep\<lparr>invoices := bm_insert i ?iv (invoices ep)\<rparr>, put_invoice mc ?iv st)"
    using inv_put_invoice [OF assms(1,2) iv(1)] by simp
  with iv assms(3) show ?thesis by (simp add: ack_receipt_def Let_def)
next
  case False
  with assms show ?thesis by (auto simp: ack_receipt_def Let_def split: if_splits option.splits)
qed

lemma cancel_invoice_inv:
  assumes "merchant_inv mc (ep, st)" and "borsh_ok mc" and "cancel_invoice mc (ep, st) i md = (m', res)"
  shows "merchant_inv mc m'"
proof (cases "\<exists>iv. map_of (invoices ep) i = Some iv \<and> inv_status iv = Open")
  case True
  then obtain iv where iv: "map_of (invoices ep) i = Some iv" "inv_status iv = Open" by blast
  let ?iv = "iv\<lparr>inv_status := Canceled, last_update := accepting_time md\<rparr>"
  have "invoice_ok (map_of (customers ep)) i ?iv"
    using inv_invoice_ok [OF assms(1) iv(1)] iv(2) by (auto simp: invoice_ok_def)
  then have "merchant_inv mc (ep\<lparr>invoices := bm_insert i ?iv (invoices ep)\<rparr>, put_invoice mc ?iv st)"
    using inv_put_invoice [OF assms(1,2) iv(1)] by simp
  with iv assms(3) show ?thesis by (simp add: cancel_invoice_def Let_def)
next
  case False
  have "m' = (ep, st)"
  proof (cases "map_of (invoices ep) i")
    case (Some iv)
    with False assms(3) show ?thesis by (cases "inv_status iv") (auto simp: cancel_invoice_def Let_def)
  qed (use assms(3) in \<open>simp add: cancel_invoice_def Let_def\<close>)
  with assms(1) show ?thesis by simp
qed

section \<open>Subscriptions\<close>

lemma create_subscription_inv:
  assumes "merchant_inv mc (ep, st)" and "borsh_ok mc"
    and "create_subscription mc (ep, st) i pk a n auth md = (m', res)"
  shows "merchant_inv mc m'"
proof (cases "m' = (ep, st)")
  case False
  let ?s = "\<lparr>sub_id = i, sub_customer = pk, sub_amount = a, sub_interval = n, next_run = accepting_time md + n\<rparr>"
  let ?f = "\<lambda>info. info\<lparr>ci_subscriptions := ci_subscriptions info @ [i]\<rparr>"
  obtain info where info: "map_of (customers ep) pk = Some info" and none: "map_of (subscriptions ep) i = None"
      and m': "m' = (ep\<lparr>customers := bm_insert pk (?f info) (customers ep),
        subscriptions := bm_insert i ?s (subscriptions ep)\<rparr>, put_subscription mc ?s (put_customer mc pk (?f info) st))"
    using False assms(3) by (auto simp: create_subscription_def Let_def split: if_splits option.splits)
  have "ledger_ok (map_of (invoices ep)) ((map_of (subscriptions ep))(i := Some ?s))
      ((map_of (customers ep))(pk \<mapsto> ?f info)) (used_carrier_txs ep)"
    using info none by (intro ledger_subscription [OF merchant_invD(5) [OF assms(1)], where f = ?f and pk = pk]) auto
  then show ?thesis
    using m' merchant_invD [OF assms(1)] assms(2) inv_customer_key [OF assms(1) info] by simp
qed (use assms(1) in simp)

lemma ledger_next_run:
  assumes l: "ledger_ok I S C U" and s: "S i = Some s" "sub_id s' = sub_id s" "sub_customer s' = sub_customer s"
  shows "ledger_ok I (S(i \<mapsto> s')) C U"
proof (rule ledger_okI)
  have "subscribed (S(i \<mapsto> s')) pk = subscribed S pk" for pk
    using s by (auto simp: subscribed_def)
  then show "C pk = Some info \<Longrightarrow> set (ci_subscriptions info) = subscribed (S(i \<mapsto> s')) pk" for pk info
    using ledger_okD(6) [OF l] by simp
  show "U = {tx. \<exists>i iv. I i = Some iv \<and> carrier_tx iv = Some tx}" using ledger_okD(3) [OF l] by auto
  show "(S(i \<mapsto> s')) j = Some t \<Longrightarrow> sub_id t = j" for j t
    using ledger_okD(4) [OF l, of j t] ledger_okD(4) [OF l s(1)] s(2) by (auto split: if_splits)
qed (use ledger_okD(1,2,5) [OF l] in blast)+

lemma inv_put_subscription:
  assumes "merchant_inv mc (ep, st)" and "borsh_ok mc" and "map_of (subscriptions ep) i = Some s"
    and "sub_id s' = sub_id s" "sub_customer s' = sub_customer s"
  shows "merchant_inv mc (ep\<lparr>subscriptions := bm_insert i s' (subscriptions ep)\<rparr>, put_subscription mc s' st)"
  using merchant_invD [OF assms(1)] assms(2) ledger_next_run [OF merchant_invD(5) [OF assms(1)] assms(3-5)]
    ledger_okD(4) [OF merchant_invD(5) [OF assms(1)] assms(3)] assms(4)
  by simp

lemma process_subscription_inv:
  assumes "merchant_inv mc (ep, st)" and "borsh_ok mc" and "process_subscription mc (ep, st) i md = (m', res)"
  shows "merchant_inv mc m'"
proof (cases "map_of (subscriptions ep) i")
  case (Some s)
  with assms(3) inv_put_subscription [OF assms(1,2) Some, of "s\<lparr>next_run := accepting_time md + sub_interval s\<rparr>"]
  show ?thesis by (simp add: process_subscription_def Let_def)
qed (use assms in \<open>auto simp: process_subscription_def Let_def\<close>)

text \<open>Removing a subscription, from memory and store in either order.\<close>

lemma drop_subscription_inv:
  assumes "merchant_inv mc (ep, st)" and "borsh_ok mc" and s: "map_of (subscriptions ep) i = Some s"
  shows "merchant_inv mc (drop_subscription mc (ep\<lparr>subscriptions := bm_remove i (subscriptions ep)\<rparr>,
      delete_subscription i st) (sub_customer s) i)"
    and "merchant_inv mc (let (ep', st') = drop_subscription mc (ep\<lparr>subscriptions := bm_remove i (subscriptions ep)\<rparr>, st)
        (sub_customer s) i in (ep', delete_subscription i st'))"
proof -
  let ?f = "\<lambda>info. info\<lparr>ci_subscriptions := filter (\<lambda>j. j \<noteq> i) (ci_subscriptions info)\<rparr>"
  let ?C = "map_of (customers ep)"
  let ?C' = "case ?C (sub_customer s) of None \<Rightarrow> ?C | Some info \<Rightarrow> ?C(sub_customer s \<mapsto> ?f info)"
  have l: "ledger_ok (map_of (invoices ep)) ((map_of (subscriptions ep))(i := None)) ?C' (used_carrier_txs ep)"
    using s by (intro ledger_subscription [OF merchant_invD(5) [OF assms(1)], where f = ?f and pk = "sub_customer s"]) auto
  show "merchant_inv mc (drop_subscription mc (ep\<lparr>subscriptions := bm_remove i (subscriptions ep)\<rparr>,
      delete_subscription i st) (sub_customer s) i)"
    using l merchant_invD [OF assms(1)] assms(2) inv_customer_key [OF assms(1)]
    by (auto simp: drop_subscription_def Let_def split: option.splits)
  show "merchant_inv mc (let (ep', st') = drop_subscription mc (ep\<lparr>subscriptions := bm_remove i (subscriptions ep)\<rparr>, st)
        (sub_customer s) i in (ep', delete_subscription i st'))"
    using l merchant_invD [OF assms(1)] assms(2) inv_customer_key [OF assms(1)]
    by (auto simp: drop_subscription_def Let_def split: option.splits)
qed

lemma cancel_subscription_inv:
  assumes "merchant_inv mc (ep, st)" and "borsh_ok mc" and "cancel_subscription mc (ep, st) i = (m', res)"
  shows "merchant_inv mc m'"
proof (cases "map_of (subscriptions ep) i")
  case (Some s)
  with assms(3) drop_subscription_inv(2) [OF assms(1,2) Some] show ?thesis
    by (auto simp: cancel_subscription_def Let_def split: prod.splits)
qed (use assms in \<open>auto simp: cancel_subscription_def Let_def\<close>)

lemma merchant_execute_err: "merchant_execute mc m cmd auth md = (m', Inl e) \<Longrightarrow> m' = m"
  by (cases m; cases cmd) (auto dest: mark_paid_err simp: create_invoice_def ack_receipt_def cancel_invoice_def
    create_subscription_def process_subscription_def cancel_subscription_def Let_def
    split: if_splits option.splits prod.splits)

lemma merchant_execute_inv:
  assumes "merchant_inv mc m" and "borsh_ok mc" and "merchant_execute mc m cmd auth md = (m', res)"
  shows "merchant_inv mc m'"
proof (cases res)
  case (Inl e)
  with assms merchant_execute_err show ?thesis by blast
next
  case (Inr rb)
  obtain ep st where m: "m = (ep, st)" by (cases m)
  note i = assms(1) [unfolded m] and e = assms(3) [unfolded m Inr]
  show ?thesis
    using e create_invoice_inv [OF i assms(2)] mark_paid_inv [OF i assms(2)] ack_receipt_inv [OF i assms(2)]
      cancel_invoice_inv [OF i assms(2)] create_subscription_inv [OF i assms(2)]
      process_subscription_inv [OF i assms(2)] cancel_subscription_inv [OF i assms(2)]
    by (cases cmd) simp_all
qed

section \<open>Rollbacks keep it and undo the command\<close>

text \<open>
  \<open>undone g2 g\<close>: the same keys and subscriptions, the same invoices up to the time of their last
  update, customers with the same keys; with the invariant of both states this determines the
  used carrier transactions, the customers' lists as sets, and the store.
\<close>

definition settled :: "invoice \<Rightarrow> invoice" where
  "settled iv = iv\<lparr>last_update := 0\<rparr>"

definition undone :: "merchant_codec \<Rightarrow> merchant \<Rightarrow> merchant \<Rightarrow> bool" where
  "undone mc m2 m \<longleftrightarrow>
     merchant_keys (fst m2) = merchant_keys (fst m) \<and>
     map_option settled \<circ> map_of (invoices (fst m2)) = map_option settled \<circ> map_of (invoices (fst m)) \<and>
     subscriptions (fst m2) = subscriptions (fst m) \<and>
     dom (map_of (customers (fst m2))) = dom (map_of (customers (fst m))) \<and>
     (merchant_inv mc m \<longrightarrow> merchant_inv mc m2)"

lemma undone_invoice:
  assumes "undone mc m2 m" and "map_of (invoices (fst m)) i = Some iv"
  obtains iv2 where "map_of (invoices (fst m2)) i = Some iv2" "settled iv2 = settled iv"
proof -
  have "map_option settled (map_of (invoices (fst m2)) i) = map_option settled (map_of (invoices (fst m)) i)"
    using assms(1) unfolding undone_def by (metis comp_apply)
  with assms(2) that show thesis by (auto simp: map_option_case split: option.splits)
qed

lemma settled_fields:
  assumes "settled a = settled b"
  shows "inv_id a = inv_id b" "inv_amount a = inv_amount b" "inv_memo a = inv_memo b" "created_at a = created_at b"
    "inv_status a = inv_status b" "payer a = payer b" "carrier_tx a = carrier_tx b"
  using assms by (cases a; cases b; simp add: settled_def)+

lemma settled_eqI:
  "inv_id a = inv_id b \<Longrightarrow> inv_amount a = inv_amount b \<Longrightarrow> inv_memo a = inv_memo b \<Longrightarrow> created_at a = created_at b \<Longrightarrow>
     inv_status a = inv_status b \<Longrightarrow> payer a = payer b \<Longrightarrow> carrier_tx a = carrier_tx b \<Longrightarrow> settled a = settled b"
  by (cases a; cases b) (simp add: settled_def)

text \<open>An invoice put back: the state agrees with the one before the command if the invoice does.\<close>

lemma undone_put_back:
  assumes "undone mc (ep1, st1) (ep', st')" and "merchant_keys ep' = merchant_keys ep"
    and "map_of (invoices ep') = (map_of (invoices ep))(i := n')" and "map_option settled n = map_option settled (map_of (invoices ep) i)"
    and "map_of (invoices ep2) = (map_of (invoices ep1))(i := n)"
    and "subscriptions ep' = subscriptions ep" "dom (map_of (customers ep')) = dom (map_of (customers ep))"
    and "merchant_keys ep2 = merchant_keys ep1" "subscriptions ep2 = subscriptions ep1"
      "dom (map_of (customers ep2)) = dom (map_of (customers ep1))"
    and "merchant_inv mc (ep2, st2)"
  shows "undone mc (ep2, st2) (ep, st)"
proof -
  have eq: "map_option settled (map_of (invoices ep1) j) = map_option settled (map_of (invoices ep') j)" for j
    using assms(1) unfolding undone_def by (metis comp_apply fst_conv)
  have "map_option settled \<circ> map_of (invoices ep2) = map_option settled \<circ> map_of (invoices ep)"
    using assms(3-5) eq by (auto simp: fun_eq_iff)
  with assms show ?thesis by (simp add: undone_def)
qed

lemma undo_create_sim:
  assumes "merchant_inv mc (ep, st)" and "borsh_ok mc"
    and "create_invoice mc (ep, st) i a memo auth md = ((ep', st'), Inr rb)"
    and "undone mc (ep1, st1) (ep', st')" and "merchant_inv mc (ep1, st1)"
  shows "\<exists>m2. merchant_rollback_cmd mc (ep1, st1) rb = (m2, True) \<and> undone mc m2 (ep, st)"
proof -
  let ?c = "\<lparr>inv_id = i, inv_amount = a, inv_memo = memo, created_at = accepting_time md,
    last_update = accepting_time md, inv_status = Open, payer = None, carrier_tx = None\<rparr>"
  have c: "rb = UndoCreate i" "ep' = ep\<lparr>invoices := bm_insert i ?c (invoices ep)\<rparr>" "map_of (invoices ep) i = None"
    using assms(3) by (auto simp: create_invoice_def Let_def split: if_splits)
  obtain iv where iv: "map_of (invoices ep1) i = Some iv" "settled iv = settled ?c"
    using undone_invoice [OF assms(4), of i ?c] c by auto
  have none: "payer iv = None" using settled_fields [OF iv(2)] by simp
  let ?ep2 = "ep1\<lparr>invoices := bm_remove i (invoices ep1)\<rparr>"
  have "ledger_ok ((map_of (invoices ep1))(i := None)) (map_of (subscriptions ep1)) (map_of (customers ep1)) (used_carrier_txs ep1)"
    using iv none by (intro ledger_unpaid [OF merchant_invD(5) [OF assms(5)]]) auto
  then have inv2: "merchant_inv mc (?ep2, delete_invoice i st1)"
    using merchant_invD [OF assms(5)] assms(2) by simp
  have "undone mc (?ep2, delete_invoice i st1) (ep, st)"
    by (rule undone_put_back [OF assms(4) _ _ _ _ _ _ _ _ _ inv2, where i = i and n' = "Some ?c" and n = None])
      (use c in simp_all)
  with c(1) iv(1) show ?thesis by simp
qed

lemma undo_status_sim:
  assumes "merchant_inv mc (ep, st)" and "borsh_ok mc"
    and iv: "map_of (invoices ep) i = Some iv" and "ep' = ep\<lparr>invoices := bm_insert i iv' (invoices ep)\<rparr>"
    and iv': "iv' = iv\<lparr>inv_status := s', last_update := t\<rparr>"
    and "undone mc (ep1, st1) (ep', st')" and "merchant_inv mc (ep1, st1)"
  shows "\<exists>m2. set_status mc (ep1, st1) i (inv_status iv) = (m2, True) \<and> undone mc m2 (ep, st)"
proof -
  obtain iv1 where iv1: "map_of (invoices ep1) i = Some iv1" "settled iv1 = settled iv'"
    using undone_invoice [OF assms(6), of i iv'] assms(4) by auto
  note f = settled_fields [OF iv1(2)]
  let ?iv2 = "iv1\<lparr>inv_status := inv_status iv\<rparr>" and ?ep2 = "ep1\<lparr>invoices := bm_insert i (iv1\<lparr>inv_status := inv_status iv\<rparr>) (invoices ep1)\<rparr>"
  have "dom (map_of (customers ep1)) = dom (map_of (customers ep))"
    using assms(4,6) by (simp add: undone_def)
  then have "invoice_ok (map_of (customers ep1)) i ?iv2"
    using inv_invoice_ok [OF assms(1) iv] f iv' by (auto simp: invoice_ok_def dom_def set_eq_iff)
  then have inv2: "merchant_inv mc (?ep2, put_invoice mc ?iv2 st1)"
    using inv_put_invoice [OF assms(7,2) iv1(1)] by simp
  have "settled ?iv2 = settled iv" using f iv' by (intro settled_eqI) auto
  then have "undone mc (?ep2, put_invoice mc ?iv2 st1) (ep, st)"
    by (intro undone_put_back [OF assms(6) _ _ _ _ _ _ _ _ _ inv2, where i = i and n' = "Some iv'" and n = "Some ?iv2"])
      (use assms(4) iv in simp_all)
  with iv1(1) show ?thesis by (simp add: set_status_def Let_def)
qed

lemma undo_paid_sim:
  assumes "merchant_inv mc (ep, st)" and "borsh_ok mc"
    and "mark_paid mc (ep, st) i pk auth md = ((ep', st'), Inr rb)"
    and "undone mc (ep1, st1) (ep', st')" and "merchant_inv mc (ep1, st1)"
  shows "\<exists>m2. merchant_rollback_cmd mc (ep1, st1) rb = (m2, True) \<and> undone mc m2 (ep, st)"
  using assms(3)
proof (rule mark_paid_ok)
  fix iv :: invoice and info :: customer_info
  let ?iv = "iv\<lparr>inv_status := Paid, last_update := accepting_time md, payer := Some pk, carrier_tx := Some (tx_id md)\<rparr>"
  let ?info = "info\<lparr>ci_invoices := add_once i (ci_invoices info)\<rparr>"
  assume iv: "map_of (invoices ep) i = Some iv" "inv_status iv = Open" and info: "map_of (customers ep) pk = Some info"
    and rb: "rb = UndoPaid i"
    and m': "(ep', st') = (ep\<lparr>invoices := bm_insert i ?iv (invoices ep),
      used_carrier_txs := insert (tx_id md) (used_carrier_txs ep),
      customers := bm_insert pk ?info (customers ep)\<rparr>, put_customer mc pk ?info (put_invoice mc ?iv st))"
  have none: "payer iv = None" "carrier_tx iv = None"
    using inv_invoice_ok [OF assms(1) iv(1)] iv(2) by (auto simp: invoice_ok_def)
  obtain iv1 where iv1: "map_of (invoices ep1) i = Some iv1" "settled iv1 = settled ?iv"
    using undone_invoice [OF assms(4), of i ?iv] m' by auto
  note f = settled_fields [OF iv1(2)]
  have "dom (map_of (customers ep1)) = dom (map_of (customers ep))"
    using assms(4) m' info by (auto simp: undone_def)
  then obtain info1 where info1: "map_of (customers ep1) pk = Some info1" using info by (metis domD domI)
  let ?iv2 = "iv1\<lparr>inv_status := Open, payer := None, carrier_tx := None\<rparr>"
  let ?info2 = "info1\<lparr>ci_invoices := filter (\<lambda>j. j \<noteq> i) (ci_invoices info1)\<rparr>"
  let ?m2 = "(ep1\<lparr>invoices := bm_insert i ?iv2 (invoices ep1), customers := bm_insert pk ?info2 (customers ep1),
      used_carrier_txs := used_carrier_txs ep1 - {tx_id md}\<rparr>, put_invoice mc ?iv2 (put_customer mc pk ?info2 st1))"
  have "ledger_ok ((map_of (invoices ep1))(i \<mapsto> ?iv2)) (map_of (subscriptions ep1)) ((map_of (customers ep1))(pk \<mapsto> ?info2))
      (used_carrier_txs ep1 - {tx_id md})"
    using f info1 by (intro ledger_unpay [OF merchant_invD(5) [OF assms(5)] iv1(1)]) auto
  moreover have "inv_id iv1 = i" using inv_invoice_ok [OF assms(5) iv1(1)] by (simp add: invoice_ok_def)
  ultimately have inv2: "merchant_inv mc ?m2"
    using merchant_invD [OF assms(5)] assms(2) inv_customer_key [OF assms(5) info1] by simp
  have "settled ?iv2 = settled iv" using f none iv(2) by (intro settled_eqI) auto
  then have "undone mc ?m2 (ep, st)"
    by (intro undone_put_back [OF assms(4) _ _ _ _ _ _ _ _ _ inv2, where i = i and n' = "Some ?iv" and n = "Some ?iv2"])
      (use m' iv info info1 in auto)
  moreover have "undo_paid mc (ep1, st1) i = (?m2, True)"
    using iv1(1) f info1 by (simp add: undo_paid_def Let_def)
  ultimately show ?thesis using rb by simp
qed

text \<open>The subscription commands: the subscriptions come back exactly.\<close>

lemma undone_subscriptions:
  assumes "undone mc (ep1, st1) (ep', st')" and "merchant_keys ep' = merchant_keys ep" "invoices ep' = invoices ep"
    and "dom (map_of (customers ep')) = dom (map_of (customers ep))"
    and "map_of (subscriptions ep2) = map_of (subscriptions ep)" "bm_wf (subscriptions ep)"
    and "merchant_keys ep2 = merchant_keys ep1" "invoices ep2 = invoices ep1"
      "dom (map_of (customers ep2)) = dom (map_of (customers ep1))"
    and "merchant_inv mc (ep2, st2)"
  shows "undone mc (ep2, st2) (ep, st)"
proof -
  have "bm_wf (subscriptions ep2)" using merchant_invD(3) [OF assms(10)] by (metis load_wf(3))
  then have "subscriptions ep2 = subscriptions ep" using assms(5,6) by (intro bm_ext)
  with assms show ?thesis by (simp add: undone_def)
qed

lemma inv_subscriptions_wf: "merchant_inv mc (ep, st) \<Longrightarrow> bm_wf (subscriptions ep)"
  using merchant_invD(3) by (metis load_wf(3))

lemma drop_subscription_frame:
  assumes "drop_subscription mc (ep, st) pk i = (ep', st')"
  shows "merchant_keys ep' = merchant_keys ep" "invoices ep' = invoices ep" "subscriptions ep' = subscriptions ep"
    "dom (map_of (customers ep')) = dom (map_of (customers ep))"
  using assms by (auto simp: drop_subscription_def Let_def split: option.splits if_splits)

lemma undo_create_subscription_sim:
  assumes "merchant_inv mc (ep, st)" and "borsh_ok mc"
    and "create_subscription mc (ep, st) i pk a n auth md = ((ep', st'), Inr rb)"
    and "undone mc (ep1, st1) (ep', st')" and "merchant_inv mc (ep1, st1)"
  shows "\<exists>m2. merchant_rollback_cmd mc (ep1, st1) rb = (m2, True) \<and> undone mc m2 (ep, st)"
proof -
  let ?s = "\<lparr>sub_id = i, sub_customer = pk, sub_amount = a, sub_interval = n, next_run = accepting_time md + n\<rparr>"
  obtain info info' where c: "rb = UndoCreateSubscription i" "map_of (customers ep) pk = Some info"
      "map_of (subscriptions ep) i = None"
      "ep' = ep\<lparr>customers := bm_insert pk info' (customers ep), subscriptions := bm_insert i ?s (subscriptions ep)\<rparr>"
    using assms(3) by (auto simp: create_subscription_def Let_def split: if_splits option.splits)
  have subs: "subscriptions ep1 = bm_insert i ?s (subscriptions ep)" using assms(4) c(4) by (simp add: undone_def)
  then have s: "map_of (subscriptions ep1) i = Some ?s" by simp
  obtain ep2 st2 where m2: "drop_subscription mc (ep1\<lparr>subscriptions := bm_remove i (subscriptions ep1)\<rparr>,
      delete_subscription i st1) pk i = (ep2, st2)"
    by (cases "drop_subscription mc (ep1\<lparr>subscriptions := bm_remove i (subscriptions ep1)\<rparr>,
      delete_subscription i st1) pk i")
  note fr = drop_subscription_frame [OF m2]
  have inv2: "merchant_inv mc (ep2, st2)" using drop_subscription_inv(1) [OF assms(5,2) s] m2 by simp
  have "undone mc (ep2, st2) (ep, st)"
    by (rule undone_subscriptions [OF assms(4) _ _ _ _ inv_subscriptions_wf [OF assms(1)] _ _ _ inv2])
      (use c fr subs in \<open>auto simp: fun_upd_idem\<close>)
  with c(1) s m2 show ?thesis by (simp add: undo_create_subscription_def Let_def)
qed

lemma undo_process_subscription_sim:
  assumes "merchant_inv mc (ep, st)" and "borsh_ok mc"
    and "process_subscription mc (ep, st) i md = ((ep', st'), Inr rb)"
    and "undone mc (ep1, st1) (ep', st')" and "merchant_inv mc (ep1, st1)"
  shows "\<exists>m2. merchant_rollback_cmd mc (ep1, st1) rb = (m2, True) \<and> undone mc m2 (ep, st)"
proof -
  obtain s where s: "map_of (subscriptions ep) i = Some s" "rb = UndoProcessSubscription i (next_run s)"
      "ep' = ep\<lparr>subscriptions := bm_insert i (s\<lparr>next_run := accepting_time md + sub_interval s\<rparr>) (subscriptions ep)\<rparr>"
    using assms(3) by (auto simp: process_subscription_def Let_def split: option.splits)
  let ?s' = "s\<lparr>next_run := accepting_time md + sub_interval s\<rparr>"
  let ?ep2 = "ep1\<lparr>subscriptions := bm_insert i s (subscriptions ep1)\<rparr>"
  have subs: "subscriptions ep1 = bm_insert i ?s' (subscriptions ep)" using assms(4) s(3) by (simp add: undone_def)
  then have inv2: "merchant_inv mc (?ep2, put_subscription mc s st1)"
    using inv_put_subscription [OF assms(5,2), of i ?s' s] by simp
  have "undone mc (?ep2, put_subscription mc s st1) (ep, st)"
    by (rule undone_subscriptions [OF assms(4) _ _ _ _ inv_subscriptions_wf [OF assms(1)] _ _ _ inv2])
      (use s subs in \<open>auto simp: fun_upd_idem\<close>)
  moreover have "undo_process_subscription mc (ep1, st1) i (next_run s) = ((?ep2, put_subscription mc s st1), True)"
    using subs by (simp add: undo_process_subscription_def Let_def)
  ultimately show ?thesis using s(2) by simp
qed

lemma undo_cancel_subscription_inv:
  assumes "merchant_inv mc (ep, st)" and "borsh_ok mc" and "map_of (subscriptions ep) (sub_id s) = None"
    and "undo_cancel_subscription mc (ep, st) s = ((ep', st'), b)"
  shows "merchant_inv mc (ep', st')" "b" "merchant_keys ep' = merchant_keys ep" "invoices ep' = invoices ep"
    "subscriptions ep' = bm_insert (sub_id s) s (subscriptions ep)"
    "dom (map_of (customers ep')) = dom (map_of (customers ep))"
proof -
  let ?f = "\<lambda>info. if sub_id s \<in> set (ci_subscriptions info) then info
    else info\<lparr>ci_subscriptions := ci_subscriptions info @ [sub_id s]\<rparr>"
  let ?C = "map_of (customers ep)"
  let ?C' = "case ?C (sub_customer s) of None \<Rightarrow> ?C | Some info \<Rightarrow> ?C(sub_customer s \<mapsto> ?f info)"
  have l: "ledger_ok (map_of (invoices ep)) ((map_of (subscriptions ep))(sub_id s := Some s)) ?C' (used_carrier_txs ep)"
    using assms(3)
    by (intro ledger_subscription [OF merchant_invD(5) [OF assms(1)], where f = ?f and pk = "sub_customer s"]) auto
  show "merchant_inv mc (ep', st')"
    using l merchant_invD [OF assms(1)] assms(2,4) inv_customer_key [OF assms(1)]
    by (auto simp: undo_cancel_subscription_def Let_def fun_upd_idem split: option.splits if_splits)
qed (use assms(4) in \<open>auto simp: undo_cancel_subscription_def Let_def split: option.splits if_splits\<close>)

lemma undo_cancel_subscription_sim:
  assumes "merchant_inv mc (ep, st)" and "borsh_ok mc"
    and "cancel_subscription mc (ep, st) i = ((ep', st'), Inr rb)"
    and "undone mc (ep1, st1) (ep', st')" and "merchant_inv mc (ep1, st1)"
  shows "\<exists>m2. merchant_rollback_cmd mc (ep1, st1) rb = (m2, True) \<and> undone mc m2 (ep, st)"
proof -
  obtain s st0 where s: "map_of (subscriptions ep) i = Some s" "rb = UndoCancelSubscription s"
      "drop_subscription mc (ep\<lparr>subscriptions := bm_remove i (subscriptions ep)\<rparr>, st) (sub_customer s) i = (ep', st0)"
    using assms(3) by (auto simp: cancel_subscription_def Let_def split: option.splits prod.splits)
  note fr = drop_subscription_frame [OF s(3)]
  have idi: "sub_id s = i" using ledger_okD(4) [OF merchant_invD(5) [OF assms(1)] s(1)] .
  have subs: "subscriptions ep1 = bm_remove i (subscriptions ep)" using assms(4) fr by (simp add: undone_def)
  obtain ep2 st2 b where m2: "undo_cancel_subscription mc (ep1, st1) s = ((ep2, st2), b)"
    by (metis surj_pair)
  note u = undo_cancel_subscription_inv [OF assms(5,2) _ m2]
  have none: "map_of (subscriptions ep1) (sub_id s) = None" using subs idi by simp
  have "undone mc (ep2, st2) (ep, st)"
    by (rule undone_subscriptions [OF assms(4) _ _ _ _ inv_subscriptions_wf [OF assms(1)] _ _ _ u(1) [OF none]])
      (use u [OF none] fr subs idi s(1) in \<open>auto simp: fun_upd_idem\<close>)
  with m2 u(2) [OF none] s(2) show ?thesis by simp
qed

lemma merchant_rollback_sim:
  assumes "merchant_inv mc m" and "borsh_ok mc" and "merchant_execute mc m cmd auth md = (m', Inr rb)" and "undone mc m1 m'"
  shows "\<exists>m2. merchant_rollback_cmd mc m1 rb = (m2, True) \<and> undone mc m2 m"
proof -
  obtain ep st ep' st' ep1 st1 where m: "m = (ep, st)" "m' = (ep', st')" "m1 = (ep1, st1)" by (metis surj_pair)
  note i = assms(1) [unfolded m] and u = assms(4) [unfolded m] and e = assms(3) [unfolded m]
  have i1: "merchant_inv mc (ep1, st1)"
    using u merchant_execute_inv [OF i assms(2) e] unfolding undone_def by blast
  show ?thesis
  proof (cases cmd)
    case (AckReceipt n)
    then obtain iv where iv: "map_of (invoices ep) n = Some iv" "inv_status iv = Paid" "rb = UndoAck n"
        "ep' = ep\<lparr>invoices := bm_insert n (iv\<lparr>inv_status := Acked, last_update := accepting_time md\<rparr>) (invoices ep)\<rparr>"
      using e by (auto simp: ack_receipt_def Let_def split: option.splits if_splits)
    show ?thesis using undo_status_sim [OF i assms(2) iv(1,4) refl u i1] iv(2,3) m by simp
  next
    case (CancelInvoice n)
    then obtain iv where iv: "map_of (invoices ep) n = Some iv" "rb = UndoCancel n" "inv_status iv = Open"
        "ep' = ep\<lparr>invoices := bm_insert n (iv\<lparr>inv_status := Canceled, last_update := accepting_time md\<rparr>) (invoices ep)\<rparr>"
      using e by (cases "map_of (invoices ep) n"; cases "inv_status (the (map_of (invoices ep) n))")
        (auto simp: cancel_invoice_def Let_def)
    show ?thesis using undo_status_sim [OF i assms(2) iv(1,4) refl u i1] iv(2,3) m by simp
  qed (use e m undo_create_sim [OF i assms(2) _ u i1] undo_paid_sim [OF i assms(2) _ u i1]
      undo_create_subscription_sim [OF i assms(2) _ u i1] undo_process_subscription_sim [OF i assms(2) _ u i1]
      undo_cancel_subscription_sim [OF i assms(2) _ u i1] in simp_all)
qed

end
