(* ===== verification/Merchant_Properties.thy ===== *)
theory Merchant_Properties
  imports Merchant_Contract Reorg
begin

text \<open>
  The promises of the receipt episode: recovery from the store, no double use of a payment,
  rollback, what makes a payment acceptable, and the episode under the engine. The witnesses
  use a concrete store and a self-delimiting encoding of the records.
\<close>

section \<open>The contract\<close>

definition store_ready :: "merchant_codec \<Rightarrow> store \<Rightarrow> bool" where
  "store_ready mc st \<longleftrightarrow> store_wf st \<and>
     ledger_ok (map_of (load_invoices mc st)) (map_of (load_subscriptions mc st)) (map_of (load_customers mc st))
       (set (List.map_filter (\<lambda>(_, iv). carrier_tx iv) (load_invoices mc st)))"

lemma merchant_contract:
  assumes "borsh_ok mc" and "store_ready mc st"
  shows "episode_contract (merchant_episode mc st) (merchant_inv mc) (undone mc) (\<lambda>_. True)"
proof (unfold_locales, goal_cases)
  case (1 ps md)
  show ?case using assms(2) by (simp add: merchant_episode_def merchant_initialize_def store_ready_def Let_def)
next
  case (2 g c a md)
  show ?case by (simp add: merchant_episode_def)
next
  case (3 g c a md g' r)
  then show ?case using merchant_execute_inv [OF _ assms(1)] by (simp add: merchant_episode_def)
next
  case (4 g c a md g' e)
  then show ?case by (simp add: merchant_episode_def merchant_execute_err)
next
  case (8 g c a md g' r g1)
  then show ?case using merchant_rollback_sim [OF _ assms(1)] by (fastforce simp: merchant_episode_def)
qed (auto simp: undone_def)

lemma merchant_calls_inv:
  assumes "borsh_ok mc" and "store_ready mc st"
    and "exec_calls (merchant_episode mc st) (merchant_initialize mc st ps md) cs = Some (m, rs)"
  shows "merchant_inv mc m"
  using episode_contract.exec_calls_total [OF merchant_contract [OF assms(1,2)], of "merchant_initialize mc st ps md" cs]
    episode_contract.init_inv [OF merchant_contract [OF assms(1,2)], of ps md] assms(3)
  by (auto simp: merchant_episode_def)

lemma set_carriers:
  "distinct (map fst ivs) \<Longrightarrow>
     set (List.map_filter (\<lambda>(_, iv). carrier_tx iv) ivs) = {tx. \<exists>i iv. map_of ivs i = Some iv \<and> carrier_tx iv = Some tx}"
proof -
  assume d: "distinct (map fst ivs)"
  have "set (List.map_filter (\<lambda>(_, iv). carrier_tx iv) ivs) = {tx. \<exists>i iv. (i, iv) \<in> set ivs \<and> carrier_tx iv = Some tx}"
    by (force simp: map_filter_def)
  then show ?thesis using d by (simp add: map_of_eq_Some_iff)
qed

section \<open>Properties\<close>

text \<open>
  C6: a crash loses nothing. After any series of commands, failed ones included, initialising an
  episode from the store with the same keys gives exactly the episode in memory: invoices,
  subscriptions, customers, and the recomputed set of used carrier transactions.
\<close>

theorem merchant_recovers_from_store:
  assumes "borsh_ok mc" and "store_ready mc st"
    and "exec_calls (merchant_episode mc st) (merchant_initialize mc st ps md) cs = Some ((ep, st'), rs)"
  shows "merchant_initialize mc st' (merchant_keys ep) md' = (ep, st')"
proof -
  have i: "merchant_inv mc (ep, st')" using merchant_calls_inv assms .
  have "bm_wf (invoices ep)" using merchant_invD(2) [OF i] by (metis load_wf(1))
  then have "set (List.map_filter (\<lambda>(_, iv). carrier_tx iv) (invoices ep)) = used_carrier_txs ep"
    using ledger_okD(3) [OF merchant_invD(5) [OF i]] set_carriers [OF bm_wf_distinct, of "invoices ep"] by blast
  then show ?thesis using merchant_invD [OF i] by (simp add: merchant_initialize_def)
qed

text \<open>
  C7: no double payment. After any series of commands two invoices never share a carrier
  transaction, exactly the paid and acknowledged invoices carry a payer and a transaction, the
  used transactions are exactly those of the invoices, and every customer's list holds exactly
  the invoices he paid.
\<close>

theorem merchant_payments_consistent:
  assumes "borsh_ok mc" and "store_ready mc st"
    and "exec_calls (merchant_episode mc st) (merchant_initialize mc st ps md) cs = Some ((ep, st'), rs)"
    and "map_of (invoices ep) i = Some a"
  shows "(\<forall>j b. map_of (invoices ep) j = Some b \<longrightarrow> carrier_tx a \<noteq> None \<longrightarrow> carrier_tx b = carrier_tx a \<longrightarrow> j = i) \<and>
    (carrier_tx a \<noteq> None \<longleftrightarrow> inv_status a \<in> {Paid, Acked}) \<and> (payer a \<noteq> None \<longleftrightarrow> inv_status a \<in> {Paid, Acked}) \<and>
    set_option (carrier_tx a) \<subseteq> used_carrier_txs ep \<and>
    (\<forall>pk info. map_of (customers ep) pk = Some info \<longrightarrow> (i \<in> set (ci_invoices info) \<longleftrightarrow> payer a = Some pk))"
proof -
  have l: "ledger_ok (map_of (invoices ep)) (map_of (subscriptions ep)) (map_of (customers ep)) (used_carrier_txs ep)"
    using merchant_invD(5) merchant_calls_inv [OF assms(1-3)] .
  have "inv_status a = Open \<or> inv_status a = Paid \<or> inv_status a = Acked \<or> inv_status a = Canceled"
    using invoice_status.exhaust by blast
  then have st: "(carrier_tx a \<noteq> None \<longleftrightarrow> inv_status a \<in> {Paid, Acked})" "(payer a \<noteq> None \<longleftrightarrow> inv_status a \<in> {Paid, Acked})"
    using ledger_okD(1) [OF l assms(4)] by (auto simp: invoice_ok_def)
  moreover have "j = i" if "map_of (invoices ep) j = Some b" "carrier_tx a \<noteq> None" "carrier_tx b = carrier_tx a" for j b
    using that ledger_okD(2) [OF l assms(4) that(1)] by force
  moreover have "set_option (carrier_tx a) \<subseteq> used_carrier_txs ep"
    using ledger_okD(3) [OF l] assms(4) by auto
  moreover have "i \<in> set (ci_invoices info) \<longleftrightarrow> payer a = Some pk" if "map_of (customers ep) pk = Some info" for pk info
    using ledger_okD(5) [OF l that] assms(4) by (simp add: paid_by_def)
  ultimately show ?thesis by blast
qed

text \<open>
  C5: rollback. Undoing the rollback objects of any series of commands, newest first, succeeds at
  every step and gives back the keys, the invoices up to the time of their last update, the
  subscriptions, the used transactions and the customers' lists (as sets).
\<close>

theorem merchant_undo_restores:
  assumes "borsh_ok mc" and "store_ready mc st"
    and "exec_calls (merchant_episode mc st) (merchant_initialize mc st ps md) cs0 = Some ((ep, st0), rs0)"
    and "exec_calls (merchant_episode mc st) (ep, st0) cs = Some ((ep', st'), rs)"
  shows "\<exists>ep2 st2. undo_calls (merchant_episode mc st) (ep', st') rs = Some (ep2, st2) \<and>
    merchant_keys ep2 = merchant_keys ep \<and> subscriptions ep2 = subscriptions ep \<and>
    used_carrier_txs ep2 = used_carrier_txs ep \<and>
    (\<forall>i. map_option settled (map_of (invoices ep2) i) = map_option settled (map_of (invoices ep) i)) \<and>
    (\<forall>pk. map_option (\<lambda>ci. (set (ci_invoices ci), set (ci_subscriptions ci))) (map_of (customers ep2) pk) =
          map_option (\<lambda>ci. (set (ci_invoices ci), set (ci_subscriptions ci))) (map_of (customers ep) pk))"
proof -
  note c = merchant_contract [OF assms(1,2)]
  have i: "merchant_inv mc (ep, st0)" using merchant_calls_inv assms(1-3) .
  have "undone mc (ep', st') (ep', st')" by (simp add: undone_def)
  then obtain ep2 st2 where u: "undo_calls (merchant_episode mc st) (ep', st') rs = Some (ep2, st2)"
      "undone mc (ep2, st2) (ep, st0)"
    using episode_contract.undo_exec_calls [OF c i assms(4)] by (metis surj_pair)
  have i2: "merchant_inv mc (ep2, st2)" using u(2) i unfolding undone_def by blast
  note l = merchant_invD(5) [OF i] and l2 = merchant_invD(5) [OF i2]
  have inv: "map_option settled (map_of (invoices ep2) j) = map_option settled (map_of (invoices ep) j)" for j
    using u(2) unfolding undone_def by (metis comp_apply fst_conv)
  have fields: "map_option (\<lambda>iv. (payer iv, carrier_tx iv)) (map_of (invoices ep2) j) =
      map_option (\<lambda>iv. (payer iv, carrier_tx iv)) (map_of (invoices ep) j)" for j
    using inv [of j] by (cases "map_of (invoices ep2) j"; cases "map_of (invoices ep) j") (auto dest: settled_fields)
  have same: "(\<exists>iv. map_of (invoices ep2) j = Some iv \<and> payer iv = Some pk) \<longleftrightarrow>
        (\<exists>iv. map_of (invoices ep) j = Some iv \<and> payer iv = Some pk)"
      "(\<exists>iv. map_of (invoices ep2) j = Some iv \<and> carrier_tx iv = Some tx) \<longleftrightarrow>
        (\<exists>iv. map_of (invoices ep) j = Some iv \<and> carrier_tx iv = Some tx)" for j pk tx
    using fields [of j] by (cases "map_of (invoices ep2) j"; cases "map_of (invoices ep) j"; auto)+
  have subs: "subscriptions ep2 = subscriptions ep" and keys: "merchant_keys ep2 = merchant_keys ep"
    and dom: "dom (map_of (customers ep2)) = dom (map_of (customers ep))" using u(2) by (simp_all add: undone_def)
  have "used_carrier_txs ep2 = used_carrier_txs ep"
    using ledger_okD(3) [OF l] ledger_okD(3) [OF l2] same(2) by blast
  moreover have "map_option (\<lambda>ci. (set (ci_invoices ci), set (ci_subscriptions ci))) (map_of (customers ep2) pk) =
      map_option (\<lambda>ci. (set (ci_invoices ci), set (ci_subscriptions ci))) (map_of (customers ep) pk)" for pk
  proof -
    have "paid_by (map_of (invoices ep2)) pk = paid_by (map_of (invoices ep)) pk"
      using same(1) by (simp add: paid_by_def)
    moreover have "map_of (customers ep2) pk = None \<longleftrightarrow> map_of (customers ep) pk = None"
      using dom by (metis domIff)
    ultimately show ?thesis
      using subs ledger_okD(5,6) [OF l, of pk] ledger_okD(5,6) [OF l2, of pk]
      by (cases "map_of (customers ep2) pk"; cases "map_of (customers ep) pk") simp_all
  qed
  ultimately show ?thesis using u(1) keys subs inv by blast
qed

lemma check_outputs_spec:
  "check_outputs amount allowed outs (a, c, False) =
     (let ok = (\<lambda>out. \<exists>sb \<in> set allowed. script_bytes out = Some sb);
          big = (\<lambda>out. out_value out \<ge> amount)
      in if \<exists>out \<in> set outs. big out \<and> ok out then (True, True, True)
         else (a \<or> (\<exists>out \<in> set outs. big out), c \<or> (\<exists>out \<in> set outs. big out \<and> script_bytes out \<noteq> None), False))"
  by (induction outs arbitrary: a c) (auto simp: Let_def split: option.splits)

text \<open>
  The whole guard of a payment. \<^verbatim>\<open>MarkPaid\<close> succeeds exactly when it is signed by the payer, the carrier
  transaction is new, the invoice is open, the payer is a known customer, and the outputs, when
  the proxy delivered them, contain one of at least the amount; if the script of any such output
  is known, one of them must pay a key of the merchant. Any failure leaves everything as it was.
\<close>

theorem mark_paid_guard:
  "(\<exists>m' rb. merchant_execute mc (ep, st) (MarkPaid i pk) authorization md = (m', Inr rb)) \<longleftrightarrow>
     authorization = Some pk \<and> tx_id md \<notin> used_carrier_txs ep \<and> map_of (customers ep) pk \<noteq> None \<and>
     (case map_of (invoices ep) i of
        None \<Rightarrow> False
      | Some iv \<Rightarrow> inv_status iv = Open \<and>
          (case tx_outputs md of
             None \<Rightarrow> True
           | Some outs \<Rightarrow>
               let big = filter (\<lambda>out. out_value out \<ge> inv_amount iv) outs;
                   scripts = List.map_filter script_bytes big
               in big \<noteq> [] \<and> (scripts = [] \<or> (\<exists>k \<in> set (merchant_keys ep). p2pk_script k \<in> set scripts))))"
proof -
  have outs: "outputs_error ep iv md = None \<longleftrightarrow>
      (case tx_outputs md of
         None \<Rightarrow> True
       | Some outs \<Rightarrow>
           let big = filter (\<lambda>out. out_value out \<ge> inv_amount iv) outs;
               scripts = List.map_filter script_bytes big
           in big \<noteq> [] \<and> (scripts = [] \<or> (\<exists>k \<in> set (merchant_keys ep). p2pk_script k \<in> set scripts)))" for iv
  proof (cases "tx_outputs md")
    case (Some outs)
    let ?big = "filter (\<lambda>out. out_value out \<ge> inv_amount iv) outs"
    have sc: "set (List.map_filter script_bytes ?big) = {sb. \<exists>out \<in> set outs. out_value out \<ge> inv_amount iv \<and> script_bytes out = Some sb}"
      by (force simp: map_filter_def)
    then have empty: "List.map_filter script_bytes ?big = [] \<longleftrightarrow>
        \<not> (\<exists>out \<in> set outs. out_value out \<ge> inv_amount iv \<and> script_bytes out \<noteq> None)"
      by (auto simp flip: set_empty)
    show ?thesis
      unfolding outputs_error_def Some option.case check_outputs_spec Let_def empty sc
      by (auto simp: filter_empty_conv)
  qed (simp add: outputs_error_def)
  have all: "s = Open \<or> s = Paid \<or> s = Acked \<or> s = Canceled" for s using invoice_status.exhaust by blast
  show ?thesis
  proof (cases "map_of (invoices ep) i")
    case None
    then show ?thesis by (simp add: mark_paid_def)
  next
    case (Some iv)
    then show ?thesis
      using all [of "inv_status iv"] outs [of iv, symmetric]
      by (cases "outputs_error ep iv md"; cases "map_of (customers ep) pk") (auto simp: mark_paid_def Let_def)
  qed
qed

section \<open>A concrete merchant\<close>

text \<open>
  A self-delimiting encoding: a byte string is written as marked bytes and an end mark, a field
  as the byte string of its bytes.
\<close>

fun mark :: "bytes \<Rightarrow> bytes" where
  "mark [] = [0]"
| "mark (b # bs) = 1 # b # mark bs"

fun unmark :: "bytes \<Rightarrow> (bytes \<times> bytes) option" where
  "unmark (m # r) =
     (if m = 0 then Some ([], r)
      else case r of [] \<Rightarrow> None
        | b # r' \<Rightarrow> map_option (\<lambda>(bs, q). (b # bs, q)) (unmark r'))"
| "unmark [] = None"

interpretation marked: stream_codec mark unmark "\<lambda>_. True"
proof
  fix x rest show "unmark (mark x @ rest) = Some (x, rest)" by (induction x) auto
qed

definition join :: "bytes list \<Rightarrow> bytes" where
  "join fs = concat (map mark fs)"

definition split :: "nat \<Rightarrow> bytes \<Rightarrow> bytes list option" where
  "split n bs = map_option fst (get_many unmark n bs)"

lemma split_join [simp]: "n = length fs \<Longrightarrow> split n (join fs) = Some fs"
  using marked.get_many_concat [of fs "[]"] by (simp add: split_def join_def list_all_iff)

fun ids_bytes :: "u64 list \<Rightarrow> bytes" where
  "ids_bytes [] = []"
| "ids_bytes (i # is) = u64_le i @ ids_bytes is"

function bytes_ids :: "bytes \<Rightarrow> u64 list" where
  "bytes_ids bs = (if bs = [] then [] else le_u64 (take 8 bs) # bytes_ids (drop 8 bs))"
  by pat_completeness auto
termination by (relation "measure length") auto

declare bytes_ids.simps [simp del]

lemma bytes_ids_ids_bytes [simp]: "bytes_ids (ids_bytes is) = is"
proof (induction "is")
  case (Cons i "is")
  have "u64_le i @ ids_bytes is \<noteq> []" by (metis Nil_is_append_conv length_le_bytes(3) list.size(3) zero_neq_numeral)
  with Cons show ?case by (subst bytes_ids.simps) simp
qed (simp add: bytes_ids.simps)

definition opt_bytes :: "('a \<Rightarrow> bytes) \<Rightarrow> 'a option \<Rightarrow> bytes" where
  "opt_bytes f x = (case x of None \<Rightarrow> [] | Some y \<Rightarrow> 1 # f y)"

definition bytes_opt :: "(bytes \<Rightarrow> 'a) \<Rightarrow> bytes \<Rightarrow> 'a option" where
  "bytes_opt g bs = (case bs of [] \<Rightarrow> None | _ # r \<Rightarrow> Some (g r))"

lemma bytes_opt_opt_bytes [simp]: "(\<And>y. g (f y) = y) \<Longrightarrow> bytes_opt g (opt_bytes f x) = x"
  by (simp add: bytes_opt_def opt_bytes_def split: option.splits)

definition status_byte :: "invoice_status \<Rightarrow> bytes" where
  "status_byte s = (case s of Open \<Rightarrow> [0] | Paid \<Rightarrow> [1] | Acked \<Rightarrow> [2] | Canceled \<Rightarrow> [3])"

definition byte_status :: "bytes \<Rightarrow> invoice_status" where
  "byte_status b = (if b = [0] then Open else if b = [1] then Paid else if b = [2] then Acked else Canceled)"

lemma byte_status [simp]: "byte_status (status_byte s) = s"
  by (cases s) (simp_all add: byte_status_def status_byte_def)

definition text_bytes :: "string \<Rightarrow> bytes" where
  "text_bytes s = map (of_char :: char \<Rightarrow> u8) s"

definition bytes_text :: "bytes \<Rightarrow> string" where
  "bytes_text bs = map (\<lambda>b. char_of (unat b)) bs"

lemma bytes_text_text_bytes [simp]: "bytes_text (text_bytes s) = s"
proof -
  have "unat (of_char c :: u8) = (of_char c :: nat)" for c
  proof -
    have "(of_char c :: u8) = of_nat (of_char c)" by (simp add: of_char_def horner_sum_of_bool_2_less)
    moreover have "(of_char c :: nat) < 256" by simp
    ultimately show ?thesis by (simp add: unat_of_nat)
  qed
  then show ?thesis by (simp add: bytes_text_def text_bytes_def comp_def map_idI)
qed

definition demo_codec :: merchant_codec where
  "demo_codec = \<lparr>
     enc_invoice = (\<lambda>iv. join [u64_le (inv_id iv), u64_le (inv_amount iv), opt_bytes text_bytes (inv_memo iv),
       u64_le (created_at iv), u64_le (last_update iv), status_byte (inv_status iv), opt_bytes pk_bytes (payer iv),
       opt_bytes (\<lambda>x. x) (carrier_tx iv)]),
     dec_invoice = (\<lambda>bs. case split 8 bs of
         Some [a, b, c, d, e, f, g, h] \<Rightarrow> Some \<lparr>inv_id = le_u64 a, inv_amount = le_u64 b,
           inv_memo = bytes_opt bytes_text c, created_at = le_u64 d, last_update = le_u64 e,
           inv_status = byte_status f, payer = bytes_opt PubKey g, carrier_tx = bytes_opt (\<lambda>x. x) h\<rparr>
       | _ \<Rightarrow> None),
     enc_customer = (\<lambda>ci. join [ids_bytes (ci_invoices ci), ids_bytes (ci_subscriptions ci)]),
     dec_customer = (\<lambda>bs. case split 2 bs of
         Some [a, b] \<Rightarrow> Some \<lparr>ci_invoices = bytes_ids a, ci_subscriptions = bytes_ids b\<rparr> | _ \<Rightarrow> None),
     enc_subscription = (\<lambda>s. join [u64_le (sub_id s), pk_bytes (sub_customer s), u64_le (sub_amount s),
       u64_le (sub_interval s), u64_le (next_run s)]),
     dec_subscription = (\<lambda>bs. case split 5 bs of
         Some [a, b, c, d, e] \<Rightarrow> Some \<lparr>sub_id = le_u64 a, sub_customer = PubKey b, sub_amount = le_u64 c,
           sub_interval = le_u64 d, next_run = le_u64 e\<rparr>
       | _ \<Rightarrow> None),
     key_crypto = \<lparr>sha256 = (\<lambda>b. b), ecdsa_sign = (\<lambda>sk m. sk @ m), ecdsa_verify = (\<lambda>m s pk. s = pk @ m),
       pk_slice_ok = (\<lambda>_. True), der_ok = (\<lambda>_. True)\<rparr>\<rparr>"

lemma demo_borsh: "borsh_ok demo_codec"
  by (simp add: borsh_ok_def demo_codec_def)

definition demo_payer :: pubkey where
  "demo_payer = PubKey (replicate 33 2)"

definition demo_store :: store where
  "demo_store = put_customer demo_codec demo_payer \<lparr>ci_invoices = [], ci_subscriptions = []\<rparr>
     \<lparr>invoices_tree = [], customers_tree = [], subscriptions_tree = []\<rparr>"

lemma load_demo:
  "load_invoices demo_codec demo_store = []" "load_subscriptions demo_codec demo_store = []"
  "load_customers demo_codec demo_store = [(demo_payer, \<lparr>ci_invoices = [], ci_subscriptions = []\<rparr>)]"
proof -
  have "store_wf \<lparr>invoices_tree = [], customers_tree = [], subscriptions_tree = []\<rparr>" by (simp add: store_wf_def)
  moreover have "pubkey_ok (key_crypto demo_codec) demo_payer" by (simp add: pubkey_ok_def demo_payer_def demo_codec_def)
  ultimately show "load_invoices demo_codec demo_store = []" "load_subscriptions demo_codec demo_store = []"
    "load_customers demo_codec demo_store = [(demo_payer, \<lparr>ci_invoices = [], ci_subscriptions = []\<rparr>)]"
    using demo_borsh
    by (simp_all add: demo_store_def)
      (simp_all add: load_invoices_def load_subscriptions_def load_customers_def load_tree_def map_filter_simps)
qed

lemma demo_ready: "store_ready demo_codec demo_store"
  by (auto simp: store_ready_def load_demo ledger_ok_def paid_by_def subscribed_def map_filter_simps)
    (simp add: demo_store_def store_wf_def put_customer_def bm_wf_def)

text \<open>One invoice, created by the merchant and paid, then acknowledged, then a failing payment.\<close>

definition demo_meta :: "u8 \<Rightarrow> u64 \<Rightarrow> metadata" where
  "demo_meta tx t = \<lparr>accepting_hash = [], accepting_daa = 0, accepting_time = t, tx_id = [tx], tx_outputs = None\<rparr>"

definition demo_cmds :: "merchant_command call list" where
  "demo_cmds = [(CreateInvoice 1 10 None, Some (PubKey [9]), demo_meta 1 5),
     (MarkPaid 1 demo_payer, Some demo_payer, demo_meta 2 6)]"

definition demo_later :: "merchant_command call list" where
  "demo_later = [(AckReceipt 1, None, demo_meta 3 7), (MarkPaid 1 demo_payer, Some demo_payer, demo_meta 2 8)]"

definition demo_merchant :: "merchant \<times> merchant_rollback list" where
  "demo_merchant = the (exec_calls (merchant_episode demo_codec demo_store)
     (merchant_initialize demo_codec demo_store [PubKey [9]] (demo_meta 0 0)) demo_cmds)"

lemmas merchant_run = merchant_episode_def merchant_initialize_def load_demo demo_cmds_def demo_later_def demo_meta_def
  create_invoice_def mark_paid_def ack_receipt_def outputs_error_def merchant_auth_def Let_def map_filter_simps

lemma demo_merchant_run:
  "exec_calls (merchant_episode demo_codec demo_store)
     (merchant_initialize demo_codec demo_store [PubKey [9]] (demo_meta 0 0)) demo_cmds =
   Some ((fst (fst demo_merchant), snd (fst demo_merchant)), snd demo_merchant)"
  by (simp add: demo_merchant_def merchant_run)

theorem merchant_recovers_from_store_witness:
  "merchant_initialize demo_codec (snd (fst demo_merchant)) (merchant_keys (fst (fst demo_merchant))) (demo_meta 0 99) =
     (fst (fst demo_merchant), snd (fst demo_merchant))"
  by (rule merchant_recovers_from_store [OF demo_borsh demo_ready demo_merchant_run])

theorem merchant_payments_consistent_witness:
  "used_carrier_txs (fst (fst demo_merchant)) = {[2]} \<and>
   (\<exists>a. map_of (invoices (fst (fst demo_merchant))) 1 = Some a \<and> (payer a \<noteq> None \<longleftrightarrow> inv_status a \<in> {Paid, Acked}) \<and>
     set_option (carrier_tx a) \<subseteq> used_carrier_txs (fst (fst demo_merchant)))"
proof -
  have used: "used_carrier_txs (fst (fst demo_merchant)) = {[2]}" by (simp add: demo_merchant_def merchant_run)
  have "\<exists>a. map_of (invoices (fst (fst demo_merchant))) 1 = Some a" by (simp add: demo_merchant_def merchant_run)
  then obtain a where "map_of (invoices (fst (fst demo_merchant))) 1 = Some a" by blast
  with merchant_payments_consistent [OF demo_borsh demo_ready demo_merchant_run this] used show ?thesis by blast
qed

theorem merchant_undo_restores_witness:
  "\<exists>ep' st' rs ep2 st2. exec_calls (merchant_episode demo_codec demo_store) (fst demo_merchant) demo_later = Some ((ep', st'), rs) \<and>
     undo_calls (merchant_episode demo_codec demo_store) (ep', st') rs = Some (ep2, st2) \<and>
     used_carrier_txs ep2 = used_carrier_txs (fst (fst demo_merchant))"
proof -
  have "\<exists>m rs. exec_calls (merchant_episode demo_codec demo_store) (fst (fst demo_merchant), snd (fst demo_merchant)) demo_later =
      Some (m, rs)" by (simp add: demo_merchant_def merchant_run)
  then obtain ep' st' rs where e: "exec_calls (merchant_episode demo_codec demo_store)
      (fst (fst demo_merchant), snd (fst demo_merchant)) demo_later = Some ((ep', st'), rs)" by auto
  from merchant_undo_restores [OF demo_borsh demo_ready demo_merchant_run e] e show ?thesis by auto
qed

end
