(* ===== verification/Client_Sender.thy ===== *)
theory Client_Sender
  imports Routers
begin

text \<open>
  The sender of TLV messages (\<^verbatim>\<open>kdapp-merchant/src/client_sender.rs\<close>): up to three attempts with a
  doubling timeout, ended by a matching acknowledgement; and what it gives together with the
  router over a link that may lose any request and any reply.
\<close>

definition sat_double :: "u64 \<Rightarrow> u64" where
  "sat_double a = (if unat a * 2 < 2 ^ 64 then a * 2 else - 1)"

definition ack_matches :: "(bytes \<Rightarrow> bytes) \<Rightarrow> tlv \<Rightarrow> u8 \<Rightarrow> bytes \<Rightarrow> bool" where
  "ack_matches blake m expected reply =
     (case tlv_decode (take 1024 reply) of
        None \<Rightarrow> False
      | Some ack \<Rightarrow> tlv_type ack = expected \<and> tlv_episode ack = tlv_episode m \<and> tlv_seq ack = tlv_seq m \<and>
          tlv_verify blake DEMO_HMAC_KEY ack)"

text \<open>
  The loop: \<open>replies\<close> holds what \<^verbatim>\<open>recv_from\<close> returns in each attempt (\<^const>\<open>None\<close> when it times
  out). The result lists the timeouts of the attempts made and says whether the ack came.
\<close>

fun retry_loop :: "(bytes \<Rightarrow> bytes) \<Rightarrow> tlv \<Rightarrow> u8 \<Rightarrow> u64 \<Rightarrow> bytes option list \<Rightarrow> u64 list \<times> bool" where
  "retry_loop blake m expected timeout_ms [] = ([], False)"
| "retry_loop blake m expected timeout_ms (r # rs) =
     (if (case r of None \<Rightarrow> False | Some reply \<Rightarrow> ack_matches blake m expected reply) then ([timeout_ms], True)
      else let (ts, ok) = retry_loop blake m expected (sat_double timeout_ms) rs in (timeout_ms # ts, ok))"

definition send_with_retry ::
  "(bytes \<Rightarrow> bytes) \<Rightarrow> tlv \<Rightarrow> bool \<Rightarrow> bytes option list \<Rightarrow> bytes \<times> u64 list \<times> bool" where
  "send_with_retry blake m expect_close_ack replies =
     (let m' = tlv_sign blake DEMO_HMAC_KEY m;
          expected = (if expect_close_ack then kind_u8 MAckClose else kind_u8 MAck)
      in (tlv_encode m', retry_loop blake m' expected 300 (take 3 replies)))"

definition client_tlv :: "msg_kind \<Rightarrow> u64 \<Rightarrow> u64 \<Rightarrow> bytes \<Rightarrow> tlv" where
  "client_tlv k episode_id sq payload =
     \<lparr>tlv_version = TLV_VERSION, tlv_type = kind_u8 k, tlv_episode = episode_id, tlv_seq = sq,
      tlv_state_hash = replicate 32 0, tlv_payload = payload, tlv_auth = replicate 32 0\<rparr>"

text \<open>\<open>enc\<close> is the Borsh encoder of the engine messages.\<close>

definition send_cmd ::
  "(bytes \<Rightarrow> bytes) \<Rightarrow> ('m \<Rightarrow> bytes) \<Rightarrow> u64 \<Rightarrow> u64 \<Rightarrow> 'm \<Rightarrow> bytes option list \<Rightarrow> bytes \<times> u64 list \<times> bool" where
  "send_cmd blake enc episode_id sq msg replies = send_with_retry blake (client_tlv MCmd episode_id sq (enc msg)) False replies"

definition send_new ::
  "(bytes \<Rightarrow> bytes) \<Rightarrow> ('m \<Rightarrow> bytes) \<Rightarrow> u64 \<Rightarrow> u64 \<Rightarrow> 'm \<Rightarrow> bytes option list \<Rightarrow> bytes \<times> u64 list \<times> bool" where
  "send_new blake enc episode_id sq msg replies = send_with_retry blake (client_tlv MNew episode_id sq (enc msg)) False replies"

definition send_close ::
  "(bytes \<Rightarrow> bytes) \<Rightarrow> u64 \<Rightarrow> u64 \<Rightarrow> bytes option list \<Rightarrow> bytes \<times> u64 list \<times> bool" where
  "send_close blake episode_id sq replies = send_with_retry blake (client_tlv MClose episode_id sq []) True replies"

section \<open>Over a lossy link\<close>

text \<open>
  Per attempt: whether the request arrives, whether the reply arrives, and the router's clock.
  \<open>link_replies\<close> is what the client would receive, \<open>link_outputs\<close> what the router does.
\<close>

fun reply_of :: "router_out list \<Rightarrow> bytes option" where
  "reply_of [] = None"
| "reply_of (Reply b # os) = Some b"
| "reply_of (ToEngine ev # os) = reply_of os"

definition link_step :: "(bytes \<Rightarrow> bytes) \<Rightarrow> bytes \<Rightarrow> router \<Rightarrow> bool \<times> bool \<times> u64 \<Rightarrow> router \<times> router_out list" where
  "link_step blake d st = (\<lambda>(arrives, _, now). if arrives then udp_step blake now st d else (st, []))"

fun link_replies :: "(bytes \<Rightarrow> bytes) \<Rightarrow> bytes \<Rightarrow> router \<Rightarrow> (bool \<times> bool \<times> u64) list \<Rightarrow> bytes option list" where
  "link_replies blake d st [] = []"
| "link_replies blake d st (w # ws) =
     (let (st', out) = link_step blake d st w
      in (if fst (snd w) then reply_of out else None) # link_replies blake d st' ws)"

fun link_outputs :: "(bytes \<Rightarrow> bytes) \<Rightarrow> bytes \<Rightarrow> router \<Rightarrow> (bool \<times> bool \<times> u64) list \<Rightarrow> router_out list" where
  "link_outputs blake d st [] = []"
| "link_outputs blake d st (w # ws) =
     (let (st', out) = link_step blake d st w in out @ link_outputs blake d st' ws)"

definition engine_events :: "router_out list \<Rightarrow> engine_msg list" where
  "engine_events os = List.map_filter (\<lambda>x. case x of ToEngine ev \<Rightarrow> Some ev | _ \<Rightarrow> None) os"

lemma engine_events_simps [simp]:
  "engine_events [] = []" "engine_events (Reply b # os) = engine_events os"
  "engine_events (ToEngine ev # os) = ev # engine_events os" "engine_events (xs @ ys) = engine_events xs @ engine_events ys"
  by (auto simp: engine_events_def map_filter_def)

lemma client_tlv_ok:
  "length pl < 2 ^ 16 \<Longrightarrow> \<forall>b. length (blake b) \<ge> 32 \<Longrightarrow> tlv_ok (tlv_sign blake DEMO_HMAC_KEY (client_tlv k ep n pl))"
  by (simp add: client_tlv_def tlv_sign_def tlv_ok_def tlv_digest_def)

lemma client_tlv_fields [simp]:
  "tlv_episode (tlv_sign blake key (client_tlv k ep n pl)) = ep" "tlv_seq (tlv_sign blake key (client_tlv k ep n pl)) = n"
  "tlv_type (tlv_sign blake key (client_tlv k ep n pl)) = kind_u8 k"
  "tlv_payload (tlv_sign blake key (client_tlv k ep n pl)) = pl"
  by (simp_all add: client_tlv_def tlv_sign_def)

text \<open>The first arrival is delivered, every later one only gets the stored acknowledgement.\<close>

lemma authentic_client:
  assumes "length pl \<le> 65000" and "\<forall>b. length (blake b) \<ge> 32"
  shows "authentic blake (take (64 * 1024) (tlv_encode (tlv_sign blake DEMO_HMAC_KEY (client_tlv k ep n pl)))) =
    Some (tlv_sign blake DEMO_HMAC_KEY (client_tlv k ep n pl), k)"
proof -
  let ?m = "tlv_sign blake DEMO_HMAC_KEY (client_tlv k ep n pl)"
  have ok: "tlv_ok ?m" using client_tlv_ok [of pl blake k ep n] assms by simp
  have "length (tlv_encode ?m) \<le> 64 * 1024" using length_tlv_encode [OF ok] assms(1) by simp
  then show ?thesis using tlv_wire.dec_enc [OF ok] by (simp add: authentic_def)
qed

lemma udp_first:
  assumes "length pl \<le> 65000" and "\<forall>b. length (blake b) \<ge> 32" and "udp_admit k (st ep) n = Accept"
  shows "\<exists>ack. udp_step blake now st (tlv_encode (tlv_sign blake DEMO_HMAC_KEY (client_tlv k ep n pl))) =
      (st(ep \<mapsto> \<lparr>as_seq = n, as_ack = ack\<rparr>),
       (if k = MCheckpoint then [] else [ToEngine (BlkAccepted default_hash n now [(default_hash, pl, None)])]) @ [Reply ack])"
  using authentic_client [OF assms(1,2), of k ep n] assms(3)
  by (simp add: udp_step_authentic udp_deliver_def Let_def)

lemma udp_again:
  assumes "length pl \<le> 65000" and "\<forall>b. length (blake b) \<ge> 32" and "st ep = Some \<lparr>as_seq = n, as_ack = ack\<rparr>"
    and "k \<noteq> MAck" "k \<noteq> MAckClose"
  shows "udp_step blake now st (tlv_encode (tlv_sign blake DEMO_HMAC_KEY (client_tlv k ep n pl))) = (st, [Reply ack])"
proof -
  have "n \<noteq> n + 1" by simp
  then have "udp_admit k (st ep) n = Replay ack"
    using assms(3-5) by (cases k) (simp_all add: udp_admit_def)
  then show ?thesis using authentic_client [OF assms(1,2), of k ep n] by (simp add: udp_step_authentic)
qed

lemma attempts_length: "length (fst (retry_loop blake m e t rs)) \<le> length rs"
  by (induction rs arbitrary: t) (auto simp: split_beta Let_def split: option.splits)

lemma link_after_first:
  assumes "length pl \<le> 65000" and "\<forall>b. length (blake b) \<ge> 32" and "st ep = Some \<lparr>as_seq = n, as_ack = ack\<rparr>"
    and "k \<noteq> MAck" "k \<noteq> MAckClose"
  shows "engine_events (link_outputs blake (tlv_encode (tlv_sign blake DEMO_HMAC_KEY (client_tlv k ep n pl))) st ws) = []"
  using udp_again [where st = st and ep = ep and n = n and ack = ack, OF assms]
  by (induction ws) (auto simp: link_step_def split_beta Let_def)

lemma link_at_most_once:
  assumes "length pl \<le> 65000" and "\<forall>b. length (blake b) \<ge> 32" and "udp_admit k (st ep) n = Accept"
  shows "engine_events (link_outputs blake (tlv_encode (tlv_sign blake DEMO_HMAC_KEY (client_tlv k ep n pl))) st ws) =
    (case List.find fst ws of
       None \<Rightarrow> []
     | Some (_, _, now) \<Rightarrow> if k = MCheckpoint then [] else [BlkAccepted default_hash n now [(default_hash, pl, None)]])"
proof (induction ws)
  case (Cons w ws)
  obtain a r now where w: "w = (a, r, now)" by (cases w)
  show ?case
  proof (cases a)
    case True
    have k: "k \<noteq> MAck" "k \<noteq> MAckClose" using assms(3) by (auto simp: udp_admit_def)
    from udp_first [where st = st and ep = ep and n = n and now = now, OF assms] obtain ack where
      "udp_step blake now st (tlv_encode (tlv_sign blake DEMO_HMAC_KEY (client_tlv k ep n pl))) =
      (st(ep \<mapsto> \<lparr>as_seq = n, as_ack = ack\<rparr>),
       (if k = MCheckpoint then [] else [ToEngine (BlkAccepted default_hash n now [(default_hash, pl, None)])]) @ [Reply ack])"
      by blast
    with True w link_after_first [OF assms(1,2) _ k, of "st(ep \<mapsto> \<lparr>as_seq = n, as_ack = ack\<rparr>)" ep n ack]
    show ?thesis by (simp add: link_step_def)
  next
    case False
    with w Cons show ?thesis by (simp add: link_step_def)
  qed
qed simp

lemma attempts_ack_arrived:
  "snd (retry_loop blake m e t (link_replies blake d st ws)) \<Longrightarrow>
     List.find fst (take (length (fst (retry_loop blake m e t (link_replies blake d st ws)))) ws) \<noteq> None"
proof (induction ws arbitrary: st t)
  case (Cons w ws)
  obtain a r now where w: "w = (a, r, now)" by (cases w)
  show ?case
  proof (cases a)
    case True
    with w show ?thesis by (auto simp: split_beta Let_def split: option.splits)
  next
    case False
    with w Cons show ?thesis by (cases r) (auto simp: link_step_def split_beta Let_def)
  qed
qed simp

text \<open>
  C8: exactly once over a lossy link. A client that sends the next message of an episode makes at most
  three attempts; whatever requests and replies are lost, the engine gets at most one event for
  it, and if the client saw an acknowledgement it got exactly that event (a checkpoint is never
  forwarded).
\<close>

theorem lossy_exactly_once:
  assumes "length payload \<le> 65000" and "\<forall>b. length (blake b) \<ge> 32"
    and "udp_admit k (st ep) n = Accept" and "length ws = 3"
    and "send_with_retry blake (client_tlv k ep n payload) close (link_replies blake
           (tlv_encode (tlv_sign blake DEMO_HMAC_KEY (client_tlv k ep n payload))) st ws) = (d, timeouts, ok)"
  shows "length timeouts \<le> 3 \<and>
    length (engine_events (link_outputs blake d st (take (length timeouts) ws))) \<le> 1 \<and>
    (ok \<longrightarrow> (\<exists>now. engine_events (link_outputs blake d st (take (length timeouts) ws)) =
       (if k = MCheckpoint then [] else [BlkAccepted default_hash n now [(default_hash, payload, None)]])))"
proof -
  let ?m = "tlv_sign blake DEMO_HMAC_KEY (client_tlv k ep n payload)"
  let ?rs = "link_replies blake (tlv_encode ?m) st ws" and ?e = "if close then kind_u8 MAckClose else kind_u8 MAck"
  have "length (link_replies blake (tlv_encode ?m) s ws) = length ws" for s
    by (induction ws arbitrary: s) (auto simp: split_beta Let_def)
  then have l: "length ?rs = 3" and t: "take 3 ?rs = ?rs" using assms(4) by simp_all
  have a: "tlv_encode ?m = d" "retry_loop blake ?m ?e 300 ?rs = (timeouts, ok)"
    using assms(5) unfolding send_with_retry_def Let_def t prod.inject by blast+
  have "length timeouts \<le> 3" using attempts_length [of blake ?m ?e 300 ?rs] l by (simp add: a(2) split del: if_split)
  moreover have "ok \<longrightarrow> List.find fst (take (length timeouts) ws) \<noteq> None"
    using attempts_ack_arrived [of blake ?m ?e 300 "tlv_encode ?m" st ws] by (simp add: a(2) split del: if_split)
  ultimately show ?thesis
    using link_at_most_once [where st = st and ep = ep and n = n and ws = "take (length timeouts) ws", OF assms(1-3)] a(1)
    by (auto split: option.splits)
qed

text \<open>The first request is lost, then the first reply; the third attempt gets the stored acknowledgement.\<close>

theorem lossy_exactly_once_witness:
  "\<exists>d timeouts ok. send_with_retry demo_blake (client_tlv MNew 4 0 [5]) False (link_replies demo_blake
      (tlv_encode (tlv_sign demo_blake DEMO_HMAC_KEY (client_tlv MNew 4 0 [5]))) Map.empty
      [(False, True, 1), (True, False, 2), (True, True, 3)]) = (d, timeouts, ok) \<and>
    length (engine_events (link_outputs demo_blake d Map.empty
      (take (length timeouts) [(False, True, 1), (True, False, 2), (True, True, 3)]))) \<le> 1"
proof -
  let ?ws = "[(False, True, 1), (True, False, 2), (True, True, 3)]"
  obtain d timeouts ok where s: "send_with_retry demo_blake (client_tlv MNew 4 0 [5]) False (link_replies demo_blake
      (tlv_encode (tlv_sign demo_blake DEMO_HMAC_KEY (client_tlv MNew 4 0 [5]))) Map.empty ?ws) = (d, timeouts, ok)"
    by (metis surj_pair)
  have "length timeouts \<le> 3 \<and> length (engine_events (link_outputs demo_blake d Map.empty (take (length timeouts) ?ws))) \<le> 1 \<and>
    (ok \<longrightarrow> (\<exists>now. engine_events (link_outputs demo_blake d Map.empty (take (length timeouts) ?ws)) =
       (if MNew = MCheckpoint then [] else [BlkAccepted default_hash 0 now [(default_hash, [5], None)]])))"
    by (rule lossy_exactly_once [OF _ _ _ _ s]) (simp_all add: udp_admit_def demo_blake_def)
  with s show ?thesis by blast
qed

end
