(* ===== verification/Merchant_Services.thy ===== *)
theory Merchant_Services
  imports Merchant_Properties Client_Sender
begin

text \<open>
  What surrounds the receipt episode (\<^verbatim>\<open>kdapp-merchant/src\<close>): the in-process router
  (\<^verbatim>\<open>sim_router.rs\<close>), the routing ids (\<^verbatim>\<open>program_id.rs\<close>), the scheduler of subscriptions
  (\<^verbatim>\<open>scheduler.rs\<close>), the event handler that emits checkpoints (\<^verbatim>\<open>handler.rs\<close>), the watcher that
  anchors them (\<^verbatim>\<open>watcher.rs\<close>) and the HTTP handlers (\<^verbatim>\<open>server.rs\<close>). Clock readings, key
  parsing, hex conversion and the node's answers are arguments.
\<close>

section \<open>The in-process router and the routing ids\<close>

definition sim_forward :: "('m \<Rightarrow> bytes) \<Rightarrow> u64 \<Rightarrow> 'm \<Rightarrow> engine_msg" where
  "sim_forward enc now msg = BlkAccepted default_hash 0 now [(default_hash, enc msg, None)]"

definition derive_program_label :: "crypto \<Rightarrow> pubkey \<Rightarrow> string \<Rightarrow> bytes" where
  "derive_program_label cr merchant label =
     sha256 cr (ascii ''onlyKAS:program'' @ pk_bytes merchant @ ascii label)"

definition derive_routing_ids :: "crypto \<Rightarrow> pubkey \<Rightarrow> prefix \<times> pattern" where
  "derive_routing_ids cr merchant =
     (let digest = sha256 cr (ascii ''onlyKAS:routing'' @ pk_bytes merchant)
      in (le_u32 [digest ! 0, digest ! 1, digest ! 2, digest ! 3],
          map (\<lambda>i. (digest ! (4 + i), digest ! (14 + i) AND 1)) [0..<10]))"

section \<open>The scheduler\<close>

text \<open>One pass of the loop: the messages forwarded at the clock reading \<open>current\<close>, in key order.\<close>

definition due_subscriptions :: "merchant_codec \<Rightarrow> store \<Rightarrow> u64 \<Rightarrow> episode_id \<Rightarrow> merchant_command episode_message list" where
  "due_subscriptions mc st current i =
     map (\<lambda>(sid, _). UnsignedCommand i (ProcessSubscription sid))
       (filter (\<lambda>(_, sub). next_run sub \<le> current) (load_subscriptions mc st))"

section \<open>The event handler\<close>

definition CHECKPOINT_INTERVAL_SECS :: u64 where "CHECKPOINT_INTERVAL_SECS = 60"

record checkpoints =
  seqs :: "episode_id \<rightharpoonup> u64"
  last_ckpt :: "episode_id \<rightharpoonup> u64"

text \<open>
  \<open>state_bytes\<close> is the Borsh form of the episode; the message is handed to the sender with
  retries. The statics behind mutexes are the record \<open>checkpoints\<close>.
\<close>

definition emit_checkpoint ::
  "(bytes \<Rightarrow> bytes) \<Rightarrow> u64 \<Rightarrow> episode_id \<Rightarrow> bytes \<Rightarrow> bool \<Rightarrow> checkpoints \<Rightarrow> checkpoints \<times> tlv option" where
  "emit_checkpoint blake now i state_bytes force ck =
     (let should = force \<or> (case last_ckpt ck i of None \<Rightarrow> True | Some t \<Rightarrow> sat_sub now t \<ge> CHECKPOINT_INTERVAL_SECS)
      in if \<not> should then (ck, None)
         else let sq = (case seqs ck i of None \<Rightarrow> 0 | Some s \<Rightarrow> s) + 1;
                  msg = \<lparr>tlv_version = TLV_VERSION, tlv_type = kind_u8 MCheckpoint, tlv_episode = ucast i,
                    tlv_seq = sq, tlv_state_hash = hash_state blake state_bytes, tlv_payload = [],
                    tlv_auth = replicate 32 0\<rparr>
              in (ck\<lparr>last_ckpt := (last_ckpt ck)(i \<mapsto> now), seqs := (seqs ck)(i \<mapsto> sq)\<rparr>,
                  Some (tlv_sign blake DEMO_HMAC_KEY msg)))"

definition merchant_on_initialize ::
  "(bytes \<Rightarrow> bytes) \<Rightarrow> u64 \<Rightarrow> episode_id \<Rightarrow> bytes \<Rightarrow> checkpoints \<Rightarrow> checkpoints \<times> tlv option" where
  "merchant_on_initialize blake now i state_bytes ck =
     emit_checkpoint blake now i state_bytes True (ck\<lparr>seqs := (seqs ck)(i \<mapsto> 0)\<rparr>)"

definition merchant_on_command ::
  "(bytes \<Rightarrow> bytes) \<Rightarrow> u64 \<Rightarrow> episode_id \<Rightarrow> bytes \<Rightarrow> merchant_command \<Rightarrow> checkpoints \<Rightarrow> checkpoints \<times> tlv option" where
  "merchant_on_command blake now i state_bytes cmd ck =
     (let force = (case cmd of AckReceipt _ \<Rightarrow> True | _ \<Rightarrow> False)
      in emit_checkpoint blake now i state_bytes force ck)"

section \<open>The watcher\<close>

definition FEE :: u64 where "FEE = 5000"
definition CHECKPOINT_PREFIX :: prefix where "CHECKPOINT_PREFIX = le_u32 (ascii ''KMCP'')"

definition watcher_pattern :: pattern where
  "watcher_pattern = replicate 10 (0, 0)"

definition encode_okcp :: "u64 \<Rightarrow> u64 \<Rightarrow> bytes \<Rightarrow> bytes" where
  "encode_okcp episode_id sq root = ascii ''OKCP'' @ [1] @ u64_le episode_id @ u64_le sq @ root"

text \<open>
  \<^verbatim>\<open>max_by_key\<close> returns the last of several maxima. The error texts are those of the code where
  no value is formatted into them.
\<close>

fun max_utxo :: "outpoint \<times> utxo_entry \<Rightarrow> (outpoint \<times> utxo_entry) list \<Rightarrow> outpoint \<times> utxo_entry" where
  "max_utxo best [] = best"
| "max_utxo best (u # us) = max_utxo (if utxo_amount (snd best) \<le> utxo_amount (snd u) then u else best) us"

datatype anchor_error = NoUtxos | UtxoTooSmall u64

definition checkpoint_tx ::
  "tx_env \<Rightarrow> bytes \<Rightarrow> (outpoint \<times> utxo_entry) list \<Rightarrow> u64 \<Rightarrow> u64 \<Rightarrow> bytes \<Rightarrow> anchor_error + transaction option" where
  "checkpoint_tx te own_script utxos episode_id sq root =
     (case utxos of
        [] \<Rightarrow> Inl NoUtxos
      | u # us \<Rightarrow>
          let (op, entry) = max_utxo u us in
          if utxo_amount entry \<le> FEE then Inl (UtxoTooSmall (utxo_amount entry))
          else Inr (build_transaction te \<lparr>gen_pattern = watcher_pattern, gen_prefix = CHECKPOINT_PREFIX\<rparr>
                      [(op, entry)] (utxo_amount entry - FEE) 1 own_script (encode_okcp episode_id sq root)))"

datatype submit_error = AfterAttempts nat string | SubmitError string

function submit_tx_retry :: "(nat \<Rightarrow> submit_answer) \<Rightarrow> nat \<Rightarrow> nat \<Rightarrow> submit_error + unit" where
  "submit_tx_retry answer attempts tries =
     (case answer tries of
        Submitted \<Rightarrow> Inr ()
      | SubmitFailed msg \<Rightarrow>
          if Suc tries \<ge> attempts then Inl (AfterAttempts (Suc tries) msg)
          else if contains msg ''WebSocket'' \<or> contains msg ''not connected'' \<or> contains msg ''disconnected''
            then submit_tx_retry answer attempts (Suc tries)
          else if contains msg ''orphan'' then submit_tx_retry answer attempts (Suc tries)
          else if contains msg ''already accepted'' then Inr ()
          else Inl (SubmitError msg))"
  by pat_completeness auto
termination by (relation "measure (\<lambda>(_, attempts, tries). attempts - tries)") auto

declare submit_tx_retry.simps [simp del]

text \<open>One datagram: the checkpoint the watcher goes on to anchor, if any. It sends no reply.\<close>

definition watcher_receive :: "(bytes \<Rightarrow> bytes) \<Rightarrow> bytes \<Rightarrow> (u64 \<times> u64 \<times> bytes) option" where
  "watcher_receive blake dgram =
     (case tlv_decode (take 1024 dgram) of
        None \<Rightarrow> None
      | Some msg \<Rightarrow>
          if tlv_type msg \<noteq> kind_u8 MCheckpoint \<or> \<not> tlv_verify blake DEMO_HMAC_KEY msg then None
          else Some (tlv_episode msg, tlv_seq msg, tlv_state_hash msg))"

definition watcher_run :: "(bytes \<Rightarrow> bytes) \<Rightarrow> bytes list \<Rightarrow> (u64 \<times> u64 \<times> bytes) list" where
  "watcher_run blake dgrams = List.map_filter (watcher_receive blake) dgrams"

section \<open>The HTTP handlers\<close>

record app_state =
  app_episode_id :: episode_id
  merchant_sk :: bytes
  merchant_pk :: pubkey
  api_key :: string

datatype status_code = UNAUTHORIZED | BAD_REQUEST

definition authorize :: "(string \<rightharpoonup> string) \<Rightarrow> app_state \<Rightarrow> bool" where
  "authorize headers app =
     (case headers ''x-api-key'' of None \<Rightarrow> False | Some v \<Rightarrow> v = api_key app)"

definition parse_public_key :: "(string \<Rightarrow> bytes option) \<Rightarrow> crypto \<Rightarrow> string \<Rightarrow> pubkey option" where
  "parse_public_key hex_decode cr s =
     (case hex_decode s of
        None \<Rightarrow> None
      | Some tmp \<Rightarrow> if length tmp = 33 then (if pk_slice_ok cr tmp then Some (PubKey tmp) else None) else None)"

text \<open>A handler returns an error status or, with status 202, the message it forwarded.\<close>

definition signed_message :: "crypto \<Rightarrow> ('c \<Rightarrow> bytes) \<Rightarrow> app_state \<Rightarrow> 'c \<Rightarrow> 'c episode_message" where
  "signed_message cr enc_cmd app cmd =
     SignedCommand (app_episode_id app) cmd (merchant_pk app)
       (sign_message cr (merchant_sk app) (to_message cr (enc_cmd cmd)))"

definition server_create_invoice ::
  "crypto \<Rightarrow> (merchant_command \<Rightarrow> bytes) \<Rightarrow> app_state \<Rightarrow> (string \<rightharpoonup> string) \<Rightarrow> u64 \<Rightarrow> u64 \<Rightarrow> string option \<Rightarrow>
     status_code + merchant_command episode_message" where
  "server_create_invoice cr enc_cmd app headers invoice_id amount memo =
     (if \<not> authorize headers app then Inl UNAUTHORIZED
      else Inr (signed_message cr enc_cmd app (CreateInvoice invoice_id amount memo)))"

definition server_pay_invoice ::
  "(string \<Rightarrow> bytes option) \<Rightarrow> crypto \<Rightarrow> app_state \<Rightarrow> (string \<rightharpoonup> string) \<Rightarrow> u64 \<Rightarrow> string \<Rightarrow>
     status_code + merchant_command episode_message" where
  "server_pay_invoice hex_decode cr app headers invoice_id payer_public_key =
     (if \<not> authorize headers app then Inl UNAUTHORIZED
      else case parse_public_key hex_decode cr payer_public_key of
        None \<Rightarrow> Inl BAD_REQUEST
      | Some pk \<Rightarrow> Inr (UnsignedCommand (app_episode_id app) (MarkPaid invoice_id pk)))"

definition server_create_subscription ::
  "(string \<Rightarrow> bytes option) \<Rightarrow> crypto \<Rightarrow> (merchant_command \<Rightarrow> bytes) \<Rightarrow> app_state \<Rightarrow> (string \<rightharpoonup> string) \<Rightarrow>
     u64 \<Rightarrow> string \<Rightarrow> u64 \<Rightarrow> u64 \<Rightarrow> status_code + merchant_command episode_message" where
  "server_create_subscription hex_decode cr enc_cmd app headers subscription_id customer_public_key amount interval =
     (if \<not> authorize headers app then Inl UNAUTHORIZED
      else case parse_public_key hex_decode cr customer_public_key of
        None \<Rightarrow> Inl BAD_REQUEST
      | Some customer \<Rightarrow> Inr (signed_message cr enc_cmd app (CreateSubscription subscription_id customer amount interval)))"

definition show_status :: "invoice_status \<Rightarrow> string" where
  "show_status s = (case s of Open \<Rightarrow> ''Open'' | Paid \<Rightarrow> ''Paid'' | Acked \<Rightarrow> ''Acked'' | Canceled \<Rightarrow> ''Canceled'')"

record invoice_out =
  io_id :: u64
  io_amount :: u64
  io_memo :: "string option"
  io_status :: string
  io_payer :: "string option"
  io_created_at :: u64
  io_last_update :: u64

record subscription_out =
  so_id :: u64
  so_customer :: string
  so_amount :: u64
  so_interval :: u64
  so_next_run :: u64

definition list_invoices ::
  "merchant_codec \<Rightarrow> (bytes \<Rightarrow> string) \<Rightarrow> app_state \<Rightarrow> (string \<rightharpoonup> string) \<Rightarrow> store \<Rightarrow> status_code + invoice_out list" where
  "list_invoices mc hex_encode app headers st =
     (if \<not> authorize headers app then Inl UNAUTHORIZED
      else Inr (map (\<lambda>(_, iv). \<lparr>io_id = inv_id iv, io_amount = inv_amount iv, io_memo = inv_memo iv,
          io_status = show_status (inv_status iv), io_payer = map_option (\<lambda>pk. hex_encode (pk_bytes pk)) (payer iv),
          io_created_at = created_at iv, io_last_update = last_update iv\<rparr>) (load_invoices mc st)))"

definition list_subscriptions ::
  "merchant_codec \<Rightarrow> (bytes \<Rightarrow> string) \<Rightarrow> app_state \<Rightarrow> (string \<rightharpoonup> string) \<Rightarrow> store \<Rightarrow> status_code + subscription_out list" where
  "list_subscriptions mc hex_encode app headers st =
     (if \<not> authorize headers app then Inl UNAUTHORIZED
      else Inr (map (\<lambda>(_, s). \<lparr>so_id = sub_id s, so_customer = hex_encode (pk_bytes (sub_customer s)),
          so_amount = sub_amount s, so_interval = sub_interval s, so_next_run = next_run s\<rparr>) (load_subscriptions mc st)))"

section \<open>Properties\<close>

text \<open>
  The pay endpoint never pays. Whatever request is accepted by \<^verbatim>\<open>pay_invoice\<close>, the message it
  forwards is rejected by the episode as unauthorized and changes nothing: the endpoint sends an
  unsigned command, and \<^verbatim>\<open>MarkPaid\<close> requires the payer's signature.
\<close>

theorem pay_endpoint_never_pays:
  assumes "cfg_ep cfg = merchant_episode mc st" and "server_pay_invoice hex_decode cr app headers i key = Inr msg"
  shows "handle_message cfg msg md (e, w) = Some ((e, w), None)"
proof -
  obtain pk where msg: "msg = UnsignedCommand (app_episode_id app) (MarkPaid i pk)"
    using assms(2) by (auto simp: server_pay_invoice_def split: if_splits option.splits)
  show ?thesis
    using assms(1)
    by (cases "episodes e (app_episode_id app)")
      (auto simp: msg execute_unsigned_def merchant_episode_def mark_paid_def finish_command_def fun_upd_idem Let_def
        split: prod.splits)
qed

definition demo_app :: app_state where
  "demo_app = \<lparr>app_episode_id = 3, merchant_sk = [7], merchant_pk = PubKey [9], api_key = ''key''\<rparr>"

definition demo_merchant_cfg :: "(merchant, merchant_command, merchant_rollback, merchant_error, nat) config" where
  "demo_merchant_cfg = \<lparr>cfg_ep = merchant_episode demo_codec demo_store, cfg_crypto = key_crypto demo_codec,
     cmd_bytes = (\<lambda>_. []), decode_msg = (\<lambda>_. None), handlers = []\<rparr>"

theorem pay_endpoint_never_pays_witness:
  "\<exists>msg. server_pay_invoice (\<lambda>_. Some (pk_bytes demo_payer)) (key_crypto demo_codec) demo_app [''x-api-key'' \<mapsto> ''key''] 1 [] = Inr msg \<and>
    handle_message demo_merchant_cfg msg (demo_meta 4 9)
      (new_engine\<lparr>episodes := [3 \<mapsto> \<lparr>ew_episode = fst demo_merchant, rollback_stack = []\<rparr>]\<rparr>, 0) =
    Some ((new_engine\<lparr>episodes := [3 \<mapsto> \<lparr>ew_episode = fst demo_merchant, rollback_stack = []\<rparr>]\<rparr>, 0), None)"
proof -
  have s: "server_pay_invoice (\<lambda>_. Some (pk_bytes demo_payer)) (key_crypto demo_codec) demo_app [''x-api-key'' \<mapsto> ''key''] 1 [] =
      Inr (UnsignedCommand 3 (MarkPaid 1 demo_payer))"
    by (simp add: server_pay_invoice_def authorize_def demo_app_def parse_public_key_def demo_payer_def demo_codec_def)
  have "cfg_ep demo_merchant_cfg = merchant_episode demo_codec demo_store" by (simp add: demo_merchant_cfg_def)
  from s pay_endpoint_never_pays [OF this s] show ?thesis by blast
qed

text \<open>
  A checkpoint is anchored once per attempt. The watcher accepts every checkpoint the handler
  emits (with its episode, number and state hash) but never acknowledges it, so the sender always
  makes its three attempts and reports a failure, and the watcher goes on to anchor the same
  checkpoint for each of the datagrams that arrive.
\<close>

theorem checkpoint_never_acknowledged:
  assumes "\<forall>b. length (blake b) \<ge> 32"
    and "emit_checkpoint blake now i state_bytes force ck = (ck', Some msg)"
    and "send_with_retry blake msg False [None, None, None] = (d, timeouts, ok)"
  shows "timeouts = [300, 600, 1200] \<and> \<not> ok \<and>
    watcher_run blake (replicate n d) = replicate n (ucast i, tlv_seq msg, hash_state blake state_bytes)"
proof -
  let ?m = "\<lparr>tlv_version = TLV_VERSION, tlv_type = kind_u8 MCheckpoint, tlv_episode = ucast i,
    tlv_seq = (case seqs ck i of None \<Rightarrow> 0 | Some s \<Rightarrow> s) + 1, tlv_state_hash = hash_state blake state_bytes,
    tlv_payload = [], tlv_auth = replicate 32 0\<rparr>"
  have m: "msg = tlv_sign blake DEMO_HMAC_KEY ?m"
    using assms(2) by (auto simp: emit_checkpoint_def Let_def split: if_splits)
  have again: "tlv_sign blake DEMO_HMAC_KEY msg = msg"
    by (simp add: m tlv_sign_def tlv_digest_def bytes_for_sign_def)
  have ok: "tlv_ok msg"
    using assms(1) by (simp add: m tlv_sign_def tlv_ok_def tlv_digest_def hash_state_def)
  have d: "d = tlv_encode msg" "timeouts = [300, 600, 1200]" "\<not> ok"
    using assms(3) again by (simp_all add: send_with_retry_def Let_def numeral_3_eq_3 sat_double_def)
  have f: "tlv_type msg = kind_u8 MCheckpoint" "tlv_episode msg = ucast i" "tlv_state_hash msg = hash_state blake state_bytes"
      "tlv_payload msg = []" "tlv_verify blake DEMO_HMAC_KEY msg"
    by (simp_all add: m) (simp_all add: tlv_sign_def)
  have "take 1024 d = d" using length_tlv_encode [OF ok] by (simp add: d f)
  then have "watcher_receive blake d = Some (ucast i, tlv_seq msg, hash_state blake state_bytes)"
    using tlv_wire.dec_enc [OF ok] f by (simp add: watcher_receive_def d(1))
  then have "watcher_run blake (replicate n d) = replicate n (ucast i, tlv_seq msg, hash_state blake state_bytes)"
    by (induction n) (simp_all add: watcher_run_def map_filter_simps)
  with d(2,3) show ?thesis by simp
qed

theorem checkpoint_never_acknowledged_witness:
  "\<exists>ck' msg d timeouts ok. emit_checkpoint demo_blake 100 3 [1, 2] False \<lparr>seqs = Map.empty, last_ckpt = Map.empty\<rparr> = (ck', Some msg) \<and>
    send_with_retry demo_blake msg False [None, None, None] = (d, timeouts, ok) \<and> \<not> ok \<and>
    length (watcher_run demo_blake (replicate 3 d)) = 3"
proof -
  obtain ck' msg where e: "emit_checkpoint demo_blake 100 3 [1, 2] False \<lparr>seqs = Map.empty, last_ckpt = Map.empty\<rparr> = (ck', Some msg)"
    by (simp add: emit_checkpoint_def Let_def)
  obtain d timeouts ok where s: "send_with_retry demo_blake msg False [None, None, None] = (d, timeouts, ok)"
    by (metis surj_pair)
  have "timeouts = [300, 600, 1200] \<and> \<not> ok \<and>
      watcher_run demo_blake (replicate 3 d) = replicate 3 (ucast (3 :: episode_id), tlv_seq msg, hash_state demo_blake [1, 2])"
    by (rule checkpoint_never_acknowledged [OF _ e s]) (simp add: demo_blake_def)
  with e s show ?thesis by force
qed

lemma submit_retry_unfold:
  "submit_tx_retry answer attempts tries =
     (case answer tries of
        Submitted \<Rightarrow> Inr ()
      | SubmitFailed msg \<Rightarrow>
          if Suc tries \<ge> attempts then Inl (AfterAttempts (Suc tries) msg)
          else if contains msg ''WebSocket'' \<or> contains msg ''not connected'' \<or> contains msg ''disconnected'' \<or> contains msg ''orphan''
            then submit_tx_retry answer attempts (Suc tries)
          else if contains msg ''already accepted'' then Inr ()
          else Inl (SubmitError msg))"
  by (subst submit_tx_retry.simps) (simp split: submit_answer.split)

lemma submit_retry_local:
  "tries < attempts \<Longrightarrow> \<forall>k. tries \<le> k \<longrightarrow> k < attempts \<longrightarrow> answer' k = answer k \<Longrightarrow>
     submit_tx_retry answer' attempts tries = submit_tx_retry answer attempts tries"
proof (induction "attempts - tries" arbitrary: tries)
  case (Suc n)
  have "submit_tx_retry answer' attempts (Suc tries) = submit_tx_retry answer attempts (Suc tries)" if "Suc tries < attempts"
    using Suc that by simp
  moreover have "answer' tries = answer tries" using Suc.prems by simp
  ultimately show ?case
    by (subst (1 2) submit_retry_unfold) (simp split: submit_answer.split)
qed simp

lemma submit_retry_result:
  "tries < attempts \<Longrightarrow> submit_tx_retry answer attempts tries = r \<Longrightarrow>
     (case r of
        Inr _ \<Rightarrow> \<exists>k \<ge> tries. k < attempts \<and> (case answer k of Submitted \<Rightarrow> True | SubmitFailed msg \<Rightarrow> contains msg ''already accepted'')
      | Inl (AfterAttempts n msg) \<Rightarrow> n = attempts \<and> (\<forall>k. tries \<le> k \<longrightarrow> k < attempts \<longrightarrow> answer k \<noteq> Submitted)
      | Inl (SubmitError msg) \<Rightarrow> True)"
proof (induction "attempts - tries" arbitrary: tries)
  case (Suc n)
  show ?case
  proof (cases "answer tries")
    case Submitted
    then have "r = Inr ()" using Suc.prems by (simp add: submit_retry_unfold [of _ _ tries])
    with Submitted Suc.prems(1) show ?thesis by (auto intro!: exI [of _ tries])
  next
    case (SubmitFailed msg)
    let ?again = "contains msg ''WebSocket'' \<or> contains msg ''not connected'' \<or> contains msg ''disconnected'' \<or> contains msg ''orphan''"
    consider (stop) "Suc tries \<ge> attempts" | (again) "Suc tries < attempts" "?again"
      | (accepted) "Suc tries < attempts" "\<not> ?again" "contains msg ''already accepted''"
      | (other) "Suc tries < attempts" "\<not> ?again" "\<not> contains msg ''already accepted''" by linarith
    then show ?thesis
    proof cases
      case stop
      have only: "k = tries" if "tries \<le> k" "k < attempts" for k using that stop by simp
      have "r = Inl (AfterAttempts attempts msg)"
        using Suc.prems stop SubmitFailed le_antisym [OF Suc_leI [OF Suc.prems(1)] stop]
        by (subst (asm) submit_retry_unfold) auto
      with only SubmitFailed show ?thesis by force
    next
      case again
      have "submit_tx_retry answer attempts (Suc tries) = r"
        using Suc.prems(2) again SubmitFailed by (subst (asm) submit_retry_unfold) simp
      with again Suc.hyps have IH: "case r of
          Inr _ \<Rightarrow> \<exists>k \<ge> Suc tries. k < attempts \<and> (case answer k of Submitted \<Rightarrow> True | SubmitFailed msg \<Rightarrow> contains msg ''already accepted'')
        | Inl (AfterAttempts n msg) \<Rightarrow> n = attempts \<and> (\<forall>k. Suc tries \<le> k \<longrightarrow> k < attempts \<longrightarrow> answer k \<noteq> Submitted)
        | Inl (SubmitError msg) \<Rightarrow> True"
        by simp
      have "k = tries \<or> Suc tries \<le> k" if "tries \<le> k" for k using that by auto
      with IH SubmitFailed show ?thesis
        by (auto split: sum.splits submit_error.splits dest: Suc_leD) (metis submit_answer.distinct(1))
    next
      case accepted
      then have "r = Inr ()" using SubmitFailed Suc.prems by (auto simp: submit_retry_unfold [of _ _ tries])
      with accepted SubmitFailed Suc.prems(1) show ?thesis by (auto intro!: exI [of _ tries])
    next
      case other
      with SubmitFailed Suc.prems show ?thesis by (auto simp: submit_retry_unfold [of _ _ tries])
    qed
  qed
qed simp

text \<open>
  Submission is bounded. \<^verbatim>\<open>submit_tx_retry\<close> with at least one attempt asks the node at most that
  many times: its result depends only on the answers to those calls, it reports success only if
  one of them succeeded or said "already accepted", and it gives up after all of them only if
  none succeeded.
\<close>

theorem submit_retry_bounded:
  assumes "0 < attempts"
  shows "(\<forall>answer'. (\<forall>k < attempts. answer' k = answer k) \<longrightarrow>
      submit_tx_retry answer' attempts 0 = submit_tx_retry answer attempts 0) \<and>
    (submit_tx_retry answer attempts 0 = Inr () \<longrightarrow>
      (\<exists>k < attempts. case answer k of Submitted \<Rightarrow> True | SubmitFailed msg \<Rightarrow> contains msg ''already accepted'')) \<and>
    (\<forall>n msg. submit_tx_retry answer attempts 0 = Inl (AfterAttempts n msg) \<longrightarrow>
      n = attempts \<and> (\<forall>k < attempts. answer k \<noteq> Submitted))"
proof -
  have "submit_tx_retry answer' attempts 0 = submit_tx_retry answer attempts 0" if "\<forall>k < attempts. answer' k = answer k" for answer'
    using submit_retry_local [OF assms] that by simp
  moreover have "\<exists>k < attempts. case answer k of Submitted \<Rightarrow> True | SubmitFailed msg \<Rightarrow> contains msg ''already accepted''"
    if "submit_tx_retry answer attempts 0 = Inr ()"
    using submit_retry_result [OF assms that] by simp
  moreover have "n = attempts \<and> (\<forall>k < attempts. answer k \<noteq> Submitted)"
    if "submit_tx_retry answer attempts 0 = Inl (AfterAttempts n msg)" for n msg
    using submit_retry_result [OF assms that] by simp
  ultimately show ?thesis by blast
qed

theorem submit_retry_bounded_witness:
  "submit_tx_retry (\<lambda>k. if k = 0 then SubmitFailed ''orphan'' else Submitted) 3 0 =
   submit_tx_retry (\<lambda>k. if k = 0 then SubmitFailed ''orphan'' else if k < 3 then Submitted else SubmitFailed []) 3 0"
proof -
  let ?a = "\<lambda>k :: nat. if k = 0 then SubmitFailed ''orphan'' else if k < 3 then Submitted else SubmitFailed []"
  have "\<forall>k < 3. (if k = 0 then SubmitFailed ''orphan'' else Submitted) = ?a k" by simp
  with submit_retry_bounded [of 3 ?a, THEN conjunct1, rule_format, of "\<lambda>k. if k = 0 then SubmitFailed ''orphan'' else Submitted"]
  show ?thesis by simp
qed

section \<open>The scheduler settles\<close>

text \<open>What executing the forwarded messages does to the receipt episode, one after the other.\<close>

fun process_all :: "merchant_codec \<Rightarrow> metadata \<Rightarrow> merchant \<Rightarrow> merchant_command episode_message list \<Rightarrow> merchant" where
  "process_all mc md m [] = m"
| "process_all mc md m (UnsignedCommand _ cmd # msgs) =
     process_all mc md (fst (merchant_execute mc m cmd None md)) msgs"
| "process_all mc md m (_ # msgs) = process_all mc md m msgs"

lemma process_all_subscriptions:
  assumes "distinct (map fst xs)" and "\<forall>(sid, s) \<in> set xs. map_of (subscriptions (fst m)) sid = Some s"
  shows "map_of (subscriptions (fst (process_all mc md m (map (\<lambda>(sid, _). UnsignedCommand i (ProcessSubscription sid)) xs)))) sid =
    (if sid \<in> fst ` set xs
     then map_option (\<lambda>s. s\<lparr>next_run := accepting_time md + sub_interval s\<rparr>) (map_of (subscriptions (fst m)) sid)
     else map_of (subscriptions (fst m)) sid)"
  using assms
proof (induction xs arbitrary: m)
  case (Cons x xs)
  obtain k s where x: "x = (k, s)" by (cases x)
  obtain ep st where m: "m = (ep, st)" by (cases m)
  have k: "map_of (subscriptions ep) k = Some s" using Cons.prems(2) x m by simp
  let ?s = "s\<lparr>next_run := accepting_time md + sub_interval s\<rparr>"
  let ?m = "(ep\<lparr>subscriptions := bm_insert k ?s (subscriptions ep)\<rparr>, put_subscription mc ?s st)"
  have step: "fst (process_subscription mc m k md) = ?m" using k m by (simp add: process_subscription_def Let_def)
  have "\<forall>(sid, s) \<in> set xs. map_of (subscriptions (fst ?m)) sid = Some s"
    using Cons.prems x m by force
  from Cons.IH [OF _ this] Cons.prems(1) x step k m show ?case by auto
qed simp

text \<open>
  One pass of the scheduler over a receipt episode in step with its store, processed at a time at
  which no due date overflows, leaves nothing due at that time: every subscription that was due
  has its next run one interval later, the others keep theirs, and the next pass forwards nothing.
\<close>

theorem scheduler_settles:
  assumes "merchant_inv mc (ep, st)" and "borsh_ok mc" and "accepting_time md = now"
    and "\<forall>sid s. map_of (subscriptions ep) sid = Some s \<longrightarrow> 0 < sub_interval s \<and> now \<le> now + sub_interval s"
    and "process_all mc md (ep, st) (due_subscriptions mc st now i) = (ep', st')"
  shows "due_subscriptions mc st' now i = [] \<and>
    (\<forall>sid. map_of (subscriptions ep') sid = map_option (\<lambda>s. if next_run s \<le> now
       then s\<lparr>next_run := now + sub_interval s\<rparr> else s) (map_of (subscriptions ep) sid))"
proof -
  let ?due = "filter (\<lambda>(_, sub). next_run sub \<le> now) (subscriptions ep)"
  have wf: "distinct (map fst (subscriptions ep))" using bm_wf_distinct [OF inv_subscriptions_wf [OF assms(1)]] .
  have "distinct (map fst ?due)" using wf by (rule distinct_map_filter)
  moreover have "\<forall>(sid, s) \<in> set ?due. map_of (subscriptions ep) sid = Some s" using wf by auto
  moreover have "due_subscriptions mc st now i = map (\<lambda>(sid, _). UnsignedCommand i (ProcessSubscription sid)) ?due"
    using merchant_invD(3) [OF assms(1)] by (simp add: due_subscriptions_def)
  ultimately have res: "map_of (subscriptions ep') sid = (if sid \<in> fst ` set ?due
      then map_option (\<lambda>s. s\<lparr>next_run := accepting_time md + sub_interval s\<rparr>) (map_of (subscriptions ep) sid)
      else map_of (subscriptions ep) sid)" for sid
    using process_all_subscriptions [of ?due "(ep, st)" mc md i sid] assms(5) by simp
  have mem: "sid \<in> fst ` set ?due \<longleftrightarrow> (\<exists>s. map_of (subscriptions ep) sid = Some s \<and> next_run s \<le> now)" for sid
    using wf by (force simp: map_of_eq_Some_iff)
  have new: "map_of (subscriptions ep') sid = map_option (\<lambda>s. if next_run s \<le> now
       then s\<lparr>next_run := now + sub_interval s\<rparr> else s) (map_of (subscriptions ep) sid)" for sid
    using res [of sid] mem [of sid] assms(3) by (cases "map_of (subscriptions ep) sid") auto
  have keep: "merchant_inv mc (process_all mc md m msgs)" if "merchant_inv mc m" for m msgs
    using that
  proof (induction msgs arbitrary: m)
    case (Cons msg msgs)
    have "merchant_inv mc (fst (merchant_execute mc m cmd None md))" for cmd
      using merchant_execute_inv [OF Cons.prems assms(2)] by (metis prod.collapse)
    with Cons show ?case by (cases msg) (simp_all del: merchant_inv.simps)
  qed simp
  have inv': "merchant_inv mc (ep', st')" using keep [OF assms(1)] assms(5) by metis
  have "now < now + sub_interval s" if "map_of (subscriptions ep) sid = Some s" for sid s
  proof -
    have "0 < sub_interval s" "now \<le> now + sub_interval s" using assms(4) that by blast+
    then show ?thesis by (cases "now = now + sub_interval s") (auto simp: less_le)
  qed
  note later = this
  have "\<not> next_run s \<le> now" if "map_of (subscriptions ep') sid = Some s" for sid s
  proof (cases "map_of (subscriptions ep) sid")
    case (Some z)
    with that new [of sid] later [OF Some] show ?thesis by (cases "next_run z \<le> now") auto
  qed (use that new [of sid] in simp)
  then have "\<forall>(sid, s) \<in> set (subscriptions ep'). \<not> next_run s \<le> now"
    using bm_wf_distinct [OF inv_subscriptions_wf [OF inv']] by (fastforce intro: map_of_is_SomeI)
  then have "due_subscriptions mc st' now i = []"
    using merchant_invD(3) [OF inv'] by (auto simp: due_subscriptions_def filter_empty_conv)
  with new show ?thesis by blast
qed

text \<open>The demonstration merchant's customer takes out a subscription every 7 seconds from time 5.\<close>

definition demo_subscribed :: merchant where
  "demo_subscribed = fst (the (exec_calls (merchant_episode demo_codec demo_store)
     (merchant_initialize demo_codec demo_store [PubKey [9]] (demo_meta 0 0))
     [(CreateSubscription 4 demo_payer 10 7, Some (PubKey [9]), demo_meta 1 5)]))"

lemma demo_subscribed_run:
  "\<exists>rs. exec_calls (merchant_episode demo_codec demo_store)
     (merchant_initialize demo_codec demo_store [PubKey [9]] (demo_meta 0 0))
     [(CreateSubscription 4 demo_payer 10 7, Some (PubKey [9]), demo_meta 1 5)] = Some (demo_subscribed, rs)"
  "\<forall>sid s. map_of (subscriptions (fst demo_subscribed)) sid = Some s \<longrightarrow> sub_interval s = 7"
  by (simp_all add: demo_subscribed_def merchant_run create_subscription_def)

theorem scheduler_settles_witness:
  "\<exists>m'. process_all demo_codec (demo_meta 0 20) demo_subscribed
      (due_subscriptions demo_codec (snd demo_subscribed) 20 3) = m' \<and>
    due_subscriptions demo_codec (snd m') 20 3 = []"
proof -
  obtain rs where "exec_calls (merchant_episode demo_codec demo_store)
     (merchant_initialize demo_codec demo_store [PubKey [9]] (demo_meta 0 0))
     [(CreateSubscription 4 demo_payer 10 7, Some (PubKey [9]), demo_meta 1 5)] = Some (demo_subscribed, rs)"
    using demo_subscribed_run(1) by blast
  then have "merchant_inv demo_codec demo_subscribed" by (rule merchant_calls_inv [OF demo_borsh demo_ready])
  then have inv: "merchant_inv demo_codec (fst demo_subscribed, snd demo_subscribed)" by (simp del: merchant_inv.simps)
  obtain ep' st' where r: "process_all demo_codec (demo_meta 0 20) demo_subscribed
      (due_subscriptions demo_codec (snd demo_subscribed) 20 3) = (ep', st')" by fastforce
  have t: "accepting_time (demo_meta 0 20) = 20" by (simp add: demo_meta_def)
  have "\<forall>sid s. map_of (subscriptions (fst demo_subscribed)) sid = Some s \<longrightarrow>
      0 < sub_interval s \<and> (20 :: u64) \<le> 20 + sub_interval s"
    using demo_subscribed_run(2) by simp
  from scheduler_settles [OF inv demo_borsh t this] r show ?thesis by simp
qed

end
