(* ===== verification/Draw_Services.thy ===== *)
theory Draw_Services
  imports Draw_Offchain Merchant_Services
begin

text \<open>
  What surrounds the lottery (\<^verbatim>\<open>kas-draw/src\<close>): the event handler with its dashboard and state
  numbers (\<^verbatim>\<open>handler.rs\<close>), the watchtower simulator it reports to (\<^verbatim>\<open>watchtower.rs\<close>), the
  routing constants (\<^verbatim>\<open>routing.rs\<close>) and the submission of commands on chain (\<^verbatim>\<open>submit.rs\<close>).
  Drawing the dashboard and the texts of its events are left out: the texts are an argument.
\<close>

section \<open>The watchtower simulator\<close>

type_synonym tower = "u64 \<rightharpoonup> u64 \<times> bytes"

definition tower_on_state :: "u64 \<Rightarrow> u64 \<Rightarrow> bytes \<Rightarrow> tower \<Rightarrow> tower" where
  "tower_on_state episode_id state_num state_hash t =
     (case t episode_id of
        Some (prev_num, prev_hash) \<Rightarrow> if state_num \<le> prev_num then t else t(episode_id \<mapsto> (state_num, state_hash))
      | None \<Rightarrow> t(episode_id \<mapsto> (state_num, state_hash)))"

definition tower_finalize :: "u64 \<Rightarrow> tower \<Rightarrow> tower" where
  "tower_finalize episode_id t = t(episode_id := None)"

section \<open>The event handler\<close>

record episode_snapshot =
  sn_prize_pool :: u64
  sn_tickets :: nat
  sn_last_winner :: "u64 option"
  sn_paused :: bool
  sn_last_tx :: string
  sn_ticket_price :: u64
  sn_numbers_lo :: u8
  sn_numbers_hi :: u8
  sn_draw_interval_secs :: u64
  sn_next_draw_time :: u64
  sn_authorized_count :: nat

record dashboard =
  dash_episodes :: "episode_id \<rightharpoonup> episode_snapshot"
  dash_events :: "string list"

record draw_handler_state =
  dash :: dashboard
  state_nums :: "episode_id \<rightharpoonup> u64"
  handler_tower :: "tower option"

definition new_handler :: "tower option \<Rightarrow> draw_handler_state" where
  "new_handler tw = \<lparr>dash = \<lparr>dash_episodes = Map.empty, dash_events = []\<rparr>, state_nums = Map.empty, handler_tower = tw\<rparr>"

definition push_event :: "string \<Rightarrow> dashboard \<Rightarrow> dashboard" where
  "push_event msg d =
     (let evs = (if length (dash_events d) \<ge> 64 then drop 1 (dash_events d) else dash_events d)
      in d\<lparr>dash_events := evs @ [msg]\<rparr>)"

definition snapshot_of :: "lottery \<Rightarrow> string \<Rightarrow> episode_snapshot" where
  "snapshot_of g last_tx =
     \<lparr>sn_prize_pool = prize_pool g, sn_tickets = length (tickets g), sn_last_winner = last_winner g, sn_paused = paused g,
      sn_last_tx = last_tx, sn_ticket_price = ticket_price g, sn_numbers_lo = fst (numbers_range g),
      sn_numbers_hi = snd (numbers_range g), sn_draw_interval_secs = draw_interval_secs g,
      sn_next_draw_time = next_draw_time g, sn_authorized_count = length (authorized g)\<rparr>"

text \<open>
  \<open>blake\<close> is BLAKE2b, \<open>enc_state\<close> the Borsh encoder of the episode, \<open>show_hash\<close> the hex form of
  a transaction id, and \<open>init_text\<close>, \<open>cmd_text\<close>, \<open>state_text\<close> the formatted events.
\<close>

record draw_texts =
  show_hash :: "hash \<Rightarrow> string"
  init_text :: "episode_id \<Rightarrow> bytes \<Rightarrow> string"
  cmd_text :: "episode_id \<Rightarrow> lottery \<Rightarrow> lottery_command \<Rightarrow> string"
  state_text :: "episode_id \<Rightarrow> bytes \<Rightarrow> string"
  rollback_text :: "episode_id \<Rightarrow> string"

definition draw_on_initialize ::
  "(bytes \<Rightarrow> bytes) \<Rightarrow> (lottery \<Rightarrow> bytes) \<Rightarrow> draw_texts \<Rightarrow> episode_id \<Rightarrow> lottery \<Rightarrow> draw_handler_state \<Rightarrow> draw_handler_state" where
  "draw_on_initialize blake enc_state tx i g w =
     (let w1 = w\<lparr>state_nums := (state_nums w)(i \<mapsto> 0)\<rparr>;
          d = (dash w1)\<lparr>dash_episodes := (dash_episodes (dash w1))(i \<mapsto> snapshot_of g ''-'')\<rparr>;
          init_hash = hash_state blake (enc_state g)
      in w1\<lparr>dash := push_event (init_text tx i init_hash) d\<rparr>)"

definition draw_on_command ::
  "(bytes \<Rightarrow> bytes) \<Rightarrow> (lottery \<Rightarrow> bytes) \<Rightarrow> draw_texts \<Rightarrow> episode_id \<Rightarrow> lottery \<Rightarrow> lottery_command \<Rightarrow> metadata \<Rightarrow>
     draw_handler_state \<Rightarrow> draw_handler_state" where
  "draw_on_command blake enc_state tx i g cmd md w =
     (let d = (dash w)\<lparr>dash_episodes := (dash_episodes (dash w))(i \<mapsto> snapshot_of g (show_hash tx (tx_id md)))\<rparr>;
          state_hash = hash_state blake (enc_state g);
          next_num = sat_add (case state_nums w i of None \<Rightarrow> 0 | Some n \<Rightarrow> n) 1;
          tw = (case handler_tower w of
              None \<Rightarrow> None
            | Some t \<Rightarrow>
                let t1 = tower_on_state (ucast i) next_num state_hash t
                in Some (if cmd = CloseEpisode then tower_finalize (ucast i) t1 else t1))
      in w\<lparr>dash := push_event (state_text tx i state_hash) (push_event (cmd_text tx i g cmd) d),
           state_nums := (state_nums w)(i \<mapsto> next_num), handler_tower := tw\<rparr>)"

definition draw_on_rollback :: "draw_texts \<Rightarrow> episode_id \<Rightarrow> draw_handler_state \<Rightarrow> draw_handler_state" where
  "draw_on_rollback tx i w = w\<lparr>dash := push_event (rollback_text tx i) (dash w)\<rparr>"

fun draw_handler ::
  "(bytes \<Rightarrow> bytes) \<Rightarrow> (lottery \<Rightarrow> bytes) \<Rightarrow> draw_texts \<Rightarrow> (lottery, lottery_command) episode_event \<Rightarrow>
     draw_handler_state \<Rightarrow> draw_handler_state" where
  "draw_handler blake enc_state tx (OnInitialize i g) w = draw_on_initialize blake enc_state tx i g w"
| "draw_handler blake enc_state tx (OnCommand i g cmd a md) w = draw_on_command blake enc_state tx i g cmd md w"
| "draw_handler blake enc_state tx (OnRollback i g) w = draw_on_rollback tx i w"

section \<open>Routing\<close>

definition DRAW_PREFIX :: prefix where "DRAW_PREFIX = le_u32 (ascii ''KDRW'')"
definition DRAW_CHECKPOINT_PREFIX :: prefix where "DRAW_CHECKPOINT_PREFIX = le_u32 (ascii ''KDCK'')"

definition draw_pattern :: pattern where
  "draw_pattern =
     map (\<lambda>i. let v = ucast (drop_bit (i mod 16) DRAW_PREFIX AND 1) :: u8
              in (of_nat i, if i mod 2 = 0 then v XOR 1 else v)) [0..<10]"

section \<open>Submission\<close>

datatype submit_kind =
    SubmitNew u32
  | SubmitBuy u32 u64 "u8 list"
  | SubmitDraw u32 string
  | SubmitClaim u32 u64 u64

definition DRAW_FEE :: u64 where "DRAW_FEE = 5000"

definition submit_message ::
  "crypto \<Rightarrow> (lottery_command \<Rightarrow> bytes) \<Rightarrow> bytes \<Rightarrow> pubkey \<Rightarrow> submit_kind \<Rightarrow> lottery_command episode_message" where
  "submit_message cr enc_cmd sk pk kind =
     (case kind of
        SubmitNew i \<Rightarrow> NewEpisode i [pk]
      | SubmitBuy i amount numbers \<Rightarrow>
          let cmd = BuyTicket numbers amount
          in SignedCommand i cmd pk (sign_message cr sk (to_message cr (enc_cmd cmd)))
      | SubmitDraw i entropy \<Rightarrow> UnsignedCommand i (ExecuteDraw entropy)
      | SubmitClaim i tid r \<Rightarrow> UnsignedCommand i (ClaimPrize tid r))"

text \<open>\<open>own_script\<close> pays to the address of the signer. \<^const>\<open>None\<close> inside the result is the panic of the nonce search.\<close>

definition submit_tx_flow ::
  "tx_env \<Rightarrow> crypto \<Rightarrow> (lottery_command \<Rightarrow> bytes) \<Rightarrow> (lottery_command episode_message \<Rightarrow> bytes) \<Rightarrow> bytes \<Rightarrow> pubkey \<Rightarrow> bytes \<Rightarrow>
     (outpoint \<times> utxo_entry) list \<Rightarrow> submit_kind \<Rightarrow> anchor_error + transaction option" where
  "submit_tx_flow te cr enc_cmd enc sk pk own_script utxos kind =
     (case utxos of
        [] \<Rightarrow> Inl NoUtxos
      | u # us \<Rightarrow>
          let (op, entry) = max_utxo u us in
          if utxo_amount entry \<le> DRAW_FEE then Inl (UtxoTooSmall (utxo_amount entry))
          else Inr (build_command_transaction te \<lparr>gen_pattern = draw_pattern, gen_prefix = DRAW_PREFIX\<rparr>
                      (op, entry) own_script (enc (submit_message cr enc_cmd sk pk kind)) DRAW_FEE))"

definition draw_okcp :: "u64 \<Rightarrow> u64 \<Rightarrow> bytes \<Rightarrow> bytes" where
  "draw_okcp episode_id sq root = ascii ''OKCP'' @ [1] @ u64_le episode_id @ u64_le sq @ root"

definition draw_checkpoint_tx ::
  "tx_env \<Rightarrow> bytes \<Rightarrow> (outpoint \<times> utxo_entry) list \<Rightarrow> u64 \<Rightarrow> u64 \<Rightarrow> bytes \<Rightarrow> anchor_error + transaction option" where
  "draw_checkpoint_tx te own_script utxos episode_id sq root =
     (case utxos of
        [] \<Rightarrow> Inl NoUtxos
      | u # us \<Rightarrow>
          let (op, entry) = max_utxo u us in
          if utxo_amount entry \<le> DRAW_FEE then Inl (UtxoTooSmall (utxo_amount entry))
          else Inr (build_transaction te \<lparr>gen_pattern = draw_pattern, gen_prefix = DRAW_CHECKPOINT_PREFIX\<rparr>
                      [(op, entry)] (utxo_amount entry - DRAW_FEE) 1 own_script (draw_okcp episode_id sq root)))"

definition get_wrpc_url :: "string option \<Rightarrow> (string \<rightharpoonup> string) \<Rightarrow> string option" where
  "get_wrpc_url flag env = (if flag \<noteq> None then flag else env ''WRPC_URL'')"

text \<open>The first candidate file that holds more than white space.\<close>

fun first_key_file :: "(string \<rightharpoonup> string) \<Rightarrow> string list \<Rightarrow> string option" where
  "first_key_file files [] = None"
| "first_key_file files (p # ps) =
     (case files p of
        None \<Rightarrow> first_key_file files ps
      | Some s \<Rightarrow> if trim s \<noteq> [] then Some (trim s) else first_key_file files ps)"

definition resolve_dev_key_hex :: "string option \<Rightarrow> (string \<rightharpoonup> string) \<Rightarrow> (string \<rightharpoonup> string) \<Rightarrow> string option" where
  "resolve_dev_key_hex cli_opt env files =
     (case cli_opt of
        Some s \<Rightarrow> Some s
      | None \<Rightarrow>
          if (case env ''KASPA_PRIVATE_KEY'' of None \<Rightarrow> False | Some s \<Rightarrow> trim s \<noteq> []) then env ''KASPA_PRIVATE_KEY''
          else if (case env ''KAS_DRAW_DEV_SK'' of None \<Rightarrow> False | Some s \<Rightarrow> trim s \<noteq> []) then env ''KAS_DRAW_DEV_SK''
          else case first_key_file files [''examples/kas-draw/dev.key'', ''examples/comment-board/dev.key'', ''dev.key'', ''.dev.key''] of
            Some t \<Rightarrow> Some t
          | None \<Rightarrow>
              if env ''KAS_DRAW_USE_TEST_KEY'' = Some ''1''
              then Some ''7f7c92f0382d3d02f3e0d5d1446f2e4e5a0f6aa8a8c9f2d7b2a1c0f9e8d7c6b5''
              else None)"

section \<open>The tower follows the states\<close>

abbreviation run_handler :: "(bytes \<Rightarrow> bytes) \<Rightarrow> (lottery \<Rightarrow> bytes) \<Rightarrow> draw_texts \<Rightarrow> (lottery, lottery_command) episode_event list \<Rightarrow>
    draw_handler_state \<Rightarrow> draw_handler_state" where
  "run_handler blake enc_state tx evs w \<equiv> fold (draw_handler blake enc_state tx) evs w"

definition commands_of :: "episode_id \<Rightarrow> (lottery \<times> lottery_command \<times> metadata) list \<Rightarrow> (lottery, lottery_command) episode_event list" where
  "commands_of i cs = map (\<lambda>(g, c, md). OnCommand i g c None md) cs"

lemma handler_commands:
  assumes "\<forall>(g, c, md) \<in> set cs. c \<noteq> CloseEpisode" and "handler_tower w = Some t"
    and "state_nums w i = Some n" and "unat n + length cs < 2 ^ 64"
  shows "state_nums (run_handler blake enc_state tx (commands_of i cs) w) i = Some (n + of_nat (length cs)) \<and>
    handler_tower (run_handler blake enc_state tx (commands_of i cs) w) =
      Some (if cs = [] then t
            else case t (ucast i) of
              None \<Rightarrow> t(ucast i \<mapsto> (n + of_nat (length cs), hash_state blake (enc_state (fst (last cs)))))
            | Some (p, _) \<Rightarrow>
                if n + of_nat (length cs) \<le> p then t
                else t(ucast i \<mapsto> (n + of_nat (length cs), hash_state blake (enc_state (fst (last cs))))))"
  using assms
proof (induction cs arbitrary: w t n)
  case (Cons x cs)
  obtain g c md where x: "x = (g, c, md)" by (cases x)
  let ?h = "hash_state blake (enc_state g)"
  let ?w = "draw_handler blake enc_state tx (OnCommand i g c None md) w"
  have top: "n \<noteq> - 1"
  proof
    assume "n = - 1"
    with Cons.prems(4) show False by (simp add: unsigned_minus_1_eq_mask mask_eq_exp_minus_1)
  qed
  have n1: "sat_add n 1 = n + 1" "unat (n + 1) = Suc (unat n)"
    using unat_succ [OF top] by (simp_all add: sat_add_def word_le_nat_alt)
  have w: "state_nums ?w i = Some (n + 1)" "handler_tower ?w = Some (tower_on_state (ucast i) (n + 1) ?h t)"
    using Cons.prems(1,2,3) n1(1) by (simp_all add: x draw_on_command_def Let_def)
  have "unat (n + 1) + length cs < 2 ^ 64" using Cons.prems(4) n1(2) by simp
  from Cons.IH [OF _ w(2,1) this] Cons.prems(1)
  have IH: "state_nums (run_handler blake enc_state tx (commands_of i cs) ?w) i = Some (n + 1 + of_nat (length cs))"
    "handler_tower (run_handler blake enc_state tx (commands_of i cs) ?w) =
      (let t1 = tower_on_state (ucast i) (n + 1) ?h t in
       Some (if cs = [] then t1
            else case t1 (ucast i) of
              None \<Rightarrow> t1(ucast i \<mapsto> (n + 1 + of_nat (length cs), hash_state blake (enc_state (fst (last cs)))))
            | Some (p, _) \<Rightarrow>
                if n + 1 + of_nat (length cs) \<le> p then t1
                else t1(ucast i \<mapsto> (n + 1 + of_nat (length cs), hash_state blake (enc_state (fst (last cs)))))))"
    by (auto simp: Let_def)
  have grow: "n + 1 < n + 1 + of_nat (length cs)" if "cs \<noteq> []"
  proof -
    have "unat (of_nat (length cs) :: u64) = length cs" using Cons.prems(4) by (simp add: unat_of_nat)
    then have "unat (n + 1 + of_nat (length cs)) = unat (n + 1) + length cs"
      using Cons.prems(4) n1(2) unat_word_ariths(1) [of "n + 1" "of_nat (length cs)"] by simp
    then show ?thesis using that by (simp add: word_less_nat_alt)
  qed
  have eq: "n + of_nat (length (x # cs)) = n + 1 + of_nat (length cs)" by (simp add: add.assoc)
  have run: "run_handler blake enc_state tx (commands_of i (x # cs)) w = run_handler blake enc_state tx (commands_of i cs) ?w"
    by (simp add: x commands_of_def)
  have "handler_tower (run_handler blake enc_state tx (commands_of i cs) ?w) =
      Some (case t (ucast i) of
              None \<Rightarrow> t(ucast i \<mapsto> (n + 1 + of_nat (length cs), hash_state blake (enc_state (fst (last (x # cs))))))
            | Some (p, _) \<Rightarrow>
                if n + 1 + of_nat (length cs) \<le> p then t
                else t(ucast i \<mapsto> (n + 1 + of_nat (length cs), hash_state blake (enc_state (fst (last (x # cs)))))))"
    using grow unfolding IH(2)
    by (cases "cs = []"; cases "t (ucast i)") (auto simp: x tower_on_state_def Let_def not_le dest: less_le_trans)
  then show ?case unfolding run eq using IH(1) by simp
qed (simp add: commands_of_def)

text \<open>
  What the tower knows. For an episode the tower does not know, it holds after each series of
  commands the number of the last one and the hash of the state it led to. But when the episode is
  then initialised again (a reorg removed it and brought it back), the numbers restart while the
  tower keeps the old record: every state is taken for stale until there are more commands than the
  removed episode had.
\<close>

theorem tower_follows_then_stalls:
  assumes "handler_tower w = Some t" and "t (ucast i) = None"
    and "\<forall>(g, c, md) \<in> set (cs @ cs2). c \<noteq> CloseEpisode" and "cs \<noteq> []" and "length cs < 2 ^ 64"
    and "run_handler blake enc_state tx (OnInitialize i g0 # commands_of i cs) w = w1"
    and "run_handler blake enc_state tx (OnInitialize i g1 # commands_of i cs2) w1 = w2"
  shows "handler_tower w1 = Some (t(ucast i \<mapsto> (of_nat (length cs), hash_state blake (enc_state (fst (last cs)))))) \<and>
    (length cs2 \<le> length cs \<longrightarrow> handler_tower w2 = handler_tower w1)"
proof -
  let ?w = "draw_on_initialize blake enc_state tx i g0 w"
  have i: "handler_tower ?w = Some t" "state_nums ?w i = Some 0"
    using assms(1) by (simp_all add: draw_on_initialize_def Let_def)
  have c: "\<forall>(g, c, md) \<in> set cs. c \<noteq> CloseEpisode" "\<forall>(g, c, md) \<in> set cs2. c \<noteq> CloseEpisode" using assms(3) by auto
  let ?t = "t(ucast i \<mapsto> (of_nat (length cs), hash_state blake (enc_state (fst (last cs)))))"
  have w1: "handler_tower w1 = Some ?t"
    using handler_commands [OF c(1) i, where blake = blake and enc_state = enc_state and tx = tx] assms(2,4,5,6) by simp
  let ?w1 = "draw_on_initialize blake enc_state tx i g1 w1"
  have i1: "handler_tower ?w1 = Some ?t" "state_nums ?w1 i = Some 0"
    using w1 by (simp_all add: draw_on_initialize_def Let_def)
  have "handler_tower w2 = Some ?t" if "length cs2 \<le> length cs"
  proof -
    have "(of_nat (length cs2) :: u64) \<le> of_nat (length cs)"
      using that assms(5) by (simp add: word_le_nat_alt unat_of_nat)
    then show ?thesis using handler_commands [OF c(2) i1, where blake = blake and enc_state = enc_state and tx = tx] assms(5,7) that by auto
  qed
  with w1 show ?thesis by simp
qed

definition demo_texts :: draw_texts where
  "demo_texts = \<lparr>show_hash = (\<lambda>_. []), init_text = (\<lambda>_ _. ''init''), cmd_text = (\<lambda>_ _ _. ''cmd''), state_text = (\<lambda>_ _. ''state''),
     rollback_text = (\<lambda>_. ''undo'')\<rparr>"

theorem tower_follows_then_stalls_witness:
  "let w1 = run_handler demo_blake (\<lambda>g. [ucast (prize_pool g)]) demo_texts
         (OnInitialize 4 lottery_demo # commands_of 4 [(lottery_demo, ExecuteDraw [], demo_meta 1 1)]) (new_handler (Some Map.empty));
       w2 = run_handler demo_blake (\<lambda>g. [ucast (prize_pool g)]) demo_texts
         (OnInitialize 4 lottery_demo # commands_of 4 [(lottery_demo, ClaimPrize 2 0, demo_meta 2 1)]) w1
   in handler_tower w1 \<noteq> Some Map.empty \<and> handler_tower w2 = handler_tower w1"
proof -
  let ?cs = "[(lottery_demo, ExecuteDraw [], demo_meta 1 1)]" and ?cs2 = "[(lottery_demo, ClaimPrize 2 0, demo_meta 2 1)]"
  have t: "handler_tower (new_handler (Some Map.empty)) = Some Map.empty" "(Map.empty :: tower) (ucast (4 :: episode_id)) = None"
    by (simp_all add: new_handler_def)
  have c: "\<forall>(g, c, md) \<in> set (?cs @ ?cs2). c \<noteq> CloseEpisode" "?cs \<noteq> []" "length ?cs < 2 ^ 64" by simp_all
  from tower_follows_then_stalls [OF t c refl refl] show ?thesis by (simp add: Let_def)
qed

section \<open>The dashboard is bounded\<close>

lemma push_event_bound: "length (dash_events d) \<le> 64 \<Longrightarrow> length (dash_events (push_event msg d)) \<le> 64"
  by (auto simp: push_event_def Let_def)

text \<open>The handler never keeps more than 64 events, however many episodes and commands it hears of.\<close>

theorem dashboard_bounded:
  "length (dash_events (dash (run_handler blake enc_state tx evs (new_handler tw)))) \<le> 64"
proof -
  have step: "length (dash_events (dash (draw_handler blake enc_state tx ev w))) \<le> 64"
    if "length (dash_events (dash w)) \<le> 64" for ev and w :: draw_handler_state
    using that by (cases ev) (simp_all add: draw_on_initialize_def draw_on_command_def draw_on_rollback_def Let_def push_event_bound)
  have "length (dash_events (dash (run_handler blake enc_state tx evs w))) \<le> 64"
    if "length (dash_events (dash w)) \<le> 64" for w :: draw_handler_state
    using that by (induction evs arbitrary: w) (simp_all add: step)
  then show ?thesis by (simp add: new_handler_def)
qed

section \<open>A ticket is paid to its buyer\<close>

lemma max_utxo_max:
  "max_utxo best us \<in> insert best (set us) \<and> (\<forall>u \<in> insert best (set us). utxo_amount (snd u) \<le> utxo_amount (snd (max_utxo best us)))"
proof (induction best us rule: max_utxo.induct)
  case (2 best u us)
  let ?b = "if utxo_amount (snd best) \<le> utxo_amount (snd u) then u else best"
  have b: "utxo_amount (snd best) \<le> utxo_amount (snd ?b)" "utxo_amount (snd u) \<le> utxo_amount (snd ?b)" by auto
  have m: "max_utxo best (u # us) = max_utxo ?b us" by simp
  from 2 have "utxo_amount (snd ?b) \<le> utxo_amount (snd (max_utxo ?b us))" by blast
  with b have "utxo_amount (snd best) \<le> utxo_amount (snd (max_utxo ?b us))"
    "utxo_amount (snd u) \<le> utxo_amount (snd (max_utxo ?b us))" by (blast intro: order_trans)+
  with 2 show ?case unfolding m by (cases "utxo_amount (snd best) \<le> utxo_amount (snd u)") auto
qed simp

text \<open>
  The price of a ticket never leaves the buyer. Every transaction that the submission of a
  purchase builds spends the largest unspent output of the buyer and has one output, which pays all
  of it but the fee back to the buyer; the price is only a number in the command.
\<close>

theorem ticket_price_stays_with_buyer:
  assumes "\<forall>t es. tx_outs (sign_tx te t es) = tx_outs t"
    and "submit_tx_flow te cr enc_cmd enc sk pk own_script utxos (SubmitBuy i amount numbers) = Inr (Some t)"
  shows "\<exists>u \<in> set utxos. (\<forall>v \<in> set utxos. utxo_amount (snd v) \<le> utxo_amount (snd u)) \<and> utxo_amount (snd u) > 5000 \<and>
    tx_outs t = [\<lparr>output_value = utxo_amount (snd u) - 5000, script_public_key = own_script\<rparr>]"
proof -
  obtain u us where us: "utxos = u # us" using assms(2) by (cases utxos) (auto simp: submit_tx_flow_def)
  let ?m = "max_utxo u us" and ?g = "\<lparr>gen_pattern = draw_pattern, gen_prefix = DRAW_PREFIX\<rparr>"
  let ?msg = "enc (submit_message cr enc_cmd sk pk (SubmitBuy i amount numbers))"
  have big: "utxo_amount (snd ?m) > 5000" and b: "build_command_transaction te ?g ?m own_script ?msg 5000 = Some t"
    using assms(2) by (auto simp: us submit_tx_flow_def DRAW_FEE_def Let_def split: if_splits prod.splits)
  have "tx_outs t = [\<lparr>output_value = utxo_amount (snd ?m) - 5000, script_public_key = own_script\<rparr>]"
    using b built_transaction assms(1) by (fastforce simp: build_command_transaction_def build_outputs_def)
  then show ?thesis using max_utxo_max [of u us] big us by auto
qed

lemma ascii_KDRW: "ascii ''KDRW'' = [0x4B, 0x44, 0x52, 0x57]"
  by (simp add: ascii_def)
lemma DRAW_PREFIX_eval: "DRAW_PREFIX = 0x5752444B"
  by (simp add: DRAW_PREFIX_def ascii_KDRW le_u32_def)
lemma prefix_bit: "ucast (drop_bit n DRAW_PREFIX AND 1) = (of_bool (bit DRAW_PREFIX n) :: u8)"
  by (simp add: low_bit_eq bit_drop_bit_eq)
lemma draw_pattern_eval:
  "draw_pattern = [(0, 0), (1, 1), (2, 1), (3, 1), (4, 1), (5, 0), (6, 0), (7, 0), (8, 1), (9, 0)]"
  unfolding draw_pattern_def Let_def prefix_bit DRAW_PREFIX_eval
  by (simp add: upt_conv_Cons)

text \<open>A node environment whose transaction ids match the pattern of the lottery at once.\<close>

definition demo_env :: tx_env where
  "demo_env = \<lparr>id_of = (\<lambda>_. [30, 1]), sign_tx = (\<lambda>t _. t)\<rparr>"

lemma demo_env_nonce: "find_nonce demo_env draw_pattern t 0 = Some t"
  by (subst find_nonce.simps) (simp add: demo_env_def draw_pattern_eval Let_def)

theorem ticket_price_stays_with_buyer_witness:
  "\<exists>t. submit_tx_flow demo_env demo_crypto (\<lambda>_. []) (\<lambda>_. []) [7] (PubKey [9]) [5]
      [(\<lparr>op_txid = [], op_index = 0\<rparr>, \<lparr>utxo_amount = 300000000, utxo_script = [5]\<rparr>)] (SubmitBuy 4 100000000 [1, 2, 3, 4, 5]) = Inr (Some t) \<and>
    tx_outs t = [\<lparr>output_value = 299995000, script_public_key = [5]\<rparr>]"
proof -
  let ?utxos = "[(\<lparr>op_txid = [], op_index = 0\<rparr>, \<lparr>utxo_amount = 300000000, utxo_script = [5]\<rparr>)]"
  have "\<exists>t. submit_tx_flow demo_env demo_crypto (\<lambda>_. []) (\<lambda>_. []) [7] (PubKey [9]) [5] ?utxos (SubmitBuy 4 100000000 [1, 2, 3, 4, 5]) = Inr (Some t)"
    by (simp add: submit_tx_flow_def DRAW_FEE_def build_command_transaction_def build_transaction_def Let_def demo_env_nonce word_le_nat_alt)
  then obtain t where t: "submit_tx_flow demo_env demo_crypto (\<lambda>_. []) (\<lambda>_. []) [7] (PubKey [9]) [5] ?utxos
      (SubmitBuy 4 100000000 [1, 2, 3, 4, 5]) = Inr (Some t)" by blast
  have "\<forall>t es. tx_outs (sign_tx demo_env t es) = tx_outs t" by (simp add: demo_env_def)
  from ticket_price_stays_with_buyer [OF this t] t show ?thesis by simp
qed

end
