(* ===== verification/Auth.thy ===== *)
theory Auth
  imports Reorg
begin

text \<open>
  The authentication episode (\<^verbatim>\<open>kaspa-auth/src/core\<close>, \<^verbatim>\<open>kaspa-auth/src/crypto\<close>): challenges,
  signature checks, the commit and reveal pattern, and the \<^verbatim>\<open>SimpleAuth\<close> episode with its
  rate limiting. The pseudo random generator and the text form of a transaction id are
  parameters; the wall clock, which \<^verbatim>\<open>is_valid\<close> reads, is an argument.
\<close>

record auth_env =
  ae_crypto :: crypto
  chacha_u64 :: "u64 \<Rightarrow> u64"            \<comment> \<open>first number of \<^verbatim>\<open>ChaCha8Rng::seed_from_u64\<close>\<close>
  hash_text :: "hash \<Rightarrow> string"
  hex_decode :: "string \<Rightarrow> bytes option"
  hex_encode :: "bytes \<Rightarrow> string"

section \<open>Challenges\<close>

text \<open>\<open>r\<close> is the number drawn from the thread's generator.\<close>

definition generate_basic :: "u64 \<Rightarrow> string" where
  "generate_basic r = ''auth_'' @ show_u64 r"

definition generate_with_prefix :: "u64 \<Rightarrow> string \<Rightarrow> string" where
  "generate_with_prefix r prefix = prefix @ ''_'' @ show_u64 r"

definition generate_with_timestamp :: "u64 \<Rightarrow> u64 \<Rightarrow> string \<times> u64" where
  "generate_with_timestamp r now = (''auth_'' @ show_u64 now @ ''_'' @ show_u64 r, now)"

definition generate_with_provided_timestamp :: "auth_env \<Rightarrow> u64 \<Rightarrow> string" where
  "generate_with_provided_timestamp env t = ''auth_'' @ show_u64 t @ ''_'' @ show_u64 (chacha_u64 env t)"

definition generate_with_entropy :: "auth_env \<Rightarrow> u64 \<Rightarrow> bytes \<Rightarrow> string" where
  "generate_with_entropy env t extra =
     (let digest = sha256 (ae_crypto env) (u64_le t @ extra); seed = le_u64 (take 8 digest)
      in ''auth_'' @ show_u64 t @ ''_'' @ show_u64 (chacha_u64 env seed))"

definition challenge_valid :: "u64 \<Rightarrow> string \<Rightarrow> u64 \<Rightarrow> bool" where
  "challenge_valid now ch max_age_seconds =
     (if take 5 ch = ''auth_''
      then (case parse_u64 (hd (split_char (CHR ''_'') (drop 5 ch))) of
              Some timestamp \<Rightarrow> sat_sub now timestamp \<le> max_age_seconds
            | None \<Rightarrow> True)
      else True)"

section \<open>Signatures over text\<close>

definition verify_text :: "auth_env \<Rightarrow> pubkey \<Rightarrow> string \<Rightarrow> string \<Rightarrow> bool" where
  "verify_text env pk message signature =
     (case hex_decode env signature of
        None \<Rightarrow> False
      | Some sb \<Rightarrow>
          if \<not> der_ok (ae_crypto env) sb then False
          else verify_signature (ae_crypto env) pk (to_message (ae_crypto env) (borsh_string message)) (Sig sb))"

definition verify_with_context :: "auth_env \<Rightarrow> pubkey \<Rightarrow> string \<Rightarrow> string \<Rightarrow> string \<Rightarrow> bool" where
  "verify_with_context env pk message signature ctxt = verify_text env pk (ctxt @ '':'' @ message) signature"

definition verify_batch :: "auth_env \<Rightarrow> (pubkey \<times> string \<times> string) list \<Rightarrow> bool list" where
  "verify_batch env verifications = map (\<lambda>(pk, message, signature). verify_text env pk message signature) verifications"

definition is_valid_signature_format :: "auth_env \<Rightarrow> string \<Rightarrow> bool" where
  "is_valid_signature_format env signature =
     (case hex_decode env signature of None \<Rightarrow> False | Some sb \<Rightarrow> der_ok (ae_crypto env) sb)"

section \<open>Commit and reveal\<close>

record commit_reveal =
  commitment :: string
  reveal_value :: "string option"
  reveal_nonce :: "string option"
  is_revealed :: bool

definition create_commitment :: "auth_env \<Rightarrow> string \<Rightarrow> string \<Rightarrow> string" where
  "create_commitment env value nonce = ''commit_'' @ hex_encode env (sha256 (ae_crypto env) (ascii value @ ascii nonce))"

definition generate_nonce :: "u64 \<Rightarrow> string" where
  "generate_nonce r = ''nonce_'' @ show_u64 r"

definition commit_new :: "auth_env \<Rightarrow> u64 \<Rightarrow> string \<Rightarrow> commit_reveal" where
  "commit_new env r value =
     (let nonce = generate_nonce r
      in \<lparr>commitment = create_commitment env value nonce, reveal_value = Some value, reveal_nonce = Some nonce, is_revealed = False\<rparr>)"

definition commit_only :: "auth_env \<Rightarrow> u64 \<Rightarrow> string \<Rightarrow> string \<times> string" where
  "commit_only env r value = (let nonce = generate_nonce r in (create_commitment env value nonce, nonce))"

definition verify_reveal :: "auth_env \<Rightarrow> commit_reveal \<Rightarrow> string \<Rightarrow> string \<Rightarrow> bool" where
  "verify_reveal env c revealed_value revealed_nonce \<longleftrightarrow> create_commitment env revealed_value revealed_nonce = commitment c"

definition reveal :: "commit_reveal \<Rightarrow> commit_reveal \<times> (string + string \<times> string)" where
  "reveal c =
     (if is_revealed c then (c, Inl ''Already revealed'')
      else case (reveal_value c, reveal_nonce c) of
        (Some value, Some nonce) \<Rightarrow> (c\<lparr>is_revealed := True\<rparr>, Inr (value, nonce))
      | _ \<Rightarrow> (c, Inl ''No reveal data available''))"

section \<open>The episode\<close>

datatype auth_command =
    RequestChallenge
  | SubmitResponse string string
  | RevokeSession string string

definition command_type :: "auth_command \<Rightarrow> string" where
  "command_type c =
     (case c of RequestChallenge \<Rightarrow> ''RequestChallenge'' | SubmitResponse _ _ \<Rightarrow> ''SubmitResponse'' | RevokeSession _ _ \<Rightarrow> ''RevokeSession'')"

definition requires_auth :: "auth_command \<Rightarrow> bool" where
  "requires_auth c = (case c of RequestChallenge \<Rightarrow> False | _ \<Rightarrow> True)"

datatype auth_error =
    ChallengeNotFound | InvalidChallenge | SignatureVerificationFailed | AlreadyAuthenticated | NotAuthorized | RateLimited
  | AuthInvalidSignature | ChallengeExpired | SessionNotFound | InvalidSessionToken | SessionAlreadyRevoked

datatype auth_rollback =
    UndoChallenge "string option" u64
  | UndoAuthentication bool "string option"
  | UndoSessionRevoked string bool

record simple_auth =
  owner :: "pubkey option"
  challenge :: "string option"
  is_authenticated :: bool
  session_token :: "string option"
  challenge_timestamp :: u64
  rate_limits :: "bytes \<rightharpoonup> u64 list"
  authorized_participants :: "pubkey list"

definition auth_initialize :: "pubkey list \<Rightarrow> metadata \<Rightarrow> simple_auth" where
  "auth_initialize participants md =
     \<lparr>owner = (case participants of [] \<Rightarrow> None | p # _ \<Rightarrow> Some p), challenge = None, is_authenticated = False,
      session_token = None, challenge_timestamp = accepting_time md, rate_limits = Map.empty,
      authorized_participants = participants\<rparr>"

definition recent_attempts :: "u64 \<Rightarrow> u64 list \<Rightarrow> u64 list" where
  "recent_attempts now ts = filter (\<lambda>t. sat_sub now t \<le> 300) ts"

definition is_rate_limited :: "simple_auth \<Rightarrow> pubkey \<Rightarrow> u64 \<Rightarrow> bool" where
  "is_rate_limited g pk now =
     (case rate_limits g (pk_bytes pk) of
        Some ts \<Rightarrow> length (recent_attempts now ts) \<ge> 5
      | None \<Rightarrow> False)"

definition increment_rate_limit :: "simple_auth \<Rightarrow> pubkey \<Rightarrow> u64 \<Rightarrow> simple_auth" where
  "increment_rate_limit g pk now =
     (let entry = (case rate_limits g (pk_bytes pk) of None \<Rightarrow> [] | Some ts \<Rightarrow> ts)
      in g\<lparr>rate_limits := (rate_limits g)(pk_bytes pk \<mapsto> recent_attempts now (entry @ [now]))\<rparr>)"

definition generate_session_token :: "auth_env \<Rightarrow> simple_auth \<Rightarrow> string" where
  "generate_session_token env g =
     (let digest = sha256 (ae_crypto env) (u64_le (challenge_timestamp g) @
            (case owner g of None \<Rightarrow> [] | Some pk \<Rightarrow> pk_bytes pk) @ (case challenge g of None \<Rightarrow> [] | Some ch \<Rightarrow> ascii ch));
          seed = le_u64 (take 8 digest)
      in ''sess_'' @ show_u64 (chacha_u64 env seed))"

type_synonym auth_result = "simple_auth \<times> (auth_error episode_error + auth_rollback)"

definition request_challenge :: "auth_env \<Rightarrow> simple_auth \<Rightarrow> pubkey \<Rightarrow> metadata \<Rightarrow> auth_result" where
  "request_challenge env g participant md =
     (let extra = pk_bytes participant @ ascii (hash_text env (tx_id md));
          new_challenge = generate_with_entropy env (accepting_time md) extra;
          g1 = g\<lparr>challenge := Some new_challenge, challenge_timestamp := accepting_time md, owner := Some participant\<rparr>
      in (increment_rate_limit g1 participant (accepting_time md),
          Inr (UndoChallenge (challenge g) (challenge_timestamp g))))"

definition submit_response :: "auth_env \<Rightarrow> u64 \<Rightarrow> simple_auth \<Rightarrow> string \<Rightarrow> string \<Rightarrow> pubkey \<Rightarrow> auth_result" where
  "submit_response env now g signature nonce participant =
     (if is_authenticated g then (g, Inl (InvalidCommand AlreadyAuthenticated))
      else case challenge g of
        None \<Rightarrow> (g, Inl (InvalidCommand ChallengeNotFound))
      | Some current_challenge \<Rightarrow>
          if nonce \<noteq> current_challenge then (g, Inl (InvalidCommand InvalidChallenge))
          else if \<not> challenge_valid now current_challenge 3600 then (g, Inl (InvalidCommand ChallengeExpired))
          else if \<not> verify_text env participant current_challenge signature
            then (g, Inl (InvalidCommand SignatureVerificationFailed))
          else let g1 = g\<lparr>is_authenticated := True\<rparr>
            in (g1\<lparr>session_token := Some (generate_session_token env g1)\<rparr>,
                Inr (UndoAuthentication (is_authenticated g) (session_token g))))"

definition revoke_session :: "auth_env \<Rightarrow> simple_auth \<Rightarrow> string \<Rightarrow> string \<Rightarrow> pubkey \<Rightarrow> auth_result" where
  "revoke_session env g token signature participant =
     (case session_token g of
        None \<Rightarrow> (g, Inl (InvalidCommand SessionNotFound))
      | Some current_token \<Rightarrow>
          if token \<noteq> current_token then (g, Inl (InvalidCommand InvalidSessionToken))
          else if \<not> is_authenticated g then (g, Inl (InvalidCommand SessionAlreadyRevoked))
          else if \<not> verify_text env participant token signature then (g, Inl (InvalidCommand SignatureVerificationFailed))
          else (g\<lparr>is_authenticated := False, session_token := None\<rparr>, Inr (UndoSessionRevoked current_token (is_authenticated g))))"

definition auth_execute ::
  "auth_env \<Rightarrow> u64 \<Rightarrow> simple_auth \<Rightarrow> auth_command \<Rightarrow> pubkey option \<Rightarrow> metadata \<Rightarrow> auth_result" where
  "auth_execute env now g cmd authorization md =
     (case authorization of
        None \<Rightarrow> (g, Inl Unauthorized)
      | Some participant \<Rightarrow>
          if participant \<notin> set (authorized_participants g) then (g, Inl (InvalidCommand NotAuthorized))
          else if is_rate_limited g participant (accepting_time md) then (g, Inl (InvalidCommand RateLimited))
          else case cmd of
            RequestChallenge \<Rightarrow> request_challenge env g participant md
          | SubmitResponse signature nonce \<Rightarrow> submit_response env now g signature nonce participant
          | RevokeSession token signature \<Rightarrow> revoke_session env g token signature participant)"

definition auth_rollback_cmd :: "simple_auth \<Rightarrow> auth_rollback \<Rightarrow> simple_auth \<times> bool" where
  "auth_rollback_cmd g rb =
     (case rb of
        UndoChallenge previous_challenge previous_timestamp \<Rightarrow>
          (g\<lparr>challenge := previous_challenge, challenge_timestamp := previous_timestamp\<rparr>, True)
      | UndoAuthentication previous_auth_status previous_session_token \<Rightarrow>
          (g\<lparr>is_authenticated := previous_auth_status, session_token := previous_session_token\<rparr>, True)
      | UndoSessionRevoked previous_token was_authenticated \<Rightarrow>
          (g\<lparr>is_authenticated := was_authenticated, session_token := Some previous_token\<rparr>, True))"

text \<open>\<open>clock\<close> gives the reading of the wall clock when a command is executed.\<close>

definition auth_episode ::
  "auth_env \<Rightarrow> (auth_command \<Rightarrow> metadata \<Rightarrow> u64) \<Rightarrow> (simple_auth, auth_command, auth_rollback, auth_error) episode_impl" where
  "auth_episode env clock = \<lparr>ep_initialize = auth_initialize,
     ep_execute = (\<lambda>g cmd a md. Some (auth_execute env (clock cmd md) g cmd a md)),
     ep_rollback = (\<lambda>g rb. Some (auth_rollback_cmd g rb))\<rparr>"

text \<open>The counter of \<^verbatim>\<open>core/types.rs\<close>, without decay.\<close>

record rate_limit_data =
  rl_attempts :: "string \<rightharpoonup> u32"
  rl_last_reset :: u64

definition rl_is_rate_limited :: "rate_limit_data \<Rightarrow> string \<Rightarrow> bool" where
  "rl_is_rate_limited d key = (case rl_attempts d key of None \<Rightarrow> False | Some n \<Rightarrow> n \<ge> 5)"

definition rl_increment :: "rate_limit_data \<Rightarrow> string \<Rightarrow> rate_limit_data" where
  "rl_increment d key =
     d\<lparr>rl_attempts := (rl_attempts d)(key \<mapsto> (case rl_attempts d key of None \<Rightarrow> 0 | Some n \<Rightarrow> n) + 1)\<rparr>"

end
