(* ===== verification/Auth_Properties.thy ===== *)
theory Auth_Properties
  imports Auth
begin

text \<open>
  What the authentication episode guarantees and what it does not: who can become authenticated,
  how often challenges can be requested, what a reorg of the engine restores, and the places
  where the owner, the session and the rate limit come apart.
\<close>

section \<open>The contract of the episode\<close>

definition auth_inv :: "simple_auth \<Rightarrow> bool" where
  "auth_inv g \<longleftrightarrow> (is_authenticated g \<longleftrightarrow> session_token g \<noteq> None)"

text \<open>Rollbacks restore everything but the owner and the recorded attempts.\<close>

definition auth_sim :: "simple_auth \<Rightarrow> simple_auth \<Rightarrow> bool" where
  "auth_sim g1 g2 \<longleftrightarrow> (\<exists>w rl. g1 = g2\<lparr>owner := w, rate_limits := rl\<rparr>)"

lemma auth_sim_iff:
  "auth_sim g1 g2 \<longleftrightarrow> challenge g1 = challenge g2 \<and> is_authenticated g1 = is_authenticated g2 \<and>
     session_token g1 = session_token g2 \<and> challenge_timestamp g1 = challenge_timestamp g2 \<and>
     authorized_participants g1 = authorized_participants g2"
  by (cases g1; cases g2) (auto simp: auth_sim_def)

text \<open>What a successful command does, one case per command.\<close>

lemma auth_ok_cases:
  assumes "auth_execute env now g c a md = (g', Inr r)"
  obtains (request) p where "c = RequestChallenge" "a = Some p" "p \<in> set (authorized_participants g)"
      "\<not> is_rate_limited g p (accepting_time md)"
      "g' = increment_rate_limit (g\<lparr>challenge := Some (generate_with_entropy env (accepting_time md)
           (pk_bytes p @ ascii (hash_text env (tx_id md)))),
         challenge_timestamp := accepting_time md, owner := Some p\<rparr>) p (accepting_time md)"
      "r = UndoChallenge (challenge g) (challenge_timestamp g)"
  | (response) p sg ch where "c = SubmitResponse sg ch" "a = Some p" "p \<in> set (authorized_participants g)"
      "\<not> is_authenticated g" "challenge g = Some ch" "challenge_valid now ch 3600" "verify_text env p ch sg"
      "g' = g\<lparr>is_authenticated := True, session_token := Some (generate_session_token env g)\<rparr>"
      "r = UndoAuthentication False (session_token g)"
  | (revoke) p tok sg where "c = RevokeSession tok sg" "a = Some p" "p \<in> set (authorized_participants g)"
      "is_authenticated g" "session_token g = Some tok" "verify_text env p tok sg"
      "g' = g\<lparr>is_authenticated := False, session_token := None\<rparr>" "r = UndoSessionRevoked tok True"
proof -
  obtain p where a: "a = Some p" "p \<in> set (authorized_participants g)" "\<not> is_rate_limited g p (accepting_time md)"
    using assms by (auto simp: auth_execute_def split: option.splits if_splits)
  show ?thesis
  proof (cases c)
    case RequestChallenge
    with assms a show ?thesis by (intro request) (auto simp: auth_execute_def request_challenge_def)
  next
    case (SubmitResponse sg ch)
    have "generate_session_token env (g\<lparr>is_authenticated := True\<rparr>) = generate_session_token env g"
      by (simp add: generate_session_token_def)
    with assms a SubmitResponse show ?thesis
      by (intro response) (auto simp: auth_execute_def submit_response_def Let_def split: option.splits if_splits)
  next
    case (RevokeSession tok sg)
    with assms a show ?thesis
      by (intro revoke) (auto simp: auth_execute_def revoke_session_def split: option.splits if_splits)
  qed
qed

lemma auth_err: "auth_execute env now g c a md = (g', Inl e) \<Longrightarrow> g' = g"
  by (cases c) (auto simp: auth_execute_def request_challenge_def submit_response_def revoke_session_def Let_def
      split: option.splits if_splits)

lemma increment_fields [simp]:
  "owner (increment_rate_limit g p t) = owner g" "challenge (increment_rate_limit g p t) = challenge g"
  "is_authenticated (increment_rate_limit g p t) = is_authenticated g"
  "session_token (increment_rate_limit g p t) = session_token g"
  "challenge_timestamp (increment_rate_limit g p t) = challenge_timestamp g"
  "authorized_participants (increment_rate_limit g p t) = authorized_participants g"
  by (simp_all add: increment_rate_limit_def Let_def)

lemma auth_contract: "episode_contract (auth_episode env clock) auth_inv auth_sim (\<lambda>_. True)"
proof
  fix g c a md g' r g1
  assume ex: "ep_execute (auth_episode env clock) g c a md = Some (g', Inr r)" and inv: "auth_inv g" and sim: "auth_sim g1 g'"
  then have "auth_execute env (clock c md) g c a md = (g', Inr r)" by (simp add: auth_episode_def)
  then have "auth_sim (fst (auth_rollback_cmd g1 r)) g"
    using inv sim by (cases rule: auth_ok_cases) (auto simp: auth_sim_iff auth_rollback_cmd_def auth_inv_def)
  moreover have "snd (auth_rollback_cmd g1 r)" by (cases r) (simp_all add: auth_rollback_cmd_def)
  ultimately show "\<exists>g2. ep_rollback (auth_episode env clock) g1 r = Some (g2, True) \<and> auth_sim g2 g"
    by (cases "auth_rollback_cmd g1 r") (simp add: auth_episode_def)
next
  fix g c a md g' r
  assume "auth_inv g" "ep_execute (auth_episode env clock) g c a md = Some (g', Inr r)"
  then have "auth_inv g" "auth_execute env (clock c md) g c a md = (g', Inr r)" by (simp_all add: auth_episode_def)
  then show "auth_inv g'" by (cases rule: auth_ok_cases(1) [OF \<open>auth_execute env (clock c md) g c a md = (g', Inr r)\<close>])
      (auto simp: auth_inv_def)
qed (auto simp: auth_episode_def auth_inv_def auth_initialize_def auth_sim_iff dest: auth_err)

interpretation auth: episode_contract "auth_episode env clock" auth_inv auth_sim "\<lambda>_. True" for env clock
  by (rule auth_contract)

section \<open>Who is authenticated\<close>

lemma parse_generated:
  "hd (split_char (CHR ''_'') (drop 5 (''auth_'' @ show_u64 t @ ''_'' @ s))) = show_u64 t"
proof -
  have "CHR ''_'' \<notin> set (show_u64 t)" by (simp add: show_u64_def show_nat_no_sep)
  then show ?thesis by (simp add: split_char_append)
qed

lemma generated_valid:
  "challenge_valid now (generate_with_entropy env t extra) m \<longleftrightarrow> sat_sub now t \<le> m"
  by (simp add: generate_with_entropy_def Let_def challenge_valid_def parse_generated [simplified])

text \<open>
  C14: nobody is authenticated without signing. In the step that makes an episode authenticated, the
  command is a response by an authorized participant that names the current challenge and carries a
  signature over it that verifies under the participant's key; the session token is then a function
  of the challenge, its time and the owner, and if the challenge came from a request at time \<open>t\<close>, the
  wall clock reads at most one hour after \<open>t\<close>.
\<close>

theorem authenticated_only_by_signature:
  assumes "auth_execute env now g c a md = (g', res)" and "\<not> is_authenticated g" and "is_authenticated g'"
  shows "\<exists>p sg ch. a = Some p \<and> p \<in> set (authorized_participants g) \<and> c = SubmitResponse sg ch \<and>
    challenge g = Some ch \<and> verify_text env p ch sg \<and> session_token g' = Some (generate_session_token env g) \<and>
    (\<forall>t extra. ch = generate_with_entropy env t extra \<longrightarrow> unat now \<le> unat t + 3600)"
proof (cases res)
  case (Inl e)
  with assms auth_err show ?thesis by blast
next
  case (Inr r)
  with assms(1) have "auth_execute env now g c a md = (g', Inr r)" by simp
  then show ?thesis
  proof (cases rule: auth_ok_cases)
    case (response p sg ch)
    have "unat now \<le> unat t + 3600" if "ch = generate_with_entropy env t extra" for t extra
      using response(6) unfolding that generated_valid by (simp add: word_le_nat_alt unat_sat_sub)
    with response show ?thesis by auto
  qed (use assms(2,3) in auto)
qed

section \<open>The rate limit\<close>

text \<open>The times of the successful challenge requests of a key in a run.\<close>

fun challenge_log :: "auth_env \<Rightarrow> (auth_command \<Rightarrow> metadata \<Rightarrow> u64) \<Rightarrow> bytes \<Rightarrow> simple_auth \<Rightarrow> auth_command call list \<Rightarrow> u64 list" where
  "challenge_log env clock key g [] = []"
| "challenge_log env clock key g ((c, a, md) # cs) =
     (let (g', res) = auth_execute env (clock c md) g c a md
      in (if c = RequestChallenge \<and> (\<exists>r. res = Inr r) \<and> map_option pk_bytes a = Some key then [accepting_time md] else []) @
         challenge_log env clock key g' cs)"

definition spaced :: "u64 list \<Rightarrow> bool" where
  "spaced ts \<longleftrightarrow> (\<forall>i. i + 5 < length ts \<longrightarrow> unat (ts ! i) + 300 < unat (ts ! (i + 5)))"

lemma sorted_recent:
  assumes "sorted ts" and "\<forall>t \<in> set ts. t \<le> now" and "i < length ts" and "unat now \<le> unat (ts ! i) + 300"
  shows "length ts - i \<le> length (recent_attempts now ts)"
proof -
  have "\<forall>t \<in> set (drop i ts). sat_sub now t \<le> 300"
  proof
    fix t
    assume "t \<in> set (drop i ts)"
    then obtain j where j: "j < length (drop i ts)" "t = drop i ts ! j" by (auto simp: in_set_conv_nth)
    then have "ts ! i \<le> t" using assms(1,3) by (auto intro: sorted_nth_mono)
    with assms(4) show "sat_sub now t \<le> 300" by (simp add: word_le_nat_alt unat_sat_sub)
  qed
  then have "recent_attempts now (drop i ts) = drop i ts" by (simp add: recent_attempts_def)
  moreover have "recent_attempts now ts = recent_attempts now (take i ts) @ recent_attempts now (drop i ts)"
    by (simp add: recent_attempts_def flip: filter_append)
  ultimately show ?thesis by simp
qed

lemma recent_recent:
  assumes "\<forall>t \<in> set ts. t \<le> now" and "now \<le> later"
  shows "recent_attempts later (recent_attempts now ts) = recent_attempts later ts"
proof -
  have "sat_sub now t \<le> 300" if "t \<in> set ts" "sat_sub later t \<le> 300" for t
    using assms that by (fastforce simp: word_le_nat_alt unat_sat_sub)
  then show ?thesis by (auto simp: recent_attempts_def intro!: filter_cong)
qed

lemma rate_step:
  assumes "auth_execute env now g c a md = (g', res)" and "sorted ts" and "\<forall>t \<in> set ts. t \<le> last_time"
    and "last_time \<le> accepting_time md" and "spaced ts"
    and "\<forall>later \<ge> last_time. recent_attempts later (case rate_limits g key of None \<Rightarrow> [] | Some l \<Rightarrow> l) = recent_attempts later ts"
    and "ts' = ts @ (if c = RequestChallenge \<and> (\<exists>r. res = Inr r) \<and> map_option pk_bytes a = Some key then [accepting_time md] else [])"
  shows "sorted ts' \<and> (\<forall>t \<in> set ts'. t \<le> accepting_time md) \<and> spaced ts' \<and>
    (\<forall>later \<ge> accepting_time md. recent_attempts later (case rate_limits g' key of None \<Rightarrow> [] | Some l \<Rightarrow> l) = recent_attempts later ts')"
proof -
  let ?now = "accepting_time md"
  let ?stored = "\<lambda>g. case rate_limits g key of None \<Rightarrow> [] | Some l \<Rightarrow> l"
  have before: "\<forall>t \<in> set ts. t \<le> ?now" using assms(3,4) by force
  show ?thesis
  proof (cases "c = RequestChallenge \<and> (\<exists>r. res = Inr r) \<and> map_option pk_bytes a = Some key")
    case True
    then obtain r p where r: "auth_execute env now g RequestChallenge (Some p) md = (g', Inr r)" "c = RequestChallenge" "a = Some p"
      "pk_bytes p = key" using assms(1) by auto
    from r(1) have free: "\<not> is_rate_limited g p ?now" and lim: "rate_limits g' = (rate_limits g)(key \<mapsto> recent_attempts ?now (?stored g @ [?now]))"
      by (cases rule: auth_ok_cases; simp add: r(4) increment_rate_limit_def Let_def)+
    have "length (recent_attempts ?now (?stored g)) < 5"
      using free r(4) by (auto simp: is_rate_limited_def recent_attempts_def split: option.splits)
    then have few: "length (recent_attempts ?now ts) < 5" using assms(4,6) by simp
    have ts': "ts' = ts @ [?now]" using True assms(7) by simp
    have "spaced ts'"
      unfolding spaced_def
    proof (intro allI impI)
      fix i
      assume i: "i + 5 < length ts'"
      show "unat (ts' ! i) + 300 < unat (ts' ! (i + 5))"
      proof (cases "i + 5 < length ts")
        case True
        with assms(5) show ?thesis by (simp add: spaced_def ts' nth_append)
      next
        case False
        then have len: "length ts = i + 5" using i ts' by simp
        have "\<not> unat ?now \<le> unat (ts ! i) + 300"
          using sorted_recent [OF assms(2) before, of i] few len by auto
        then show ?thesis using len by (simp add: ts' nth_append)
      qed
    qed
    moreover have "recent_attempts later (recent_attempts ?now (?stored g @ [?now])) = recent_attempts later ts'"
      if later: "?now \<le> later" for later
    proof -
      have eq: "recent_attempts ?now (?stored g @ [?now]) = recent_attempts ?now ts'"
        using assms(4,6) by (simp add: ts' recent_attempts_def)
      have "\<forall>t \<in> set ts'. t \<le> ?now" using before ts' by auto
      from recent_recent [OF this later] show ?thesis unfolding eq .
    qed
    ultimately show ?thesis using assms(2) before lim ts' by (auto simp: sorted_append)
  next
    case False
    have keep: "rate_limits g' key = rate_limits g key"
    proof (cases res)
      case (Inr r)
      with assms(1) have "auth_execute env now g c a md = (g', Inr r)" by simp
      then show ?thesis using False Inr by (cases rule: auth_ok_cases) (auto simp: increment_rate_limit_def Let_def)
    qed (use assms(1) in \<open>auto dest: auth_err\<close>)
    have same: "ts' = ts" using False assms(7) by simp
    have "recent_attempts later (?stored g') = recent_attempts later ts" if "?now \<le> later" for later
      using assms(4,6) order_trans [OF assms(4) that] keep by simp
    then show ?thesis unfolding same using assms(2,5) before by blast
  qed
qed

lemma rate_run:
  assumes "sorted (map (\<lambda>(c, a, md). accepting_time md) cs)" and "\<forall>(c, a, md) \<in> set cs. last_time \<le> accepting_time md"
    and "sorted ts" and "\<forall>t \<in> set ts. t \<le> last_time" and "spaced ts"
    and "\<forall>later \<ge> last_time. recent_attempts later (case rate_limits g key of None \<Rightarrow> [] | Some l \<Rightarrow> l) = recent_attempts later ts"
  shows "spaced (ts @ challenge_log env clock key g cs)"
  using assms
proof (induction cs arbitrary: g ts last_time)
  case (Cons x cs)
  obtain c a md where x: "x = (c, a, md)" by (cases x)
  obtain g' res where ex: "auth_execute env (clock c md) g c a md = (g', res)" by fastforce
  let ?e = "if c = RequestChallenge \<and> (\<exists>r. res = Inr r) \<and> map_option pk_bytes a = Some key then [accepting_time md] else []"
  have "last_time \<le> accepting_time md" using Cons.prems(2) x by simp
  note step = rate_step [OF ex Cons.prems(3,4) this Cons.prems(5,6) refl]
  have "sorted (map (\<lambda>(c, a, md). accepting_time md) cs)" "\<forall>(c, a, md') \<in> set cs. accepting_time md \<le> accepting_time md'"
    using Cons.prems(1) x by auto
  from Cons.IH [OF this, of "ts @ ?e" g'] step ex x show ?case by auto
qed simp

text \<open>
  C15: the rate limit. In any series of commands whose times do not decrease, failed ones included, a
  key gets at most five challenges in any window of 300 seconds: the sixth is accepted more than 300
  seconds after the first.
\<close>

theorem challenges_rate_limited:
  assumes "sorted (map (\<lambda>(c, a, md). accepting_time md) cs)"
    and "i + 5 < length (challenge_log env clock key (auth_initialize ps md0) cs)"
  shows "unat (challenge_log env clock key (auth_initialize ps md0) cs ! i) + 300 <
    unat (challenge_log env clock key (auth_initialize ps md0) cs ! (i + 5))"
proof -
  have "spaced ([] @ challenge_log env clock key (auth_initialize ps md0) cs)"
    by (rule rate_run [where last_time = 0]) (use assms(1) in \<open>auto simp: auth_initialize_def spaced_def\<close>)
  with assms(2) show ?thesis by (simp add: spaced_def)
qed


section \<open>Reorgs\<close>

text \<open>
  C13: a reorg restores the sessions. An engine of authentication episodes, reached from the empty
  engine by any block events, that accepts a chain of blocks within the filter window and sees it
  reverted, never panics and ends with the same episodes, the same rollback stacks, and in each of
  them the same challenge, session and authentication as before the chain; only the owner and the
  counted attempts may differ.
\<close>

theorem auth_reorg_restores_sessions:
  assumes "cfg_ep cfg = auth_episode env clock" and "start cfg ms (new_engine, w0) = Some (e, w)"
    and "\<forall>(h, daa, t, txs) \<in> set bs. daa \<le> next_filtering e + SAMPLE_REMOVAL_TIME" and "distinct (map fst bs)"
    and "start cfg (map accepted bs) (e, w) = Some (e', w')"
  shows "\<exists>e2 w2. start cfg (map (\<lambda>b. BlkReverted (fst b)) (rev bs)) (e', w') = Some (e2, w2) \<and>
    (\<forall>i. rel_option (\<lambda>x y. rollback_stack x = rollback_stack y \<and> auth_sim (ew_episode x) (ew_episode y)) (episodes e2 i) (episodes e i))"
proof -
  have any: "event_ok cfg (\<lambda>_. True) m" for m
  proof (cases m)
    case (BlkAccepted h daa t txs)
    have "msg_ok (\<lambda>_. True) x" for x :: "auth_command episode_message" by (cases x) simp_all
    with BlkAccepted show ?thesis by (auto simp: pred_option_def)
  qed simp_all
  obtain e0 w1 where "start cfg ms (new_engine, w0) = Some (e0, w1)" "eng_ok (auth_episode env clock) auth_inv auth_sim e0"
    using auth.start_ok [OF assms(1) eng_ok_new, of ms w0] any by blast
  with assms(2) have ok: "eng_ok (auth_episode env clock) auth_inv auth_sim e" by simp
  obtain e1 w2 where "start cfg (map accepted bs) (e, w) = Some (e1, w2)" "eng_ok (auth_episode env clock) auth_inv auth_sim e1"
    using auth.start_ok [OF assms(1) ok, of "map accepted bs" w] any by blast
  with assms(5) have ok': "eng_ok (auth_episode env clock) auth_inv auth_sim e'" by simp
  have "\<forall>(h, daa, t, txs) \<in> set bs. event_ok cfg (\<lambda>_. True) (BlkAccepted h daa t txs) \<and>
      daa \<le> next_filtering e + SAMPLE_REMOVAL_TIME" using assms(3) any by blast
  from auth.revert_chain [OF assms(1) ok this assms(4,5) auth.eng_sim_refl [OF ok']]
  obtain e2 w3 where "start cfg (map (\<lambda>b. BlkReverted (fst b)) (rev bs)) (e', w') = Some (e2, w3)" "eng_sim auth_sim e2 e"
    by blast
  moreover have "wr_sim auth_sim = (\<lambda>(x :: (simple_auth, auth_rollback) wrapper) y. rollback_stack x = rollback_stack y \<and> auth_sim (ew_episode x) (ew_episode y))"
    by (auto simp: wr_sim_def fun_eq_iff)
  ultimately show ?thesis by (simp add: eng_sim_def)
qed

text \<open>
  Undone requests still count. If a key has four recent challenge requests, a fifth one that is
  executed, rolled back by a reorg and then replayed on the winning branch is refused there, although
  the same transaction was fine before: the state after a reorg depends on the branch that lost.
\<close>

theorem replayed_request_refused:
  assumes "length (recent_attempts (accepting_time md) (case rate_limits g (pk_bytes p) of None \<Rightarrow> [] | Some l \<Rightarrow> l)) = 4"
    and "p \<in> set (authorized_participants g)"
  shows "\<exists>g' r. auth_execute env now g RequestChallenge (Some p) md = (g', Inr r) \<and>
    snd (auth_execute env now (fst (auth_rollback_cmd g' r)) RequestChallenge (Some p) md) = Inl (InvalidCommand RateLimited)"
proof -
  let ?stored = "case rate_limits g (pk_bytes p) of None \<Rightarrow> [] | Some l \<Rightarrow> l"
  have free: "\<not> is_rate_limited g p (accepting_time md)"
    using assms(1) by (auto simp: is_rate_limited_def split: option.splits)
  then obtain g' r where ex: "auth_execute env now g RequestChallenge (Some p) md = (g', Inr r)"
    using assms(2) by (simp add: auth_execute_def request_challenge_def Let_def)
  then have r: "r = UndoChallenge (challenge g) (challenge_timestamp g)"
    "rate_limits g' = (rate_limits g)(pk_bytes p \<mapsto> recent_attempts (accepting_time md) (?stored @ [accepting_time md]))"
    "authorized_participants g' = authorized_participants g"
    by (cases rule: auth_ok_cases; simp add: increment_rate_limit_def Let_def)+
  have "recent_attempts (accepting_time md) (recent_attempts (accepting_time md) (?stored @ [accepting_time md])) =
      recent_attempts (accepting_time md) ?stored @ [accepting_time md]"
    by (simp add: recent_attempts_def)
  then have "is_rate_limited (fst (auth_rollback_cmd g' r)) p (accepting_time md)"
    using assms(1) r(1,2) by (simp add: is_rate_limited_def auth_rollback_cmd_def)
  then have "snd (auth_execute env now (fst (auth_rollback_cmd g' r)) RequestChallenge (Some p) md) = Inl (InvalidCommand RateLimited)"
    using assms(2) r(1,3) by (simp add: auth_execute_def auth_rollback_cmd_def)
  with ex show ?thesis by blast
qed

section \<open>Owner and session come apart\<close>

text \<open>
  A challenge request takes over a session. In an authenticated episode, a mere request for a
  challenge by any other participant makes that participant the owner, while the episode stays
  authenticated with the session token of the participant who signed.
\<close>

theorem request_takes_over_session:
  assumes "is_authenticated g" and "p \<in> set (authorized_participants g)" and "\<not> is_rate_limited g p (accepting_time md)"
  shows "\<exists>g' r. auth_execute env now g RequestChallenge (Some p) md = (g', Inr r) \<and>
    owner g' = Some p \<and> is_authenticated g' \<and> session_token g' = session_token g"
  using assms by (simp add: auth_execute_def request_challenge_def Let_def)

text \<open>
  The owner need not sign. A participant other than the owner can answer the owner's challenge
  with a signature under its own key; the episode is then authenticated, with the owner unchanged.
\<close>

theorem other_participant_answers:
  assumes "auth_execute env now g RequestChallenge (Some p) md = (g1, Inr r)"
    and "q \<in> set (authorized_participants g)" and "\<not> is_rate_limited g1 q (accepting_time md')" and "\<not> is_authenticated g"
    and "challenge g1 = Some ch" and "verify_text env q ch sg" and "sat_sub now' (accepting_time md) \<le> 3600"
  shows "\<exists>g2 r2. auth_execute env now' g1 (SubmitResponse sg ch) (Some q) md' = (g2, Inr r2) \<and>
    is_authenticated g2 \<and> owner g2 = Some p"
proof -
  from assms(1) have g1: "owner g1 = Some p" "is_authenticated g1 = is_authenticated g" "authorized_participants g1 = authorized_participants g"
    "challenge g1 = Some (generate_with_entropy env (accepting_time md) (pk_bytes p @ ascii (hash_text env (tx_id md))))"
    by (cases rule: auth_ok_cases; simp)+
  then have "challenge_valid now' ch 3600" using assms(5,7) generated_valid by simp
  with g1 assms(2-6) show ?thesis
    by (simp add: auth_execute_def submit_response_def Let_def)
qed

section \<open>Commitments\<close>

text \<open>
  A commitment binds no value. Value and nonce are hashed one after the other without a
  separator, so whoever committed to \<open>v @ s\<close> with nonce \<open>n\<close> can as well reveal \<open>v\<close> with the nonce
  \<open>s @ n\<close>: both pass \<^verbatim>\<open>verify_reveal\<close>, for every hash function.
\<close>

theorem commitment_not_binding:
  assumes "commitment c = create_commitment env (v @ s) n"
  shows "verify_reveal env c (v @ s) n \<and> verify_reveal env c v (s @ n)"
  using assms by (simp add: verify_reveal_def create_commitment_def ascii_def)

text \<open>An honest commitment opens exactly once, to the committed value, which verifies.\<close>

theorem commitment_opens_once:
  "\<exists>c' nonce. reveal (commit_new env r value) = (c', Inr (value, nonce)) \<and>
    verify_reveal env (commit_new env r value) value nonce \<and> reveal c' = (c', Inl ''Already revealed'')"
  by (simp add: reveal_def commit_new_def verify_reveal_def Let_def)


section \<open>Witnesses\<close>

text \<open>Two participants; a signature is the key itself, hashes and random numbers are left as they are.\<close>

definition auth_demo_env :: auth_env where
  "auth_demo_env = \<lparr>ae_crypto = \<lparr>sha256 = (\<lambda>b. b), ecdsa_sign = (\<lambda>sk m. sk), ecdsa_verify = (\<lambda>m s pk. s = pk),
       pk_slice_ok = (\<lambda>_. True), der_ok = (\<lambda>_. True)\<rparr>,
     chacha_u64 = (\<lambda>n. n), hash_text = (\<lambda>_. []), hex_decode = (\<lambda>t. Some (ascii t)), hex_encode = (\<lambda>_. [])\<rparr>"

definition auth_demo_meta :: "u64 \<Rightarrow> metadata" where
  "auth_demo_meta t = \<lparr>accepting_hash = [], accepting_daa = 0, accepting_time = t, tx_id = [], tx_outputs = None\<rparr>"

lemma auth_demo_time [simp]: "accepting_time (auth_demo_meta t) = t"
  by (simp add: auth_demo_meta_def)

definition auth_demo :: simple_auth where
  "auth_demo = fst (auth_execute auth_demo_env 0 (auth_initialize [PubKey [80], PubKey [81]] (auth_demo_meta 0)) RequestChallenge
     (Some (PubKey [80])) (auth_demo_meta 10))"

definition auth_demo_challenge :: string where
  "auth_demo_challenge = generate_with_entropy auth_demo_env 10 [80]"

lemma auth_demo_run:
  "auth_execute auth_demo_env 0 (auth_initialize [PubKey [80], PubKey [81]] (auth_demo_meta 0)) RequestChallenge
     (Some (PubKey [80])) (auth_demo_meta 10) = (auth_demo, Inr (UndoChallenge None 0))"
  "challenge auth_demo = Some auth_demo_challenge" "\<not> is_authenticated auth_demo" "session_token auth_demo = None"
  "rate_limits auth_demo = [[80] \<mapsto> [10]]" "authorized_participants auth_demo = [PubKey [80], PubKey [81]]" "owner auth_demo = Some (PubKey [80])"
  by (simp_all add: auth_demo_def auth_execute_def request_challenge_def auth_initialize_def is_rate_limited_def Let_def
      auth_demo_challenge_def)
    (simp_all add: increment_rate_limit_def auth_demo_env_def auth_demo_meta_def ascii_def recent_attempts_def)

lemma auth_demo_verify: "verify_text auth_demo_env (PubKey [81]) m ''Q''" "verify_text auth_demo_env (PubKey [80]) m ''P''"
  by (simp_all add: verify_text_def auth_demo_env_def ascii_def verify_signature_def)

lemma auth_demo_response:
  "auth_execute auth_demo_env 20 auth_demo (SubmitResponse ''P'' auth_demo_challenge) (Some (PubKey [80])) (auth_demo_meta 20) =
     (auth_demo\<lparr>is_authenticated := True, session_token := Some (generate_session_token auth_demo_env auth_demo)\<rparr>,
      Inr (UndoAuthentication False None))"
proof -
  have "challenge_valid 20 auth_demo_challenge 3600" by (simp add: auth_demo_challenge_def generated_valid sat_sub_def)
  moreover have "generate_session_token auth_demo_env (auth_demo\<lparr>is_authenticated := True\<rparr>) = generate_session_token auth_demo_env auth_demo"
    by (simp add: generate_session_token_def)
  ultimately show ?thesis
    using auth_demo_verify(2) auth_demo_run(2-6)
    by (simp add: auth_execute_def submit_response_def is_rate_limited_def recent_attempts_def Let_def)
qed

theorem authenticated_only_by_signature_witness:
  "\<exists>p sg ch. challenge auth_demo = Some ch \<and> verify_text auth_demo_env p ch sg \<and> p \<in> set (authorized_participants auth_demo)"
  using authenticated_only_by_signature [OF auth_demo_response auth_demo_run(3)] by auto

definition auth_demo_calls :: "auth_command call list" where
  "auth_demo_calls = map (\<lambda>t. (RequestChallenge, Some (PubKey [80]), auth_demo_meta t)) [1, 1, 1, 1, 1, 400]"

lemma auth_demo_log:
  "challenge_log auth_demo_env (\<lambda>_ _. 0) [80] (auth_initialize [PubKey [80]] (auth_demo_meta 0)) auth_demo_calls = [1, 1, 1, 1, 1, 400]"
  by (simp add: auth_demo_calls_def auth_execute_def request_challenge_def auth_initialize_def is_rate_limited_def Let_def
      increment_rate_limit_def recent_attempts_def sat_sub_def)

theorem challenges_rate_limited_witness:
  "unat (challenge_log auth_demo_env (\<lambda>_ _. 0) [80] (auth_initialize [PubKey [80]] (auth_demo_meta 0)) auth_demo_calls ! 0) + 300 <
   unat (challenge_log auth_demo_env (\<lambda>_ _. 0) [80] (auth_initialize [PubKey [80]] (auth_demo_meta 0)) auth_demo_calls ! (0 + 5))"
  by (rule challenges_rate_limited) (simp_all add: auth_demo_log, simp add: auth_demo_calls_def)

theorem replayed_request_refused_witness:
  "\<exists>g' r. auth_execute auth_demo_env 0 (auth_demo\<lparr>rate_limits := [[80] \<mapsto> [10, 11, 12, 13]]\<rparr>) RequestChallenge (Some (PubKey [80])) (auth_demo_meta 14) = (g', Inr r) \<and>
    snd (auth_execute auth_demo_env 0 (fst (auth_rollback_cmd g' r)) RequestChallenge (Some (PubKey [80])) (auth_demo_meta 14)) = Inl (InvalidCommand RateLimited)"
  by (rule replayed_request_refused) (simp_all add: auth_demo_run(6) recent_attempts_def sat_sub_def)

theorem request_takes_over_session_witness:
  "\<exists>g' r. auth_execute auth_demo_env 30 (auth_demo\<lparr>is_authenticated := True, session_token := Some ''sess''\<rparr>) RequestChallenge (Some (PubKey [81])) (auth_demo_meta 30) = (g', Inr r) \<and>
    owner g' = Some (PubKey [81]) \<and> is_authenticated g' \<and> session_token g' = Some ''sess''"
  using request_takes_over_session [of "auth_demo\<lparr>is_authenticated := True, session_token := Some ''sess''\<rparr>" "PubKey [81]" "auth_demo_meta 30" auth_demo_env 30]
  by (simp add: auth_demo_run(5,6) is_rate_limited_def)

theorem other_participant_answers_witness:
  "\<exists>g2 r2. auth_execute auth_demo_env 20 auth_demo (SubmitResponse ''Q'' auth_demo_challenge) (Some (PubKey [81])) (auth_demo_meta 20) = (g2, Inr r2) \<and>
    is_authenticated g2 \<and> owner g2 = Some (PubKey [80])"
  by (rule other_participant_answers [OF auth_demo_run(1) _ _ _ auth_demo_run(2) auth_demo_verify(1)])
    (simp_all add: auth_demo_run(5) auth_initialize_def is_rate_limited_def sat_sub_def)

theorem commitment_not_binding_witness:
  "verify_reveal auth_demo_env (commit_new auth_demo_env 5 ''spades'') ''spade'' (''s'' @ generate_nonce 5)"
  using commitment_not_binding [of "commit_new auth_demo_env 5 ''spades''" auth_demo_env "''spade''" "''s''" "generate_nonce 5"]
  by (simp add: commit_new_def Let_def)

text \<open>An engine that hears of a new episode, then of a block with a challenge request that is reverted.\<close>

definition auth_demo_cfg :: "(simple_auth, auth_command, auth_rollback, auth_error, nat) config" where
  "auth_demo_cfg = \<lparr>cfg_ep = auth_episode auth_demo_env (\<lambda>_ _. 0), cfg_crypto = ae_crypto auth_demo_env,
     cmd_bytes = (\<lambda>_. []), decode_msg = (\<lambda>bs. if bs = [0] then Some (NewEpisode 7 [PubKey [80]])
       else Some (SignedCommand 7 RequestChallenge (PubKey [80]) (Sig [80]))), handlers = []\<rparr>"

lemma auth_demo_engine:
  "\<exists>e w. start auth_demo_cfg [BlkAccepted [1] 5 50 [([10], [0], None)]] (new_engine, 0) = Some (e, w) \<and> next_filtering e = 0"
  "start auth_demo_cfg [BlkAccepted [1] 5 50 [([10], [0], None)]] (new_engine, 0) = Some (e, w) \<Longrightarrow>
     \<exists>e' w'. start auth_demo_cfg (map accepted [([2], 6, 60, [([11], [1], None)])]) (e, w) = Some (e', w')"
  by (auto simp: auth_demo_cfg_def new_engine_def filter_old_episodes_def SAMPLE_REMOVAL_TIME_def Let_def notify_def
      wrapper_initialize_def auth_episode_def execute_signed_def finish_command_def split: prod.splits sum.splits)

theorem auth_reorg_restores_sessions_witness:
  "\<exists>e w e' w' e2 w2. start auth_demo_cfg [BlkAccepted [1] 5 50 [([10], [0], None)]] (new_engine, 0) = Some (e, w) \<and>
    start auth_demo_cfg (map accepted [([2], 6, 60, [([11], [1], None)])]) (e, w) = Some (e', w') \<and>
    start auth_demo_cfg (map (\<lambda>b. BlkReverted (fst b)) (rev [([2] :: hash, 6 :: u64, 60 :: u64, [([11], [1], None)])])) (e', w') = Some (e2, w2) \<and>
    (\<forall>i. rel_option (\<lambda>x y. rollback_stack x = rollback_stack y \<and> auth_sim (ew_episode x) (ew_episode y)) (episodes e2 i) (episodes e i))"
proof -
  obtain e w where e: "start auth_demo_cfg [BlkAccepted [1] 5 50 [([10], [0], None)]] (new_engine, 0) = Some (e, w)" "next_filtering e = 0"
    using auth_demo_engine(1) by blast
  obtain e' w' where e': "start auth_demo_cfg (map accepted [([2], 6, 60, [([11], [1], None)])]) (e, w) = Some (e', w')"
    using auth_demo_engine(2) [OF e(1)] by blast
  have cfg: "cfg_ep auth_demo_cfg = auth_episode auth_demo_env (\<lambda>_ _. 0)" by (simp add: auth_demo_cfg_def)
  have small: "\<forall>(h, daa, t, txs) \<in> set [([2], 6, 60, [([11], [1], None)])]. daa \<le> next_filtering e + SAMPLE_REMOVAL_TIME"
    by (simp add: e(2) SAMPLE_REMOVAL_TIME_def)
  from auth_reorg_restores_sessions [OF cfg e(1) small _ e'] e(1) e' show ?thesis by fastforce
qed


end
