(* ===== verification/Comment_Log.thy ===== *)
theory Comment_Log
  imports Auth_Properties
begin

text \<open>
  What the comment episodes share: a log of comments numbered from 1 in the order they were made. The
  three episodes (\<^verbatim>\<open>comment-it/src/core/episode.rs\<close>, \<^verbatim>\<open>comment-it/src/comment.rs\<close>,
  \<^verbatim>\<open>comment-board/src/episode/board_with_contract.rs\<close>) keep a vector of comments and the next number;
  each command that succeeds leaves the log alone or appends one comment with that number.
\<close>

text \<open>A key is printed as the hexadecimal form of its bytes (\<^verbatim>\<open>impl Display for PubKey\<close>).\<close>

definition pk_text :: "auth_env \<Rightarrow> pubkey \<Rightarrow> string" where
  "pk_text env pk = hex_encode env (pk_bytes pk)"

lemma demo_pk_text [simp]: "pk_text auth_demo_env p = []"
  by (simp add: pk_text_def auth_demo_env_def)

text \<open>\<^verbatim>\<open>position\<close> and \<^verbatim>\<open>remove\<close>: the first element that matches goes.\<close>

fun remove_first :: "('a \<Rightarrow> bool) \<Rightarrow> 'a list \<Rightarrow> 'a list option" where
  "remove_first P [] = None"
| "remove_first P (x # xs) = (if P x then Some xs else map_option ((#) x) (remove_first P xs))"

lemma remove_first_last: "\<forall>x \<in> set xs. \<not> P x \<Longrightarrow> P y \<Longrightarrow> remove_first P (xs @ [y]) = Some xs"
  by (induction xs) auto

section \<open>Numbered comments\<close>

text \<open>Comments are numbered from 1; the numbers wrap at 2^64, so only below that a number is fresh.\<close>

definition numbered :: "u64 list \<Rightarrow> u64 \<Rightarrow> bool" where
  "numbered ids nxt \<longleftrightarrow> ids = map of_nat [1..<Suc (length ids)] \<and> nxt = of_nat (Suc (length ids))"

lemma numbered_Nil [simp]: "numbered [] nxt \<longleftrightarrow> nxt = 1"
  by (simp add: numbered_def)

lemma numbered_snoc: "numbered ids nxt \<Longrightarrow> numbered (ids @ [nxt]) (nxt + 1)"
  by (auto simp: numbered_def)

lemma numbered_fresh:
  assumes "numbered ids nxt" and "length ids < 2 ^ 64 - 1"
  shows "nxt \<notin> set ids"
proof
  let ?n = "length ids"
  have ids: "ids = map of_nat [1..<Suc ?n]" and nxt: "nxt = of_nat (Suc ?n)"
    using assms(1) by (simp_all add: numbered_def)
  assume "nxt \<in> set ids"
  then have "(of_nat (Suc ?n) :: u64) \<in> of_nat ` {1..<Suc ?n}"
    using arg_cong [OF ids, of set] by (simp only: nxt set_map set_upt)
  then obtain k where k: "k < Suc ?n" "(of_nat (Suc ?n) :: u64) = of_nat k" by auto
  then have "Suc ?n mod 2 ^ 64 = k mod 2 ^ 64" by (simp add: word_unat_eq_iff unat_of_nat del: of_nat_Suc)
  with k(1) assms(2) show False by simp
qed

section \<open>One step of a series\<close>

lemma exec_calls_ConsE:
  assumes "exec_calls ep g ((c, a, md) # cs) = Some (h, rs)"
  obtains (ok) g' r rs' where "ep_execute ep g c a md = Some (g', Inr r)" "exec_calls ep g' cs = Some (h, rs')" "rs = r # rs'"
  | (err) g' e where "ep_execute ep g c a md = Some (g', Inl e)" "exec_calls ep g' cs = Some (h, rs)"
  using assms by (auto split: option.splits prod.splits sum.splits)

section \<open>The log\<close>

locale comment_log =
  fixes ep :: "('g, 'c, 'r, 'e) episode_impl"
    and linv :: "'g \<Rightarrow> bool"
    and ids :: "'g \<Rightarrow> u64 list"
    and nxt :: "'g \<Rightarrow> u64"
  assumes log_total: "ep_execute ep g c a md \<noteq> None"
    and log_inv: "linv g \<Longrightarrow> ep_execute ep g c a md = Some (g', res) \<Longrightarrow> linv g'"
    and log_step: "linv g \<Longrightarrow> ep_execute ep g c a md = Some (g', res) \<Longrightarrow>
      ids g' = ids g \<and> nxt g' = nxt g \<or> ids g' = ids g @ [nxt g] \<and> nxt g' = nxt g + 1"
begin

lemma step_log:
  assumes "linv g" and "numbered (ids g) (nxt g)" and "ep_execute ep g c a md = Some (g', res)"
  shows "linv g'" "numbered (ids g') (nxt g')" "length (ids g') \<le> Suc (length (ids g))"
  using log_inv [OF assms(1,3)] log_step [OF assms(1,3)] assms(2) by (auto intro: numbered_snoc)

lemma run_log:
  "exec_calls ep g cs = Some (h, rs) \<Longrightarrow> linv g \<Longrightarrow> numbered (ids g) (nxt g) \<Longrightarrow>
     linv h \<and> numbered (ids h) (nxt h) \<and> length (ids h) \<le> length cs + length (ids g)"
proof (induction cs arbitrary: g rs)
  case (Cons x cs)
  obtain c a md where x: "x = (c, a, md)" by (cases x)
  obtain g' res rs' where ex: "ep_execute ep g c a md = Some (g', res)" "exec_calls ep g' cs = Some (h, rs')"
    using Cons.prems(1) [unfolded x] by (cases rule: exec_calls_ConsE) blast+
  note s = step_log [OF Cons.prems(2,3) ex(1)]
  from Cons.IH [OF ex(2) s(1,2)] s(3) show ?case by simp
qed simp

lemma run_total: "\<exists>h rs. exec_calls ep g cs = Some (h, rs)"
proof (induction cs arbitrary: g)
  case (Cons x cs)
  obtain c a md where x: "x = (c, a, md)" by (cases x)
  obtain g' res where "ep_execute ep g c a md = Some (g', res)" using log_total by fastforce
  then show ?case using Cons [of g'] by (cases res) (auto simp: x)
qed simp

end

end
