(* ===== verification/Comment_Room.thy ===== *)
theory Comment_Room
  imports Comment_Log
begin

text \<open>
  The shared comment room (\<^verbatim>\<open>comment-it/src/core/episode.rs\<close>): participants authenticate with a
  signature and then comment. The crypto helpers of \<^verbatim>\<open>comment-it/src/crypto\<close> are copies of those
  modelled in \<^verbatim>\<open>Auth\<close>.
\<close>

section \<open>Data\<close>

datatype room_command =
    RoomRequestChallenge
  | RoomSubmitResponse string string
  | RoomRevokeSession string string
  | RoomSubmitComment string string

definition room_command_type :: "room_command \<Rightarrow> string" where
  "room_command_type c =
     (case c of RoomRequestChallenge \<Rightarrow> ''RequestChallenge'' | RoomSubmitResponse _ _ \<Rightarrow> ''SubmitResponse''
      | RoomRevokeSession _ _ \<Rightarrow> ''RevokeSession'' | RoomSubmitComment _ _ \<Rightarrow> ''SubmitComment'')"

definition room_requires_auth :: "room_command \<Rightarrow> bool" where
  "room_requires_auth c = (case c of RoomRequestChallenge \<Rightarrow> False | _ \<Rightarrow> True)"

datatype room_error =
    RoomChallengeNotFound | RoomInvalidChallenge | RoomSignatureVerificationFailed | RoomAlreadyAuthenticated
  | RoomNotAuthorized | RoomRateLimited | RoomInvalidSignature | RoomChallengeExpired | RoomSessionNotFound
  | RoomInvalidSessionToken | RoomSessionAlreadyRevoked | CommentTooLong | CommentEmpty | RoomNotAuthenticated

datatype room_rollback =
    RoomUndoChallenge string
  | RoomUndoAuthentication string bool
  | RoomUndoRevoked string bool
  | RoomUndoComment u64

record room_comment =
  rc_id :: u64
  rc_text :: string
  rc_author :: string
  rc_timestamp :: u64

record room =
  creator :: "pubkey option"
  room_created_at :: u64
  authenticated_participants :: "string set"
  room_attempts :: "string \<rightharpoonup> u32"
  room_participants :: "pubkey list"
  active_challenges :: "string \<rightharpoonup> string"
  room_comments :: "room_comment list"
  next_comment_id :: u64

section \<open>Operations\<close>

definition room_initialize :: "pubkey list \<Rightarrow> metadata \<Rightarrow> room" where
  "room_initialize participants md =
     \<lparr>creator = (case participants of [] \<Rightarrow> None | p # _ \<Rightarrow> Some p), room_created_at = accepting_time md,
      authenticated_participants = {}, room_attempts = Map.empty, room_participants = participants,
      active_challenges = Map.empty, room_comments = [], next_comment_id = 1\<rparr>"

definition room_rate_limited :: "auth_env \<Rightarrow> room \<Rightarrow> pubkey \<Rightarrow> bool" where
  "room_rate_limited env g pk = (case room_attempts g (pk_text env pk) of None \<Rightarrow> False | Some n \<Rightarrow> n \<ge> 5)"

definition room_increment :: "auth_env \<Rightarrow> room \<Rightarrow> pubkey \<Rightarrow> room" where
  "room_increment env g pk =
     g\<lparr>room_attempts := (room_attempts g)(pk_text env pk \<mapsto> (case room_attempts g (pk_text env pk) of None \<Rightarrow> 0 | Some n \<Rightarrow> n) + 1)\<rparr>"

type_synonym room_result = "room \<times> (room_error episode_error + room_rollback)"

definition room_request :: "auth_env \<Rightarrow> room \<Rightarrow> pubkey \<Rightarrow> metadata \<Rightarrow> room_result" where
  "room_request env g participant md =
     (let key = pk_text env participant in
      if key \<in> authenticated_participants g then (g, Inl (InvalidCommand RoomAlreadyAuthenticated))
      else let new_challenge = generate_with_provided_timestamp env (accepting_time md);
               g1 = g\<lparr>active_challenges := (active_challenges g)(key \<mapsto> new_challenge)\<rparr>
        in (room_increment env g1 participant, Inr (RoomUndoChallenge key)))"

definition room_response :: "auth_env \<Rightarrow> room \<Rightarrow> string \<Rightarrow> string \<Rightarrow> pubkey \<Rightarrow> room_result" where
  "room_response env g signature nonce participant =
     (let key = pk_text env participant in
      if key \<in> authenticated_participants g then (g, Inl (InvalidCommand RoomAlreadyAuthenticated))
      else if \<not> verify_text env participant nonce signature then (g, Inl (InvalidCommand RoomSignatureVerificationFailed))
      else (g\<lparr>authenticated_participants := insert key (authenticated_participants g),
              active_challenges := (active_challenges g)(key := None)\<rparr>,
            Inr (RoomUndoAuthentication key (key \<in> authenticated_participants g))))"

definition room_revoke :: "auth_env \<Rightarrow> room \<Rightarrow> string \<Rightarrow> string \<Rightarrow> pubkey \<Rightarrow> room_result" where
  "room_revoke env g token signature participant =
     (let key = pk_text env participant in
      if key \<notin> authenticated_participants g then (g, Inl (InvalidCommand RoomSessionNotFound))
      else if \<not> verify_text env participant token signature then (g, Inl (InvalidCommand RoomSignatureVerificationFailed))
      else (g\<lparr>authenticated_participants := authenticated_participants g - {key}\<rparr>,
            Inr (RoomUndoRevoked key (key \<in> authenticated_participants g))))"

definition room_comment_cmd :: "auth_env \<Rightarrow> room \<Rightarrow> string \<Rightarrow> pubkey \<Rightarrow> metadata \<Rightarrow> room_result" where
  "room_comment_cmd env g txt participant md =
     (if is_blank txt then (g, Inl (InvalidCommand CommentEmpty))
      else if length txt > 2000 then (g, Inl (InvalidCommand CommentTooLong))
      else let key = pk_text env participant in
        if key \<notin> authenticated_participants g then (g, Inl (InvalidCommand RoomInvalidSessionToken))
        else let c = \<lparr>rc_id = next_comment_id g, rc_text = txt, rc_author = key, rc_timestamp = accepting_time md\<rparr>
          in (g\<lparr>room_comments := room_comments g @ [c], next_comment_id := next_comment_id g + 1\<rparr>,
              Inr (RoomUndoComment (next_comment_id g))))"

definition room_execute :: "auth_env \<Rightarrow> room \<Rightarrow> room_command \<Rightarrow> pubkey option \<Rightarrow> metadata \<Rightarrow> room_result" where
  "room_execute env g cmd authorization md =
     (case authorization of
        None \<Rightarrow> (g, Inl Unauthorized)
      | Some participant \<Rightarrow>
          if participant \<notin> set (room_participants g) then (g, Inl (InvalidCommand RoomNotAuthorized))
          else if room_rate_limited env g participant then (g, Inl (InvalidCommand RoomRateLimited))
          else case cmd of
            RoomRequestChallenge \<Rightarrow> room_request env g participant md
          | RoomSubmitResponse signature nonce \<Rightarrow> room_response env g signature nonce participant
          | RoomRevokeSession token signature \<Rightarrow> room_revoke env g token signature participant
          | RoomSubmitComment txt _ \<Rightarrow> room_comment_cmd env g txt participant md)"

definition room_rollback_cmd :: "room \<Rightarrow> room_rollback \<Rightarrow> room \<times> bool" where
  "room_rollback_cmd g rb =
     (case rb of
        RoomUndoChallenge key \<Rightarrow> (g\<lparr>active_challenges := (active_challenges g)(key := None)\<rparr>, True)
      | RoomUndoAuthentication key was \<Rightarrow>
          (g\<lparr>authenticated_participants := (if was then insert key (authenticated_participants g) else authenticated_participants g - {key})\<rparr>, True)
      | RoomUndoRevoked key was \<Rightarrow>
          (if was then g\<lparr>authenticated_participants := insert key (authenticated_participants g)\<rparr> else g, True)
      | RoomUndoComment i \<Rightarrow>
          (case remove_first (\<lambda>c. rc_id c = i) (room_comments g) of
             Some cs \<Rightarrow> (g\<lparr>room_comments := cs, next_comment_id := i\<rparr>, True)
           | None \<Rightarrow> (g, False)))"

definition room_episode :: "auth_env \<Rightarrow> (room, room_command, room_rollback, room_error) episode_impl" where
  "room_episode env = \<lparr>ep_initialize = room_initialize,
     ep_execute = (\<lambda>g cmd a md. Some (room_execute env g cmd a md)),
     ep_rollback = (\<lambda>g rb. Some (room_rollback_cmd g rb))\<rparr>"

section \<open>Queries\<close>

definition is_participant_authenticated :: "auth_env \<Rightarrow> room \<Rightarrow> pubkey \<Rightarrow> bool" where
  "is_participant_authenticated env g pk \<longleftrightarrow> pk_text env pk \<in> authenticated_participants g"

definition get_challenge_for_participant :: "auth_env \<Rightarrow> room \<Rightarrow> pubkey \<Rightarrow> string option" where
  "get_challenge_for_participant env g pk = active_challenges g (pk_text env pk)"

definition get_rate_limit_attempts :: "auth_env \<Rightarrow> room \<Rightarrow> pubkey \<Rightarrow> u32" where
  "get_rate_limit_attempts env g pk = (case room_attempts g (pk_text env pk) of None \<Rightarrow> 0 | Some n \<Rightarrow> n)"

definition get_comments_by_author :: "auth_env \<Rightarrow> room \<Rightarrow> pubkey \<Rightarrow> room_comment list" where
  "get_comments_by_author env g pk = filter (\<lambda>c. rc_author c = pk_text env pk) (room_comments g)"

text \<open>A stable sort by descending time.\<close>

definition get_latest_comments :: "room \<Rightarrow> nat \<Rightarrow> room_comment list" where
  "get_latest_comments g limit = take limit (sort_key (\<lambda>c. - uint (rc_timestamp c)) (room_comments g))"

definition room_can_comment :: "auth_env \<Rightarrow> room \<Rightarrow> pubkey \<Rightarrow> bool" where
  "room_can_comment env g pk \<longleftrightarrow> pk_text env pk \<in> authenticated_participants g"

text \<open>\<open>draw i k\<close> is the \<open>k\<close>-th number below 32 that ChaCha8 seeded with \<open>i\<close> yields.\<close>

definition generate_room_code :: "(u64 \<Rightarrow> nat \<Rightarrow> nat) \<Rightarrow> u64 \<Rightarrow> string" where
  "generate_room_code draw episode_id =
     (let charset = ''ABCDEFGHJKLMNPQRSTUVWXYZ23456789'' in map (\<lambda>k. charset ! draw episode_id k) [0..<6])"

section \<open>The invariant\<close>

definition room_inv :: "auth_env \<Rightarrow> room \<Rightarrow> bool" where
  "room_inv env g \<longleftrightarrow>
     (\<forall>c \<in> set (room_comments g). \<not> is_blank (rc_text c) \<and> length (rc_text c) \<le> 2000 \<and>
        rc_author c \<in> pk_text env ` set (room_participants g)) \<and>
     authenticated_participants g \<subseteq> pk_text env ` set (room_participants g)"

lemma room_init_inv: "room_inv env (room_initialize ps md)"
  by (simp add: room_inv_def room_initialize_def)

text \<open>What a successful command does, one case per command.\<close>

lemma room_ok_cases:
  assumes "room_execute env g c a md = (g', Inr r)"
  obtains (request) p where "c = RoomRequestChallenge" "a = Some p" "p \<in> set (room_participants g)"
      "g' = room_increment env (g\<lparr>active_challenges := (active_challenges g)(pk_text env p \<mapsto>
         generate_with_provided_timestamp env (accepting_time md))\<rparr>) p" "r = RoomUndoChallenge (pk_text env p)"
  | (response) p sg n where "c = RoomSubmitResponse sg n" "a = Some p" "p \<in> set (room_participants g)"
      "pk_text env p \<notin> authenticated_participants g" "verify_text env p n sg"
      "g' = g\<lparr>authenticated_participants := insert (pk_text env p) (authenticated_participants g),
         active_challenges := (active_challenges g)(pk_text env p := None)\<rparr>" "r = RoomUndoAuthentication (pk_text env p) False"
  | (revoke) p tok sg where "c = RoomRevokeSession tok sg" "a = Some p" "pk_text env p \<in> authenticated_participants g"
      "g' = g\<lparr>authenticated_participants := authenticated_participants g - {pk_text env p}\<rparr>"
      "r = RoomUndoRevoked (pk_text env p) True"
  | (post) p msg tok where "c = RoomSubmitComment msg tok" "a = Some p" "p \<in> set (room_participants g)"
      "pk_text env p \<in> authenticated_participants g" "\<not> is_blank msg" "length msg \<le> 2000"
      "g' = g\<lparr>room_comments := room_comments g @ [\<lparr>rc_id = next_comment_id g, rc_text = msg, rc_author = pk_text env p,
           rc_timestamp = accepting_time md\<rparr>], next_comment_id := next_comment_id g + 1\<rparr>"
      "r = RoomUndoComment (next_comment_id g)"
proof -
  obtain p where a: "a = Some p" "p \<in> set (room_participants g)" "\<not> room_rate_limited env g p"
    using assms by (auto simp: room_execute_def split: option.splits if_splits)
  show ?thesis
  proof (cases c)
    case RoomRequestChallenge
    with assms a show ?thesis by (intro request) (auto simp: room_execute_def room_request_def Let_def split: if_splits)
  next
    case (RoomSubmitResponse sg n)
    with assms a show ?thesis by (intro response) (auto simp: room_execute_def room_response_def Let_def split: if_splits)
  next
    case (RoomRevokeSession tok sg)
    with assms a show ?thesis by (intro revoke) (auto simp: room_execute_def room_revoke_def Let_def split: if_splits)
  next
    case (RoomSubmitComment msg tok)
    with assms a show ?thesis by (intro post) (auto simp: room_execute_def room_comment_cmd_def Let_def split: if_splits)
  qed
qed

lemma room_err: "room_execute env g c a md = (g', Inl e) \<Longrightarrow> g' = g"
  by (cases c) (auto simp: room_execute_def room_request_def room_response_def room_revoke_def room_comment_cmd_def Let_def
      split: option.splits if_splits)

lemma room_increment_fields [simp]:
  "room_comments (room_increment env g p) = room_comments g" "next_comment_id (room_increment env g p) = next_comment_id g"
  "authenticated_participants (room_increment env g p) = authenticated_participants g"
  "room_participants (room_increment env g p) = room_participants g" "creator (room_increment env g p) = creator g"
  "active_challenges (room_increment env g p) = active_challenges g" "room_created_at (room_increment env g p) = room_created_at g"
  by (simp_all add: room_increment_def)

lemma room_inv_step:
  assumes "room_execute env g c a md = (g', res)" and "room_inv env g"
  shows "room_inv env g'" "room_participants g' = room_participants g"
proof -
  have "room_inv env g' \<and> room_participants g' = room_participants g"
  proof (cases res)
    case (Inl e)
    with assms show ?thesis by (auto dest: room_err)
  next
    case (Inr r)
    with assms(1) have "room_execute env g c a md = (g', Inr r)" by simp
    then show ?thesis using assms(2) by (cases rule: room_ok_cases) (auto simp: room_inv_def numbered_snoc)
  qed
  then show "room_inv env g'" "room_participants g' = room_participants g" by simp_all
qed

interpretation room_log: comment_log "room_episode env" "\<lambda>g. room_inv env g \<and> room_participants g = ps"
    "\<lambda>g. map rc_id (room_comments g)" next_comment_id for env ps
proof unfold_locales
  fix g g' c a md res
  assume i: "room_inv env g \<and> room_participants g = ps" and "ep_execute (room_episode env) g c a md = Some (g', res)"
  then have ex: "room_execute env g c a md = (g', res)" by (simp add: room_episode_def)
  show "room_inv env g' \<and> room_participants g' = ps" using room_inv_step [OF ex] i by simp
  show "map rc_id (room_comments g') = map rc_id (room_comments g) \<and> next_comment_id g' = next_comment_id g \<or>
      map rc_id (room_comments g') = map rc_id (room_comments g) @ [next_comment_id g] \<and> next_comment_id g' = next_comment_id g + 1"
  proof (cases res)
    case (Inl e)
    with ex show ?thesis by (auto dest: room_err)
  next
    case (Inr r)
    with ex have "room_execute env g c a md = (g', Inr r)" by simp
    then show ?thesis by (cases rule: room_ok_cases) auto
  qed
qed (simp add: room_episode_def)

lemma room_reachable:
  assumes "exec_calls (room_episode env) (room_initialize ps md) cs = Some (g, rs)"
  shows "room_inv env g" "room_participants g = ps" "numbered (map rc_id (room_comments g)) (next_comment_id g)"
    "length (room_comments g) \<le> length cs"
  using room_log.run_log [OF assms] room_init_inv by (simp_all add: room_initialize_def)

section \<open>Properties\<close>

text \<open>
  C20: the shape of a comment room. After any series of commands, failed ones included, the comments
  are numbered 1, 2, 3, and so on in the order they were made, none is blank or longer than 2000
  bytes, and every author and every authenticated key belongs to a participant.
\<close>

theorem room_well_formed:
  assumes "exec_calls (room_episode env) (room_initialize ps md) cs = Some (g, rs)"
  shows "map rc_id (room_comments g) = map of_nat [1..<Suc (length (room_comments g))] \<and>
    (\<forall>c \<in> set (room_comments g). \<not> is_blank (rc_text c) \<and> length (rc_text c) \<le> 2000 \<and> rc_author c \<in> pk_text env ` set ps) \<and>
    authenticated_participants g \<subseteq> pk_text env ` set ps"
  using room_reachable [OF assms] by (simp add: room_inv_def numbered_def)

text \<open>Two rooms that differ at most in the counted attempts and in challenges that were dropped.\<close>

definition room_sim :: "room \<Rightarrow> room \<Rightarrow> bool" where
  "room_sim h g \<longleftrightarrow> h\<lparr>room_attempts := Map.empty, active_challenges := Map.empty\<rparr> =
     g\<lparr>room_attempts := Map.empty, active_challenges := Map.empty\<rparr> \<and> active_challenges h \<subseteq>\<^sub>m active_challenges g"

lemma room_simD:
  "room_sim h g \<Longrightarrow> room_comments h = room_comments g" "room_sim h g \<Longrightarrow> next_comment_id h = next_comment_id g"
  "room_sim h g \<Longrightarrow> authenticated_participants h = authenticated_participants g"
  "room_sim h g \<Longrightarrow> room_participants h = room_participants g" "room_sim h g \<Longrightarrow> creator h = creator g"
  "room_sim h g \<Longrightarrow> room_created_at h = room_created_at g" "room_sim h g \<Longrightarrow> active_challenges h \<subseteq>\<^sub>m active_challenges g"
  by (cases h; cases g; simp add: room_sim_def)+

lemma room_simI:
  assumes "room_comments h = room_comments g" "next_comment_id h = next_comment_id g"
    and "authenticated_participants h = authenticated_participants g" "room_participants h = room_participants g"
    and "creator h = creator g" "room_created_at h = room_created_at g" "active_challenges h \<subseteq>\<^sub>m active_challenges g"
  shows "room_sim h g"
  using assms by (cases h; cases g; simp add: room_sim_def)

lemma map_le_unset: "m \<subseteq>\<^sub>m n(k := x) \<Longrightarrow> m(k := None) \<subseteq>\<^sub>m n"
  unfolding map_le_def by (metis domIff fun_upd_apply)

lemma map_le_drop: "m \<subseteq>\<^sub>m n(k := None) \<Longrightarrow> m \<subseteq>\<^sub>m n"
  unfolding map_le_def by (metis domIff fun_upd_apply)

lemma room_rollback_sim:
  assumes "room_execute env g c a md = (g', Inr r)" and "next_comment_id g \<notin> rc_id ` set (room_comments g)"
    and "room_sim h g'"
  obtains g2 where "room_rollback_cmd h r = (g2, True)" "room_sim g2 g" "room_attempts g2 = room_attempts h"
proof -
  note f = room_simD [OF assms(3)]
  from assms(1) show thesis
  proof (cases rule: room_ok_cases)
    case (request q)
    have "(active_challenges h)(pk_text env q := None) \<subseteq>\<^sub>m active_challenges g"
      using f(7) by (intro map_le_unset [where x = "Some (generate_with_provided_timestamp env (accepting_time md))"]) (simp add: request(4))
    with f show ?thesis
      by (intro that [of "h\<lparr>active_challenges := (active_challenges h)(pk_text env q := None)\<rparr>"] room_simI)
        (simp_all add: room_rollback_cmd_def request)
  next
    case (response q sg n)
    have "active_challenges h \<subseteq>\<^sub>m active_challenges g"
      by (rule map_le_drop [where k = "pk_text env q"]) (use f(7) in \<open>simp add: response(6)\<close>)
    with f response(4) show ?thesis
      by (intro that [of "h\<lparr>authenticated_participants := authenticated_participants h - {pk_text env q}\<rparr>"] room_simI)
        (simp_all add: room_rollback_cmd_def response(6,7))
  next
    case (revoke q tok sg)
    with f show ?thesis
      by (intro that [of "h\<lparr>authenticated_participants := insert (pk_text env q) (authenticated_participants h)\<rparr>"] room_simI)
        (simp_all add: room_rollback_cmd_def insert_absorb)
  next
    case (post q msg tok)
    have "remove_first (\<lambda>c. rc_id c = next_comment_id g) (room_comments h) = Some (room_comments g)"
      using f(1) assms(2) by (subst f(1)) (force simp: post(7) intro: remove_first_last)
    with f post show ?thesis
      by (intro that [of "h\<lparr>room_comments := room_comments g, next_comment_id := next_comment_id g\<rparr>"] room_simI)
        (simp_all add: room_rollback_cmd_def)
  qed
qed

lemma room_undo:
  "room_inv env g \<Longrightarrow> room_participants g = ps \<Longrightarrow> numbered (map rc_id (room_comments g)) (next_comment_id g) \<Longrightarrow>
   length (room_comments g) + length cs < 2 ^ 64 - 1 \<Longrightarrow> exec_calls (room_episode env) g cs = Some (g', rs) \<Longrightarrow>
   \<exists>g2. undo_calls (room_episode env) g' rs = Some g2 \<and> room_sim g2 g \<and> room_attempts g2 = room_attempts g'"
proof (induction cs arbitrary: g rs)
  case Nil
  then show ?case by (auto intro: room_simI)
next
  case (Cons x cs)
  obtain c a md where x: "x = (c, a, md)" by (cases x)
  note i = conjI [OF Cons.prems(1,2)]
  from Cons.prems(5) [unfolded x] show ?case
  proof (cases rule: exec_calls_ConsE)
    case (ok g1 r rs')
    note s = room_log.step_log [OF i Cons.prems(3) ok(1)]
    from s Cons.prems(4) obtain h where h: "undo_calls (room_episode env) g' rs' = Some h" "room_sim h g1" "room_attempts h = room_attempts g'"
      using Cons.IH [OF _ _ _ _ ok(2)] by fastforce
    have "room_execute env g c a md = (g1, Inr r)" using ok(1) by (simp add: room_episode_def)
    moreover have "next_comment_id g \<notin> rc_id ` set (room_comments g)"
      using numbered_fresh [OF Cons.prems(3)] Cons.prems(4) by simp
    ultimately obtain g2 where "room_rollback_cmd h r = (g2, True)" "room_sim g2 g" "room_attempts g2 = room_attempts h"
      using h(2) by (rule room_rollback_sim)
    with h ok(3) show ?thesis by (simp add: room_episode_def)
  next
    case (err g1 e)
    then have "g1 = g" using room_err by (simp add: room_episode_def)
    with Cons.IH [OF Cons.prems(1-3) _ err(2) [unfolded this]] Cons.prems(4) show ?thesis by simp
  qed
qed

text \<open>
  C19: what undoing restores in a comment room. Executing any series of commands in a reachable room
  and rolling them back, newest first, succeeds at every step (below 2^64 - 1 commands) and restores
  the comments, their numbering and the authenticated participants. Challenges are only dropped,
  never restored, and the counted attempts stay as they are after the commands.
\<close>

theorem room_undo_restores:
  assumes "exec_calls (room_episode env) (room_initialize ps md) cs0 = Some (g, rs0)"
    and "exec_calls (room_episode env) g cs = Some (g', rs)" and "length cs0 + length cs < 2 ^ 64 - 1"
  shows "\<exists>g2. undo_calls (room_episode env) g' rs = Some g2 \<and> room_comments g2 = room_comments g \<and>
    next_comment_id g2 = next_comment_id g \<and> authenticated_participants g2 = authenticated_participants g \<and>
    active_challenges g2 \<subseteq>\<^sub>m active_challenges g \<and> room_attempts g2 = room_attempts g'"
proof -
  note r = room_reachable [OF assms(1)]
  have "length (room_comments g) + length cs < 2 ^ 64 - 1" using r(4) assms(3) by simp
  then obtain g2 where "undo_calls (room_episode env) g' rs = Some g2" "room_sim g2 g" "room_attempts g2 = room_attempts g'"
    using room_undo [OF r(1-3) _ assms(2)] by blast
  then show ?thesis by (intro exI [of _ g2]) (simp add: room_simD)
qed

text \<open>
  A self-chosen nonce authenticates. The response is not compared with the challenge: in any
  state of the room, with or without a challenge, a participant that is not rate limited becomes
  authenticated by a signature over a text of its own choice, so also by one it made elsewhere.
\<close>

theorem self_chosen_nonce_authenticates:
  assumes "p \<in> set (room_participants g)" and "\<not> room_rate_limited env g p"
    and "pk_text env p \<notin> authenticated_participants g" and "verify_text env p n sg"
  shows "\<exists>g' r. room_execute env g (RoomSubmitResponse sg n) (Some p) md = (g', Inr r) \<and> is_participant_authenticated env g' p"
  using assms by (simp add: room_execute_def room_response_def is_participant_authenticated_def Let_def)

text \<open>
  Five requests lock a participant out for good. Once five attempts are counted, every command of
  the participant is refused, comments and responses included, whatever anybody does in between.
\<close>

theorem locked_out_for_good:
  assumes "room_attempts g (pk_text env p) = Some n" and "5 \<le> n" and "p \<in> set (room_participants g)"
    and "exec_calls (room_episode env) g cs = Some (h, rs)"
  shows "room_execute env h c (Some p) md = (h, Inl (InvalidCommand RoomRateLimited))"
proof -
  have "room_attempts h (pk_text env p) = Some n \<and> room_participants h = room_participants g"
    using assms(1,3,4)
  proof (induction cs arbitrary: g rs)
    case (Cons x cs)
    obtain c a md where x: "x = (c, a, md)" by (cases x)
    obtain g' res where ex: "room_execute env g c a md = (g', res)" by fastforce
    have step: "room_attempts g' (pk_text env p) = Some n \<and> room_participants g' = room_participants g"
    proof (cases res)
      case (Inl e)
      with ex Cons.prems(1) show ?thesis by (auto dest: room_err)
    next
      case (Inr r)
      with ex have ok: "room_execute env g c a md = (g', Inr r)" by simp
      then show ?thesis
      proof (cases rule: room_ok_cases)
        case (request q)
        have "\<not> room_rate_limited env g q" using ok request(2) by (auto simp: room_execute_def split: if_splits)
        then have "pk_text env q \<noteq> pk_text env p" using Cons.prems(1) assms(2) by (auto simp: room_rate_limited_def)
        with request(4) Cons.prems(1) show ?thesis by (simp add: room_increment_def)
      qed (use Cons.prems(1) in simp_all)
    qed
    from Cons.prems(3) ex x obtain rs' where "exec_calls (room_episode env) g' cs = Some (h, rs')"
      by (cases res) (auto simp: room_episode_def)
    with Cons.IH [of g' rs'] step Cons.prems(2) show ?case by auto
  qed simp
  with assms(2,3) show ?thesis by (simp add: room_execute_def room_rate_limited_def)
qed

section \<open>Concrete runs\<close>

text \<open>One participant, whose key prints as the empty text and whose signature is the key itself.\<close>

definition room_demo :: room where
  "room_demo = \<lparr>creator = Some (PubKey [80]), room_created_at = 0, authenticated_participants = {}, room_attempts = [[] \<mapsto> 5],
     room_participants = [PubKey [80]], active_challenges = Map.empty, room_comments = [], next_comment_id = 1\<rparr>"

definition room_demo_calls :: "room_command call list" where
  "room_demo_calls = map (\<lambda>c. (c, Some (PubKey [80]), auth_demo_meta 7))
     [RoomSubmitComment ''hi'' [], RoomSubmitResponse ''P'' ''n'', RoomSubmitComment ''hi'' [], RoomSubmitComment ''  '' []]"

lemma room_demo_run:
  "\<exists>rs. exec_calls (room_episode auth_demo_env) (room_initialize [PubKey [80]] (auth_demo_meta 0)) room_demo_calls =
     Some (\<lparr>creator = Some (PubKey [80]), room_created_at = 0, authenticated_participants = {[]}, room_attempts = Map.empty,
       room_participants = [PubKey [80]], active_challenges = Map.empty,
       room_comments = [\<lparr>rc_id = 1, rc_text = ''hi'', rc_author = [], rc_timestamp = 7\<rparr>], next_comment_id = 2\<rparr>, rs)"
  by (simp add: room_demo_calls_def room_episode_def room_execute_def room_initialize_def room_rate_limited_def
      room_comment_cmd_def room_response_def auth_demo_verify ascii_ws_def ws2_def Let_def)

theorem room_well_formed_witness:
  "map rc_id [\<lparr>rc_id = 1, rc_text = ''hi'', rc_author = [], rc_timestamp = 7\<rparr>] = map of_nat [1..<Suc 1]"
proof -
  obtain rs where "exec_calls (room_episode auth_demo_env) (room_initialize [PubKey [80]] (auth_demo_meta 0)) room_demo_calls =
     Some (\<lparr>creator = Some (PubKey [80]), room_created_at = 0, authenticated_participants = {[]}, room_attempts = Map.empty,
       room_participants = [PubKey [80]], active_challenges = Map.empty,
       room_comments = [\<lparr>rc_id = 1, rc_text = ''hi'', rc_author = [], rc_timestamp = 7\<rparr>], next_comment_id = 2\<rparr>, rs)"
    using room_demo_run by blast
  from room_well_formed [OF this] show ?thesis by simp
qed

theorem room_undo_restores_witness:
  "\<exists>g g' rs0 rs g2. exec_calls (room_episode auth_demo_env) (room_initialize [PubKey [80]] (auth_demo_meta 0)) [] = Some (g, rs0) \<and>
     exec_calls (room_episode auth_demo_env) g room_demo_calls = Some (g', rs) \<and> length (room_comments g') = 1 \<and>
     undo_calls (room_episode auth_demo_env) g' rs = Some g2 \<and> room_comments g2 = []"
proof -
  let ?g = "room_initialize [PubKey [80]] (auth_demo_meta 0)"
  have z: "exec_calls (room_episode auth_demo_env) ?g [] = Some (?g, [])" by simp
  obtain g' rs where run: "exec_calls (room_episode auth_demo_env) ?g room_demo_calls = Some (g', rs)" "length (room_comments g') = 1"
    using room_demo_run by force
  have "length ([] :: room_command call list) + length room_demo_calls < 2 ^ 64 - 1" by (simp add: room_demo_calls_def)
  from room_undo_restores [OF z run(1) this] z run show ?thesis by (auto simp: room_initialize_def)
qed

theorem self_chosen_nonce_authenticates_witness:
  "\<exists>g' r. room_execute auth_demo_env (room_demo\<lparr>room_attempts := Map.empty\<rparr>) (RoomSubmitResponse ''P'' ''any text'') (Some (PubKey [80]))
      (auth_demo_meta 7) = (g', Inr r) \<and> is_participant_authenticated auth_demo_env g' (PubKey [80])"
  by (rule self_chosen_nonce_authenticates) (simp_all add: room_demo_def room_rate_limited_def auth_demo_verify)

theorem locked_out_for_good_witness:
  "room_execute auth_demo_env room_demo (RoomSubmitResponse ''P'' ''n'') (Some (PubKey [80])) (auth_demo_meta 9) =
     (room_demo, Inl (InvalidCommand RoomRateLimited))"
  by (rule locked_out_for_good [where g = room_demo and n = 5 and cs = "[]" and rs = "[]"]) (simp_all add: room_demo_def)

end
