(* ===== verification/Comment_Episode.thy ===== *)
theory Comment_Episode
  imports Comment_Room
begin

text \<open>
  The comment episode with registered sessions (\<^verbatim>\<open>comment-it/src/comment.rs\<close>). The sessions are a
  hash map that \<^verbatim>\<open>RevokeSession\<close> walks through; the order of the walk differs from process to
  process, so it is a parameter.
\<close>

section \<open>Data\<close>

datatype session_command =
    SubmitSessionComment string string string string
  | GetComments "string option"
  | GetCommentsByAuthor string "string option"
  | RegisterSession string string u64
  | RevokeToken string

datatype session_error =
    SessionInvalidToken | SessionSignatureFailed | SessionTooLong | SessionEmpty | SessionNotAuthorized

datatype session_rollback =
    CommentSubmitted u64
  | CommentsQueried
  | SessionRegistered string
  | TokenRevoked string string

record session_comment =
  sc_id :: u64
  sc_text :: string
  sc_author :: string
  sc_timestamp :: u64
  sc_token :: string

record comment_episode =
  ce_comments :: "session_comment list"
  ce_next_id :: u64
  ce_participants :: "pubkey list"
  ce_created_at :: u64
  valid_sessions :: "string \<rightharpoonup> string"
  auth_episode_id :: "u64 option"

type_synonym map_order = "(string \<rightharpoonup> string) \<Rightarrow> string list"

definition walks_keys :: "map_order \<Rightarrow> bool" where
  "walks_keys order \<longleftrightarrow> (\<forall>m. finite (dom m) \<longrightarrow> distinct (order m) \<and> set (order m) = dom m)"

section \<open>Operations\<close>

definition ce_initialize :: "pubkey list \<Rightarrow> metadata \<Rightarrow> comment_episode" where
  "ce_initialize participants md =
     \<lparr>ce_comments = [], ce_next_id = 1, ce_participants = participants, ce_created_at = accepting_time md,
      valid_sessions = Map.empty, auth_episode_id = None\<rparr>"

type_synonym session_result = "comment_episode \<times> (session_error episode_error + session_rollback)"

definition ce_submit :: "auth_env \<Rightarrow> comment_episode \<Rightarrow> string \<Rightarrow> string \<Rightarrow> string \<Rightarrow> pubkey \<Rightarrow> metadata \<Rightarrow> session_result" where
  "ce_submit env g txt author token participant md =
     (if is_blank txt then (g, Inl (InvalidCommand SessionEmpty))
      else if length txt > 2000 then (g, Inl (InvalidCommand SessionTooLong))
      else case valid_sessions g (pk_text env participant) of
        None \<Rightarrow> (g, Inl (InvalidCommand SessionInvalidToken))
      | Some stored_token \<Rightarrow>
          if stored_token \<noteq> token then (g, Inl (InvalidCommand SessionInvalidToken))
          else let c = \<lparr>sc_id = ce_next_id g, sc_text = txt, sc_author = author, sc_timestamp = accepting_time md, sc_token = token\<rparr>
            in (g\<lparr>ce_comments := ce_comments g @ [c], ce_next_id := ce_next_id g + 1\<rparr>, Inr (CommentSubmitted (ce_next_id g))))"

definition ce_register :: "comment_episode \<Rightarrow> string \<Rightarrow> string \<Rightarrow> u64 \<Rightarrow> session_result" where
  "ce_register g public_key token ep =
     (g\<lparr>valid_sessions := (valid_sessions g)(public_key \<mapsto> token),
        auth_episode_id := (case auth_episode_id g of None \<Rightarrow> Some ep | Some e \<Rightarrow> Some e)\<rparr>,
      Inr (SessionRegistered public_key))"

definition ce_revoke :: "map_order \<Rightarrow> comment_episode \<Rightarrow> string \<Rightarrow> session_result" where
  "ce_revoke order g token =
     (case find (\<lambda>k. valid_sessions g k = Some token) (order (valid_sessions g)) of
        None \<Rightarrow> (g, Inl (InvalidCommand SessionInvalidToken))
      | Some key \<Rightarrow> (g\<lparr>valid_sessions := (valid_sessions g)(key := None)\<rparr>, Inr (TokenRevoked key token)))"

definition ce_execute ::
  "auth_env \<Rightarrow> map_order \<Rightarrow> comment_episode \<Rightarrow> session_command \<Rightarrow> pubkey option \<Rightarrow> metadata \<Rightarrow> session_result" where
  "ce_execute env order g cmd authorization md =
     (case authorization of
        None \<Rightarrow> (g, Inl Unauthorized)
      | Some participant \<Rightarrow>
          if participant \<notin> set (ce_participants g) then (g, Inl (InvalidCommand SessionNotAuthorized))
          else case cmd of
            SubmitSessionComment txt author token _ \<Rightarrow> ce_submit env g txt author token participant md
          | GetComments _ \<Rightarrow> (g, Inr CommentsQueried)
          | GetCommentsByAuthor _ _ \<Rightarrow> (g, Inr CommentsQueried)
          | RegisterSession public_key token ep \<Rightarrow> ce_register g public_key token ep
          | RevokeToken token \<Rightarrow> ce_revoke order g token)"

definition ce_rollback :: "comment_episode \<Rightarrow> session_rollback \<Rightarrow> comment_episode \<times> bool" where
  "ce_rollback g rb =
     (case rb of
        CommentSubmitted i \<Rightarrow>
          (case remove_first (\<lambda>c. sc_id c = i) (ce_comments g) of
             Some cs \<Rightarrow> (g\<lparr>ce_comments := cs, ce_next_id := i\<rparr>, True)
           | None \<Rightarrow> (g, False))
      | CommentsQueried \<Rightarrow> (g, True)
      | SessionRegistered key \<Rightarrow> (g\<lparr>valid_sessions := (valid_sessions g)(key := None)\<rparr>, True)
      | TokenRevoked key token \<Rightarrow> (g\<lparr>valid_sessions := (valid_sessions g)(key \<mapsto> token)\<rparr>, True))"

definition comment_episode_impl ::
  "auth_env \<Rightarrow> map_order \<Rightarrow> (comment_episode, session_command, session_rollback, session_error) episode_impl" where
  "comment_episode_impl env order = \<lparr>ep_initialize = ce_initialize,
     ep_execute = (\<lambda>g cmd a md. Some (ce_execute env order g cmd a md)),
     ep_rollback = (\<lambda>g rb. Some (ce_rollback g rb))\<rparr>"

section \<open>Queries\<close>

definition ce_by_author :: "comment_episode \<Rightarrow> string \<Rightarrow> session_comment list" where
  "ce_by_author g author = filter (\<lambda>c. sc_author c = author) (ce_comments g)"

definition ce_latest :: "comment_episode \<Rightarrow> nat \<Rightarrow> session_comment list" where
  "ce_latest g limit = take limit (sort_key (\<lambda>c. - uint (sc_timestamp c)) (ce_comments g))"

definition has_valid_session :: "comment_episode \<Rightarrow> string \<Rightarrow> bool" where
  "has_valid_session g key \<longleftrightarrow> valid_sessions g key \<noteq> None"

definition ce_can_comment :: "comment_episode \<Rightarrow> string \<Rightarrow> string \<Rightarrow> bool" where
  "ce_can_comment g key token \<longleftrightarrow> (case valid_sessions g key of Some t \<Rightarrow> t = token | None \<Rightarrow> False)"

definition authenticated_user_count :: "comment_episode \<Rightarrow> nat" where
  "authenticated_user_count g = card (dom (valid_sessions g))"

section \<open>The numbering and the sessions\<close>

definition ce_inv :: "comment_episode \<Rightarrow> bool" where
  "ce_inv g \<longleftrightarrow> finite (dom (valid_sessions g)) \<and>
     (\<forall>c \<in> set (ce_comments g). \<not> is_blank (sc_text c) \<and> length (sc_text c) \<le> 2000)"

lemma ce_init_inv: "ce_inv (ce_initialize ps md)"
  by (simp add: ce_inv_def ce_initialize_def)

interpretation session_log: comment_log "comment_episode_impl env order" ce_inv "\<lambda>g. map sc_id (ce_comments g)" ce_next_id for env order
proof unfold_locales
  fix g g' c a md res
  assume i: "ce_inv g" and "ep_execute (comment_episode_impl env order) g c a md = Some (g', res)"
  then have ex: "ce_execute env order g c a md = (g', res)" by (simp add: comment_episode_impl_def)
  note defs = ce_execute_def ce_submit_def ce_register_def ce_revoke_def Let_def
  show "ce_inv g'" using ex i by (cases c) (auto simp: defs ce_inv_def split: option.splits if_splits)
  show "map sc_id (ce_comments g') = map sc_id (ce_comments g) \<and> ce_next_id g' = ce_next_id g \<or>
      map sc_id (ce_comments g') = map sc_id (ce_comments g) @ [ce_next_id g] \<and> ce_next_id g' = ce_next_id g + 1"
    using ex by (cases c) (auto simp: defs split: option.splits if_splits)
qed (simp add: comment_episode_impl_def)

lemma ce_reachable:
  assumes "exec_calls (comment_episode_impl env order) (ce_initialize ps md) cs = Some (g, rs)"
  shows "ce_inv g" "numbered (map sc_id (ce_comments g)) (ce_next_id g)"
  using session_log.run_log [OF assms ce_init_inv] by (simp_all add: ce_initialize_def)

section \<open>Properties\<close>

text \<open>
  What a rollback restores in the session episode. In a reachable state with fewer than 2^64 - 1
  comments, rolling back a command that succeeded restores the state, except that a registration is
  undone by dropping the key's session, also one that was there before, and that the first registered
  authentication episode stays recorded.
\<close>

theorem session_rollback_exact:
  assumes "exec_calls (comment_episode_impl env order) (ce_initialize ps md0) cs = Some (g, rs)"
    and "length (ce_comments g) < 2 ^ 64 - 1" and "ce_execute env order g c a md = (g', Inr r)"
  shows "ce_rollback g' r =
    (g\<lparr>valid_sessions := (case c of RegisterSession key _ _ \<Rightarrow> (valid_sessions g)(key := None) | _ \<Rightarrow> valid_sessions g),
       auth_episode_id := auth_episode_id g'\<rparr>, True)"
proof -
  have fresh: "\<forall>x \<in> set (ce_comments g). sc_id x \<noteq> ce_next_id g"
    using numbered_fresh [OF ce_reachable(2) [OF assms(1)]] assms(2) by (auto simp: image_iff)
  show ?thesis
  proof (cases c)
    case (SubmitSessionComment msg au tok sg)
    with assms(3) fresh show ?thesis
      by (auto simp: ce_execute_def ce_submit_def ce_rollback_def Let_def remove_first_last split: option.splits if_splits)
  next
    case (RevokeToken tok)
    with assms(3) show ?thesis
      by (auto simp: ce_execute_def ce_revoke_def ce_rollback_def find_Some_iff fun_upd_idem split: option.splits if_splits)
  qed (use assms(3) in \<open>auto simp: ce_execute_def ce_register_def ce_rollback_def split: option.splits if_splits\<close>)
qed

text \<open>
  Registered sessions authenticate nobody. In any state a participant can register a session for
  its own key and then comment under any author's name: no signature is looked at and the author is
  whatever the command says.
\<close>

theorem any_author_can_be_named:
  assumes "p \<in> set (ce_participants g)" and "\<not> is_blank txt" and "length txt \<le> 2000"
  shows "\<exists>g' rs. exec_calls (comment_episode_impl env order) g
      [(RegisterSession (pk_text env p) token e, Some p, md), (SubmitSessionComment txt author token sg, Some p, md)] = Some (g', rs) \<and>
    ce_comments g' = ce_comments g @
      [\<lparr>sc_id = ce_next_id g, sc_text = txt, sc_author = author, sc_timestamp = accepting_time md, sc_token = token\<rparr>]"
  using assms by (simp add: comment_episode_impl_def ce_execute_def ce_register_def ce_submit_def Let_def)

lemma walk_from:
  assumes "m k \<noteq> None"
  obtains order where "walks_keys order" "finite (dom m) \<Longrightarrow> \<exists>ks. order m = k # ks"
proof -
  have "\<forall>n. \<exists>ks. finite (dom n) \<longrightarrow> distinct ks \<and> set ks = dom n \<and> (n = m \<longrightarrow> hd ks = k \<and> ks \<noteq> [])"
  proof
    fix n :: "string \<rightharpoonup> string"
    show "\<exists>ks. finite (dom n) \<longrightarrow> distinct ks \<and> set ks = dom n \<and> (n = m \<longrightarrow> hd ks = k \<and> ks \<noteq> [])"
    proof (cases "finite (dom n) \<and> n = m")
      case True
      then obtain ks where "set ks = dom m - {k}" "distinct ks" using finite_distinct_list [of "dom m - {k}"] by auto
      with True assms show ?thesis by (intro exI [of _ "k # ks"]) auto
    qed (use finite_distinct_list [of "dom n"] in auto)
  qed
  then obtain order where o: "\<forall>n. finite (dom n) \<longrightarrow> distinct (order n) \<and> set (order n) = dom n \<and> (n = m \<longrightarrow> hd (order n) = k \<and> order n \<noteq> [])"
    by metis
  then have "walks_keys order" by (simp add: walks_keys_def)
  moreover have "\<exists>ks. order m = k # ks" if "finite (dom m)" using o that by (metis list.collapse)
  ultimately show thesis using that by blast
qed

text \<open>
  Replicas can disagree about a revocation. When two keys hold the same token, \<^verbatim>\<open>RevokeSession\<close>
  removes whichever key its walk through the hash map meets first: there are two walks for which the
  same command, by any participant, leaves different sessions.
\<close>

theorem revocation_depends_on_walk:
  assumes "exec_calls (comment_episode_impl env order) (ce_initialize ps md0) cs = Some (g, rs)"
    and "p \<in> set (ce_participants g)" and "valid_sessions g k1 = Some token" and "valid_sessions g k2 = Some token" and "k1 \<noteq> k2"
  shows "\<exists>order1 order2. walks_keys order1 \<and> walks_keys order2 \<and>
    has_valid_session (fst (ce_execute env order1 g (RevokeToken token) (Some p) md)) k2 \<and>
    \<not> has_valid_session (fst (ce_execute env order2 g (RevokeToken token) (Some p) md)) k2"
proof -
  have fin: "finite (dom (valid_sessions g))" using ce_reachable(1) [OF assms(1)] by (simp add: ce_inv_def)
  obtain o1 where o1: "walks_keys o1" "\<exists>ks. o1 (valid_sessions g) = k1 # ks"
    using walk_from [of "valid_sessions g" k1] assms(3) fin by (metis option.distinct(1))
  obtain o2 where o2: "walks_keys o2" "\<exists>ks. o2 (valid_sessions g) = k2 # ks"
    using walk_from [of "valid_sessions g" k2] assms(4) fin by (metis option.distinct(1))
  have "has_valid_session (fst (ce_execute env o1 g (RevokeToken token) (Some p) md)) k2"
    using o1(2) assms by (auto simp: ce_execute_def ce_revoke_def has_valid_session_def)
  moreover have "\<not> has_valid_session (fst (ce_execute env o2 g (RevokeToken token) (Some p) md)) k2"
    using o2(2) assms by (auto simp: ce_execute_def ce_revoke_def has_valid_session_def)
  ultimately show ?thesis using o1(1) o2(1) by blast
qed

section \<open>Concrete runs\<close>

definition session_demo :: comment_episode where
  "session_demo = \<lparr>ce_comments = [], ce_next_id = 1, ce_participants = [PubKey [80]], ce_created_at = 0,
     valid_sessions = [''a'' \<mapsto> ''t'', ''b'' \<mapsto> ''t''], auth_episode_id = Some 4\<rparr>"

definition session_demo_calls :: "session_command call list" where
  "session_demo_calls = [(RegisterSession ''a'' ''t'' 4, Some (PubKey [80]), auth_demo_meta 1),
     (RegisterSession ''b'' ''t'' 5, Some (PubKey [80]), auth_demo_meta 2)]"

lemma session_demo_run:
  "exec_calls (comment_episode_impl auth_demo_env order) (ce_initialize [PubKey [80]] (auth_demo_meta 0)) session_demo_calls =
     Some (session_demo, [SessionRegistered ''a'', SessionRegistered ''b''])"
  by (simp add: session_demo_calls_def comment_episode_impl_def ce_execute_def ce_register_def ce_initialize_def session_demo_def)

theorem session_rollback_exact_witness:
  "ce_rollback (fst (ce_execute auth_demo_env (\<lambda>_. []) session_demo (RegisterSession ''a'' ''u'' 6) (Some (PubKey [80])) (auth_demo_meta 3)))
      (SessionRegistered ''a'') = (session_demo\<lparr>valid_sessions := [''b'' \<mapsto> ''t'']\<rparr>, True)"
proof -
  have ex: "ce_execute auth_demo_env (\<lambda>_. []) session_demo (RegisterSession ''a'' ''u'' 6) (Some (PubKey [80])) (auth_demo_meta 3) =
      (session_demo\<lparr>valid_sessions := [''a'' \<mapsto> ''u'', ''b'' \<mapsto> ''t'']\<rparr>, Inr (SessionRegistered ''a''))"
    by (auto simp: ce_execute_def ce_register_def session_demo_def)
  have "length (ce_comments session_demo) < 2 ^ 64 - 1" by (simp add: session_demo_def)
  from session_rollback_exact [OF session_demo_run this ex] show ?thesis
    by (simp add: ex) (auto simp: session_demo_def)
qed

theorem any_author_can_be_named_witness:
  "\<exists>g' rs. exec_calls (comment_episode_impl auth_demo_env (\<lambda>_. [])) session_demo
      [(RegisterSession (pk_text auth_demo_env (PubKey [80])) ''z'' 9, Some (PubKey [80]), auth_demo_meta 3),
       (SubmitSessionComment ''hi'' ''somebody else'' ''z'' [], Some (PubKey [80]), auth_demo_meta 3)] = Some (g', rs) \<and>
    map sc_author (ce_comments g') = [''somebody else'']"
  using any_author_can_be_named [of "PubKey [80]" session_demo "''hi''" auth_demo_env "\<lambda>_. []" "''z''" 9 "auth_demo_meta 3" "''somebody else''" "[]"]
  by (auto simp: session_demo_def ascii_ws_def ws2_def)

theorem revocation_depends_on_walk_witness:
  "\<exists>order1 order2. walks_keys order1 \<and> walks_keys order2 \<and>
    has_valid_session (fst (ce_execute auth_demo_env order1 session_demo (RevokeToken ''t'') (Some (PubKey [80])) (auth_demo_meta 3))) ''b'' \<and>
    \<not> has_valid_session (fst (ce_execute auth_demo_env order2 session_demo (RevokeToken ''t'') (Some (PubKey [80])) (auth_demo_meta 3))) ''b''"
  by (rule revocation_depends_on_walk [where ?k1.0 = "''a''", OF session_demo_run]) (simp_all add: session_demo_def)

end
