(* ===== verification/Bond_Scripts.thy ===== *)
theory Bond_Scripts
  imports Reorg
begin

text \<open>
  The scripts of comment bonds (\<^verbatim>\<open>comment-board/src/wallet/kaspa_scripts.rs\<close>): the scripts the
  wallet locks a bond with, their validation, and the compact descriptor the episode reads back from
  an output. A public key is its compressed form of 33 bytes.
\<close>

section \<open>Scripts of the wallet\<close>

datatype unlock_condition =
    TimeLock u64 pubkey
  | ModeratorRelease pubkey "pubkey list" nat
  | TimeOrModerator u64 pubkey "pubkey list" nat

definition pk_serialize :: "pubkey \<Rightarrow> bytes" where
  "pk_serialize pk = pk_bytes pk"

definition create_bond_timelock_script :: "u64 \<Rightarrow> pubkey \<Rightarrow> bytes" where
  "create_bond_timelock_script unlock_time user = u64_le unlock_time @ pk_serialize user @ [1]"

definition create_moderator_multisig_script :: "pubkey \<Rightarrow> pubkey list \<Rightarrow> nat \<Rightarrow> (string + bytes)" where
  "create_moderator_multisig_script user mods required =
     (if required > length mods then Inl ''Required signatures cannot exceed number of moderators''
      else Inr ([of_nat required] @ pk_serialize user @ [of_nat (length mods)] @ concat (map pk_serialize mods) @ [2]))"

definition create_combined_unlock_script :: "u64 \<Rightarrow> pubkey \<Rightarrow> pubkey list \<Rightarrow> nat \<Rightarrow> (string + bytes)" where
  "create_combined_unlock_script unlock_time user mods required =
     (let timelock_script = create_bond_timelock_script unlock_time user
      in case create_moderator_multisig_script user mods required of
        Inl e \<Rightarrow> Inl e
      | Inr multisig_script \<Rightarrow>
          Inr ([3] @ u32_le (of_nat (length timelock_script)) @ timelock_script @
               u32_le (of_nat (length multisig_script)) @ multisig_script))"

text \<open>A script public key is a version with the script.\<close>

definition create_bond_script_pubkey :: "unlock_condition \<Rightarrow> (string + u16 \<times> bytes)" where
  "create_bond_script_pubkey condition =
     map_sum id (Pair 0) (case condition of
        TimeLock t user \<Rightarrow> Inr (create_bond_timelock_script t user)
      | ModeratorRelease user mods required \<Rightarrow> create_moderator_multisig_script user mods required
      | TimeOrModerator t user mods required \<Rightarrow> create_combined_unlock_script t user mods required)"

definition validate_script_conditions :: "unlock_condition \<Rightarrow> u64 \<Rightarrow> (string + unit)" where
  "validate_script_conditions condition current_time =
     (case condition of
        TimeLock t _ \<Rightarrow>
          if t \<le> current_time then Inl ''Unlock time must be in the future''
          else if t > current_time + 365 * 24 * 60 * 60 then Inl ''Unlock time cannot be more than 1 year in the future''
          else Inr ()
      | ModeratorRelease _ mods required \<Rightarrow>
          if mods = [] then Inl ''At least one moderator public key required''
          else if required = 0 then Inl ''At least one signature required''
          else if required > length mods then Inl ''Required signatures cannot exceed number of moderators''
          else Inr ()
      | TimeOrModerator t _ mods required \<Rightarrow>
          if t \<le> current_time then Inl ''Unlock time must be in the future''
          else if mods = [] then Inl ''At least one moderator public key required''
          else if required > length mods then Inl ''Required signatures cannot exceed number of moderators''
          else Inr ())"

section \<open>Descriptors of the episode\<close>

datatype bond_script =
    BondP2PK
  | BondTimeLock u64
  | BondMultisig u8 u8
  | BondTimeOrModerator u64 u8 u8

definition put_moderators :: "u8 \<Rightarrow> pubkey list option \<Rightarrow> bytes" where
  "put_moderators cnt mods = (case mods of Some mks \<Rightarrow> concat (map pk_serialize (take (unat cnt) mks)) | None \<Rightarrow> [])"

definition encode_bond_descriptor :: "bond_script \<Rightarrow> pubkey \<Rightarrow> pubkey list option \<Rightarrow> bytes" where
  "encode_bond_descriptor descriptor user mods =
     (case descriptor of
        BondP2PK \<Rightarrow> [1] @ pk_serialize user
      | BondTimeLock t \<Rightarrow> [2] @ u64_le t @ pk_serialize user
      | BondMultisig req cnt \<Rightarrow> [3] @ [req] @ [cnt] @ put_moderators cnt mods @ pk_serialize user
      | BondTimeOrModerator t req cnt \<Rightarrow> [4] @ u64_le t @ [req] @ [cnt] @ put_moderators cnt mods @ pk_serialize user)"

definition create_bond_script_pubkey_from_descriptor :: "bond_script \<Rightarrow> pubkey \<Rightarrow> pubkey list option \<Rightarrow> u16 \<times> bytes" where
  "create_bond_script_pubkey_from_descriptor descriptor user mods = (0, encode_bond_descriptor descriptor user mods)"

text \<open>The readers take the bytes and the offset, and return the offset behind what they read.\<close>

definition read_u64 :: "bytes \<Rightarrow> nat \<Rightarrow> (u64 \<times> nat) option" where
  "read_u64 b off = (if off + 8 > length b then None else Some (le_u64 (take 8 (drop off b)), off + 8))"

definition skip_pub :: "bytes \<Rightarrow> nat \<Rightarrow> nat option" where
  "skip_pub b off = (if off + 33 > length b then None else Some (off + 33))"

text \<open>Two bytes, the announced moderator keys and the user's key.\<close>

definition read_moderators :: "bytes \<Rightarrow> nat \<Rightarrow> (u8 \<times> u8) option" where
  "read_moderators b i =
     (if i + 2 > length b then None
      else let req = b ! i; cnt = b ! (i + 1); need = unat cnt * 33 in
        if i + 2 + need > length b then None
        else case skip_pub b (i + 2 + need) of None \<Rightarrow> None | Some _ \<Rightarrow> Some (req, cnt))"

definition decode_bond_descriptor :: "bytes \<Rightarrow> bond_script option" where
  "decode_bond_descriptor b =
     (if b = [] then None
      else if b ! 0 = 1 then (case skip_pub b 1 of None \<Rightarrow> None | Some _ \<Rightarrow> Some BondP2PK)
      else if b ! 0 = 2 then
        (case read_u64 b 1 of None \<Rightarrow> None
         | Some (t, i) \<Rightarrow> (case skip_pub b i of None \<Rightarrow> None | Some _ \<Rightarrow> Some (BondTimeLock t)))
      else if b ! 0 = 3 then map_option (\<lambda>(req, cnt). BondMultisig req cnt) (read_moderators b 1)
      else if b ! 0 = 4 then
        (case read_u64 b 1 of None \<Rightarrow> None
         | Some (t, i) \<Rightarrow> map_option (\<lambda>(req, cnt). BondTimeOrModerator t req cnt) (read_moderators b i))
      else None)"

section \<open>Reading back\<close>

definition pk33 :: "pubkey \<Rightarrow> bool" where
  "pk33 pk \<longleftrightarrow> length (pk_bytes pk) = 33"

lemma length_pk [simp]: "pk33 pk \<Longrightarrow> length (pk_serialize pk) = 33"
  by (simp add: pk33_def pk_serialize_def)

lemma length_pks [simp]: "\<forall>k \<in> set ks. pk33 k \<Longrightarrow> length (concat (map pk_serialize ks)) = 33 * length ks"
  by (induction ks) auto

text \<open>The moderators a descriptor announces, and whether their keys are there.\<close>

fun moderators_given :: "bond_script \<Rightarrow> pubkey list option \<Rightarrow> bool" where
  "moderators_given (BondMultisig _ cnt) mods = (unat cnt \<le> (case mods of Some ks \<Rightarrow> length ks | None \<Rightarrow> 0))"
| "moderators_given (BondTimeOrModerator _ _ cnt) mods = (unat cnt \<le> (case mods of Some ks \<Rightarrow> length ks | None \<Rightarrow> 0))"
| "moderators_given _ _ = True"

lemma length_put_moderators:
  assumes "\<forall>ks k. mods = Some ks \<longrightarrow> k \<in> set ks \<longrightarrow> pk33 k"
  shows "length (put_moderators cnt mods) = 33 * min (unat cnt) (case mods of Some ks \<Rightarrow> length ks | None \<Rightarrow> 0)"
proof (cases mods)
  case (Some ks)
  then have "\<forall>k \<in> set (take (unat cnt) ks). pk33 k" using assms by (auto dest: in_set_takeD)
  from length_pks [OF this] Some show ?thesis by (simp add: put_moderators_def min.commute)
qed (simp add: put_moderators_def)

lemma read_moderators_put:
  assumes "\<forall>ks k. mods = Some ks \<longrightarrow> k \<in> set ks \<longrightarrow> pk33 k" and "pk33 user"
  shows "read_moderators (pre @ req # cnt # put_moderators cnt mods @ pk_serialize user) (length pre) =
    (if unat cnt \<le> (case mods of Some ks \<Rightarrow> length ks | None \<Rightarrow> 0) then Some (req, cnt) else None)"
  using assms(2) by (auto simp: read_moderators_def skip_pub_def nth_append length_put_moderators [OF assms(1)] Let_def min_def)

lemma read_u64_tag: "read_u64 (x # u64_le t @ suf) 1 = Some (t, 9)"
  by (simp add: read_u64_def)

lemmas encode_simps = create_bond_script_pubkey_from_descriptor_def encode_bond_descriptor_def snd_conv bond_script.case append_Cons append_Nil

text \<open>
  C18: descriptors. What the episode decodes from an encoded descriptor is the descriptor, exactly
  when the keys of all announced moderators were supplied to the encoder; otherwise it decodes
  nothing, so the descriptor of the command goes unchecked.
\<close>

theorem bond_descriptor_exact:
  assumes "pk33 user" and "\<forall>ks k. mods = Some ks \<longrightarrow> k \<in> set ks \<longrightarrow> pk33 k"
  shows "decode_bond_descriptor (snd (create_bond_script_pubkey_from_descriptor d user mods)) =
    (if moderators_given d mods then Some d else None)"
proof (cases d)
  case BondP2PK
  with assms(1) show ?thesis by (simp add: encode_simps decode_bond_descriptor_def skip_pub_def)
next
  case (BondTimeLock t)
  have "decode_bond_descriptor (2 # u64_le t @ pk_serialize user) = Some (BondTimeLock t)"
    unfolding decode_bond_descriptor_def read_u64_tag using assms(1) by (simp add: skip_pub_def)
  with BondTimeLock show ?thesis by (simp only: encode_simps moderators_given.simps if_True)
next
  case (BondMultisig req cnt)
  have "decode_bond_descriptor (3 # req # cnt # put_moderators cnt mods @ pk_serialize user) =
      (if moderators_given d mods then Some d else None)"
    using read_moderators_put [OF assms(2,1), of "[3]" req cnt] by (simp add: decode_bond_descriptor_def BondMultisig)
  with BondMultisig show ?thesis by (simp only: encode_simps)
next
  case (BondTimeOrModerator t req cnt)
  have "decode_bond_descriptor (4 # u64_le t @ req # cnt # put_moderators cnt mods @ pk_serialize user) =
      (if moderators_given d mods then Some d else None)"
    unfolding decode_bond_descriptor_def read_u64_tag
    using read_moderators_put [OF assms(2,1), of "4 # u64_le t" req cnt] by (simp add: BondTimeOrModerator)
  with BondTimeOrModerator show ?thesis by (simp only: encode_simps)
qed

lemma nat_le_nth: "i < k \<Longrightarrow> nat_le k n ! i = of_nat (n div 256 ^ i)"
proof (induction k arbitrary: i n)
  case (Suc k)
  have "(of_nat (m mod 256) :: u8) = of_nat m" for m by (simp add: word_unat_eq_iff unat_of_nat)
  with Suc show ?case by (cases i) (simp_all add: div_mult2_eq)
qed simp

lemma u32_le_42: "u32_le 42 = [42, 0, 0, 0]"
proof -
  have "(4 :: nat) = Suc (Suc (Suc (Suc 0)))" by simp
  then show ?thesis unfolding u32_le_def by (simp only: nat_le.simps) simp
qed

lemma u64_le_top: "t < 2 ^ 56 \<Longrightarrow> u64_le t ! 7 = 0"
  using nat_le_nth [of 7 8 "unat t"] by (simp add: u64_le_def word_less_nat_alt)

text \<open>
  The episode misreads the scripts of the wallet. The script of a combined condition is decoded
  as a multisignature that asks for 42 signatures of no moderators, whatever the condition; a time
  lock below 2^56 is never decoded as that time lock.
\<close>

theorem wallet_scripts_misread:
  assumes "pk33 user" and "pk_bytes user ! 0 \<noteq> 0"
  shows "(create_bond_script_pubkey (TimeOrModerator t user mods required) = Inr (v, script) \<longrightarrow>
      decode_bond_descriptor script = Some (BondMultisig 42 0)) \<and>
    (create_bond_script_pubkey (TimeLock t user) = Inr (v, script) \<and> t < 2 ^ 56 \<longrightarrow>
      decode_bond_descriptor script \<noteq> Some (BondTimeLock t))"
proof (intro conjI impI)
  assume "create_bond_script_pubkey (TimeOrModerator t user mods required) = Inr (v, script)"
  then obtain rest where script: "script = [3] @ u32_le 42 @ u64_le t @ pk_serialize user @ rest"
    using assms(1) by (auto simp: create_bond_script_pubkey_def create_combined_unlock_script_def
        create_bond_timelock_script_def Let_def split: sum.splits)
  with assms(1) show "decode_bond_descriptor script = Some (BondMultisig 42 0)"
    by (simp add: u32_le_42 decode_bond_descriptor_def read_moderators_def skip_pub_def Let_def)
next
  assume a: "create_bond_script_pubkey (TimeLock t user) = Inr (v, script) \<and> t < 2 ^ 56"
  then have script: "script = u64_le t @ pk_serialize user @ [1]"
    by (simp add: create_bond_script_pubkey_def create_bond_timelock_script_def)
  show "decode_bond_descriptor script \<noteq> Some (BondTimeLock t)"
  proof
    assume "decode_bond_descriptor script = Some (BondTimeLock t)"
    then have "t = le_u64 (take 8 (drop 1 script))"
      by (auto simp: decode_bond_descriptor_def read_u64_def split: if_splits option.splits)
    moreover have "length (take 8 (drop 1 script)) = 8" using assms(1) by (simp add: script)
    ultimately have "u64_le t = take 8 (drop 1 script)" using u64_le_of_bytes by metis
    moreover have "take 8 (drop 1 script) ! 7 = pk_bytes user ! 0"
      using assms(1) by (simp add: script nth_append pk_serialize_def pk33_def)
    ultimately have "u64_le t ! 7 = pk_bytes user ! 0" by simp
    moreover have "u64_le t ! 7 = 0" using a u64_le_top by blast
    ultimately show False using assms(2) by simp
  qed
qed

section \<open>Concrete scripts\<close>

definition demo_pk :: pubkey where
  "demo_pk = PubKey (2 # replicate 32 7)"

lemma demo_pk33 [simp]: "pk33 demo_pk" "pk_bytes demo_pk ! 0 = 2"
  by (simp_all add: demo_pk_def pk33_def)

theorem bond_descriptor_exact_witness:
  "decode_bond_descriptor (snd (create_bond_script_pubkey_from_descriptor (BondTimeOrModerator 9 1 2) demo_pk (Some [demo_pk, demo_pk]))) =
     Some (BondTimeOrModerator 9 1 2) \<and>
   decode_bond_descriptor (snd (create_bond_script_pubkey_from_descriptor (BondMultisig 1 2) demo_pk (Some [demo_pk]))) = None"
  using bond_descriptor_exact [of demo_pk "Some [demo_pk, demo_pk]" "BondTimeOrModerator 9 1 2"]
    bond_descriptor_exact [of demo_pk "Some [demo_pk]" "BondMultisig 1 2"] by simp

theorem wallet_scripts_misread_witness:
  "\<exists>v script. create_bond_script_pubkey (TimeOrModerator 1000 demo_pk [demo_pk] 1) = Inr (v, script) \<and>
     decode_bond_descriptor script = Some (BondMultisig 42 0)"
proof -
  obtain v script where s: "create_bond_script_pubkey (TimeOrModerator 1000 demo_pk [demo_pk] 1) = Inr (v, script)"
    by (auto simp: create_bond_script_pubkey_def create_combined_unlock_script_def create_moderator_multisig_script_def Let_def)
  have "pk_bytes demo_pk ! 0 \<noteq> 0" by simp
  from wallet_scripts_misread [where t = 1000 and required = 1 and v = v and script = script, OF demo_pk33(1) this] s show ?thesis by blast
qed

end
