(* ===== verification/Contract_Board.thy ===== *)
theory Contract_Board
  imports Comment_Log Bond_Scripts
begin

text \<open>
  The comment board with bonds (\<^verbatim>\<open>comment-board/src/episode\<close>): the contract of a room with its rules,
  the episode that runs it and the bonds it records. Fields of type \<^verbatim>\<open>f64\<close>, which the episode only
  copies, and the maps of the moderation system, which stay empty without the feature \<^verbatim>\<open>advanced\<close>,
  are left out.
\<close>

section \<open>The contract\<close>

record room_rules =
  min_bond :: u64
  max_bond :: u64
  bonds_enabled :: bool
  max_comment_length :: u64
  min_reputation_threshold :: "32 word"
  spam_detection_enabled :: bool
  forbidden_words :: "string list"
  community_moderation :: bool
  auto_penalty_enabled :: bool
  dispute_resolution_timeout :: u64
  voting_period :: u64
  dynamic_bond_pricing :: bool
  quality_bonus_enabled :: bool

definition default_rules :: room_rules where
  "default_rules = \<lparr>min_bond = 100000000, max_bond = 10000000000, bonds_enabled = True, max_comment_length = 500,
     min_reputation_threshold = - 50, spam_detection_enabled = True, forbidden_words = [], community_moderation = True,
     auto_penalty_enabled = True, dispute_resolution_timeout = 172800, voting_period = 86400, dynamic_bond_pricing = True,
     quality_bonus_enabled = True\<rparr>"

datatype moderation_status = StatusActive | UnderReview | Penalized | Rewarded | Disputed

record economic_comment =
  ec_id :: u64
  ec_text :: string
  ec_author :: string
  ec_timestamp :: u64
  ec_bond :: u64
  ec_upvotes :: u64
  ec_downvotes :: u64
  ec_rewards :: u64
  ec_status :: moderation_status
  ec_dispute :: "u64 option"

record contract =
  room_creator :: pubkey
  rules :: room_rules
  ct_created_at :: u64
  episode_lifetime :: u64
  participation_bond :: u64
  penalty_pool :: u64
  total_locked_value :: u64
  moderators :: "pubkey list"
  reputation_scores :: "string \<rightharpoonup> 32 word"
  ct_comments :: "economic_comment list"
  room_members :: "string list"
  authenticated_users :: "string list"
  current_challenge :: "string option"
  total_comments :: u64
  total_violations :: u64
  total_rewards_distributed :: u64
  active_disputes :: u64

definition contract_new :: "pubkey \<Rightarrow> room_rules \<Rightarrow> pubkey list \<Rightarrow> u64 \<Rightarrow> u64 option \<Rightarrow> contract" where
  "contract_new cr rs mods initial_funding lifetime =
     \<lparr>room_creator = cr, rules = rs, ct_created_at = 0, episode_lifetime = (case lifetime of Some l \<Rightarrow> l | None \<Rightarrow> 7776000),
      participation_bond = min_bond rs, penalty_pool = 0, total_locked_value = initial_funding, moderators = mods,
      reputation_scores = Map.empty, ct_comments = [], room_members = [], authenticated_users = [], current_challenge = None,
      total_comments = 0, total_violations = 0, total_rewards_distributed = 0, active_disputes = 0\<rparr>"

definition can_participate :: "auth_env \<Rightarrow> contract \<Rightarrow> pubkey \<Rightarrow> bool" where
  "can_participate env ct user \<longleftrightarrow>
     sint (case reputation_scores ct (pk_text env user) of Some r \<Rightarrow> r | None \<Rightarrow> 0) \<ge> sint (min_reputation_threshold (rules ct))"

text \<open>\<open>lower\<close> is \<^verbatim>\<open>str::to_lowercase\<close>.\<close>

definition contains_forbidden_words :: "(string \<Rightarrow> string) \<Rightarrow> contract \<Rightarrow> string \<Rightarrow> string option" where
  "contains_forbidden_words lower ct txt =
     (if forbidden_words (rules ct) = [] then None
      else find (\<lambda>w. contains (lower txt) (lower w)) (forbidden_words (rules ct)))"

section \<open>The episode\<close>

record contract_board =
  contract :: contract
  locked_utxos :: "string \<rightharpoonup> u64"
  cb_next_comment_id :: u64
  cb_next_dispute_id :: u64
  cb_next_vote_id :: u64
  contract_created_at :: u64
  contract_expires_at :: u64
  showcase_highlights :: "string list"

datatype contract_command =
    JoinRoom u64
  | BoardRequestChallenge
  | BoardSubmitResponse string string
  | BoardSubmitComment string u64 "u32 option" "bond_script option"

text \<open>The errors the episode raises; the other constructors of \<^verbatim>\<open>ContractError\<close> are never built.\<close>

datatype contract_error =
    InsufficientBond u64 u64
  | UserNotAuthenticated
  | RoomRulesViolation string
  | ContractExpired u32
  | InvalidBondCommand string

record contract_rollback =
  operation_type :: string
  cr_comment_id :: "u64 option"
  cr_bond_amount :: "u64 option"
  reputation_change :: "(string \<times> 32 word \<times> 32 word) option"
  penalty_pool_change :: "64 word option"
  cr_prev_timestamp :: u64
  utxo_changes :: "(string \<times> u64) list"

text \<open>\<open>dev_pk\<close> is the public key of the development seed.\<close>

definition cb_initialize :: "pubkey \<Rightarrow> pubkey list \<Rightarrow> metadata \<Rightarrow> contract_board" where
  "cb_initialize dev_pk participants md =
     \<lparr>contract = contract_new (case participants of [] \<Rightarrow> dev_pk | p # _ \<Rightarrow> p) default_rules [] 0 (Some 7776000),
      locked_utxos = Map.empty, cb_next_comment_id = 1, cb_next_dispute_id = 1, cb_next_vote_id = 1,
      contract_created_at = accepting_time md,
      contract_expires_at = max (accepting_time md + 7776000) 2000000000,
      showcase_highlights = (if participants = [] then [] else [''Episode contract launched at block '' @ show_u64 (accepting_daa md)])\<rparr>"

type_synonym contract_result = "contract_board \<times> (contract_error episode_error + contract_rollback)"

definition cb_rollback_of :: "string \<Rightarrow> metadata \<Rightarrow> contract_rollback" where
  "cb_rollback_of operation md = \<lparr>operation_type = operation, cr_comment_id = None, cr_bond_amount = None, reputation_change = None,
     penalty_pool_change = None, cr_prev_timestamp = accepting_time md, utxo_changes = []\<rparr>"

definition execute_join_room :: "auth_env \<Rightarrow> contract_board \<Rightarrow> pubkey \<Rightarrow> u64 \<Rightarrow> metadata \<Rightarrow> contract_result" where
  "execute_join_room env g participant bond md =
     (let key = pk_text env participant; ct = contract g
      in (g\<lparr>contract := ct\<lparr>room_members := room_members ct @ [key], total_locked_value := total_locked_value ct + bond\<rparr>\<rparr>,
          Inr ((cb_rollback_of ''join_room'' md)\<lparr>cr_bond_amount := Some bond, utxo_changes := [(''join_bond_'' @ key, bond)]\<rparr>)))"

definition execute_request_challenge :: "auth_env \<Rightarrow> contract_board \<Rightarrow> metadata \<Rightarrow> contract_result" where
  "execute_request_challenge env g md =
     (g\<lparr>contract := (contract g)\<lparr>current_challenge := Some (''auth_'' @ hash_text env (tx_id md))\<rparr>\<rparr>,
      Inr (cb_rollback_of ''request_challenge'' md))"

definition execute_submit_response :: "auth_env \<Rightarrow> contract_board \<Rightarrow> pubkey \<Rightarrow> string \<Rightarrow> string \<Rightarrow> metadata \<Rightarrow> contract_result" where
  "execute_submit_response env g participant signature nonce md =
     (case current_challenge (contract g) of
        None \<Rightarrow> (g, Inl (InvalidCommand UserNotAuthenticated))
      | Some ch \<Rightarrow>
          if nonce = ch \<and> signature \<noteq> [] then
            let ct = contract g
            in (g\<lparr>contract := ct\<lparr>authenticated_users := authenticated_users ct @ [pk_text env participant], current_challenge := None\<rparr>\<rparr>,
                Inr (cb_rollback_of ''authenticate'' md))
          else (g, Inl (InvalidCommand UserNotAuthenticated)))"

text \<open>The output at an index, and the checks of a declared bond against the outputs of the carrier.\<close>

definition output_at :: "tx_output_info list \<Rightarrow> u32 \<Rightarrow> tx_output_info option" where
  "output_at outputs idx = (if unat idx < length outputs then Some (outputs ! unat idx) else None)"

definition bond_outputs_error :: "tx_output_info list \<Rightarrow> u64 \<Rightarrow> u32 option \<Rightarrow> bond_script option \<Rightarrow> contract_error option" where
  "bond_outputs_error outputs bond bond_output_index descr =
     (case bond_output_index of
        Some idx \<Rightarrow>
          if map_option out_value (output_at outputs idx) \<noteq> Some bond then Some (InsufficientBond bond 0)
          else (case descr of
              None \<Rightarrow> None
            | Some descriptor \<Rightarrow>
                (case Option.bind (output_at outputs idx) script_bytes of
                   None \<Rightarrow> None
                 | Some sb \<Rightarrow>
                     (case decode_bond_descriptor sb of
                        None \<Rightarrow> None
                      | Some onchain \<Rightarrow>
                          if onchain \<noteq> descriptor then Some (InvalidBondCommand ''bond script descriptor mismatch'') else None)))
      | None \<Rightarrow> if \<exists>x \<in> set outputs. out_value x \<ge> bond then None else Some (InsufficientBond bond 0))"

definition bond_error :: "room_rules \<Rightarrow> u64 \<Rightarrow> u32 option \<Rightarrow> bond_script option \<Rightarrow> metadata \<Rightarrow> contract_error option" where
  "bond_error rs bond idx descr md =
     (if bond > 0 then
        if \<not> bonds_enabled rs then Some (RoomRulesViolation ''Bonds are disabled for this room by organizer'')
        else if bond < min_bond rs then Some (InsufficientBond (min_bond rs) bond)
        else (case tx_outputs md of None \<Rightarrow> None | Some outputs \<Rightarrow> bond_outputs_error outputs bond idx descr)
      else None)"

definition comment_utxo_id :: "auth_env \<Rightarrow> u64 \<Rightarrow> metadata \<Rightarrow> string" where
  "comment_utxo_id env cid md = ''comment_bond_'' @ show_u64 cid @ ''_'' @ hash_text env (tx_id md)"

definition execute_submit_comment ::
  "auth_env \<Rightarrow> contract_board \<Rightarrow> pubkey \<Rightarrow> string \<Rightarrow> u64 \<Rightarrow> u32 option \<Rightarrow> bond_script option \<Rightarrow> metadata \<Rightarrow> contract_result" where
  "execute_submit_comment env g participant txt bond idx descr md =
     (if is_blank txt then (g, Inl (InvalidCommand (RoomRulesViolation ''Empty comment'')))
      else case bond_error (rules (contract g)) bond idx descr md of
        Some e \<Rightarrow> (g, Inl (InvalidCommand e))
      | None \<Rightarrow>
          let cid = cb_next_comment_id g; ct = contract g; utxo_id = comment_utxo_id env cid md;
              c = \<lparr>ec_id = cid, ec_text = txt, ec_author = pk_text env participant, ec_timestamp = accepting_time md,
                   ec_bond = bond, ec_upvotes = 0, ec_downvotes = 0, ec_rewards = 0, ec_status = StatusActive, ec_dispute = None\<rparr>
          in (g\<lparr>locked_utxos := (locked_utxos g)(utxo_id \<mapsto> bond),
                contract := ct\<lparr>ct_comments := ct_comments ct @ [c], total_comments := total_comments ct + 1,
                  total_locked_value := total_locked_value ct + bond\<rparr>,
                cb_next_comment_id := cid + 1\<rparr>,
              Inr ((cb_rollback_of ''submit_comment'' md)\<lparr>cr_comment_id := Some cid, cr_bond_amount := Some bond,
                utxo_changes := [(utxo_id, bond)]\<rparr>)))"

definition cb_execute :: "auth_env \<Rightarrow> contract_board \<Rightarrow> contract_command \<Rightarrow> pubkey option \<Rightarrow> metadata \<Rightarrow> contract_result" where
  "cb_execute env g cmd authorization md =
     (case authorization of
        None \<Rightarrow> (g, Inl Unauthorized)
      | Some participant \<Rightarrow>
          if accepting_time md > contract_expires_at g then (g, Inl (InvalidCommand (ContractExpired 0)))
          else case cmd of
            JoinRoom bond \<Rightarrow> execute_join_room env g participant bond md
          | BoardRequestChallenge \<Rightarrow> execute_request_challenge env g md
          | BoardSubmitResponse signature nonce \<Rightarrow> execute_submit_response env g participant signature nonce md
          | BoardSubmitComment txt bond idx descr \<Rightarrow> execute_submit_comment env g participant txt bond idx descr md)"

definition reverse_utxo :: "string \<times> u64 \<Rightarrow> (string \<rightharpoonup> u64) \<Rightarrow> (string \<rightharpoonup> u64)" where
  "reverse_utxo x m = (case x of (utxo_id, amount) \<Rightarrow> if amount > 0 then m(utxo_id := None) else m(utxo_id \<mapsto> amount))"

definition cb_rollback :: "contract_board \<Rightarrow> contract_rollback \<Rightarrow> contract_board \<times> bool" where
  "cb_rollback g rb =
     (let g1 = g\<lparr>locked_utxos := fold reverse_utxo (utxo_changes rb) (locked_utxos g)\<rparr>;
          ct = contract g1;
          unlock = (\<lambda>ct. case cr_bond_amount rb of None \<Rightarrow> ct
                     | Some bond \<Rightarrow> ct\<lparr>total_locked_value := sat_sub (total_locked_value ct) bond\<rparr>)
      in (if operation_type rb = ''submit_comment'' then
            (case cr_comment_id rb of
               None \<Rightarrow> g1
             | Some cid \<Rightarrow>
                 let kept = filter (\<lambda>c. ec_id c \<noteq> cid) (ct_comments ct);
                     ct1 = ct\<lparr>ct_comments := kept\<rparr>;
                     ct2 = (if total_comments ct1 > 0 \<and> length kept < length (ct_comments ct)
                            then ct1\<lparr>total_comments := total_comments ct1 - 1\<rparr> else ct1)
                 in g1\<lparr>contract := unlock ct2\<rparr>)
          else if operation_type rb = ''join_room'' then g1\<lparr>contract := unlock ct\<rparr>
          else g1, True))"

definition contract_episode :: "auth_env \<Rightarrow> pubkey \<Rightarrow> (contract_board, contract_command, contract_rollback, contract_error) episode_impl" where
  "contract_episode env dev_pk = \<lparr>ep_initialize = cb_initialize dev_pk,
     ep_execute = (\<lambda>g cmd a md. Some (cb_execute env g cmd a md)),
     ep_rollback = (\<lambda>g rb. Some (cb_rollback g rb))\<rparr>"

section \<open>The polled state\<close>

record contract_state =
  cs_comments :: "economic_comment list"
  cs_members :: "string set"
  cs_authenticated :: "string set"
  cs_challenge :: "string option"
  cs_total_comments :: u64
  cs_total_locked :: u64
  cs_penalty_pool :: u64
  cs_rules :: room_rules

definition cb_poll :: "contract_board \<Rightarrow> contract_state" where
  "cb_poll g = (let ct = contract g in
     \<lparr>cs_comments = ct_comments ct, cs_members = set (room_members ct), cs_authenticated = set (authenticated_users ct),
      cs_challenge = current_challenge ct, cs_total_comments = total_comments ct, cs_total_locked = total_locked_value ct,
      cs_penalty_pool = penalty_pool ct, cs_rules = rules ct\<rparr>)"

end
