(* ===== verification/Contract_Board_Properties.thy ===== *)
theory Contract_Board_Properties
  imports Contract_Board
begin

text \<open>
  What the contract of the comment board keeps and what it does not: its books, the conditions under
  which a comment is accepted, what a reorg of the engine leaves behind, and how little the login of
  the room guards.
\<close>

section \<open>Successful commands\<close>

lemma cb_ok_cases:
  assumes "cb_execute env g c a md = (g', Inr r)"
  obtains (join) p bond where "c = JoinRoom bond" "a = Some p" "execute_join_room env g p bond md = (g', Inr r)"
  | (request) p where "c = BoardRequestChallenge" "a = Some p" "execute_request_challenge env g md = (g', Inr r)"
  | (response) p sg n where "c = BoardSubmitResponse sg n" "a = Some p" "execute_submit_response env g p sg n md = (g', Inr r)"
  | (post) p msg bond idx descr where "c = BoardSubmitComment msg bond idx descr" "a = Some p" "\<not> is_blank msg"
      "bond_error (rules (contract g)) bond idx descr md = None"
      "execute_submit_comment env g p msg bond idx descr md = (g', Inr r)"
  using assms by (cases c) (auto simp: cb_execute_def execute_submit_comment_def split: option.splits if_splits)

lemma cb_err: "cb_execute env g c a md = (g', Inl e) \<Longrightarrow> g' = g"
  by (cases c) (auto simp: cb_execute_def execute_join_room_def execute_request_challenge_def execute_submit_response_def
      execute_submit_comment_def Let_def split: option.splits if_splits)

lemmas cb_defs = execute_join_room_def execute_request_challenge_def execute_submit_response_def execute_submit_comment_def
  cb_rollback_of_def Let_def

lemma bond_error_min: "bond_error rs bond idx descr md = None \<Longrightarrow> bond = 0 \<or> min_bond rs \<le> bond"
  by (auto simp: bond_error_def word_gt_0 split: if_splits)

section \<open>The books\<close>

definition contract_inv :: "contract_board \<Rightarrow> bool" where
  "contract_inv g \<longleftrightarrow> rules (contract g) = default_rules \<and>
     total_comments (contract g) = of_nat (length (ct_comments (contract g))) \<and>
     (\<forall>c \<in> set (ct_comments (contract g)). \<not> is_blank (ec_text c) \<and> (ec_bond c = 0 \<or> 100000000 \<le> ec_bond c))"

lemma contract_init_inv: "contract_inv (cb_initialize dev_pk ps md)"
  by (simp add: contract_inv_def cb_initialize_def contract_new_def)

definition rollback_bond :: "contract_rollback \<Rightarrow> u64" where
  "rollback_bond r = (case cr_bond_amount r of Some b \<Rightarrow> b | None \<Rightarrow> 0)"

lemma cb_step:
  assumes "cb_execute env g c a md = (g', Inr r)" and "contract_inv g"
  shows "contract_inv g'"
    and "total_locked_value (contract g') = total_locked_value (contract g) + rollback_bond r"
    and "map ec_id (ct_comments (contract g')) = map ec_id (ct_comments (contract g)) \<and> cb_next_comment_id g' = cb_next_comment_id g \<or>
      map ec_id (ct_comments (contract g')) = map ec_id (ct_comments (contract g)) @ [cb_next_comment_id g] \<and>
        cb_next_comment_id g' = cb_next_comment_id g + 1"
proof -
  have "contract_inv g' \<and> total_locked_value (contract g') = total_locked_value (contract g) + rollback_bond r \<and>
     (map ec_id (ct_comments (contract g')) = map ec_id (ct_comments (contract g)) \<and> cb_next_comment_id g' = cb_next_comment_id g \<or>
      map ec_id (ct_comments (contract g')) = map ec_id (ct_comments (contract g)) @ [cb_next_comment_id g] \<and>
        cb_next_comment_id g' = cb_next_comment_id g + 1)"
    using assms(1)
  proof (cases rule: cb_ok_cases)
    case (join p bond)
    with assms(2) show ?thesis by (auto simp: cb_defs contract_inv_def rollback_bond_def)
  next
    case (request p)
    with assms(2) show ?thesis by (auto simp: cb_defs contract_inv_def rollback_bond_def)
  next
    case (response p sg n)
    with assms(2) show ?thesis by (auto simp: cb_defs contract_inv_def rollback_bond_def split: option.splits if_splits)
  next
    case (post p msg bond idx descr)
    have "bond = 0 \<or> 100000000 \<le> bond"
      using bond_error_min [OF post(4)] assms(2) by (simp add: contract_inv_def default_rules_def)
    with post assms(2) show ?thesis by (auto simp: cb_defs contract_inv_def rollback_bond_def)
  qed
  then show "contract_inv g'" "total_locked_value (contract g') = total_locked_value (contract g) + rollback_bond r"
    "map ec_id (ct_comments (contract g')) = map ec_id (ct_comments (contract g)) \<and> cb_next_comment_id g' = cb_next_comment_id g \<or>
      map ec_id (ct_comments (contract g')) = map ec_id (ct_comments (contract g)) @ [cb_next_comment_id g] \<and>
        cb_next_comment_id g' = cb_next_comment_id g + 1" by blast+
qed

interpretation contract_log: comment_log "contract_episode env dev_pk" contract_inv
    "\<lambda>g. map ec_id (ct_comments (contract g))" cb_next_comment_id for env dev_pk
proof unfold_locales
  fix g g' c a md res
  assume i: "contract_inv g" and "ep_execute (contract_episode env dev_pk) g c a md = Some (g', res)"
  then have ex: "cb_execute env g c a md = (g', res)" by (simp add: contract_episode_def)
  have "contract_inv g' \<and> (map ec_id (ct_comments (contract g')) = map ec_id (ct_comments (contract g)) \<and> cb_next_comment_id g' = cb_next_comment_id g \<or>
      map ec_id (ct_comments (contract g')) = map ec_id (ct_comments (contract g)) @ [cb_next_comment_id g] \<and>
        cb_next_comment_id g' = cb_next_comment_id g + 1)"
  proof (cases res)
    case (Inl e)
    with ex have "g' = g" by (auto dest: cb_err)
    with i show ?thesis by simp
  next
    case (Inr r)
    with ex have "cb_execute env g c a md = (g', Inr r)" by simp
    from cb_step [OF this i] show ?thesis by blast
  qed
  then show "contract_inv g'" and "map ec_id (ct_comments (contract g')) = map ec_id (ct_comments (contract g)) \<and> cb_next_comment_id g' = cb_next_comment_id g \<or>
      map ec_id (ct_comments (contract g')) = map ec_id (ct_comments (contract g)) @ [cb_next_comment_id g] \<and>
        cb_next_comment_id g' = cb_next_comment_id g + 1" by blast+
qed (simp add: contract_episode_def)

lemma contract_reachable:
  assumes "exec_calls (contract_episode env dev_pk) (cb_initialize dev_pk ps md) cs = Some (g, rs)"
  shows "contract_inv g" "numbered (map ec_id (ct_comments (contract g))) (cb_next_comment_id g)"
    "length (ct_comments (contract g)) \<le> length cs"
  using contract_log.run_log [OF assms contract_init_inv] by (simp_all add: cb_initialize_def contract_new_def)

lemma locked_sum:
  "exec_calls (contract_episode env dev_pk) g cs = Some (h, rs) \<Longrightarrow> contract_inv g \<Longrightarrow>
     total_locked_value (contract h) = total_locked_value (contract g) + sum_list (map rollback_bond rs)"
proof (induction cs arbitrary: g rs)
  case (Cons x cs)
  obtain c a md where x: "x = (c, a, md)" by (cases x)
  from Cons.prems(1) [unfolded x] show ?case
  proof (cases rule: exec_calls_ConsE)
    case (ok g' r rs')
    then have "cb_execute env g c a md = (g', Inr r)" by (simp add: contract_episode_def)
    from cb_step(1,2) [OF this Cons.prems(2)] Cons.IH [OF ok(2)] ok(3) show ?thesis by simp
  next
    case (err g' e)
    then have "g' = g" by (simp add: contract_episode_def cb_err)
    with Cons.IH err Cons.prems(2) show ?thesis by simp
  qed
qed simp

text \<open>
  C17: the books of the contract. After any series of commands the locked value is the sum (modulo
  2^64) of the bonds in the rollback objects handed out, the comments are numbered 1, 2, 3, and so
  on, the total counts them, and the bond of every comment is zero or at least the minimum of one KAS.
  The amounts named by those who join are counted, too, but nothing checks them: they can be anything.
\<close>

theorem contract_books_add_up:
  assumes "exec_calls (contract_episode env dev_pk) (cb_initialize dev_pk ps md) cs = Some (g, rs)"
  shows "total_locked_value (contract g) = sum_list (map rollback_bond rs) \<and>
    map ec_id (ct_comments (contract g)) = map of_nat [1..<Suc (length (ct_comments (contract g)))] \<and>
    total_comments (contract g) = of_nat (length (ct_comments (contract g))) \<and>
    (\<forall>c \<in> set (ct_comments (contract g)). ec_bond c = 0 \<or> 100000000 \<le> ec_bond c)"
  using contract_reachable [OF assms] locked_sum [OF assms contract_init_inv]
  by (simp add: contract_inv_def numbered_def cb_initialize_def contract_new_def)

section \<open>When a comment is accepted\<close>

text \<open>
  The exact condition for a comment. It must not be blank and the contract not expired. A bond
  must be allowed and reach the minimum. If the outputs of the carrier are known, an announced output
  carries exactly the bond, and a descriptor read from its script is the announced one; without an
  announced output some output must carry at least the bond, whoever can spend it.
\<close>

theorem contract_comment_guard:
  "(\<exists>g' r. cb_execute env g (BoardSubmitComment msg bond idx descr) (Some p) md = (g', Inr r)) \<longleftrightarrow>
   accepting_time md \<le> contract_expires_at g \<and> \<not> is_blank msg \<and>
   (bond = 0 \<or> bonds_enabled (rules (contract g)) \<and> min_bond (rules (contract g)) \<le> bond \<and>
     (case tx_outputs md of
        None \<Rightarrow> True
      | Some outs \<Rightarrow>
          (case idx of
             None \<Rightarrow> \<exists>x \<in> set outs. bond \<le> out_value x
           | Some i \<Rightarrow> unat i < length outs \<and> out_value (outs ! unat i) = bond \<and>
               (case (descr, Option.bind (script_bytes (outs ! unat i)) decode_bond_descriptor) of (Some d, Some d') \<Rightarrow> d' = d | _ \<Rightarrow> True))))"
proof -
  have outs: "bond_outputs_error outs bond idx descr = None \<longleftrightarrow>
      (case idx of
         None \<Rightarrow> \<exists>x \<in> set outs. bond \<le> out_value x
       | Some i \<Rightarrow> unat i < length outs \<and> out_value (outs ! unat i) = bond \<and>
           (case (descr, Option.bind (script_bytes (outs ! unat i)) decode_bond_descriptor) of (Some d, Some d') \<Rightarrow> d' = d | _ \<Rightarrow> True))"
    for outs
    by (auto simp: bond_outputs_error_def output_at_def split: option.splits if_splits)
  have "(\<exists>g' r. cb_execute env g (BoardSubmitComment msg bond idx descr) (Some p) md = (g', Inr r)) \<longleftrightarrow>
      accepting_time md \<le> contract_expires_at g \<and> \<not> is_blank msg \<and> bond_error (rules (contract g)) bond idx descr md = None"
    by (auto simp: cb_execute_def execute_submit_comment_def Let_def split: option.splits)
  then show ?thesis
    by (auto simp: bond_error_def outs word_gt_0 split: option.splits if_splits)
qed

section \<open>Reorganisations\<close>

lemma cb_comment_undone:
  assumes "numbered (map ec_id (ct_comments (contract g))) (cb_next_comment_id g)" and "contract_inv g"
    and "length (ct_comments (contract g)) < 2 ^ 64 - 1" and "unat (total_locked_value (contract g)) + unat bond < 2 ^ 64"
    and "cb_execute env g (BoardSubmitComment msg bond idx descr) (Some p) md = (g1, Inr r)" and "cb_rollback g1 r = (g2, b)"
  shows "contract g2 = contract g" "cb_next_comment_id g2 = cb_next_comment_id g + 1" "contract_expires_at g2 = contract_expires_at g"
proof -
  have fresh: "\<forall>c \<in> set (ct_comments (contract g)). ec_id c \<noteq> cb_next_comment_id g"
    using numbered_fresh [OF assms(1)] assms(3) by (auto simp: image_iff)
  then have kept: "filter (\<lambda>c. ec_id c \<noteq> cb_next_comment_id g) (ct_comments (contract g)) = ct_comments (contract g)"
    by (simp add: filter_id_conv)
  have "total_comments (contract g) + 1 = of_nat (Suc (length (ct_comments (contract g))))"
    using assms(2) by (simp add: contract_inv_def)
  moreover have "unat (of_nat (Suc (length (ct_comments (contract g)))) :: u64) = Suc (length (ct_comments (contract g)))"
    using assms(3) by (simp add: unat_of_nat del: of_nat_Suc)
  ultimately have total: "total_comments (contract g) + 1 \<noteq> 0" by (metis nat.distinct(1) unat_0)
  have "unat (total_locked_value (contract g) + bond) = unat (total_locked_value (contract g)) + unat bond"
    using assms(4) by (simp add: unat_word_ariths)
  then have locked: "sat_sub (total_locked_value (contract g) + bond) bond = total_locked_value (contract g)"
    by (simp add: sat_sub_def word_le_nat_alt)
  have ex: "execute_submit_comment env g p msg bond idx descr md = (g1, Inr r)"
    using assms(5) by (auto simp: cb_execute_def split: if_splits)
  let ?c = "\<lparr>ec_id = cb_next_comment_id g, ec_text = msg, ec_author = pk_text env p, ec_timestamp = accepting_time md,
    ec_bond = bond, ec_upvotes = 0, ec_downvotes = 0, ec_rewards = 0, ec_status = StatusActive, ec_dispute = None\<rparr>"
  have "g1 = g\<lparr>locked_utxos := (locked_utxos g)(comment_utxo_id env (cb_next_comment_id g) md \<mapsto> bond),
      contract := (contract g)\<lparr>ct_comments := ct_comments (contract g) @ [?c], total_comments := total_comments (contract g) + 1,
        total_locked_value := total_locked_value (contract g) + bond\<rparr>, cb_next_comment_id := cb_next_comment_id g + 1\<rparr> \<and>
    r = (cb_rollback_of ''submit_comment'' md)\<lparr>cr_comment_id := Some (cb_next_comment_id g), cr_bond_amount := Some bond,
      utxo_changes := [(comment_utxo_id env (cb_next_comment_id g) md, bond)]\<rparr>"
    using ex by (simp add: execute_submit_comment_def Let_def split: option.splits if_splits)
  then have g1: "g1 = g\<lparr>locked_utxos := (locked_utxos g)(comment_utxo_id env (cb_next_comment_id g) md \<mapsto> bond),
      contract := (contract g)\<lparr>ct_comments := ct_comments (contract g) @ [?c], total_comments := total_comments (contract g) + 1,
        total_locked_value := total_locked_value (contract g) + bond\<rparr>, cb_next_comment_id := cb_next_comment_id g + 1\<rparr>"
    and r: "operation_type r = ''submit_comment''" "cr_comment_id r = Some (cb_next_comment_id g)" "cr_bond_amount r = Some bond"
    by (simp_all add: cb_rollback_of_def)
  have g2: "g2 = g1\<lparr>locked_utxos := fold reverse_utxo (utxo_changes r) (locked_utxos g1), contract := contract g\<rparr>"
    using assms(6) total by (simp add: cb_rollback_def r g1 kept locked word_gt_0 Let_def)
  show "contract g2 = contract g" "cb_next_comment_id g2 = cb_next_comment_id g + 1" "contract_expires_at g2 = contract_expires_at g"
    by (simp_all add: g2 g1)
qed

text \<open>
  A reorg renumbers comments. When a comment of a reachable state is rolled back, the contract is
  restored but the next number is not: the same command, executed again, stores the same comment under
  the next number, so nodes that saw the reverted block and nodes that did not disagree about it.
\<close>

theorem reorg_renumbers_comments:
  assumes "exec_calls (contract_episode env dev_pk) (cb_initialize dev_pk ps md0) cs = Some (g, rs)"
    and "length cs < 2 ^ 64 - 1" and "unat (total_locked_value (contract g)) + unat bond < 2 ^ 64"
    and "cb_execute env g (BoardSubmitComment msg bond idx descr) (Some p) md = (g1, Inr r1)" and "cb_rollback g1 r1 = (g2, b)"
  shows "contract g2 = contract g \<and>
    (\<exists>c g3 r3. ct_comments (contract g1) = ct_comments (contract g) @ [c] \<and>
       cb_execute env g2 (BoardSubmitComment msg bond idx descr) (Some p) md = (g3, Inr r3) \<and>
       ct_comments (contract g3) = ct_comments (contract g) @ [c\<lparr>ec_id := ec_id c + 1\<rparr>])"
proof -
  note r = contract_reachable [OF assms(1)]
  have "length (ct_comments (contract g)) < 2 ^ 64 - 1" using r(3) assms(2) by linarith
  note u = cb_comment_undone [OF r(2,1) this assms(3-5)]
  show ?thesis
    using assms(4) u by (auto simp: cb_execute_def execute_submit_comment_def Let_def split: option.splits if_splits)
qed

section \<open>What the login guards\<close>

text \<open>
  The login guards nothing. Any non-empty text is accepted as the signature of the current
  challenge, from any key, and a comment without a bond is accepted from any key in any state before
  the expiry: the author need not have joined or answered a challenge, and neither the maximum
  length nor the forbidden words of the rules are looked at.
\<close>

theorem login_guards_nothing:
  assumes "accepting_time md \<le> contract_expires_at g"
  shows "(current_challenge (contract g) = Some ch \<longrightarrow> sg \<noteq> [] \<longrightarrow>
      (\<exists>g' r. cb_execute env g (BoardSubmitResponse sg ch) (Some p) md = (g', Inr r) \<and>
         pk_text env p \<in> set (authenticated_users (contract g')))) \<and>
    (\<not> is_blank msg \<longrightarrow>
      (\<exists>g' r c. cb_execute env g (BoardSubmitComment msg 0 idx descr) (Some p) md = (g', Inr r) \<and>
         ct_comments (contract g') = ct_comments (contract g) @ [c] \<and> ec_text c = msg \<and> ec_author c = pk_text env p))"
  using assms by (auto simp: cb_execute_def execute_submit_response_def execute_submit_comment_def bond_error_def Let_def)

section \<open>Concrete runs\<close>

definition board_demo_meta :: "u64 \<Rightarrow> metadata" where
  "board_demo_meta t = \<lparr>accepting_hash = [], accepting_daa = 0, accepting_time = t, tx_id = [],
     tx_outputs = Some [\<lparr>out_value = 300000000, script_version = 0, script_bytes = None\<rparr>]\<rparr>"

definition board_demo_calls :: "contract_command call list" where
  "board_demo_calls = [(JoinRoom 5, Some (PubKey [80]), board_demo_meta 1),
     (BoardSubmitComment ''hi'' 200000000 None None, Some (PubKey [81]), board_demo_meta 2),
     (BoardSubmitComment ''hi'' 400000000 None None, Some (PubKey [81]), board_demo_meta 2)]"

definition board_demo :: contract_board where
  "board_demo = \<lparr>contract = (contract_new (PubKey [9]) default_rules [] 0 (Some 7776000))
       \<lparr>room_members := [[]],
        ct_comments := [\<lparr>ec_id = 1, ec_text = ''hi'', ec_author = [], ec_timestamp = 2, ec_bond = 200000000, ec_upvotes = 0,
          ec_downvotes = 0, ec_rewards = 0, ec_status = StatusActive, ec_dispute = None\<rparr>],
        total_comments := 1, total_locked_value := 200000005\<rparr>,
     locked_utxos = [comment_utxo_id auth_demo_env 1 (board_demo_meta 2) \<mapsto> 200000000],
     cb_next_comment_id = 2, cb_next_dispute_id = 1, cb_next_vote_id = 1, contract_created_at = 0,
     contract_expires_at = 2000000000, showcase_highlights = []\<rparr>"

lemma contract_new_fields:
  "room_members (contract_new p rs ms f l) = []" "total_locked_value (contract_new p rs ms f l) = f"
  "ct_comments (contract_new p rs ms f l) = []" "total_comments (contract_new p rs ms f l) = 0"
  "rules (contract_new p rs ms f l) = rs"
  by (simp_all add: contract_new_def)

lemma demo_bond:
  "bond_error default_rules 200000000 None None (board_demo_meta 2) = None"
  "bond_error default_rules 400000000 None None (board_demo_meta 2) = Some (InsufficientBond 400000000 0)"
  by (simp_all add: bond_error_def bond_outputs_error_def default_rules_def board_demo_meta_def)

lemma demo_meta_time [simp]: "accepting_time (board_demo_meta t) = t"
  by (simp add: board_demo_meta_def)

lemma demo_hi: "\<not> is_blank ''hi''"
  by (simp add: ascii_ws_def ws2_def)

lemma board_demo_run:
  "\<exists>rs. exec_calls (contract_episode auth_demo_env (PubKey [9])) (cb_initialize (PubKey [9]) [] (board_demo_meta 0)) board_demo_calls =
     Some (board_demo, rs) \<and> map rollback_bond rs = [5, 200000000]"
  by (simp add: board_demo_calls_def board_demo_def contract_episode_def cb_execute_def cb_initialize_def
      cb_defs demo_bond demo_hi contract_new_fields rollback_bond_def del: is_blank.simps)

lemma board_demo_fields: "total_locked_value (contract board_demo) = 200000005" "contract_expires_at board_demo = 2000000000"
  by (simp_all add: board_demo_def)

theorem contract_books_add_up_witness:
  "total_locked_value (contract board_demo) = 200000005 \<and> total_comments (contract board_demo) = of_nat (length (ct_comments (contract board_demo)))"
proof -
  obtain rs where run: "exec_calls (contract_episode auth_demo_env (PubKey [9])) (cb_initialize (PubKey [9]) [] (board_demo_meta 0)) board_demo_calls =
     Some (board_demo, rs)" "map rollback_bond rs = [5, 200000000]" by (rule exE [OF board_demo_run], elim conjE) (rule that)
  note books = contract_books_add_up [OF run(1), unfolded run(2)]
  from conjunct1 [OF books] conjunct1 [OF conjunct2 [OF conjunct2 [OF books]]] show ?thesis by simp
qed

theorem reorg_renumbers_comments_witness:
  "\<exists>g1 r1 c g3 r3. cb_execute auth_demo_env board_demo (BoardSubmitComment ''hi'' 0 None None) (Some (PubKey [81])) (board_demo_meta 2) = (g1, Inr r1) \<and>
     ct_comments (contract g1) = ct_comments (contract board_demo) @ [c] \<and>
     cb_execute auth_demo_env (fst (cb_rollback g1 r1)) (BoardSubmitComment ''hi'' 0 None None) (Some (PubKey [81])) (board_demo_meta 2) = (g3, Inr r3) \<and>
     ct_comments (contract g3) = ct_comments (contract board_demo) @ [c\<lparr>ec_id := ec_id c + 1\<rparr>]"
proof -
  obtain rs where run: "exec_calls (contract_episode auth_demo_env (PubKey [9])) (cb_initialize (PubKey [9]) [] (board_demo_meta 0)) board_demo_calls =
     Some (board_demo, rs)" by (rule exE [OF board_demo_run], elim conjE) (rule that)
  have len: "length board_demo_calls < 2 ^ 64 - 1" by (simp add: board_demo_calls_def)
  have val: "unat (total_locked_value (contract board_demo)) + unat (0 :: u64) < 2 ^ 64" by (simp add: board_demo_fields)
  have "\<exists>g1 r1. cb_execute auth_demo_env board_demo (BoardSubmitComment ''hi'' 0 None None) (Some (PubKey [81])) (board_demo_meta 2) = (g1, Inr r1)"
    by (simp add: cb_execute_def execute_submit_comment_def bond_error_def demo_hi board_demo_fields Let_def del: is_blank.simps)
  then obtain g1 r1 where ex: "cb_execute auth_demo_env board_demo (BoardSubmitComment ''hi'' 0 None None) (Some (PubKey [81])) (board_demo_meta 2) = (g1, Inr r1)"
    by blast
  obtain g2 b where rb: "cb_rollback g1 r1 = (g2, b)" by fastforce
  from reorg_renumbers_comments [OF run len val ex rb] ex rb show ?thesis by auto
qed

theorem login_guards_nothing_witness:
  "\<exists>g' r c. cb_execute auth_demo_env board_demo (BoardSubmitComment ''hi'' 0 None None) (Some (PubKey [99])) (board_demo_meta 2) = (g', Inr r) \<and>
     ct_comments (contract g') = ct_comments (contract board_demo) @ [c] \<and> ec_author c = pk_text auth_demo_env (PubKey [99])"
proof -
  have "accepting_time (board_demo_meta 2) \<le> contract_expires_at board_demo"
    by (simp add: board_demo_fields)
  from login_guards_nothing [OF this] demo_hi show ?thesis by blast
qed

end
