(* ===== verification/Comment_Board.thy ===== *)
theory Comment_Board
  imports Contract_Board
begin

text \<open>
  The open comment board (\<^verbatim>\<open>comment-board/src/comments.rs\<close>): anyone may join, authenticate and
  comment; the board keeps the last fifty comments. The session tokens are drawn from the thread's
  generator, \<^verbatim>\<open>to_lowercase\<close> and \<^verbatim>\<open>to_uppercase\<close> are parameters.
\<close>

section \<open>Data\<close>

datatype board_command =
    BdRequestChallenge
  | BdSubmitResponse string string
  | BdJoinRoom
  | BdSubmitComment string u64
  | BdSetForbiddenWords "string list"

datatype board_error = BdEmpty | BdTooLong | BdNotAuthenticated | BdUnauthorized

record board_rollback =
  br_type :: string
  br_comment_id :: "u64 option"
  was_authenticated :: bool
  br_prev_timestamp :: u64

definition new_join :: "bool \<Rightarrow> u64 \<Rightarrow> board_rollback" where
  "new_join was prev = \<lparr>br_type = ''join'', br_comment_id = None, was_authenticated = was, br_prev_timestamp = prev\<rparr>"

definition new_comment :: "u64 \<Rightarrow> u64 \<Rightarrow> board_rollback" where
  "new_comment cid prev = \<lparr>br_type = ''comment'', br_comment_id = Some cid, was_authenticated = False, br_prev_timestamp = prev\<rparr>"

record board_comment =
  bc_id :: u64
  bc_text :: string
  bc_author :: string
  bc_timestamp :: u64
  bc_bond :: u64

record comment_board =
  bd_comments :: "board_comment list"
  bd_creator :: "pubkey option"
  bd_members :: "string set"
  bd_next_id :: u64
  bd_timestamp :: u64
  bd_history :: "u64 list"
  bd_challenge :: "string option"
  bd_authenticated :: "string set"
  bd_tokens :: "string \<rightharpoonup> string"
  bd_forbidden :: "string list"

section \<open>Operations\<close>

definition bd_initialize :: "pubkey list \<Rightarrow> metadata \<Rightarrow> comment_board" where
  "bd_initialize participants md =
     \<lparr>bd_comments = [], bd_creator = (case participants of [] \<Rightarrow> None | p # _ \<Rightarrow> Some p), bd_members = {}, bd_next_id = 1,
      bd_timestamp = accepting_time md, bd_history = [], bd_challenge = None, bd_authenticated = {}, bd_tokens = Map.empty,
      bd_forbidden = []\<rparr>"

type_synonym board_result = "comment_board \<times> (board_error episode_error + board_rollback)"

definition bd_request :: "auth_env \<Rightarrow> comment_board \<Rightarrow> metadata \<Rightarrow> board_result" where
  "bd_request env g md =
     (let g1 = (if bd_challenge g = None then g\<lparr>bd_challenge := Some (''auth_'' @ hash_text env (tx_id md))\<rparr> else g)
      in (g1\<lparr>bd_timestamp := accepting_time md\<rparr>, Inr (new_join False (bd_timestamp g1))))"

text \<open>\<open>rnd\<close> is the number this process draws.\<close>

definition bd_response :: "auth_env \<Rightarrow> u64 \<Rightarrow> comment_board \<Rightarrow> string \<Rightarrow> string \<Rightarrow> pubkey \<Rightarrow> metadata \<Rightarrow> board_result" where
  "bd_response env rnd g signature nonce participant md =
     (case bd_challenge g of
        None \<Rightarrow> (g, Inl (InvalidCommand BdNotAuthenticated))
      | Some ch \<Rightarrow>
          if nonce = ch \<and> signature \<noteq> [] then
            let key = pk_text env participant
            in (g\<lparr>bd_authenticated := insert key (bd_authenticated g),
                  bd_tokens := (bd_tokens g)(key \<mapsto> ''sess_'' @ show_u64 rnd),
                  bd_challenge := None, bd_timestamp := accepting_time md\<rparr>, Inr (new_join False (bd_timestamp g)))
          else (g, Inl (InvalidCommand BdNotAuthenticated)))"

definition bd_join :: "auth_env \<Rightarrow> comment_board \<Rightarrow> pubkey \<Rightarrow> metadata \<Rightarrow> board_result" where
  "bd_join env g participant md =
     (let key = pk_text env participant
      in (g\<lparr>bd_members := insert key (bd_members g), bd_timestamp := accepting_time md\<rparr>,
          Inr (new_join (key \<in> bd_members g) (bd_timestamp g))))"

text \<open>The log keeps fifty comments: the oldest goes.\<close>

definition bd_push :: "comment_board \<Rightarrow> board_comment \<Rightarrow> comment_board" where
  "bd_push g c =
     (let comments = bd_comments g @ [c]; history = bd_history g @ [bc_id c]
      in if length history > 50
         then g\<lparr>bd_comments := filter (\<lambda>x. bc_id x \<noteq> hd history) comments, bd_history := tl history\<rparr>
         else g\<lparr>bd_comments := comments, bd_history := history\<rparr>)"

definition bd_comment :: "auth_env \<Rightarrow> (string \<Rightarrow> string) \<Rightarrow> comment_board \<Rightarrow> string \<Rightarrow> u64 \<Rightarrow> pubkey \<Rightarrow> metadata \<Rightarrow> board_result" where
  "bd_comment env lower g txt bond participant md =
     (let key = pk_text env participant in
      if key \<notin> bd_authenticated g then (g, Inl (InvalidCommand BdNotAuthenticated))
      else if key \<notin> bd_members g then (g, Inl (InvalidCommand BdNotAuthenticated))
      else if is_blank txt then (g, Inl (InvalidCommand BdEmpty))
      else if length txt > 500 then (g, Inl (InvalidCommand BdTooLong))
      else if \<exists>w \<in> set (bd_forbidden g). contains (lower txt) (lower w) then (g, Inl (InvalidCommand BdUnauthorized))
      else let cid = bd_next_id g;
               c = \<lparr>bc_id = cid, bc_text = txt, bc_author = key, bc_timestamp = accepting_time md, bc_bond = bond\<rparr>
        in ((bd_push g c)\<lparr>bd_timestamp := accepting_time md, bd_next_id := cid + 1\<rparr>,
            Inr (new_comment cid (bd_timestamp g))))"

definition bd_forbid :: "comment_board \<Rightarrow> string list \<Rightarrow> pubkey \<Rightarrow> metadata \<Rightarrow> board_result" where
  "bd_forbid g ws participant md =
     (case bd_creator g of
        None \<Rightarrow> (g, Inl Unauthorized)
      | Some cr \<Rightarrow>
          if participant \<noteq> cr then (g, Inl Unauthorized)
          else (g\<lparr>bd_timestamp := accepting_time md, bd_forbidden := ws\<rparr>, Inr (new_join False (bd_timestamp g))))"

definition bd_execute ::
  "auth_env \<Rightarrow> (string \<Rightarrow> string) \<Rightarrow> u64 \<Rightarrow> comment_board \<Rightarrow> board_command \<Rightarrow> pubkey option \<Rightarrow> metadata \<Rightarrow> board_result" where
  "bd_execute env lower rnd g cmd authorization md =
     (case authorization of
        None \<Rightarrow> (g, Inl Unauthorized)
      | Some participant \<Rightarrow>
          (case cmd of
             BdRequestChallenge \<Rightarrow> bd_request env g md
           | BdSubmitResponse signature nonce \<Rightarrow> bd_response env rnd g signature nonce participant md
           | BdJoinRoom \<Rightarrow> bd_join env g participant md
           | BdSubmitComment txt bond \<Rightarrow> bd_comment env lower g txt bond participant md
           | BdSetForbiddenWords ws \<Rightarrow> bd_forbid g ws participant md))"

definition bd_rollback :: "comment_board \<Rightarrow> board_rollback \<Rightarrow> comment_board \<times> bool" where
  "bd_rollback g rb =
     (if br_type rb = ''join'' then (g\<lparr>bd_timestamp := br_prev_timestamp rb\<rparr>, True)
      else if br_type rb = ''comment'' then
        (case br_comment_id rb of
           None \<Rightarrow> (g, False)
         | Some cid \<Rightarrow>
             let kept = filter (\<lambda>c. bc_id c \<noteq> cid) (bd_comments g)
             in (g\<lparr>bd_timestamp := br_prev_timestamp rb, bd_comments := kept,
                   bd_history := filter (\<lambda>i. i \<noteq> cid) (bd_history g),
                   bd_next_id := (if bd_next_id g > 1 then cid else bd_next_id g)\<rparr>,
                 length kept < length (bd_comments g)))
      else (g, False))"

section \<open>Queries\<close>

record board_state =
  bs_comments :: "board_comment list"
  bs_members :: "string set"
  bs_total :: u64
  bs_authenticated :: "string set"
  bs_challenge :: "string option"

definition bd_poll :: "comment_board \<Rightarrow> board_state" where
  "bd_poll g = \<lparr>bs_comments = bd_comments g, bs_members = bd_members g, bs_total = bd_next_id g - 1,
     bs_authenticated = bd_authenticated g, bs_challenge = bd_challenge g\<rparr>"

definition bd_latest :: "comment_board \<Rightarrow> nat \<Rightarrow> board_comment list" where
  "bd_latest g limit = take limit (sort_key (\<lambda>c. - uint (bc_timestamp c)) (bd_comments g))"

definition is_user_in_room :: "auth_env \<Rightarrow> comment_board \<Rightarrow> pubkey \<Rightarrow> bool" where
  "is_user_in_room env g pk \<longleftrightarrow> pk_text env pk \<in> bd_members g"

definition get_room_code :: "auth_env \<Rightarrow> (string \<Rightarrow> string) \<Rightarrow> comment_board \<Rightarrow> string" where
  "get_room_code env upper g =
     (case bd_creator g of
        Some cr \<Rightarrow> ''ROOM-'' @ upper (take 6 (pk_text env cr))
      | None \<Rightarrow> ''ROOM-UNKNOWN'')"

section \<open>Reachable boards\<close>

text \<open>
  The board together with the rollback objects handed out and not yet used, oldest first, as the
  engine keeps them. Numbers are supposed not to wrap.
\<close>

inductive bd_reach :: "auth_env \<Rightarrow> (string \<Rightarrow> string) \<Rightarrow> pubkey list \<Rightarrow> metadata \<Rightarrow> comment_board \<Rightarrow> board_rollback list \<Rightarrow> bool"
  for env lower ps md0 where
  bd_start: "bd_reach env lower ps md0 (bd_initialize ps md0) []"
| bd_ok: "bd_reach env lower ps md0 g rs \<Longrightarrow> bd_next_id g \<noteq> - 1 \<Longrightarrow>
    bd_execute env lower rnd g c a md = (g', Inr r) \<Longrightarrow> bd_reach env lower ps md0 g' (rs @ [r])"
| bd_err: "bd_reach env lower ps md0 g rs \<Longrightarrow>
    bd_execute env lower rnd g c a md = (g', Inl e) \<Longrightarrow> bd_reach env lower ps md0 g' rs"
| bd_undo: "bd_reach env lower ps md0 g (rs @ [r]) \<Longrightarrow> bd_rollback g r = (g', b) \<Longrightarrow> bd_reach env lower ps md0 g' rs"

definition bd_window :: "comment_board \<Rightarrow> bool" where
  "bd_window g \<longleftrightarrow> length (bd_comments g) \<le> 50 \<and> length (bd_comments g) < unat (bd_next_id g) \<and>
     map (\<lambda>c. unat (bc_id c)) (bd_comments g) = [unat (bd_next_id g) - length (bd_comments g)..<unat (bd_next_id g)] \<and>
     bd_history g = map bc_id (bd_comments g)"

definition bd_authors :: "comment_board \<Rightarrow> bool" where
  "bd_authors g \<longleftrightarrow> (\<forall>c \<in> set (bd_comments g). bc_author c \<in> bd_authenticated g \<and> bc_author c \<in> bd_members g)"

definition comment_ids :: "board_rollback list \<Rightarrow> nat list" where
  "comment_ids rs = map unat (List.map_filter br_comment_id rs)"

definition bd_stack :: "comment_board \<Rightarrow> board_rollback list \<Rightarrow> bool" where
  "bd_stack g rs \<longleftrightarrow> comment_ids rs = [1..<unat (bd_next_id g)] \<and>
     (\<forall>r \<in> set rs. br_type r = ''join'' \<and> br_comment_id r = None \<or> br_type r = ''comment'' \<and> br_comment_id r \<noteq> None)"

lemma comment_ids_append [simp]: "comment_ids (rs @ qs) = comment_ids rs @ comment_ids qs"
  by (simp add: comment_ids_def List.map_filter_def)

lemma comment_ids_single [simp]: "comment_ids [r] = (case br_comment_id r of None \<Rightarrow> [] | Some i \<Rightarrow> [unat i])" "comment_ids [] = []"
  by (auto simp: comment_ids_def List.map_filter_def split: option.splits)

lemma comment_ids_new [simp]: "comment_ids [new_join w t] = []" "comment_ids [new_comment i t] = [unat i]"
  by (simp_all add: new_join_def new_comment_def)

lemma in_tl: "x \<in> set (tl xs) \<Longrightarrow> x \<in> set xs"
  by (cases xs) auto

lemma bd_window_ids:
  assumes "bd_window g"
  shows "(\<lambda>c. unat (bc_id c)) ` set (bd_comments g) = {unat (bd_next_id g) - length (bd_comments g)..<unat (bd_next_id g)}"
    and "distinct (map bc_id (bd_comments g))" and "\<forall>c \<in> set (bd_comments g). bc_id c \<noteq> bd_next_id g"
proof -
  have w: "map (\<lambda>c. unat (bc_id c)) (bd_comments g) = [unat (bd_next_id g) - length (bd_comments g)..<unat (bd_next_id g)]"
    using assms by (simp add: bd_window_def)
  show i: "(\<lambda>c. unat (bc_id c)) ` set (bd_comments g) = {unat (bd_next_id g) - length (bd_comments g)..<unat (bd_next_id g)}"
    using arg_cong [OF w, of set] by simp
  have "distinct (map unat (map bc_id (bd_comments g)))" using arg_cong [OF w, of distinct] by (simp add: comp_def)
  then show "distinct (map bc_id (bd_comments g))" by (simp only: distinct_map)
  show "\<forall>c \<in> set (bd_comments g). bc_id c \<noteq> bd_next_id g"
  proof (intro ballI notI)
    fix c assume "c \<in> set (bd_comments g)" "bc_id c = bd_next_id g"
    then have "unat (bd_next_id g) \<in> (\<lambda>c. unat (bc_id c)) ` set (bd_comments g)" by force
    then show False by (simp add: i)
  qed
qed

text \<open>The push of a comment with the next number keeps the window.\<close>

lemma bd_push_window:
  assumes "bd_window g" and "bd_next_id g \<noteq> - 1" and "bc_id c = bd_next_id g"
  shows "bd_window ((bd_push g c)\<lparr>bd_timestamp := t, bd_next_id := bd_next_id g + 1\<rparr>)"
    and "bd_comments (bd_push g c) = (if length (bd_comments g) < 50 then bd_comments g else tl (bd_comments g)) @ [c]"
proof -
  let ?n = "length (bd_comments g)"
  have h: "bd_history g = map bc_id (bd_comments g)" "?n \<le> 50" "?n < unat (bd_next_id g)"
    using assms(1) by (simp_all add: bd_window_def)
  have w: "map (\<lambda>c. unat (bc_id c)) (bd_comments g) = [unat (bd_next_id g) - ?n..<unat (bd_next_id g)]"
    using assms(1) by (simp add: bd_window_def)
  have next_id: "unat (bd_next_id g + 1) = Suc (unat (bd_next_id g))" using assms(2) by (simp add: unat_succ)
  show comments: "bd_comments (bd_push g c) = (if ?n < 50 then bd_comments g else tl (bd_comments g)) @ [c]"
  proof (cases "bd_comments g")
    case Nil
    then show ?thesis by (simp add: bd_push_def h)
  next
    case (Cons d ds)
    have "distinct (map bc_id (d # ds))" "bc_id d \<noteq> bd_next_id g" using bd_window_ids [OF assms(1)] Cons by auto
    then have "filter (\<lambda>x. bc_id x \<noteq> bc_id d) ds = ds" by (auto simp: filter_id_conv image_iff)
    with Cons \<open>bc_id d \<noteq> bd_next_id g\<close> h(2) assms(3) show ?thesis by (auto simp: bd_push_def h(1) Let_def)
  qed
  have history: "bd_history (bd_push g c) = map bc_id (bd_comments (bd_push g c))"
    unfolding comments using h by (cases "bd_comments g") (auto simp: bd_push_def Let_def)
  have "Suc (unat (bd_next_id g) - 50) = unat (bd_next_id g) - 49" if "?n = 50" using h(3) that by simp
  then have "map (\<lambda>c. unat (bc_id c)) (tl (bd_comments g)) = [unat (bd_next_id g) - 49..<unat (bd_next_id g)]" if "?n = 50"
    using arg_cong [OF w, of tl] that by (simp add: map_tl)
  then show "bd_window ((bd_push g c)\<lparr>bd_timestamp := t, bd_next_id := bd_next_id g + 1\<rparr>)"
    using h w next_id history assms(3) by (simp add: bd_window_def comments)
qed

lemma bd_ok_cases:
  assumes "bd_execute env lower rnd g c a md = (g', Inr r)"
  obtains (other) w t where "bd_comments g' = bd_comments g" "bd_next_id g' = bd_next_id g" "bd_history g' = bd_history g"
      "bd_authenticated g \<subseteq> bd_authenticated g'" "bd_members g \<subseteq> bd_members g'" "r = new_join w t"
  | (post) p msg bond where "c = BdSubmitComment msg bond" "a = Some p" "pk_text env p \<in> bd_authenticated g" "pk_text env p \<in> bd_members g"
      "\<not> is_blank msg" "length msg \<le> 500"
      "g' = (bd_push g \<lparr>bc_id = bd_next_id g, bc_text = msg, bc_author = pk_text env p, bc_timestamp = accepting_time md, bc_bond = bond\<rparr>)
         \<lparr>bd_timestamp := accepting_time md, bd_next_id := bd_next_id g + 1\<rparr>"
      "r = new_comment (bd_next_id g) (bd_timestamp g)"
proof (cases c)
  case (BdSubmitComment msg bond)
  with assms obtain p where "a = Some p" by (auto simp: bd_execute_def split: option.splits)
  with BdSubmitComment assms show ?thesis
    by (intro post [of msg bond p]) (auto simp: bd_execute_def bd_comment_def Let_def split: option.splits if_splits)
qed (use assms in \<open>auto simp: bd_execute_def bd_request_def bd_response_def bd_join_def bd_forbid_def Let_def
      split: option.splits if_splits intro!: other\<close>)

lemma bd_refused: "bd_execute env lower rnd g c a md = (g', Inl e) \<Longrightarrow> g' = g"
  by (cases c) (auto simp: bd_execute_def bd_request_def bd_response_def bd_join_def bd_comment_def bd_forbid_def Let_def
      split: option.splits if_splits)

section \<open>The invariant\<close>

lemma bd_inv_ok:
  assumes "bd_execute env lower rnd g c a md = (g', Inr r)" and "bd_next_id g \<noteq> - 1"
    and "bd_window g" and "bd_authors g" and "bd_stack g rs"
  shows "bd_window g' \<and> bd_authors g' \<and> bd_stack g' (rs @ [r])"
  using assms(1)
proof (cases rule: bd_ok_cases)
  case (other w t)
  with assms(3-5) show ?thesis
    by (auto simp: bd_window_def bd_authors_def bd_stack_def) (auto simp: new_join_def)
next
  case (post p msg bond)
  let ?c = "\<lparr>bc_id = bd_next_id g, bc_text = msg, bc_author = pk_text env p, bc_timestamp = accepting_time md, bc_bond = bond\<rparr>"
  note push = bd_push_window [OF assms(3,2), of ?c]
  have "bd_authenticated (bd_push g ?c) = bd_authenticated g" "bd_members (bd_push g ?c) = bd_members g"
    by (simp_all add: bd_push_def Let_def)
  then have "bd_authors g'"
    using assms(4) push(2) post(3,4) by (auto simp: bd_authors_def post(7) dest: in_tl split: if_splits)
  moreover have "1 \<le> unat (bd_next_id g)" using assms(3) by (simp add: bd_window_def)
  then have "bd_stack g' (rs @ [r])"
    using assms(5) unat_succ [OF assms(2)] by (auto simp: bd_stack_def post(7,8)) (auto simp: new_comment_def)
  ultimately show ?thesis using push(1) by (simp add: post(7))
qed

lemma bd_inv_undo:
  assumes "bd_rollback g r = (g', b)" and "bd_window g" and "bd_authors g" and "bd_stack g (rs @ [r])"
  shows "bd_window g' \<and> bd_authors g' \<and> bd_stack g' rs"
proof (cases "br_comment_id r")
  case None
  with assms show ?thesis by (auto simp: bd_rollback_def bd_window_def bd_authors_def bd_stack_def)
next
  case (Some i)
  have type: "br_type r = ''comment''" using assms(4) Some by (auto simp: bd_stack_def)
  let ?N = "unat (bd_next_id g)" and ?n = "length (bd_comments g)"
  have ids: "comment_ids rs @ [unat i] = [1..<?N]" using assms(4) Some by (simp add: bd_stack_def)
  have "?N \<noteq> 0 \<and> ?N \<noteq> 1" using ids by (cases "?N \<le> 1") auto
  then obtain M where N: "?N = Suc M" "1 \<le> M" by (cases ?N) auto
  then have gt: "bd_next_id g > 1" by (simp add: word_less_nat_alt)
  have i: "unat i = M" "comment_ids rs = [1..<M]" using ids N by simp_all
  have w: "map (\<lambda>c. unat (bc_id c)) (bd_comments g) = [Suc M - ?n..<Suc M]" "?n \<le> M" "?n \<le> 50" "bd_history g = map bc_id (bd_comments g)"
    using assms(2) N(1) by (simp_all add: bd_window_def)
  let ?kept = "filter (\<lambda>c. bc_id c \<noteq> i) (bd_comments g)"
  have g': "g' = g\<lparr>bd_timestamp := br_prev_timestamp r, bd_comments := ?kept, bd_history := filter (\<lambda>j. j \<noteq> i) (bd_history g), bd_next_id := i\<rparr>"
    using assms(1) Some type gt by (simp add: bd_rollback_def Let_def)
  have kept: "?kept = butlast (bd_comments g) \<and> map (\<lambda>c. unat (bc_id c)) (butlast (bd_comments g)) = [M - length (butlast (bd_comments g))..<M]"
  proof (cases "bd_comments g" rule: rev_cases)
    case (snoc cs d)
    then have l: "Suc M - ?n = M - length cs" "M - length cs \<le> M" by simp_all
    have eq: "map (\<lambda>c. unat (bc_id c)) cs @ [unat (bc_id d)] = [M - length cs..<M] @ [M]"
      using w(1) unfolding l upt_Suc_append [OF l(2)] by (simp add: snoc)
    then have d: "unat (bc_id d) = M" and cs: "map (\<lambda>c. unat (bc_id c)) cs = [M - length cs..<M]" by simp_all
    have "\<forall>c \<in> set cs. bc_id c \<noteq> i"
    proof (intro ballI notI)
      fix c assume "c \<in> set cs" "bc_id c = i"
      then have "unat i \<in> set (map (\<lambda>c. unat (bc_id c)) cs)" by force
      then show False by (simp add: cs i(1))
    qed
    moreover have "bc_id d = i" using d i(1) by (simp add: word_unat_eq_iff)
    ultimately show ?thesis using cs by (simp add: snoc filter_id_conv)
  qed simp
  have "bd_window g'"
    using w(2-4) i(1) N(2) kept by (auto simp: bd_window_def g' filter_map comp_def)
  moreover have "bd_authors g'" using assms(3) by (auto simp: bd_authors_def g')
  moreover have "bd_stack g' rs" using assms(4) i by (simp add: bd_stack_def g')
  ultimately show ?thesis by blast
qed

lemma bd_reach_inv:
  assumes "bd_reach env lower ps md0 g rs"
  shows "bd_window g \<and> bd_authors g \<and> bd_stack g rs"
  using assms
proof induction
  case bd_start
  then show ?case by (simp add: bd_window_def bd_authors_def bd_stack_def bd_initialize_def)
next
  case (bd_ok g rs rnd c a md g' r)
  then show ?case using bd_inv_ok by blast
next
  case (bd_err g rs rnd c a md g' e)
  then show ?case using bd_refused by metis
next
  case (bd_undo g rs r g' b)
  then show ?case using bd_inv_undo by blast
qed

text \<open>
  C16: what the open board shows. Whatever is executed and undone (newest first, numbers not wrapping),
  the board holds at most fifty comments, the last ones made and not undone, numbered without a gap;
  the history lists exactly their numbers, and every author has authenticated and joined.
\<close>

theorem board_keeps_fifty:
  assumes "bd_reach env lower ps md0 g rs"
  shows "length (bd_comments g) \<le> 50 \<and> bd_history g = map bc_id (bd_comments g) \<and>
    map (\<lambda>c. unat (bc_id c)) (bd_comments g) = [unat (bd_next_id g) - length (bd_comments g)..<unat (bd_next_id g)] \<and>
    (\<forall>c \<in> set (bd_comments g). bc_author c \<in> bd_authenticated g \<and> bc_author c \<in> bd_members g)"
  using bd_reach_inv [OF assms] by (simp add: bd_window_def bd_authors_def)

text \<open>
  A reorg loses comments of a full board. On a reachable board with fifty comments, executing one
  more and rolling it back leaves forty-nine: the oldest, dropped by the execution, does not return.
\<close>

theorem full_board_loses_oldest:
  assumes "bd_reach env lower ps md0 g rs" and "length (bd_comments g) = 50" and "bd_next_id g \<noteq> - 1"
    and "bd_execute env lower rnd g (BdSubmitComment msg bond) a md = (g', Inr r)"
  shows "bd_comments (fst (bd_rollback g' r)) = tl (bd_comments g)"
proof -
  have w: "bd_window g" using bd_reach_inv [OF assms(1)] by simp
  from assms(4) show ?thesis
  proof (cases rule: bd_ok_cases)
    case (other w t)
    with assms(4) show ?thesis by (auto simp: bd_execute_def bd_comment_def new_join_def new_comment_def Let_def split: option.splits if_splits)
  next
    case (post p m b)
    let ?c = "\<lparr>bc_id = bd_next_id g, bc_text = m, bc_author = pk_text env p, bc_timestamp = accepting_time md, bc_bond = b\<rparr>"
    have "bd_comments g' = tl (bd_comments g) @ [?c]"
      using bd_push_window(2) [OF w assms(3), of ?c] assms(2) by (simp add: post(7))
    moreover have "filter (\<lambda>c. bc_id c \<noteq> bd_next_id g) (tl (bd_comments g)) = tl (bd_comments g)"
      using bd_window_ids(3) [OF w] by (auto simp: filter_id_conv dest: in_tl)
    ultimately show ?thesis by (simp add: bd_rollback_def post(8) new_comment_def Let_def)
  qed
qed

section \<open>Concrete runs\<close>

definition bd_ready :: "auth_env \<Rightarrow> comment_board \<Rightarrow> pubkey \<Rightarrow> bool" where
  "bd_ready env g p \<longleftrightarrow> pk_text env p \<in> bd_authenticated g \<and> pk_text env p \<in> bd_members g \<and> bd_forbidden g = []"

lemma bd_ready_step:
  assumes "bd_reach env lower ps md0 g rs" and "bd_ready env g p" and "bd_next_id g \<noteq> - 1" and "\<not> is_blank msg" and "length msg \<le> 500"
  obtains g' r where "bd_execute env lower rnd g (BdSubmitComment msg bond) (Some p) md = (g', Inr r)" "bd_ready env g' p"
    "length (bd_comments g') = min 50 (Suc (length (bd_comments g)))" "bd_next_id g' = bd_next_id g + 1"
proof -
  let ?c = "\<lparr>bc_id = bd_next_id g, bc_text = msg, bc_author = pk_text env p, bc_timestamp = accepting_time md, bc_bond = bond\<rparr>"
  have w: "bd_window g" using bd_reach_inv [OF assms(1)] by simp
  have l: "length (bd_comments (bd_push g ?c)) = min 50 (Suc (length (bd_comments g)))"
    using bd_push_window(2) [OF w assms(3), of ?c] w by (auto simp: bd_window_def)
  have r: "bd_ready env (bd_push g ?c) p" using assms(2) by (simp add: bd_ready_def bd_push_def Let_def)
  have ex: "bd_execute env lower rnd g (BdSubmitComment msg bond) (Some p) md =
      ((bd_push g ?c)\<lparr>bd_timestamp := accepting_time md, bd_next_id := bd_next_id g + 1\<rparr>, Inr (new_comment (bd_next_id g) (bd_timestamp g)))"
    using assms(2,4,5) by (simp add: bd_execute_def bd_comment_def bd_ready_def Let_def)
  show thesis by (rule that [OF ex]) (use l r in \<open>simp_all add: bd_ready_def\<close>)
qed

lemma bd_many:
  assumes "\<not> is_blank msg" and "length msg \<le> 500"
  shows "bd_reach env lower ps md0 g rs \<Longrightarrow> bd_ready env g p \<Longrightarrow> unat (bd_next_id g) + k < 2 ^ 64 - 1 \<Longrightarrow>
    \<exists>g' rs'. bd_reach env lower ps md0 g' rs' \<and> bd_ready env g' p \<and> length (bd_comments g') = min 50 (length (bd_comments g) + k) \<and>
      unat (bd_next_id g') = unat (bd_next_id g) + k"
proof (induction k arbitrary: g rs)
  case 0
  then show ?case using bd_reach_inv [OF 0(1)] by (auto simp: bd_window_def min_def)
next
  case (Suc k)
  have n: "bd_next_id g \<noteq> - 1" using Suc.prems(3) by (auto simp: unsigned_minus_1_eq_mask mask_eq_exp_minus_1)
  obtain g1 r where s: "bd_execute env lower 0 g (BdSubmitComment msg 0) (Some p) md0 = (g1, Inr r)" "bd_ready env g1 p"
      "length (bd_comments g1) = min 50 (Suc (length (bd_comments g)))" "bd_next_id g1 = bd_next_id g + 1"
    using bd_ready_step [OF Suc.prems(1,2) n assms] .
  have u: "unat (bd_next_id g1) = Suc (unat (bd_next_id g))" using n by (simp add: s(4) unat_succ)
  with Suc.prems(3) have "unat (bd_next_id g1) + k < 2 ^ 64 - 1" by simp
  from Suc.IH [OF bd_ok [OF Suc.prems(1) n s(1)] s(2) this] s(3) u show ?case by (auto simp: min_def)
qed

definition bd_demo :: comment_board where
  "bd_demo = \<lparr>bd_comments = [], bd_creator = None, bd_members = {[]}, bd_next_id = 1, bd_timestamp = 3, bd_history = [],
     bd_challenge = None, bd_authenticated = {[]}, bd_tokens = [[] \<mapsto> ''sess_'' @ show_u64 7], bd_forbidden = []\<rparr>"

lemma bd_demo_reach: "\<exists>rs. bd_reach auth_demo_env id [] (auth_demo_meta 0) bd_demo rs"
proof -
  let ?g0 = "bd_initialize [] (auth_demo_meta 0)" and ?ch = "''auth_'' @ hash_text auth_demo_env (tx_id (auth_demo_meta 1))"
  let ?g1 = "?g0\<lparr>bd_challenge := Some ?ch, bd_timestamp := 1\<rparr>"
  let ?g2 = "?g1\<lparr>bd_authenticated := {[]}, bd_tokens := [[] \<mapsto> ''sess_'' @ show_u64 7], bd_challenge := None, bd_timestamp := 2\<rparr>"
  have r0: "bd_reach auth_demo_env id [] (auth_demo_meta 0) ?g0 []" by (rule bd_start)
  have r1: "bd_reach auth_demo_env id [] (auth_demo_meta 0) ?g1 ([] @ [new_join False 0])"
    by (rule bd_ok [OF r0, where rnd = 0 and c = BdRequestChallenge and a = "Some (PubKey [80])" and md = "auth_demo_meta 1"])
      (simp_all add: bd_execute_def bd_request_def bd_initialize_def Let_def)
  have r2: "bd_reach auth_demo_env id [] (auth_demo_meta 0) ?g2 (([] @ [new_join False 0]) @ [new_join False 1])"
    by (rule bd_ok [OF r1, where rnd = 7 and c = "BdSubmitResponse ''x'' ?ch" and a = "Some (PubKey [80])" and md = "auth_demo_meta 2"])
      (simp_all add: bd_execute_def bd_response_def bd_initialize_def Let_def)
  have "bd_reach auth_demo_env id [] (auth_demo_meta 0) bd_demo ((([] @ [new_join False 0]) @ [new_join False 1]) @ [new_join False 2])"
    by (rule bd_ok [OF r2, where rnd = 0 and c = BdJoinRoom and a = "Some (PubKey [80])" and md = "auth_demo_meta 3"])
      (simp_all add: bd_execute_def bd_join_def bd_initialize_def bd_demo_def Let_def)
  then show ?thesis by blast
qed

lemma bd_demo_hi: "\<not> is_blank ''hi''" "length ''hi'' \<le> 500"
  by (simp_all add: ascii_ws_def ws2_def)

lemma bd_demo_full:
  "\<exists>g rs. bd_reach auth_demo_env id [] (auth_demo_meta 0) g rs \<and> bd_ready auth_demo_env g (PubKey [80]) \<and>
     length (bd_comments g) = 50 \<and> unat (bd_next_id g) = 61"
proof -
  obtain rs where r: "bd_reach auth_demo_env id [] (auth_demo_meta 0) bd_demo rs" using bd_demo_reach by blast
  have "bd_ready auth_demo_env bd_demo (PubKey [80])" by (simp add: bd_ready_def bd_demo_def)
  from bd_many [OF bd_demo_hi r this, of 60] show ?thesis by (simp add: bd_demo_def)
qed

theorem board_keeps_fifty_witness:
  "\<exists>g :: comment_board. map (\<lambda>c. unat (bc_id c)) (bd_comments g) = [11..<61] \<and> bd_history g = map bc_id (bd_comments g)"
proof -
  obtain g rs where g: "bd_reach auth_demo_env id [] (auth_demo_meta 0) g rs" "length (bd_comments g) = 50" "unat (bd_next_id g) = 61"
    using bd_demo_full by blast
  have d: "61 - 50 = (11 :: nat)" by simp
  from board_keeps_fifty [OF g(1), unfolded g(2,3) d] show ?thesis by blast
qed

theorem full_board_loses_oldest_witness:
  "\<exists>g g' r. length (bd_comments g) = 50 \<and>
     bd_execute auth_demo_env id 0 g (BdSubmitComment ''hi'' 0) (Some (PubKey [80])) (auth_demo_meta 9) = (g', Inr r) \<and>
     bd_comments (fst (bd_rollback g' r)) = tl (bd_comments g)"
proof -
  obtain g rs where g: "bd_reach auth_demo_env id [] (auth_demo_meta 0) g rs" "bd_ready auth_demo_env g (PubKey [80])"
      "length (bd_comments g) = 50" "unat (bd_next_id g) = 61"
    using bd_demo_full by blast
  have n: "bd_next_id g \<noteq> - 1" using g(4) by (auto simp: unsigned_minus_1_eq_mask mask_eq_exp_minus_1)
  obtain g' r where s: "bd_execute auth_demo_env id 0 g (BdSubmitComment ''hi'' 0) (Some (PubKey [80])) (auth_demo_meta 9) = (g', Inr r)"
    using bd_ready_step [OF g(1,2) n bd_demo_hi] .
  from full_board_loses_oldest [OF g(1,3) n s] g(3) s show ?thesis by blast
qed

end
