(* ===== verification/Bond_Wallet.thy ===== *)
theory Bond_Wallet
  imports Bond_Scripts Generator
begin

text \<open>
  The wallet of the comment board (\<^verbatim>\<open>comment-board/src/wallet/utxo_manager.rs\<close>): unspent outputs, the
  bonds it has locked and the transactions it builds for them. The clock, the answers of the node and
  the outputs it reports are arguments. Error texts that print amounts are constructors that carry
  them; the address of the wallet is fixed and stands for its script.
\<close>

section \<open>State\<close>

definition BOARD_FEE :: u64 where "BOARD_FEE = 5000"

text \<open>The consensus percentage of a community vote, a \<^verbatim>\<open>f64\<close> nobody reads, is left out.\<close>

datatype unlock_rule =
    TimeBasedRelease u64
  | CommunityVote u64
  | ModeratorDecision u8 u64
  | Forfeited string

datatype enforcement =
    ApplicationLayer string
  | ScriptBased "u16 \<times> bytes" unlock_condition

record locked_utxo =
  lu_outpoint :: outpoint
  lu_entry :: utxo_entry
  lu_comment :: u64
  lu_bond :: u64
  lu_lock_time :: u64
  lu_unlock :: unlock_rule
  lu_tx :: string
  lu_confirmation :: "u64 option"
  lu_level :: enforcement

record wallet =
  available_utxos :: "(outpoint \<times> utxo_entry) list"
  bonds :: "u64 \<rightharpoonup> locked_utxo"
  total_available :: u64
  total_locked :: u64
  pending_bonds :: "u64 \<rightharpoonup> string"

text \<open>The key, the script of the address, and the consensus crate.\<close>

record wallet_env =
  we_tx :: tx_env
  we_key :: pubkey
  we_script :: bytes
  we_id_text :: "hash \<Rightarrow> string"

datatype wallet_error =
    InsufficientUnlocked u64 u64
  | MassLimit u64
  | NoLargeUtxo u64
  | UtxoTooSmallForProof
  | SubmissionFailed string
  | InvalidScriptConditions string
  | ScriptCreationFailed string
  | NoUtxosFor string
  | NonceOverflow
  | TooSmallToSplit
  | MicroUtxosMissing nat nat
  | NotYetUnlockable
  | NoLockedBond
  | AlreadyScriptBased
  | RefreshFailed string
  | BondUpgradeFailed wallet_error

section \<open>Submission\<close>

function submit_with_retry :: "(nat \<Rightarrow> submit_answer) \<Rightarrow> nat \<Rightarrow> (string + unit)" where
  "submit_with_retry answer attempts =
     (case answer attempts of
        Submitted \<Rightarrow> Inr ()
      | SubmitFailed msg \<Rightarrow>
          if contains msg ''already accepted'' then Inr ()
          else if Suc attempts \<ge> 3 then Inl msg
          else submit_with_retry answer (Suc attempts))"
  by pat_completeness auto
termination by (relation "measure (\<lambda>(_, attempts). 3 - attempts)") auto

declare submit_with_retry.simps [simp del]

section \<open>Balances\<close>

definition sum_amounts :: "(outpoint \<times> utxo_entry) list \<Rightarrow> u64" where
  "sum_amounts us = sum_list (map (utxo_amount \<circ> snd) us)"

definition wallet_new :: "(outpoint \<times> utxo_entry) list \<Rightarrow> wallet" where
  "wallet_new entries = \<lparr>available_utxos = entries, bonds = Map.empty, total_available = sum_amounts entries,
     total_locked = 0, pending_bonds = Map.empty\<rparr>"

definition get_available_balance :: "wallet \<Rightarrow> u64" where
  "get_available_balance w = total_available w - total_locked w"

definition can_afford_bond :: "wallet \<Rightarrow> u64 \<Rightarrow> bool" where
  "can_afford_bond w bond \<longleftrightarrow> total_available w - total_locked w \<ge> bond"

record balance_info =
  bi_total :: u64
  bi_locked :: u64
  bi_available :: u64
  bi_count :: nat

definition get_balance_info :: "wallet \<Rightarrow> balance_info" where
  "get_balance_info w = \<lparr>bi_total = total_available w, bi_locked = total_locked w, bi_available = get_available_balance w,
     bi_count = card (dom (bonds w))\<rparr>"

text \<open>\<open>None\<close> is a node that does not answer.\<close>

definition refresh_utxos :: "(outpoint \<times> utxo_entry) list option \<Rightarrow> wallet \<Rightarrow> wallet \<times> (wallet_error + unit)" where
  "refresh_utxos answer w =
     (case answer of
        None \<Rightarrow> (w, Inl (RefreshFailed []))
      | Some entries \<Rightarrow>
          let w1 = w\<lparr>available_utxos := entries\<rparr>; new_total = sum_amounts entries
          in (if new_total \<noteq> total_available w1 then w1\<lparr>total_available := new_total\<rparr> else w1, Inr ()))"

section \<open>Selecting outputs\<close>

text \<open>The smallest output of at least the given amount, the first of several.\<close>

fun smallest_utxo :: "u64 \<Rightarrow> (outpoint \<times> utxo_entry) option \<Rightarrow> (outpoint \<times> utxo_entry) list \<Rightarrow> (outpoint \<times> utxo_entry) option" where
  "smallest_utxo least best [] = best"
| "smallest_utxo least best (u # us) =
     smallest_utxo least
       (if utxo_amount (snd u) \<ge> least then
          (case best of
             None \<Rightarrow> Some u
           | Some b \<Rightarrow> if utxo_amount (snd u) < utxo_amount (snd b) then Some u else best)
        else best) us"

text \<open>
  Inputs are taken in the given order until they cover what is required; for a positive amount the
  selection is not empty.
\<close>

fun take_inputs ::
  "u64 \<Rightarrow> (outpoint \<times> utxo_entry) list \<Rightarrow> (outpoint \<times> utxo_entry) list \<Rightarrow> u64 \<Rightarrow> (outpoint \<times> utxo_entry) list \<times> u64" where
  "take_inputs required [] selected covered = (selected, covered)"
| "take_inputs required (u # us) selected covered =
     (let covered' = sat_add covered (utxo_amount (snd u)); selected' = selected @ [u]
      in if covered' \<ge> required then (selected', covered') else take_inputs required us selected' covered')"

definition select_inputs :: "u64 \<Rightarrow> (outpoint \<times> utxo_entry) list \<Rightarrow> ((outpoint \<times> utxo_entry) list \<times> u64) option" where
  "select_inputs required utxos =
     (let (selected, covered) = take_inputs required (sort_key (utxo_amount \<circ> snd) utxos) [] 0
      in if covered < required then None else Some (selected, covered))"

text \<open>The bond output and the change, if any.\<close>

definition bond_outputs :: "wallet_env \<Rightarrow> u64 \<Rightarrow> bytes \<Rightarrow> u64 \<Rightarrow> tx_output list" where
  "bond_outputs we bond script selected_total =
     (let change = sat_sub selected_total (bond + BOARD_FEE)
      in \<lparr>output_value = bond, script_public_key = script\<rparr> #
         (if change > 0 then [\<lparr>output_value = change, script_public_key = we_script we\<rparr>] else []))"

definition script_bond_payload :: "u64 \<Rightarrow> u64 \<Rightarrow> bytes \<Rightarrow> bytes" where
  "script_bond_payload cid bond script =
     ascii (''SCRIPT_BOND:'' @ show_u64 cid @ '':'' @ show_u64 bond @ '':'' @ show_u64 (of_nat (length script)))"

section \<open>Bonds with a proof transaction\<close>

text \<open>The transaction itself; \<^const>\<open>None\<close> when the change would be too small.\<close>

definition proof_transaction :: "wallet_env \<Rightarrow> u64 \<Rightarrow> u64 \<Rightarrow> outpoint \<Rightarrow> utxo_entry \<Rightarrow> transaction option" where
  "proof_transaction we cid bond op entry =
     (let proof_amount = BOARD_FEE * 2; change = utxo_amount entry - proof_amount
      in if change < BOARD_FEE then None
         else let unsigned = \<lparr>tx_inputs = build_inputs [(op, entry)],
                     tx_outs = [\<lparr>output_value = proof_amount, script_public_key = we_script we\<rparr>,
                                \<lparr>output_value = change, script_public_key = we_script we\<rparr>],
                     tx_payload = ascii (''BOND:'' @ show_u64 cid @ '':'' @ show_u64 bond)\<rparr>
           in Some (sign_tx (we_tx we) unsigned [entry]))"

definition create_bond_transaction ::
  "wallet_env \<Rightarrow> u64 \<Rightarrow> u64 \<Rightarrow> outpoint \<Rightarrow> utxo_entry \<Rightarrow> (nat \<Rightarrow> submit_answer) \<Rightarrow> (wallet_error + string)" where
  "create_bond_transaction we cid bond op entry answer =
     (case proof_transaction we cid bond op entry of
        None \<Rightarrow> Inl UtxoTooSmallForProof
      | Some tx \<Rightarrow>
          (case submit_with_retry answer 0 of
             Inr _ \<Rightarrow> Inr (we_id_text we (id_of (we_tx we) tx))
           | Inl e \<Rightarrow> Inl (SubmissionFailed e)))"

text \<open>What a successful bond enters into the books.\<close>

definition track_bond :: "wallet \<Rightarrow> u64 \<Rightarrow> locked_utxo \<Rightarrow> wallet" where
  "track_bond w cid lu =
     w\<lparr>pending_bonds := (pending_bonds w)(cid \<mapsto> lu_tx lu), bonds := (bonds w)(cid \<mapsto> lu),
       total_locked := total_locked w + lu_bond lu\<rparr>"

definition lock_utxo_for_comment ::
  "wallet_env \<Rightarrow> u64 \<Rightarrow> (nat \<Rightarrow> submit_answer) \<Rightarrow> wallet \<Rightarrow> u64 \<Rightarrow> u64 \<Rightarrow> u64 \<Rightarrow> wallet \<times> (wallet_error + string)" where
  "lock_utxo_for_comment we now answer w cid bond duration =
     (if \<not> can_afford_bond w bond then (w, Inl (InsufficientUnlocked (get_available_balance w) bond))
      else let min_required = BOARD_FEE * 2 + 1000 in
        case smallest_utxo min_required None (available_utxos w) of
          None \<Rightarrow> (w, Inl (NoLargeUtxo min_required))
        | Some (op, entry) \<Rightarrow>
            if utxo_amount entry > 100000 then (w, Inl (MassLimit (utxo_amount entry)))
            else (case create_bond_transaction we cid bond op entry answer of
                Inl e \<Rightarrow> (w, Inl e)
              | Inr txid \<Rightarrow>
                  let lu = \<lparr>lu_outpoint = op, lu_entry = entry, lu_comment = cid, lu_bond = bond, lu_lock_time = now,
                            lu_unlock = TimeBasedRelease (now + duration), lu_tx = txid, lu_confirmation = None,
                            lu_level = ApplicationLayer txid\<rparr>
                  in (track_bond w cid lu, Inr txid)))"

section \<open>Bonds locked by a script\<close>

definition script_condition :: "u64 \<Rightarrow> pubkey \<Rightarrow> pubkey list option \<Rightarrow> nat option \<Rightarrow> unlock_condition" where
  "script_condition unlock_time user mods required =
     (case (mods, required) of
        (Some ms, Some n) \<Rightarrow> TimeOrModerator unlock_time user ms n
      | _ \<Rightarrow> TimeLock unlock_time user)"

text \<open>
  A bond so near to 2^64 that adding the fee wraps to zero selects no inputs; the code then panics at the
  first selected one, where this has \<open>hd []\<close>.
\<close>

definition create_script_based_bond ::
  "wallet_env \<Rightarrow> u64 \<Rightarrow> submit_answer \<Rightarrow> wallet \<Rightarrow> u64 \<Rightarrow> u64 \<Rightarrow> u64 \<Rightarrow> pubkey list option \<Rightarrow> nat option \<Rightarrow>
     wallet \<times> (wallet_error + string)" where
  "create_script_based_bond we now answer w cid bond duration mods required =
     (if \<not> can_afford_bond w bond then (w, Inl (InsufficientUnlocked (get_available_balance w) bond))
      else let condition = script_condition (now + duration) (we_key we) mods required in
        case validate_script_conditions condition now of
          Inl e \<Rightarrow> (w, Inl (InvalidScriptConditions e))
        | Inr _ \<Rightarrow>
            (case create_bond_script_pubkey condition of
               Inl e \<Rightarrow> (w, Inl (ScriptCreationFailed e))
             | Inr spk \<Rightarrow>
                 (case select_inputs (bond + BOARD_FEE) (available_utxos w) of
                    None \<Rightarrow> (w, Inl (NoUtxosFor ''bond creation''))
                  | Some (selected, covered) \<Rightarrow>
                      let unsigned = \<lparr>tx_inputs = build_inputs selected, tx_outs = bond_outputs we bond (snd spk) covered,
                                      tx_payload = script_bond_payload cid bond (snd spk)\<rparr>;
                          signed = sign_tx (we_tx we) unsigned (map snd selected);
                          txid = we_id_text we (id_of (we_tx we) signed)
                      in case answer of
                        SubmitFailed e \<Rightarrow> (w, Inl (SubmissionFailed e))
                      | Submitted \<Rightarrow>
                          let lu = \<lparr>lu_outpoint = fst (hd selected), lu_entry = snd (hd selected), lu_comment = cid, lu_bond = bond,
                                    lu_lock_time = now, lu_unlock = TimeBasedRelease (now + duration), lu_tx = txid,
                                    lu_confirmation = None, lu_level = ScriptBased spk condition\<rparr>
                          in (track_bond w cid lu, Inr txid))))"

text \<open>The older builder, from a single output.\<close>

definition create_script_bond_transaction ::
  "wallet_env \<Rightarrow> (nat \<Rightarrow> submit_answer) \<Rightarrow> u64 \<Rightarrow> u64 \<Rightarrow> outpoint \<Rightarrow> utxo_entry \<Rightarrow> bytes \<Rightarrow> (wallet_error + transaction)" where
  "create_script_bond_transaction we answer cid bond op entry script =
     (if utxo_amount entry < bond + BOARD_FEE then Inl (InsufficientUnlocked (utxo_amount entry) (bond + BOARD_FEE))
      else let change = utxo_amount entry - (bond + BOARD_FEE);
               bond_out = \<lparr>output_value = bond, script_public_key = script\<rparr>;
               unsigned = \<lparr>tx_inputs = build_inputs [(op, entry)],
                  tx_outs = (if change > 0 then [bond_out, \<lparr>output_value = change, script_public_key = we_script we\<rparr>] else [bond_out]),
                  tx_payload = script_bond_payload cid bond script\<rparr>;
               signed = sign_tx (we_tx we) unsigned [entry]
        in case submit_with_retry answer 0 of Inr _ \<Rightarrow> Inr signed | Inl e \<Rightarrow> Inl (SubmissionFailed e))"

section \<open>A comment with its bond\<close>

text \<open>One attempt: selection, nonce search, signature. \<open>inner\<close> is the encoded episode message.\<close>

definition comment_transaction ::
  "wallet_env \<Rightarrow> generator \<Rightarrow> bytes \<Rightarrow> u64 \<Rightarrow> u64 \<Rightarrow> u64 \<Rightarrow> bool \<Rightarrow> (outpoint \<times> utxo_entry) list \<Rightarrow> (wallet_error + transaction)" where
  "comment_transaction we gen inner now bond duration use_script utxos =
     (case select_inputs (bond + BOARD_FEE) utxos of
        None \<Rightarrow> Inl (NoUtxosFor ''comment+bond'')
      | Some (selected, covered) \<Rightarrow>
          let script = (if use_script then
                  (case create_bond_script_pubkey (TimeLock (now + duration) (we_key we)) of
                     Inr spk \<Rightarrow> snd spk | Inl _ \<Rightarrow> we_script we)
                else we_script we);
              unsigned = \<lparr>tx_inputs = build_inputs selected, tx_outs = bond_outputs we bond script covered,
                          tx_payload = pack_header inner (gen_prefix gen)\<rparr>
          in case find_nonce (we_tx we) (gen_pattern gen) unsigned 0 of
               None \<Rightarrow> Inl NonceOverflow
             | Some tx \<Rightarrow> Inr (sign_tx (we_tx we) tx (map snd selected)))"

text \<open>
  Two attempts at most, with a refresh before the second. For attempt \<open>k\<close>, \<open>now k\<close> is the clock and
  \<open>answer k\<close> what the node replies; \<open>refreshed\<close> is what it reports in between.
\<close>

definition submit_comment_with_bond_payload ::
  "wallet_env \<Rightarrow> generator \<Rightarrow> (nat \<Rightarrow> u64) \<Rightarrow> (nat \<Rightarrow> nat \<Rightarrow> submit_answer) \<Rightarrow> (outpoint \<times> utxo_entry) list option \<Rightarrow>
     wallet \<Rightarrow> bytes \<Rightarrow> u64 \<Rightarrow> u64 \<Rightarrow> bool \<Rightarrow> wallet \<times> (wallet_error + transaction)" where
  "submit_comment_with_bond_payload we gen now answer refreshed w inner bond duration use_script =
     (case comment_transaction we gen inner (now 0) bond duration use_script (available_utxos w) of
        Inl e \<Rightarrow> (w, Inl e)
      | Inr tx \<Rightarrow>
          (case submit_with_retry (answer 0) 0 of
             Inr _ \<Rightarrow> (w, Inr tx)
           | Inl e \<Rightarrow>
               if \<not> contains e ''orphan'' then (w, Inl (SubmissionFailed e))
               else let w1 = fst (refresh_utxos refreshed w) in
                 case comment_transaction we gen inner (now 1) bond duration use_script (available_utxos w1) of
                   Inl e1 \<Rightarrow> (w1, Inl e1)
                 | Inr tx1 \<Rightarrow>
                     (case submit_with_retry (answer 1) 0 of
                        Inr _ \<Rightarrow> (w1, Inr tx1)
                      | Inl e1 \<Rightarrow> (w1, Inl (SubmissionFailed e1)))))"

section \<open>Splitting outputs\<close>

definition split_transaction :: "wallet_env \<Rightarrow> u64 \<Rightarrow> outpoint \<Rightarrow> utxo_entry \<Rightarrow> transaction option" where
  "split_transaction we chunk op entry =
     (let available = sat_sub (utxo_amount entry) BOARD_FEE
      in if available \<le> chunk + 1000 then None
         else let unsigned = \<lparr>tx_inputs = build_inputs [(op, entry)],
                     tx_outs = [\<lparr>output_value = chunk, script_public_key = we_script we\<rparr>,
                                \<lparr>output_value = available - chunk, script_public_key = we_script we\<rparr>],
                     tx_payload = []\<rparr>
           in Some (sign_tx (we_tx we) unsigned [entry]))"

definition split_large_utxo ::
  "wallet_env \<Rightarrow> (nat \<Rightarrow> submit_answer) \<Rightarrow> wallet \<Rightarrow> u64 \<Rightarrow> u64 \<Rightarrow> wallet \<times> (wallet_error + unit)" where
  "split_large_utxo we answer w max_size chunk =
     (case find (\<lambda>u. utxo_amount (snd u) > max_size) (available_utxos w) of
        None \<Rightarrow> (w, Inr ())
      | Some (op, entry) \<Rightarrow>
          (case split_transaction we chunk op entry of
             None \<Rightarrow> (w, Inl TooSmallToSplit)
           | Some _ \<Rightarrow>
               (case submit_with_retry answer 0 of
                  Inr _ \<Rightarrow> (w\<lparr>available_utxos := filter (\<lambda>u. fst u \<noteq> op) (available_utxos w)\<rparr>, Inr ())
                | Inl e \<Rightarrow> (w, Inl (SubmissionFailed e)))))"

text \<open>\<open>answer k\<close> and \<open>report k\<close> are what the node replies and reports in round \<open>k\<close>.\<close>

function ensure_micro_utxos ::
  "wallet_env \<Rightarrow> (nat \<Rightarrow> nat \<Rightarrow> submit_answer) \<Rightarrow> (nat \<Rightarrow> (outpoint \<times> utxo_entry) list option) \<Rightarrow>
     nat \<Rightarrow> u64 \<Rightarrow> u64 \<Rightarrow> nat \<Rightarrow> wallet \<Rightarrow> wallet \<times> (wallet_error + unit)" where
  "ensure_micro_utxos we answer report min_count max_size chunk attempts w =
     (let small_count = length (filter (\<lambda>u. utxo_amount (snd u) \<le> max_size) (available_utxos w))
      in if small_count \<ge> min_count then (w, Inr ())
         else if attempts \<ge> 30 then (w, Inl (MicroUtxosMissing attempts small_count))
         else case split_large_utxo we (answer attempts) w max_size chunk of
           (w1, Inl e) \<Rightarrow> (w1, Inl e)
         | (w1, Inr _) \<Rightarrow>
             ensure_micro_utxos we answer report min_count max_size chunk (Suc attempts) (fst (refresh_utxos (report attempts) w1)))"
  by pat_completeness auto
termination by (relation "measure (\<lambda>(_, _, _, _, _, _, attempts, _). 30 - attempts)") auto

declare ensure_micro_utxos.simps [simp del]

section \<open>The life of a bond\<close>

definition can_unlock_bond :: "u64 \<Rightarrow> wallet \<Rightarrow> u64 \<Rightarrow> bool" where
  "can_unlock_bond now w cid =
     (case bonds w cid of
        None \<Rightarrow> False
      | Some lu \<Rightarrow> (case lu_unlock lu of TimeBasedRelease t \<Rightarrow> now \<ge> t | _ \<Rightarrow> False))"

definition unlock_bond :: "u64 \<Rightarrow> wallet \<Rightarrow> u64 \<Rightarrow> wallet \<times> (wallet_error + u64)" where
  "unlock_bond now w cid =
     (if \<not> can_unlock_bond now w cid then (w, Inl NotYetUnlockable)
      else case bonds w cid of
        None \<Rightarrow> (w, Inl NoLockedBond)
      | Some lu \<Rightarrow> (w\<lparr>bonds := (bonds w)(cid := None), total_locked := total_locked w - lu_bond lu\<rparr>, Inr (lu_bond lu)))"

definition forfeit_bond :: "wallet \<Rightarrow> u64 \<Rightarrow> wallet \<times> (wallet_error + u64)" where
  "forfeit_bond w cid =
     (case bonds w cid of
        None \<Rightarrow> (w, Inl NoLockedBond)
      | Some lu \<Rightarrow> (w\<lparr>bonds := (bonds w)(cid := None), total_locked := total_locked w - lu_bond lu\<rparr>, Inr (lu_bond lu)))"

text \<open>\<open>report cid\<close> is what the node reports when the bond of \<open>cid\<close> is looked up.\<close>

definition bond_confirmed :: "(u64 \<Rightarrow> (outpoint \<times> utxo_entry) list option) \<Rightarrow> wallet \<Rightarrow> u64 \<Rightarrow> bool" where
  "bond_confirmed report w cid \<longleftrightarrow> pending_bonds w cid \<noteq> None \<and> bonds w cid \<noteq> None \<and>
     (case report cid of Some entries \<Rightarrow> entries \<noteq> [] | None \<Rightarrow> False)"

definition scan_pending_bonds :: "(u64 \<Rightarrow> (outpoint \<times> utxo_entry) list option) \<Rightarrow> wallet \<Rightarrow> wallet" where
  "scan_pending_bonds report w =
     w\<lparr>bonds := (\<lambda>cid. if bond_confirmed report w cid then map_option (\<lambda>lu. lu\<lparr>lu_confirmation := Some 1\<rparr>) (bonds w cid) else bonds w cid),
       pending_bonds := (\<lambda>cid. if bond_confirmed report w cid then None else pending_bonds w cid)\<rparr>"

definition remaining_lock_time :: "u64 \<Rightarrow> locked_utxo \<Rightarrow> u64" where
  "remaining_lock_time now lu =
     (case lu_unlock lu of TimeBasedRelease t \<Rightarrow> if t > now then t - now else 600 | _ \<Rightarrow> 600)"

definition upgrade_bond_to_script_based ::
  "wallet_env \<Rightarrow> u64 \<Rightarrow> submit_answer \<Rightarrow> wallet \<Rightarrow> u64 \<Rightarrow> pubkey list option \<Rightarrow> nat option \<Rightarrow> wallet \<times> (wallet_error + string)" where
  "upgrade_bond_to_script_based we now answer w cid mods required =
     (case bonds w cid of
        None \<Rightarrow> (w, Inl NoLockedBond)
      | Some lu \<Rightarrow>
          (case lu_level lu of
             ScriptBased _ _ \<Rightarrow> (w, Inl AlreadyScriptBased)
           | ApplicationLayer _ \<Rightarrow>
               (case create_script_based_bond we now answer w (cid + 1000000) (lu_bond lu) (remaining_lock_time now lu) mods required of
                  (w1, Inr txid) \<Rightarrow>
                    (w1\<lparr>bonds := (bonds w1)(cid := None), pending_bonds := (pending_bonds w1)(cid := None)\<rparr>, Inr txid)
                | (w1, Inl e) \<Rightarrow> (w1, Inl (BondUpgradeFailed e)))))"

end
