(* ===== verification/Bond_Wallet_Properties.thy ===== *)
theory Bond_Wallet_Properties
  imports Bond_Wallet
begin

text \<open>
  What the wallet of the comment board promises: which outputs a transaction takes and that its
  amounts add up, when a bond can be locked at all, and that its books of locked bonds are exact up to
  the bonds two operations forget.
\<close>

section \<open>Selecting outputs\<close>

definition funds :: "(outpoint \<times> utxo_entry) list \<Rightarrow> nat" where
  "funds us = (\<Sum>u\<leftarrow>us. unat (utxo_amount (snd u)))"

lemma funds_simps [simp]: "funds [] = 0" "funds (u # us) = unat (utxo_amount (snd u)) + funds us"
  "funds (us @ vs) = funds us + funds vs"
  by (simp_all add: funds_def)

lemma funds_insort: "funds (insort_key f u us) = funds (u # us)"
  by (induction us) auto

lemma funds_sort [simp]: "funds (sort_key f us) = funds us"
  by (induction us) (simp_all add: funds_insort)

lemma take_inputs_spec:
  assumes "unat covered + funds us < 2 ^ 64" "take_inputs required us selected covered = (sel, cov)"
  shows "\<exists>new rest. us = new @ rest \<and> sel = selected @ new \<and> unat cov = unat covered + funds new \<and>
    (rest \<noteq> [] \<longrightarrow> required \<le> cov) \<and> (new \<noteq> [] \<longrightarrow> butlast new \<noteq> [] \<longrightarrow> unat covered + funds (butlast new) < unat required)"
  using assms
proof (induction required us selected covered rule: take_inputs.induct)
  case (2 required u us selected covered)
  let ?c = "sat_add covered (utxo_amount (snd u))"
  have c: "unat ?c = unat covered + unat (utxo_amount (snd u))"
    using "2.prems"(1) by (intro unat_sat_add) simp
  show ?case
  proof (cases "required \<le> ?c")
    case True
    with "2.prems"(2) have "sel = selected @ [u]" "cov = ?c" by simp_all
    with True c show ?thesis by (intro exI [of _ "[u]"] exI [of _ us]) simp
  next
    case False
    with "2.prems" c have "\<exists>new rest. us = new @ rest \<and> sel = (selected @ [u]) @ new \<and> unat cov = unat ?c + funds new \<and>
        (rest \<noteq> [] \<longrightarrow> required \<le> cov) \<and> (new \<noteq> [] \<longrightarrow> butlast new \<noteq> [] \<longrightarrow> unat ?c + funds (butlast new) < unat required)"
      by (intro "2.IH" [OF refl refl]) simp_all
    then obtain new rest where ih: "us = new @ rest" "sel = (selected @ [u]) @ new" "unat cov = unat ?c + funds new"
        "rest \<noteq> [] \<longrightarrow> required \<le> cov" "new \<noteq> [] \<longrightarrow> butlast new \<noteq> [] \<longrightarrow> unat ?c + funds (butlast new) < unat required"
      by (elim exE conjE)
    have "unat ?c < unat required" using False by (simp add: word_le_nat_alt)
    then have "unat covered + funds (butlast (u # new)) < unat required" if "new \<noteq> []"
      using ih(5) c that by (cases "butlast new = []") auto
    with ih c show ?thesis by (intro exI [of _ "u # new"] exI [of _ rest]) auto
  qed
qed simp

lemma select_inputs_spec:
  assumes "funds us < 2 ^ 64"
  shows "case select_inputs required us of
      None \<Rightarrow> funds us < unat required
    | Some (sel, cov) \<Rightarrow> (\<exists>rest. sort_key (utxo_amount \<circ> snd) us = sel @ rest) \<and> unat cov = funds sel \<and>
        unat required \<le> funds sel \<and> (1 < length sel \<longrightarrow> funds (butlast sel) < unat required)"
proof -
  obtain sel cov where ti: "take_inputs required (sort_key (utxo_amount \<circ> snd) us) [] 0 = (sel, cov)"
    by (cases "take_inputs required (sort_key (utxo_amount \<circ> snd) us) [] 0")
  have "unat (0 :: u64) + funds (sort_key (utxo_amount \<circ> snd) us) < 2 ^ 64" using assms by simp
  from take_inputs_spec [OF this ti] obtain rest where
    r: "sort_key (utxo_amount \<circ> snd) us = sel @ rest" "unat cov = funds sel" "rest \<noteq> [] \<longrightarrow> required \<le> cov"
       "sel \<noteq> [] \<longrightarrow> butlast sel \<noteq> [] \<longrightarrow> funds (butlast sel) < unat required"
    by (elim exE conjE) simp
  have "funds us = funds sel + funds rest" by (metis funds_simps(3) funds_sort r(1))
  moreover have "1 < length sel \<Longrightarrow> sel \<noteq> [] \<and> butlast sel \<noteq> []"
    by (metis length_0_conv length_butlast less_numeral_extra(3) not_one_less_zero zero_less_diff)
  moreover have "select_inputs required us = (if cov < required then None else Some (sel, cov))"
    by (simp add: select_inputs_def ti)
  moreover have "rest = [] \<or> required \<le> cov" using r(3) by blast
  ultimately show ?thesis
    using r(1,2,4) by (auto simp: word_le_nat_alt word_less_nat_alt simp del: One_nat_def split: if_splits)
qed

section \<open>Amounts\<close>

definition paid_out :: "transaction \<Rightarrow> nat" where
  "paid_out tx = (\<Sum>o1\<leftarrow>tx_outs tx. unat (output_value o1))"

lemma bond_outputs_sum:
  assumes "unat bond + 5000 \<le> unat cov"
  shows "(\<Sum>o1\<leftarrow>bond_outputs we bond script cov. unat (output_value o1)) + 5000 = unat cov"
proof -
  have "unat cov < 2 ^ 64" using unsigned_less [of cov] by simp
  then have "unat (bond + BOARD_FEE) = unat bond + 5000"
    using assms unat_add_lem [of bond BOARD_FEE] by (simp add: BOARD_FEE_def)
  then show ?thesis
    using assms by (auto simp: bond_outputs_def Let_def unat_sat_sub word_gt_0 simp flip: unat_eq_0)
qed

definition demo_wallet_env :: wallet_env where
  "demo_wallet_env = \<lparr>we_tx = \<lparr>id_of = (\<lambda>_. []), sign_tx = (\<lambda>t _. t)\<rparr>, we_key = PubKey (replicate 33 2), we_script = [1],
     we_id_text = (\<lambda>_. ''id'')\<rparr>"

definition demo_utxo :: "u64 \<Rightarrow> outpoint \<times> utxo_entry" where
  "demo_utxo amount = (\<lparr>op_txid = [], op_index = 0\<rparr>, \<lparr>utxo_amount = amount, utxo_script = [1]\<rparr>)"

text \<open>
  C22: A comment with its bond is a transaction whose amounts add up: it spends the smallest outputs of
  the wallet, in order and no more of them than needed, pays the bond first, and inputs exceed outputs
  by exactly the fee. It is refused exactly for lack of funds or, after all nonces, of a matching
  transaction id.
\<close>
theorem bond_transaction_balances:
  assumes "\<forall>tx es. tx_outs (sign_tx (we_tx we) tx es) = tx_outs tx"
    and "\<forall>tx es. map previous_outpoint (tx_inputs (sign_tx (we_tx we) tx es)) = map previous_outpoint (tx_inputs tx)"
    and "funds utxos < 2 ^ 64" and "unat bond + 5000 < 2 ^ 64"
  shows "case comment_transaction we gen inner now bond duration use_script utxos of
      Inl e \<Rightarrow> (if funds utxos < unat bond + 5000 then e = NoUtxosFor ''comment+bond'' else e = NonceOverflow)
    | Inr tx \<Rightarrow> \<exists>sel rest. sort_key (utxo_amount \<circ> snd) utxos = sel @ rest \<and>
        map previous_outpoint (tx_inputs tx) = map fst sel \<and> funds (butlast sel) < unat bond + 5000 \<and>
        output_value (hd (tx_outs tx)) = bond \<and> paid_out tx + 5000 = funds sel"
proof -
  have req: "unat (bond + BOARD_FEE) = unat bond + 5000"
    using assms(4) unat_add_lem [of bond BOARD_FEE] by (simp add: BOARD_FEE_def)
  note sel_spec = select_inputs_spec [OF assms(3), of "bond + BOARD_FEE"]
  show ?thesis
  proof (cases "select_inputs (bond + BOARD_FEE) utxos")
    case None
    with sel_spec req show ?thesis by (simp add: comment_transaction_def)
  next
    case (Some sc)
    obtain sel cov where sc: "sc = (sel, cov)" by (cases sc)
    from sel_spec Some sc req obtain rest where
      s: "sort_key (utxo_amount \<circ> snd) utxos = sel @ rest" "unat cov = funds sel" "unat bond + 5000 \<le> funds sel"
         "1 < length sel \<longrightarrow> funds (butlast sel) < unat bond + 5000"
      by auto
    have fewest: "funds (butlast sel) < unat bond + 5000"
      using s(4) by (cases "1 < length sel") (cases sel; simp)+
    have enough: "\<not> funds utxos < unat bond + 5000"
      using s(1,3) by (metis funds_simps(3) funds_sort le_add1 le_trans not_less)
    obtain script where "comment_transaction we gen inner now bond duration use_script utxos =
        (case find_nonce (we_tx we) (gen_pattern gen) \<lparr>tx_inputs = build_inputs sel, tx_outs = bond_outputs we bond script cov,
            tx_payload = pack_header inner (gen_prefix gen)\<rparr> 0 of
          None \<Rightarrow> Inl NonceOverflow | Some tx \<Rightarrow> Inr (sign_tx (we_tx we) tx (map snd sel)))"
      using Some sc by (simp add: comment_transaction_def Let_def)
    moreover have "map previous_outpoint (build_inputs sel) = map fst sel"
      by (auto simp: build_inputs_def)
    moreover have "output_value (hd (bond_outputs we bond script cov)) = bond" by (simp add: bond_outputs_def Let_def)
    ultimately show ?thesis
      using s fewest enough assms(1,2) bond_outputs_sum [of bond cov we script]
      by (auto simp: paid_out_def dest!: find_nonce_keeps split: option.splits)
  qed
qed

theorem bond_transaction_balances_witness:
  "\<exists>tx sel rest. comment_transaction demo_wallet_env \<lparr>gen_pattern = [], gen_prefix = 7\<rparr> [9] 100 20000 600 True
       [demo_utxo 18000, demo_utxo 90000, demo_utxo 9000] = Inr tx \<and>
     [demo_utxo 9000, demo_utxo 18000, demo_utxo 90000] = sel @ rest \<and> funds (butlast sel) < 25000 \<and>
     output_value (hd (tx_outs tx)) = 20000 \<and> paid_out tx + 5000 = funds sel"
proof -
  let ?us = "[demo_utxo 18000, demo_utxo 90000, demo_utxo 9000]"
  let ?tx = "comment_transaction demo_wallet_env \<lparr>gen_pattern = [], gen_prefix = 7\<rparr> [9] 100 20000 600 True ?us"
  have sorted: "sort_key (utxo_amount \<circ> snd) ?us = [demo_utxo 9000, demo_utxo 18000, demo_utxo 90000]"
    by (simp add: demo_utxo_def)
  have spec: "case ?tx of
      Inl e \<Rightarrow> (if funds ?us < unat (20000 :: u64) + 5000 then e = NoUtxosFor ''comment+bond'' else e = NonceOverflow)
    | Inr tx \<Rightarrow> \<exists>sel rest. sort_key (utxo_amount \<circ> snd) ?us = sel @ rest \<and>
        map previous_outpoint (tx_inputs tx) = map fst sel \<and> funds (butlast sel) < unat (20000 :: u64) + 5000 \<and>
        output_value (hd (tx_outs tx)) = 20000 \<and> paid_out tx + 5000 = funds sel"
    by (rule bond_transaction_balances) (simp_all add: demo_wallet_env_def demo_utxo_def)
  obtain tx where tx: "?tx = Inr tx"
    by (simp add: comment_transaction_def select_inputs_def sorted) 
      (simp add: demo_utxo_def BOARD_FEE_def sat_add_def find_nonce.simps)
  from spec obtain sel rest where "[demo_utxo 9000, demo_utxo 18000, demo_utxo 90000] = sel @ rest"
      "funds (butlast sel) < 25000" "output_value (hd (tx_outs tx)) = 20000" "paid_out tx + 5000 = funds sel"
    unfolding sorted tx by auto
  with tx show ?thesis by blast
qed

section \<open>Locking with a proof transaction\<close>

definition fits :: "u64 \<Rightarrow> u64 \<Rightarrow> outpoint \<times> utxo_entry \<Rightarrow> bool" where
  "fits lo hi u \<longleftrightarrow> lo \<le> utxo_amount (snd u) \<and> utxo_amount (snd u) \<le> hi"

lemma smallest_utxo_spec:
  assumes "\<forall>b. best = Some b \<longrightarrow> least \<le> utxo_amount (snd b)"
  shows "case smallest_utxo least best us of
      None \<Rightarrow> best = None \<and> (\<forall>u \<in> set us. utxo_amount (snd u) < least)
    | Some m \<Rightarrow> (best = Some m \<or> m \<in> set us) \<and> least \<le> utxo_amount (snd m) \<and>
        (\<forall>u. best = Some u \<or> u \<in> set us \<longrightarrow> least \<le> utxo_amount (snd u) \<longrightarrow> utxo_amount (snd m) \<le> utxo_amount (snd u))"
  using assms
proof (induction least best us rule: smallest_utxo.induct)
  case (2 least best u us)
  let ?best = "if utxo_amount (snd u) \<ge> least then
      (case best of None \<Rightarrow> Some u | Some b \<Rightarrow> if utxo_amount (snd u) < utxo_amount (snd b) then Some u else best) else best"
  have "\<forall>b. ?best = Some b \<longrightarrow> least \<le> utxo_amount (snd b)"
    using "2.prems" by (auto split: option.splits)
  note ih = "2.IH" [OF this]
  have keep: "\<exists>b. ?best = Some b \<and> least \<le> utxo_amount (snd b) \<and> utxo_amount (snd b) \<le> utxo_amount (snd v)"
    if "best = Some v \<or> v = u" "least \<le> utxo_amount (snd v)" for v
    using that "2.prems" by (cases best) (auto simp del: split_paired_Ex)
  show ?case
  proof (cases "smallest_utxo least ?best us")
    case None
    with ih have "?best = None" "\<forall>u \<in> set us. utxo_amount (snd u) < least" by simp_all
    with None "2.prems" show ?thesis by (cases best) (auto split: if_splits)
  next
    case (Some m)
    have le: "utxo_amount (snd m) \<le> utxo_amount (snd v)"
      if v: "best = Some v \<or> v \<in> set (u # us)" "least \<le> utxo_amount (snd v)" for v
    proof (cases "v \<in> set us")
      case False
      with v obtain b where "?best = Some b" "least \<le> utxo_amount (snd b)" "utxo_amount (snd b) \<le> utxo_amount (snd v)"
        using keep [of v] by auto
      moreover have "utxo_amount (snd m) \<le> utxo_amount (snd b)"
        using ih Some calculation by (simp del: split_paired_All)
      ultimately show ?thesis by simp
    qed (use ih Some v in \<open>simp del: split_paired_All\<close>)
    have "?best = Some m \<longrightarrow> best = Some m \<or> m = u" by (cases best) auto
    with ih Some have "best = Some m \<or> m \<in> set (u # us)" "least \<le> utxo_amount (snd m)" by auto
    with Some le show ?thesis by auto
  qed
qed (auto split: option.splits)

lemma proof_transaction_split:
  assumes "11000 \<le> utxo_amount entry"
  shows "proof_transaction we cid bond op entry =
    (if utxo_amount entry < 15000 then None
     else Some (sign_tx (we_tx we) \<lparr>tx_inputs = build_inputs [(op, entry)],
       tx_outs = [\<lparr>output_value = 10000, script_public_key = we_script we\<rparr>,
                  \<lparr>output_value = utxo_amount entry - 10000, script_public_key = we_script we\<rparr>],
       tx_payload = ascii (''BOND:'' @ show_u64 cid @ '':'' @ show_u64 bond)\<rparr> [entry]))"
proof -
  have "utxo_amount entry - 10000 < 5000 \<longleftrightarrow> utxo_amount entry < 15000"
    using assms by (simp add: word_less_nat_alt word_le_nat_alt unat_sub) linarith
  then show ?thesis by (simp add: proof_transaction_def BOARD_FEE_def Let_def)
qed

text \<open>
  The proof transaction of a bond locks nothing: whatever the bond, it sends the whole input back
  to the wallet's own script in two outputs, and leaves no fee for the network.
\<close>
theorem proof_transaction_free:
  assumes "\<forall>tx es. tx_outs (sign_tx (we_tx we) tx es) = tx_outs tx" and "15000 \<le> utxo_amount entry"
  shows "\<exists>tx. proof_transaction we cid bond op entry = Some tx \<and> paid_out tx = unat (utxo_amount entry) \<and>
    (\<forall>o1 \<in> set (tx_outs tx). script_public_key o1 = we_script we)"
proof -
  have "(11000 :: u64) \<le> utxo_amount entry" "(10000 :: u64) \<le> utxo_amount entry" "\<not> utxo_amount entry < 15000"
    using assms(2) by (auto simp: word_le_nat_alt word_less_nat_alt)
  with assms show ?thesis
    by (simp add: proof_transaction_split paid_out_def unat_sub) (simp add: word_le_nat_alt)
qed

theorem proof_transaction_free_witness:
  "\<exists>tx. proof_transaction demo_wallet_env 1 100000000 (fst (demo_utxo 15000)) (snd (demo_utxo 15000)) = Some tx \<and> paid_out tx = 15000"
  using proof_transaction_free [of demo_wallet_env "snd (demo_utxo 15000)" 1 100000000 "fst (demo_utxo 15000)"]
  by (auto simp: demo_wallet_env_def demo_utxo_def)

text \<open>
  C23: When a bond can be locked: the books must cover it, the node must take the transaction, some
  output must lie between 15,000 and 100,000 sompi, and no output between 11,000 and 15,000. One
  output of that size blocks the wallet, because the smallest candidate is taken and then refused.
\<close>
theorem lock_succeeds_iff:
  "(\<exists>w' txid. lock_utxo_for_comment we now answer w cid bond duration = (w', Inr txid)) \<longleftrightarrow>
     can_afford_bond w bond \<and> submit_with_retry answer 0 = Inr () \<and>
     (\<exists>u \<in> set (available_utxos w). fits 15000 100000 u) \<and> \<not> (\<exists>u \<in> set (available_utxos w). fits 11000 14999 u)"
proof (cases "can_afford_bond w bond")
  case True
  show ?thesis
  proof (cases "smallest_utxo 11000 None (available_utxos w)")
    case None
    then have "\<forall>u \<in> set (available_utxos w). utxo_amount (snd u) < 11000"
      using smallest_utxo_spec [of None 11000 "available_utxos w"] by simp
    with None True show ?thesis
      by (force simp: lock_utxo_for_comment_def BOARD_FEE_def fits_def word_less_nat_alt word_le_nat_alt)
  next
    case (Some m)
    obtain op entry where m: "m = (op, entry)" by (cases m)
    have least: "m \<in> set (available_utxos w)" "11000 \<le> utxo_amount entry"
      "\<forall>u \<in> set (available_utxos w). 11000 \<le> utxo_amount (snd u) \<longrightarrow> utxo_amount entry \<le> utxo_amount (snd u)"
      using smallest_utxo_spec [of None 11000 "available_utxos w"] Some m by auto
    have "(\<exists>u \<in> set (available_utxos w). fits 15000 100000 u) \<and> \<not> (\<exists>u \<in> set (available_utxos w). fits 11000 14999 u) \<longleftrightarrow>
        fits 15000 100000 m"
      using least m by (fastforce simp: fits_def word_less_nat_alt word_le_nat_alt)
    moreover have "(\<exists>w' txid. lock_utxo_for_comment we now answer w cid bond duration = (w', Inr txid)) \<longleftrightarrow>
        submit_with_retry answer 0 = Inr () \<and> fits 15000 100000 m"
      using Some m True least(2)
      by (auto simp: lock_utxo_for_comment_def BOARD_FEE_def create_bond_transaction_def proof_transaction_split fits_def Let_def
        not_less split: sum.splits if_splits)
    ultimately show ?thesis using True by blast
  qed
qed (simp add: lock_utxo_for_comment_def)

section \<open>The books\<close>

text \<open>The calls of the owner, each with what the clock and the node answer.\<close>

datatype wallet_op =
    OpRefresh "(outpoint \<times> utxo_entry) list option"
  | OpLock u64 "nat \<Rightarrow> submit_answer" u64 u64 u64
  | OpScript u64 submit_answer u64 u64 u64 "pubkey list option" "nat option"
  | OpComment generator "nat \<Rightarrow> u64" "nat \<Rightarrow> nat \<Rightarrow> submit_answer" "(outpoint \<times> utxo_entry) list option" bytes u64 u64 bool
  | OpMicro "nat \<Rightarrow> nat \<Rightarrow> submit_answer" "nat \<Rightarrow> (outpoint \<times> utxo_entry) list option" nat u64 u64
  | OpUnlock u64 u64
  | OpForfeit u64
  | OpScan "u64 \<Rightarrow> (outpoint \<times> utxo_entry) list option"
  | OpUpgrade u64 submit_answer u64 "pubkey list option" "nat option"

fun wallet_op_run :: "wallet_env \<Rightarrow> wallet_op \<Rightarrow> wallet \<Rightarrow> wallet" where
  "wallet_op_run we (OpRefresh r) w = fst (refresh_utxos r w)"
| "wallet_op_run we (OpLock now a cid bond d) w = fst (lock_utxo_for_comment we now a w cid bond d)"
| "wallet_op_run we (OpScript now a cid bond d ms n) w = fst (create_script_based_bond we now a w cid bond d ms n)"
| "wallet_op_run we (OpComment g now a r inner bond d us) w = fst (submit_comment_with_bond_payload we g now a r w inner bond d us)"
| "wallet_op_run we (OpMicro a r cnt mx ch) w = fst (ensure_micro_utxos we a r cnt mx ch 0 w)"
| "wallet_op_run we (OpUnlock now cid) w = fst (unlock_bond now w cid)"
| "wallet_op_run we (OpForfeit cid) w = fst (forfeit_bond w cid)"
| "wallet_op_run we (OpScan r) w = scan_pending_bonds r w"
| "wallet_op_run we (OpUpgrade now a cid ms n) w = fst (upgrade_bond_to_script_based we now a w cid ms n)"

text \<open>The bonds an id holds, the bonds in the books, and the bonds a call forgets to release.\<close>

definition bond_at :: "wallet \<Rightarrow> u64 \<Rightarrow> u64" where
  "bond_at w cid = (case bonds w cid of None \<Rightarrow> 0 | Some lu \<Rightarrow> lu_bond lu)"

definition locked_sum :: "wallet \<Rightarrow> u64" where
  "locked_sum w = (\<Sum>cid \<in> dom (bonds w). bond_at w cid)"

definition succeeded :: "'a \<times> ('e + 'b) \<Rightarrow> bool" where
  "succeeded r = (case snd r of Inl _ \<Rightarrow> False | Inr _ \<Rightarrow> True)"

fun forgotten :: "wallet_env \<Rightarrow> wallet_op \<Rightarrow> wallet \<Rightarrow> u64" where
  "forgotten we (OpLock now a cid bond d) w =
     (if succeeded (lock_utxo_for_comment we now a w cid bond d) then bond_at w cid else 0)"
| "forgotten we (OpScript now a cid bond d ms n) w =
     (if succeeded (create_script_based_bond we now a w cid bond d ms n) then bond_at w cid else 0)"
| "forgotten we (OpUpgrade now a cid ms n) w =
     (if succeeded (upgrade_bond_to_script_based we now a w cid ms n) then bond_at w cid + bond_at w (cid + 1000000) else 0)"
| "forgotten we _ w = 0"

fun wallet_run :: "wallet_env \<Rightarrow> wallet_op list \<Rightarrow> wallet \<Rightarrow> wallet" where
  "wallet_run we [] w = w"
| "wallet_run we (x # xs) w = wallet_run we xs (wallet_op_run we x w)"

fun all_forgotten :: "wallet_env \<Rightarrow> wallet_op list \<Rightarrow> wallet \<Rightarrow> u64" where
  "all_forgotten we [] w = 0"
| "all_forgotten we (x # xs) w = forgotten we x w + all_forgotten we xs (wallet_op_run we x w)"

subsection \<open>How the sum of the bonds changes\<close>

lemma locked_sum_cong: "bonds w' = bonds w \<Longrightarrow> locked_sum w' = locked_sum w"
  by (simp add: locked_sum_def bond_at_def)

lemma locked_sum_remove:
  assumes "finite (dom (bonds w))" "bonds w' = (bonds w)(cid := None)"
  shows "locked_sum w' = locked_sum w - bond_at w cid"
proof (cases "cid \<in> dom (bonds w)")
  case True
  then have "locked_sum w = bond_at w cid + (\<Sum>c \<in> dom (bonds w) - {cid}. bond_at w c)"
    unfolding locked_sum_def using assms(1) by (rule sum.remove [rotated])
  moreover have "locked_sum w' = (\<Sum>c \<in> dom (bonds w) - {cid}. bond_at w c)"
    unfolding locked_sum_def using assms(2) by (intro sum.cong) (auto simp: bond_at_def)
  ultimately show ?thesis by simp
next
  case False
  then have same: "bonds w' = bonds w" and "bond_at w cid = 0" using assms(2) by (auto simp: bond_at_def domIff)
  then show ?thesis using locked_sum_cong [OF same] by simp
qed

lemma locked_sum_insert:
  assumes "finite (dom (bonds w))" "bonds w' = (bonds w)(cid \<mapsto> lu)"
  shows "locked_sum w' = locked_sum w - bond_at w cid + lu_bond lu"
proof -
  let ?w0 = "w\<lparr>bonds := (bonds w)(cid := None)\<rparr>"
  have "locked_sum w' = bond_at w' cid + (\<Sum>c \<in> dom (bonds w') - {cid}. bond_at w' c)"
    unfolding locked_sum_def using assms by (intro sum.remove) auto
  also have "(\<Sum>c \<in> dom (bonds w') - {cid}. bond_at w' c) = locked_sum ?w0"
    unfolding locked_sum_def using assms(2) by (intro sum.cong) (auto simp: bond_at_def)
  also have "\<dots> = locked_sum w - bond_at w cid"
    using assms(1) by (rule locked_sum_remove) simp
  finally show ?thesis using assms(2) by (simp add: bond_at_def)
qed

text \<open>What the total exceeds the bonds by.\<close>

definition surplus :: "wallet \<Rightarrow> u64" where
  "surplus w = total_locked w - locked_sum w"

definition books_step :: "wallet \<Rightarrow> wallet \<Rightarrow> u64 \<Rightarrow> bool" where
  "books_step w w' d \<longleftrightarrow> finite (dom (bonds w')) \<and> surplus w' = surplus w + d"

lemma books_same:
  "finite (dom (bonds w)) \<Longrightarrow> bonds w' = bonds w \<Longrightarrow> total_locked w' = total_locked w \<Longrightarrow> books_step w w' 0"
  using locked_sum_cong [of w' w] by (simp add: books_step_def surplus_def)

lemma books_track: "finite (dom (bonds w)) \<Longrightarrow> books_step w (track_bond w cid lu) (bond_at w cid)"
  using locked_sum_insert [of w "track_bond w cid lu" cid lu]
  by (simp add: books_step_def surplus_def track_bond_def)

lemma books_release:
  assumes "finite (dom (bonds w))" "bonds w cid = Some lu"
  shows "books_step w (w\<lparr>bonds := (bonds w)(cid := None), total_locked := total_locked w - lu_bond lu\<rparr>) 0"
  using assms locked_sum_remove [of w "w\<lparr>bonds := (bonds w)(cid := None), total_locked := total_locked w - lu_bond lu\<rparr>" cid]
  by (simp add: books_step_def surplus_def bond_at_def)

subsection \<open>Each call\<close>

definition same_books :: "wallet \<Rightarrow> wallet \<Rightarrow> bool" where
  "same_books w w' \<longleftrightarrow> bonds w' = bonds w \<and> total_locked w' = total_locked w"

lemma same_books_refl [simp]: "same_books w w" by (simp add: same_books_def)

lemma same_books_trans: "same_books w w1 \<Longrightarrow> same_books w1 w2 \<Longrightarrow> same_books w w2"
  by (simp add: same_books_def)

lemma refresh_same_books [simp]: "same_books w (fst (refresh_utxos r w))"
  by (simp add: same_books_def refresh_utxos_def Let_def split: option.split)

lemma comment_same_books: "same_books w (fst (submit_comment_with_bond_payload we g now a r w inner bond d us))"
  by (auto simp: submit_comment_with_bond_payload_def Let_def split: sum.split)

lemma split_same_books: "same_books w (fst (split_large_utxo we a w mx ch))"
  by (auto simp: split_large_utxo_def same_books_def split: option.split sum.split)

lemma micro_same_books: "same_books w (fst (ensure_micro_utxos we a r cnt mx ch k w))"
proof (induction we a r cnt mx ch k w rule: ensure_micro_utxos.induct)
  case (1 we a r cnt mx ch k w)
  let ?small = "length (filter (\<lambda>u. utxo_amount (snd u) \<le> mx) (available_utxos w))"
  obtain w1 res where split: "split_large_utxo we (a k) w mx ch = (w1, res)" by (cases "split_large_utxo we (a k) w mx ch")
  have w1: "same_books w w1" using split_same_books [of w we "a k" mx ch] split by simp
  show ?case
  proof (cases "?small \<ge> cnt \<or> k \<ge> 30 \<or> (\<exists>e. res = Inl e)")
    case True
    then show ?thesis using split w1 by (subst ensure_micro_utxos.simps) (auto simp: Let_def)
  next
    case False
    then obtain u where "res = Inr u" by (cases res) auto
    with False split have "same_books (fst (refresh_utxos (r k) w1))
        (fst (ensure_micro_utxos we a r cnt mx ch (Suc k) (fst (refresh_utxos (r k) w1))))"
      by (intro "1.IH" [OF refl _ _ split [symmetric]]) auto
    moreover have "same_books w (fst (refresh_utxos (r k) w1))"
      using w1 refresh_same_books by (rule same_books_trans)
    ultimately show ?thesis
      using False split \<open>res = Inr u\<close> by (subst ensure_micro_utxos.simps) (auto simp: Let_def intro: same_books_trans)
  qed
qed

lemma scan_books:
  assumes "finite (dom (bonds w))"
  shows "books_step w (scan_pending_bonds r w) 0"
proof -
  have "dom (bonds (scan_pending_bonds r w)) = dom (bonds w)"
    by (auto simp: scan_pending_bonds_def bond_confirmed_def dom_def)
  moreover have "bond_at (scan_pending_bonds r w) = bond_at w"
    by (rule ext) (simp add: scan_pending_bonds_def bond_at_def split: option.split)
  ultimately show ?thesis
    using assms by (simp add: books_step_def surplus_def locked_sum_def) (simp add: scan_pending_bonds_def)
qed

lemma script_bond_cases:
  "(\<exists>e. create_script_based_bond we now a w cid bond d ms n = (w, Inl e)) \<or>
   (\<exists>lu txid. create_script_based_bond we now a w cid bond d ms n = (track_bond w cid lu, Inr txid) \<and> lu_bond lu = bond)"
  by (auto simp: create_script_based_bond_def Let_def split: sum.split option.split submit_answer.split)

lemma lock_cases:
  "(\<exists>e. lock_utxo_for_comment we now a w cid bond d = (w, Inl e)) \<or>
   (\<exists>lu txid. lock_utxo_for_comment we now a w cid bond d = (track_bond w cid lu, Inr txid) \<and> lu_bond lu = bond)"
  by (auto simp: lock_utxo_for_comment_def Let_def split: sum.split option.split)

lemma upgrade_books:
  assumes "finite (dom (bonds w))"
  shows "books_step w (fst (upgrade_bond_to_script_based we now a w cid ms n)) (forgotten we (OpUpgrade now a cid ms n) w)"
proof (cases "\<exists>lu txid0. bonds w cid = Some lu \<and> lu_level lu = ApplicationLayer txid0")
  case False
  then show ?thesis
    using assms by (auto simp: upgrade_bond_to_script_based_def succeeded_def books_same split: option.split enforcement.split)
next
  case True
  then obtain lu txid0 where lu: "bonds w cid = Some lu" "lu_level lu = ApplicationLayer txid0" by blast
  let ?c = "cid + 1000000"
  have other: "?c \<noteq> cid" by simp
  from script_bond_cases [of we now a w ?c "lu_bond lu" "remaining_lock_time now lu" ms n]
  show ?thesis
  proof (elim disjE exE conjE)
    fix e
    assume "create_script_based_bond we now a w ?c (lu_bond lu) (remaining_lock_time now lu) ms n = (w, Inl e)"
    with lu assms show ?thesis by (simp add: upgrade_bond_to_script_based_def succeeded_def books_same)
  next
    fix lu1 txid
    let ?w1 = "track_bond w ?c lu1"
    let ?w2 = "?w1\<lparr>bonds := (bonds ?w1)(cid := None), pending_bonds := (pending_bonds ?w1)(cid := None)\<rparr>"
    assume "create_script_based_bond we now a w ?c (lu_bond lu) (remaining_lock_time now lu) ms n = (?w1, Inr txid)"
    with lu have "upgrade_bond_to_script_based we now a w cid ms n = (?w2, Inr txid)"
      by (simp add: upgrade_bond_to_script_based_def)
    moreover have fin: "finite (dom (bonds ?w1))" and "surplus ?w1 = surplus w + bond_at w ?c"
      using books_track [OF assms, of ?c lu1] by (simp_all add: books_step_def)
    moreover have "locked_sum ?w2 = locked_sum ?w1 - bond_at ?w1 cid" using fin by (rule locked_sum_remove) simp
    moreover have "bond_at ?w1 cid = bond_at w cid" using other by (simp add: bond_at_def track_bond_def)
    ultimately show ?thesis by (simp add: books_step_def surplus_def succeeded_def algebra_simps)
  qed
qed

lemma wallet_op_books:
  assumes "finite (dom (bonds w))"
  shows "books_step w (wallet_op_run we x w) (forgotten we x w)"
proof (cases x)
  case (OpLock now a cid bond d)
  then show ?thesis
    using lock_cases [of we now a w cid bond d] assms by (auto simp: succeeded_def books_same books_track)
next
  case (OpScript now a cid bond d ms n)
  then show ?thesis
    using script_bond_cases [of we now a w cid bond d ms n] assms by (auto simp: succeeded_def books_same books_track)
next
  case (OpUpgrade now a cid ms n)
  with upgrade_books [OF assms] show ?thesis by simp
next
  case (OpUnlock now cid)
  then show ?thesis using assms
    by (auto simp: unlock_bond_def books_same intro: books_release split: option.split)
next
  case (OpForfeit cid)
  then show ?thesis using assms
    by (auto simp: forfeit_bond_def books_same intro: books_release split: option.split)
qed (use assms refresh_same_books comment_same_books micro_same_books in
      \<open>simp_all add: scan_books same_books_def books_same\<close>)

lemma wallet_run_surplus:
  "finite (dom (bonds w)) \<Longrightarrow> surplus (wallet_run we xs w) = surplus w + all_forgotten we xs w"
  using wallet_op_books by (induction xs arbitrary: w) (simp_all add: books_step_def)

text \<open>
  C21: The locked total is exact up to what the wallet forgets: after any calls it is the sum of the
  bonds in the books plus the bonds that were overwritten by locking their id again and those that were
  upgraded, which stay locked in the total although they are gone from the books.
\<close>
theorem wallet_books_exact:
  "total_locked (wallet_run we xs (wallet_new us)) =
     locked_sum (wallet_run we xs (wallet_new us)) + all_forgotten we xs (wallet_new us)"
proof -
  have "finite (dom (bonds (wallet_new us)))" by (simp add: wallet_new_def)
  from wallet_run_surplus [OF this, of we xs] show ?thesis
    by (simp add: surplus_def wallet_new_def locked_sum_def algebra_simps)
qed

text \<open>
  An upgrade locks a bond for good: it moves the bond to another id and counts it again, so when the
  books are empty again after any later calls, the total still holds the bond and never gives it back.
\<close>
theorem upgrade_locks_for_good:
  assumes "upgrade_bond_to_script_based we now a w cid ms n = (w1, Inr txid)"
    and "finite (dom (bonds w))" "total_locked w = locked_sum w" "bonds w (cid + 1000000) = None"
    and "all_forgotten we xs w1 = 0" "bonds (wallet_run we xs w1) = Map.empty"
  shows "total_locked (wallet_run we xs w1) = bond_at w cid"
proof -
  have "books_step w w1 (bond_at w cid)"
    using upgrade_books [OF assms(2), of we now a cid ms n] assms(1,4) by (simp add: succeeded_def bond_at_def)
  with assms(3,5) have "surplus (wallet_run we xs w1) = bond_at w cid"
    using wallet_run_surplus [of w1 we xs] by (simp add: books_step_def surplus_def)
  with assms(6) show ?thesis by (simp add: surplus_def locked_sum_def)
qed

definition demo_bond :: "u64 \<Rightarrow> locked_utxo" where
  "demo_bond cid = \<lparr>lu_outpoint = fst (demo_utxo 50000), lu_entry = snd (demo_utxo 50000), lu_comment = cid, lu_bond = 20000,
     lu_lock_time = 100, lu_unlock = TimeBasedRelease 700, lu_tx = ''id'', lu_confirmation = None, lu_level = ApplicationLayer ''id''\<rparr>"

definition demo_wallet :: wallet where
  "demo_wallet = \<lparr>available_utxos = [demo_utxo 50000], bonds = [1 \<mapsto> demo_bond 1], total_available = 50000, total_locked = 20000,
     pending_bonds = Map.empty\<rparr>"

lemma demo_script_bond:
  "\<exists>lu. create_script_based_bond demo_wallet_env 200 Submitted demo_wallet cid 20000 500 None None = (track_bond demo_wallet cid lu, Inr ''id'')
     \<and> lu_bond lu = 20000 \<and> lu_unlock lu = TimeBasedRelease 700"
  by (simp add: create_script_based_bond_def demo_wallet_def can_afford_bond_def script_condition_def validate_script_conditions_def
      create_bond_script_pubkey_def select_inputs_def sat_add_def BOARD_FEE_def demo_utxo_def demo_wallet_env_def Let_def)
    (intro exI conjI, rule refl, simp_all)

theorem upgrade_locks_for_good_witness:
  "\<exists>w1 txid. upgrade_bond_to_script_based demo_wallet_env 200 Submitted demo_wallet 1 None None = (w1, Inr txid) \<and>
     total_locked (wallet_run demo_wallet_env [OpUnlock 700 1000001] w1) = 20000"
proof -
  have rl: "remaining_lock_time 200 (demo_bond 1) = 500" by (simp add: remaining_lock_time_def demo_bond_def)
  obtain lu where lu: "create_script_based_bond demo_wallet_env 200 Submitted demo_wallet 1000001 20000 500 None None =
      (track_bond demo_wallet 1000001 lu, Inr ''id'')" "lu_bond lu = 20000" "lu_unlock lu = TimeBasedRelease 700"
    using demo_script_bond [of 1000001] by blast
  let ?w1 = "track_bond demo_wallet 1000001 lu\<lparr>bonds := (bonds (track_bond demo_wallet 1000001 lu))(1 := None),
      pending_bonds := (pending_bonds (track_bond demo_wallet 1000001 lu))(1 := None)\<rparr>"
  have up: "upgrade_bond_to_script_based demo_wallet_env 200 Submitted demo_wallet 1 None None = (?w1, Inr ''id'')"
    using lu(1) rl by (simp add: upgrade_bond_to_script_based_def demo_wallet_def) (simp add: demo_bond_def)
  have "bonds (wallet_run demo_wallet_env [OpUnlock 700 1000001] ?w1) = Map.empty"
    using lu(2,3) by (auto simp: unlock_bond_def can_unlock_bond_def track_bond_def demo_wallet_def)
  from upgrade_locks_for_good [OF up _ _ _ _ this] show ?thesis
    using up by (auto simp: demo_wallet_def locked_sum_def bond_at_def demo_bond_def)
qed

section \<open>Refreshing\<close>

lemma refresh_totals [simp]:
  "total_available (fst (refresh_utxos (Some us) w)) = sum_amounts us"
  "total_locked (fst (refresh_utxos r w)) = total_locked w"
  by (simp_all add: refresh_utxos_def Let_def split: option.split)

text \<open>
  A script bond leaves the wallet's address, so the refreshed total no longer holds it, and the
  wallet subtracts it a second time. With a bond of more than half of what was available the difference
  wraps around and the wallet affords any bond.
\<close>
theorem script_bond_counted_twice:
  assumes "create_script_based_bond we now a w cid bond d ms n = (w1, Inr txid)"
    and "sum_amounts us = total_available w - bond - BOARD_FEE"
    and "unat (get_available_balance w) < 2 * unat bond + 5000" "unat bond < 2 ^ 61" "unat b < 2 ^ 61"
  shows "get_available_balance (fst (refresh_utxos (Some us) w1)) = get_available_balance w - 2 * bond - 5000 \<and>
    can_afford_bond (fst (refresh_utxos (Some us) w1)) b"
proof -
  let ?w2 = "fst (refresh_utxos (Some us) w1)"
  obtain lu where "w1 = track_bond w cid lu" "lu_bond lu = bond"
    using script_bond_cases [of we now a w cid bond d ms n] assms(1) by auto
  then have bal: "get_available_balance ?w2 = get_available_balance w - 2 * bond - 5000"
    using assms(2) by (simp add: get_available_balance_def track_bond_def BOARD_FEE_def)
  define need where "need = 2 * unat bond + 5000 - unat (get_available_balance w)"
  have need: "0 < need" "need < 2 ^ 63" using assms(3,4) by (simp_all add: need_def)
  have "get_available_balance ?w2 = - of_nat need"
    using assms(3) unfolding bal need_def by (simp add: of_nat_diff)
  moreover have "(- of_nat need :: u64) = of_nat (2 ^ 64 - need)"
    using need by (simp add: of_nat_diff)
  moreover have "unat (of_nat (2 ^ 64 - need) :: u64) = 2 ^ 64 - need"
    using need by (subst unat_of_nat) simp
  ultimately have "unat (get_available_balance ?w2) = 2 ^ 64 - need" by simp
  then have "can_afford_bond ?w2 b"
    using need assms(5) by (simp add: can_afford_bond_def get_available_balance_def word_le_nat_alt)
  with bal show ?thesis by simp
qed

theorem script_bond_counted_twice_witness:
  "\<exists>w1 txid. create_script_based_bond demo_wallet_env 200 Submitted demo_wallet 2 20000 500 None None = (w1, Inr txid) \<and>
     can_afford_bond (fst (refresh_utxos (Some [demo_utxo 25000]) w1)) 1000000000000"
proof -
  obtain lu where lu: "create_script_based_bond demo_wallet_env 200 Submitted demo_wallet 2 20000 500 None None =
      (track_bond demo_wallet 2 lu, Inr ''id'')"
    using demo_script_bond [of 2] by blast
  from script_bond_counted_twice [OF this, of "[demo_utxo 25000]" 1000000000000] lu show ?thesis
    by (simp add: sum_amounts_def demo_utxo_def demo_wallet_def BOARD_FEE_def get_available_balance_def)
qed

section \<open>Splitting\<close>

definition micro_count :: "u64 \<Rightarrow> wallet \<Rightarrow> nat" where
  "micro_count mx w = length (filter (\<lambda>u. utxo_amount (snd u) \<le> mx) (available_utxos w))"

lemma micro_unfold:
  "ensure_micro_utxos we a r cnt mx ch k w =
     (if cnt \<le> micro_count mx w then (w, Inr ())
      else if 30 \<le> k then (w, Inl (MicroUtxosMissing k (micro_count mx w)))
      else case split_large_utxo we (a k) w mx ch of
        (w1, Inl e) \<Rightarrow> (w1, Inl e)
      | (w1, Inr _) \<Rightarrow> ensure_micro_utxos we a r cnt mx ch (Suc k) (fst (refresh_utxos (r k) w1)))"
  by (subst ensure_micro_utxos.simps) (simp add: micro_count_def Let_def split: prod.split sum.split)

lemma split_large_errors:
  "split_large_utxo we a w mx ch = (w1, Inl e) \<Longrightarrow> w1 = w \<and> (e = TooSmallToSplit \<or> (\<exists>msg. e = SubmissionFailed msg))"
  by (auto simp: split_large_utxo_def split: option.splits sum.splits prod.splits)

definition micro_result :: "nat \<Rightarrow> u64 \<Rightarrow> wallet \<times> (wallet_error + unit) \<Rightarrow> bool" where
  "micro_result cnt mx x \<longleftrightarrow>
     (case snd x of
        Inr _ \<Rightarrow> cnt \<le> micro_count mx (fst x)
      | Inl (MicroUtxosMissing rounds have_count) \<Rightarrow> rounds = 30 \<and> have_count = micro_count mx (fst x) \<and> have_count < cnt
      | Inl TooSmallToSplit \<Rightarrow> micro_count mx (fst x) < cnt
      | Inl (SubmissionFailed _) \<Rightarrow> micro_count mx (fst x) < cnt
      | Inl _ \<Rightarrow> False)"

lemma micro_result_from: "k \<le> 30 \<Longrightarrow> micro_result cnt mx (ensure_micro_utxos we a r cnt mx ch k w)"
proof (induction "30 - k" arbitrary: k w)
  case 0
  then show ?case by (subst micro_unfold) (simp add: micro_result_def)
next
  case (Suc n)
  obtain w1 res where split: "split_large_utxo we (a k) w mx ch = (w1, res)" by (cases "split_large_utxo we (a k) w mx ch")
  from Suc have "micro_result cnt mx (ensure_micro_utxos we a r cnt mx ch (Suc k) (fst (refresh_utxos (r k) w1)))" by simp
  moreover have "micro_result cnt mx (ensure_micro_utxos we a r cnt mx ch k w)" if "cnt \<le> micro_count mx w"
    using that by (subst micro_unfold) (simp add: micro_result_def)
  moreover have "micro_result cnt mx (ensure_micro_utxos we a r cnt mx ch k w)" if "\<not> cnt \<le> micro_count mx w" "res = Inl e" for e
    using that Suc.hyps(2) split split_large_errors [of we "a k" w mx ch w1 e]
    by (subst micro_unfold) (auto simp: micro_result_def)
  ultimately show ?case
    using Suc.hyps(2) split by (cases res) (auto simp: micro_unfold [of _ _ _ _ _ _ k])
qed

text \<open>
  C24: The splitting loop ends after at most thirty rounds: with enough small outputs, with the error of
  a split, or, after exactly thirty, with the number of small outputs it reached. What the node would
  answer and report in later rounds has no influence.
\<close>
theorem micro_utxos_outcome:
  "micro_result cnt mx (ensure_micro_utxos we a r cnt mx ch 0 w) \<and>
   ensure_micro_utxos we a r cnt mx ch 0 w =
     ensure_micro_utxos we (\<lambda>k. if k < 30 then a k else a') (\<lambda>k. if k < 30 then r k else r') cnt mx ch 0 w"
proof -
  have "ensure_micro_utxos we a r cnt mx ch k w =
      ensure_micro_utxos we (\<lambda>k. if k < 30 then a k else a') (\<lambda>k. if k < 30 then r k else r') cnt mx ch k w" if "k \<le> 30" for k w
    using that
  proof (induction "30 - k" arbitrary: k w)
    case 0
    then show ?case by (simp add: micro_unfold [of _ _ _ _ _ _ 30])
  next
    case (Suc n)
    then show ?case by (subst (1 2) micro_unfold) (auto split: prod.split sum.split)
  qed
  then show ?thesis using micro_result_from by blast
qed

text \<open>An output at the address is taken for the confirmation of every bond; a bond released before stays pending.\<close>

lemma unlocked_stays_pending:
  assumes "unlock_bond now w cid = (w1, Inr bond)"
  shows "pending_bonds (scan_pending_bonds r w1) cid = pending_bonds w cid"
  using assms by (auto simp: unlock_bond_def scan_pending_bonds_def bond_confirmed_def split: if_splits option.splits)

end
