(* ===== verification/Auth_Flows.thy ===== *)
theory Auth_Flows
  imports Auth
begin

text \<open>
  The client side of authentication: the flow of the daemon
  (\<^verbatim>\<open>kaspa-auth/src/daemon/service.rs\<close>), the two flows over HTTP
  (\<^verbatim>\<open>kaspa-auth/src/auth/authentication.rs\<close>) and the revocation of a session
  (\<^verbatim>\<open>kaspa-auth/src/auth/session.rs\<close>). A flow leaves a trace of what it sent, to the node and to the
  organizer peer; what these answer is an argument. The encoder of engine messages is a parameter.
\<close>

section \<open>Routing\<close>

definition AUTH_PATTERN :: pattern where
  "AUTH_PATTERN = [(7, 0), (32, 1), (45, 0), (99, 1), (113, 0), (126, 1), (189, 0), (200, 1), (211, 0), (250, 1)]"

definition AUTH_PREFIX :: prefix where "AUTH_PREFIX = 0x41555448"

definition auth_generator :: generator where
  "auth_generator = \<lparr>gen_pattern = AUTH_PATTERN, gen_prefix = AUTH_PREFIX\<rparr>"

section \<open>Traces\<close>

record keypair =
  kp_secret :: bytes
  kp_public :: pubkey

text \<open>The bodies posted to \<^verbatim>\<open>/auth/start\<close>, \<^verbatim>\<open>/auth/request-challenge\<close>, \<^verbatim>\<open>/auth/sign-challenge\<close> and \<^verbatim>\<open>/auth/verify\<close>.\<close>

datatype http_post =
    PostStart string
  | PostChallenge u64 string
  | PostSign string string
  | PostVerify u64 string string

datatype flow_action = SubmitTx transaction | Post http_post

datatype flow_error = NetworkFailed | NoUtxosFound | NoChallenge | NoToken | BadReply

text \<open>A reply holds the fields the flows read, \<^const>\<open>None\<close> when one is missing or of another type.\<close>

record reply_body =
  rb_episode :: "u64 option"
  rb_signature :: "string option"

record post_reply =
  pr_success :: bool
  pr_body :: "reply_body option"

record status_view =
  sv_challenge :: "string option"
  sv_authenticated :: "bool option"
  sv_token :: "string option"

datatype poll_answer = PollError | PollReply bool "status_view option"

record flow_net =
  net_utxos :: "(outpoint \<times> utxo_entry) list option"
  net_submit :: "nat \<Rightarrow> submit_answer"
  net_post :: "http_post \<Rightarrow> post_reply option"
  net_challenge :: "nat \<Rightarrow> poll_answer"
  net_token :: "nat \<Rightarrow> poll_answer"

record auth_outcome =
  ao_episode :: u64
  ao_token :: string
  ao_authenticated :: bool

text \<open>A flow extends the trace and fails or returns; \<^const>\<open>None\<close> is a panic.\<close>

type_synonym 'a flow = "flow_action list \<Rightarrow> (flow_action list \<times> (flow_error + 'a)) option"

definition flow_return :: "'a \<Rightarrow> 'a flow" where
  "flow_return x tr = Some (tr, Inr x)"

definition flow_fail :: "flow_error \<Rightarrow> 'a flow" where
  "flow_fail e tr = Some (tr, Inl e)"

definition flow_bind :: "'a flow \<Rightarrow> ('a \<Rightarrow> 'b flow) \<Rightarrow> 'b flow" where
  "flow_bind m f tr =
     (case m tr of None \<Rightarrow> None | Some (tr1, Inl e) \<Rightarrow> Some (tr1, Inl e) | Some (tr1, Inr x) \<Rightarrow> f x tr1)"

section \<open>Steps\<close>

record ('g, 'c, 'r, 'e, 'w) flow_env =
  fe_cfg :: "('g, 'c, 'r, 'e, 'w) config"
  fe_auth :: auth_env
  fe_tx :: tx_env
  fe_enc :: "'c episode_message \<Rightarrow> bytes"
  fe_script :: "pubkey \<Rightarrow> bytes"

type_synonym 'w auth_flow_env = "(simple_auth, auth_command, auth_rollback, auth_error, 'w) flow_env"
type_synonym ('w, 'z) auth_flows = "(simple_auth, auth_command, auth_rollback, auth_error, 'w, 'z) flow_env_scheme"

text \<open>The first output at the address pays for everything.\<close>

definition first_utxo :: "flow_net \<Rightarrow> (outpoint \<times> utxo_entry) flow" where
  "first_utxo net =
     (case net_utxos net of
        None \<Rightarrow> flow_fail NetworkFailed
      | Some [] \<Rightarrow> flow_fail NoUtxosFound
      | Some (u # _) \<Rightarrow> flow_return u)"

text \<open>A message is submitted with a fee of 5000; the next one spends its first output.\<close>

definition submit_flow_message ::
  "('g, 'c, 'r, 'e, 'w, 'z) flow_env_scheme \<Rightarrow> pubkey \<Rightarrow> submit_answer \<Rightarrow> outpoint \<times> utxo_entry \<Rightarrow> 'c episode_message \<Rightarrow>
     transaction flow" where
  "submit_flow_message fe funder answer utxo msg tr =
     (case build_command_transaction (fe_tx fe) auth_generator utxo (fe_script fe funder) (fe_enc fe msg) 5000 of
        None \<Rightarrow> None
      | Some tx \<Rightarrow>
          Some (tr @ [SubmitTx tx], case answer of SubmitFailed _ \<Rightarrow> Inl NetworkFailed | Submitted \<Rightarrow> Inr tx))"

definition first_output :: "('g, 'c, 'r, 'e, 'w, 'z) flow_env_scheme \<Rightarrow> transaction \<Rightarrow> (outpoint \<times> utxo_entry) flow" where
  "first_output fe tx tr = map_option (\<lambda>u. (tr, Inr u)) (get_first_output_utxo (fe_tx fe) tx)"

definition post_message :: "flow_net \<Rightarrow> http_post \<Rightarrow> post_reply flow" where
  "post_message net body tr =
     (case net_post net body of None \<Rightarrow> Some (tr @ [Post body], Inl NetworkFailed) | Some r \<Rightarrow> Some (tr @ [Post body], Inr r))"

text \<open>Polling: up to \<open>n\<close> answers from the \<open>k\<close>-th on.\<close>

datatype 'a seen = Found 'a | Again | Broken

fun poll_status :: "(poll_answer \<Rightarrow> 'a seen) \<Rightarrow> (nat \<Rightarrow> poll_answer) \<Rightarrow> nat \<Rightarrow> nat \<Rightarrow> 'a seen" where
  "poll_status look answer k 0 = Again"
| "poll_status look answer k (Suc n) = (case look (answer k) of Again \<Rightarrow> poll_status look answer (Suc k) n | x \<Rightarrow> x)"

definition found_text :: "string option \<Rightarrow> string seen" where
  "found_text t = (case t of Some s \<Rightarrow> Found s | None \<Rightarrow> Again)"

definition nonempty_text :: "string option \<Rightarrow> string seen" where
  "nonempty_text t = (case t of Some s \<Rightarrow> if s \<noteq> [] then Found s else Again | None \<Rightarrow> Again)"

text \<open>An empty challenge ends the polling and counts as none.\<close>

definition await_challenge :: "(poll_answer \<Rightarrow> string seen) \<Rightarrow> flow_net \<Rightarrow> string flow" where
  "await_challenge look net =
     (case poll_status look (net_challenge net) 0 10 of
        Found c \<Rightarrow> if c = [] then flow_fail NoChallenge else flow_return c
      | Again \<Rightarrow> flow_fail NoChallenge
      | Broken \<Rightarrow> flow_fail NetworkFailed)"

definition await_token :: "(poll_answer \<Rightarrow> string seen) \<Rightarrow> nat \<Rightarrow> flow_net \<Rightarrow> string flow" where
  "await_token look n net =
     (case poll_status look (net_token net) 0 n of
        Found t \<Rightarrow> flow_return t
      | Again \<Rightarrow> flow_fail NoToken
      | Broken \<Rightarrow> flow_fail NetworkFailed)"

text \<open>A text signed as the episode verifies it.\<close>

definition sign_text :: "auth_env \<Rightarrow> bytes \<Rightarrow> string \<Rightarrow> string" where
  "sign_text env sk t = hex_encode env (sig_der (sign_message (ae_crypto env) sk (to_message (ae_crypto env) (borsh_string t))))"

definition signed_by :: "('g, 'c, 'r, 'e, 'w, 'z) flow_env_scheme \<Rightarrow> keypair \<Rightarrow> episode_id \<Rightarrow> 'c \<Rightarrow> 'c episode_message" where
  "signed_by fe kp i cmd = new_signed_command (fe_cfg fe) i cmd (kp_secret kp) (kp_public kp)"

definition response_by :: "('w, 'z) auth_flows \<Rightarrow> keypair \<Rightarrow> episode_id \<Rightarrow> string \<Rightarrow> auth_command episode_message" where
  "response_by fe kp i c = signed_by fe kp i (SubmitResponse (sign_text (fe_auth fe) (kp_secret kp) c) c)"

section \<open>The flow of the daemon\<close>

definition look_any :: "(status_view \<Rightarrow> string seen) \<Rightarrow> poll_answer \<Rightarrow> string seen" where
  "look_any f a = (case a of PollReply _ (Some v) \<Rightarrow> f v | _ \<Rightarrow> Again)"

definition p2p_authentication_flow :: "('w, 'z) auth_flows \<Rightarrow> flow_net \<Rightarrow> keypair \<Rightarrow> episode_id \<Rightarrow> auth_outcome flow" where
  "p2p_authentication_flow fe net kp i =
     flow_bind (first_utxo net) (\<lambda>u0.
     flow_bind (submit_flow_message fe (kp_public kp) (net_submit net 0) u0 (NewEpisode i [kp_public kp])) (\<lambda>tx1.
     flow_bind (first_output fe tx1) (\<lambda>u1.
     flow_bind (submit_flow_message fe (kp_public kp) (net_submit net 1) u1 (signed_by fe kp i RequestChallenge)) (\<lambda>tx2.
     flow_bind (first_output fe tx2) (\<lambda>u2.
     flow_bind (await_challenge (look_any (found_text \<circ> sv_challenge)) net) (\<lambda>c.
     flow_bind (submit_flow_message fe (kp_public kp) (net_submit net 2) u2 (response_by fe kp i c)) (\<lambda>_.
     flow_bind (await_token (look_any (nonempty_text \<circ> sv_token)) 10 net) (\<lambda>t.
     flow_return \<lparr>ao_episode = ucast i, ao_token = t, ao_authenticated = True\<rparr>))))))))"

section \<open>The flows over HTTP\<close>

text \<open>The reply to \<^verbatim>\<open>/auth/start\<close> has to name the episode.\<close>

definition started_episode :: "bool \<Rightarrow> post_reply \<Rightarrow> u64 flow" where
  "started_episode check_status r =
     (if check_status \<and> \<not> pr_success r then flow_fail NetworkFailed
      else case pr_body r of
        None \<Rightarrow> flow_fail NetworkFailed
      | Some b \<Rightarrow> (case rb_episode b of None \<Rightarrow> flow_fail BadReply | Some i \<Rightarrow> flow_return i))"

definition require_success :: "post_reply \<Rightarrow> unit flow" where
  "require_success r = (if pr_success r then flow_return () else flow_fail NetworkFailed)"

definition signature_of :: "post_reply \<Rightarrow> string flow" where
  "signature_of r =
     (if \<not> pr_success r then flow_fail NetworkFailed
      else case pr_body r of
        None \<Rightarrow> flow_fail NetworkFailed
      | Some b \<Rightarrow> (case rb_signature b of None \<Rightarrow> flow_fail BadReply | Some s \<Rightarrow> flow_return s))"

definition authenticated_token :: "status_view \<Rightarrow> string seen" where
  "authenticated_token v = (if sv_authenticated v = Some True then nonempty_text (sv_token v) else Again)"

text \<open>Errors of a request or its body end the working endpoint flow; other refusals are polled again.\<close>

definition look_strict :: "(status_view \<Rightarrow> string seen) \<Rightarrow> poll_answer \<Rightarrow> string seen" where
  "look_strict f a =
     (case a of PollError \<Rightarrow> Broken | PollReply ok body \<Rightarrow>
        if ok then (case body of None \<Rightarrow> Broken | Some v \<Rightarrow> f v) else Again)"

definition working_endpoint_flow :: "auth_env \<Rightarrow> flow_net \<Rightarrow> keypair \<Rightarrow> auth_outcome flow" where
  "working_endpoint_flow env net signer =
     (let public_hex = hex_encode env (pk_bytes (kp_public signer))
      in flow_bind (flow_bind (post_message net (PostStart public_hex)) (started_episode True)) (\<lambda>i.
         flow_bind (flow_bind (post_message net (PostChallenge i public_hex)) require_success) (\<lambda>_.
         flow_bind (await_challenge (look_strict (found_text \<circ> sv_challenge)) net) (\<lambda>c.
         flow_bind (flow_bind (post_message net (PostSign c (hex_encode env (kp_secret signer)))) signature_of) (\<lambda>s.
         flow_bind (flow_bind (post_message net (PostVerify i s c)) require_success) (\<lambda>_.
         flow_bind (await_token (look_strict authenticated_token) 50 net) (\<lambda>t.
         flow_return \<lparr>ao_episode = i, ao_token = t, ao_authenticated = True\<rparr>)))))))"

definition look_ok :: "(status_view \<Rightarrow> string seen) \<Rightarrow> poll_answer \<Rightarrow> string seen" where
  "look_ok f a = (case a of PollReply True (Some v) \<Rightarrow> f v | _ \<Rightarrow> Again)"

text \<open>The id of the episode, 64 bits in JSON, is cut to 32.\<close>

definition http_coordinated_flow :: "('w, 'z) auth_flows \<Rightarrow> flow_net \<Rightarrow> keypair \<Rightarrow> keypair \<Rightarrow> auth_outcome flow" where
  "http_coordinated_flow fe net funder signer =
     flow_bind (first_utxo net) (\<lambda>u0.
     flow_bind (flow_bind (post_message net (PostStart (hex_encode (fe_auth fe) (pk_bytes (kp_public signer))))) (started_episode False)) (\<lambda>i.
     flow_bind (submit_flow_message fe (kp_public funder) (net_submit net 0) u0 (signed_by fe signer (ucast i) RequestChallenge)) (\<lambda>tx1.
     flow_bind (first_output fe tx1) (\<lambda>u1.
     flow_bind (await_challenge (look_ok (found_text \<circ> sv_challenge)) net) (\<lambda>c.
     flow_bind (submit_flow_message fe (kp_public funder) (net_submit net 1) u1 (response_by fe signer (ucast i) c)) (\<lambda>_.
     flow_bind (await_token (look_any authenticated_token) 50 net) (\<lambda>t.
     flow_return \<lparr>ao_episode = i, ao_token = t, ao_authenticated = True\<rparr>)))))))"

section \<open>Revocation\<close>

definition session_revocation :: "('w, 'z) auth_flows \<Rightarrow> flow_net \<Rightarrow> keypair \<Rightarrow> u64 \<Rightarrow> string \<Rightarrow> unit flow" where
  "session_revocation fe net signer i token =
     flow_bind (first_utxo net) (\<lambda>u0.
     flow_bind (submit_flow_message fe (kp_public signer) (net_submit net 0) u0
       (signed_by fe signer (ucast i) (RevokeSession token (sign_text (fe_auth fe) (kp_secret signer) token)))) (\<lambda>_.
     flow_return ()))"

end
