(* ===== verification/Auth_Http.thy ===== *)
theory Auth_Http
  imports Auth_Flows
begin

text \<open>
  The HTTP peer of kaspa-auth (\<^verbatim>\<open>kaspa-auth/src/api/http\<close>): the copy of the episodes its engine handler
  keeps, the messages it broadcasts, and the endpoints. The copy is guarded by a mutex, which a panic
  of a handler poisons. The endpoints that are not routed (\<^verbatim>\<open>comments.rs\<close>, \<^verbatim>\<open>auth-fixed.rs\<close>) are no
  part of it. An HTTP status code is a number; \<^const>\<open>None\<close> is a panic of the request.
\<close>

section \<open>State\<close>

record ws_message =
  wm_type :: string
  wm_episode :: "u64 option"
  wm_auth :: "bool option"
  wm_challenge :: "string option"
  wm_token :: "string option"

record http_peer =
  mirror :: "u64 \<rightharpoonup> simple_auth"
  poisoned :: bool
  broadcasts :: "ws_message list"

definition http_peer_new :: http_peer where
  "http_peer_new = \<lparr>mirror = Map.empty, poisoned = False, broadcasts = []\<rparr>"

definition broadcast_ws :: "ws_message \<Rightarrow> http_peer \<Rightarrow> http_peer" where
  "broadcast_ws m p = p\<lparr>broadcasts := broadcasts p @ [m]\<rparr>"

text \<open>A poisoned mutex is not written to.\<close>

definition store_episode :: "u64 \<Rightarrow> simple_auth \<Rightarrow> http_peer \<Rightarrow> http_peer" where
  "store_episode i g p = (if poisoned p then p else p\<lparr>mirror := (mirror p)(i \<mapsto> g)\<rparr>)"

section \<open>The handler of the engine\<close>

definition http_on_initialize :: "episode_id \<Rightarrow> simple_auth \<Rightarrow> http_peer \<Rightarrow> http_peer" where
  "http_on_initialize i g p =
     broadcast_ws \<lparr>wm_type = ''episode_created'', wm_episode = Some (ucast i), wm_auth = Some False, wm_challenge = challenge g,
       wm_token = session_token g\<rparr> (store_episode (ucast i) g p)"

definition http_on_command :: "episode_id \<Rightarrow> simple_auth \<Rightarrow> http_peer \<Rightarrow> http_peer" where
  "http_on_command i g p =
     (let previous = (if poisoned p then None else mirror p (ucast i));
          p1 = store_episode (ucast i) g p
      in if is_authenticated g \<and> session_token g \<noteq> None then
           broadcast_ws \<lparr>wm_type = ''authentication_successful'', wm_episode = Some (ucast i), wm_auth = Some True,
             wm_challenge = challenge g, wm_token = session_token g\<rparr> p1
         else if \<not> is_authenticated g \<and> session_token g = None \<and> challenge g \<noteq> None then
           (if (case previous of Some prev \<Rightarrow> is_authenticated prev \<and> session_token prev \<noteq> None | None \<Rightarrow> False) then
              broadcast_ws \<lparr>wm_type = ''session_revoked'', wm_episode = Some (ucast i), wm_auth = Some False,
                wm_challenge = challenge g, wm_token = None\<rparr> p1
            else
              broadcast_ws \<lparr>wm_type = ''challenge_issued'', wm_episode = Some (ucast i), wm_auth = Some False,
                wm_challenge = challenge g, wm_token = None\<rparr> p1)
         else p1)"

text \<open>A rollback is only logged.\<close>

definition http_on_rollback :: "episode_id \<Rightarrow> simple_auth \<Rightarrow> http_peer \<Rightarrow> http_peer" where
  "http_on_rollback i g p = p"

definition http_auth_handler :: "(simple_auth, auth_command) episode_event \<Rightarrow> http_peer \<Rightarrow> http_peer" where
  "http_auth_handler ev p =
     (case ev of
        OnInitialize i g \<Rightarrow> http_on_initialize i g p
      | OnCommand i g _ _ _ \<Rightarrow> http_on_command i g p
      | OnRollback i g \<Rightarrow> http_on_rollback i g p)"

section \<open>Endpoints that read\<close>

type_synonym http_code = nat

record status_reply =
  sr_authenticated :: bool
  sr_status :: string
  sr_challenge :: "string option"
  sr_token :: "string option"
  sr_confirmed :: bool
  sr_public_key :: "string option"

definition get_status :: "auth_env \<Rightarrow> http_peer \<Rightarrow> u64 \<Rightarrow> http_code + status_reply" where
  "get_status env p i =
     (if poisoned p then Inl 500
      else case mirror p i of
        Some g \<Rightarrow> Inr \<lparr>sr_authenticated = is_authenticated g,
           sr_status = (if is_authenticated g then ''authenticated'' else ''pending''), sr_challenge = challenge g,
           sr_token = session_token g, sr_confirmed = True,
           sr_public_key = map_option (\<lambda>pk. hex_encode env (pk_bytes pk)) (owner g)\<rparr>
      | None \<Rightarrow> Inr \<lparr>sr_authenticated = False, sr_status = ''episode_not_found'', sr_challenge = None, sr_token = None,
           sr_confirmed = False, sr_public_key = None\<rparr>)"

definition get_episode_state :: "http_peer \<Rightarrow> episode_id \<Rightarrow> simple_auth option" where
  "get_episode_state p i = (if poisoned p then None else mirror p (ucast i))"

text \<open>The reply names the organizer, not an episode.\<close>

definition start_auth :: "auth_env \<Rightarrow> pubkey \<Rightarrow> string \<times> string" where
  "start_auth env organizer =
     (hex_encode env (pk_bytes organizer), ''Organizer peer ready for NewEpisode transaction from participant.'')"

section \<open>Endpoints that change the copy\<close>

text \<open>The metadata of a command executed in memory; \<open>hash_of\<close> is the hash made of a number.\<close>

definition local_metadata :: "(u64 \<Rightarrow> hash) \<Rightarrow> u64 \<Rightarrow> metadata" where
  "local_metadata hash_of i =
     \<lparr>accepting_hash = hash_of 0, accepting_daa = 0, accepting_time = 0, tx_id = hash_of i, tx_outputs = None\<rparr>"

text \<open>The nonce of the reply; \<open>now\<close> is the wall clock.\<close>

definition http_request_challenge ::
  "auth_env \<Rightarrow> (u64 \<Rightarrow> hash) \<Rightarrow> u64 \<Rightarrow> http_peer \<Rightarrow> u64 \<Rightarrow> (http_peer \<times> (http_code + string)) option" where
  "http_request_challenge env hash_of now p i =
     (if poisoned p then None
      else case mirror p i of
        None \<Rightarrow> Some (p, Inl 404)
      | Some g \<Rightarrow>
          (case auth_execute env now g RequestChallenge (owner g) (local_metadata hash_of i) of
             (g', Inl _) \<Rightarrow> Some (p\<lparr>mirror := (mirror p)(i \<mapsto> g')\<rparr>, Inl 500)
           | (g', Inr _) \<Rightarrow>
               Some (p\<lparr>mirror := (mirror p)(i \<mapsto> g')\<rparr>, case challenge g' of Some c \<Rightarrow> Inr c | None \<Rightarrow> Inl 404)))"

record verify_reply =
  vr_authenticated :: bool
  vr_status :: string

text \<open>An episode without an owner panics under the lock.\<close>

definition verify_auth ::
  "auth_env \<Rightarrow> (u64 \<Rightarrow> hash) \<Rightarrow> u64 \<Rightarrow> http_peer \<Rightarrow> u64 \<Rightarrow> string \<Rightarrow> string \<Rightarrow>
     http_peer \<times> (http_code + verify_reply) option" where
  "verify_auth env hash_of now p i signature nonce =
     (if poisoned p then (p, None)
      else case mirror p i of
        None \<Rightarrow> (p, Some (Inl 404))
      | Some g \<Rightarrow>
          if is_authenticated g then (p, Some (Inr \<lparr>vr_authenticated = True, vr_status = ''already_authenticated''\<rparr>))
          else case owner g of
            None \<Rightarrow> (p\<lparr>poisoned := True\<rparr>, None)
          | Some participant \<Rightarrow>
              if challenge g \<noteq> Some nonce then (p, Some (Inl 400))
              else case hex_decode env signature of
                None \<Rightarrow> (p, Some (Inl 400))
              | Some sb \<Rightarrow>
                  if \<not> der_ok (ae_crypto env) sb then (p, Some (Inl 400))
                  else if \<not> verify_signature (ae_crypto env) participant (to_message (ae_crypto env) (borsh_string nonce)) (Sig sb)
                    then (p, Some (Inl 401))
                  else
                    let g' = fst (auth_execute env now g (SubmitResponse signature nonce) (Some participant) (local_metadata hash_of i))
                    in (p\<lparr>mirror := (mirror p)(i \<mapsto> g')\<rparr>,
                        Some (Inr \<lparr>vr_authenticated = True,
                          vr_status = ''verification_successful_awaiting_blockchain_confirmation''\<rparr>)))"

section \<open>Notifications\<close>

text \<open>The endpoints behind \<^verbatim>\<open>/internal\<close>, with the fields of the body; missing ones are zero or empty.\<close>

definition episode_authenticated :: "u64 option \<Rightarrow> string option \<Rightarrow> http_peer \<Rightarrow> http_peer" where
  "episode_authenticated i c p =
     (let episode = (case i of Some n \<Rightarrow> n | None \<Rightarrow> 0);
          token = (if poisoned p then None else case mirror p episode of Some g \<Rightarrow> session_token g | None \<Rightarrow> None)
      in broadcast_ws \<lparr>wm_type = ''authentication_successful'', wm_episode = Some episode, wm_auth = Some True,
           wm_challenge = Some (case c of Some t \<Rightarrow> t | None \<Rightarrow> []), wm_token = token\<rparr> p)"

definition session_revoked :: "u64 option \<Rightarrow> string option \<Rightarrow> http_peer \<Rightarrow> http_peer" where
  "session_revoked i t p =
     broadcast_ws \<lparr>wm_type = ''session_revoked'', wm_episode = Some (case i of Some n \<Rightarrow> n | None \<Rightarrow> 0), wm_auth = Some False,
       wm_challenge = None, wm_token = Some (case t of Some s \<Rightarrow> s | None \<Rightarrow> [])\<rparr> p"

section \<open>Revocation\<close>

text \<open>\<open>client\<close> says whether there is a node and what it answers to the submission.\<close>

definition submit_episode_message ::
  "('w, 'z) auth_flows \<Rightarrow> submit_answer option \<Rightarrow> pubkey \<Rightarrow> outpoint \<times> utxo_entry \<Rightarrow> auth_command episode_message \<Rightarrow>
     (flow_error + transaction) option" where
  "submit_episode_message fe client funder utxo msg =
     map_option (\<lambda>tx. case client of Some Submitted \<Rightarrow> Inr tx | _ \<Rightarrow> Inl NetworkFailed)
       (build_command_transaction (fe_tx fe) auth_generator utxo (fe_script fe funder) (fe_enc fe msg) 5000)"

record revoke_reply =
  rr_tx :: "transaction option"
  rr_status :: string

text \<open>
  The server signs with a wallet of its own, \<open>wallet\<close>, whatever the key of the episode is. An episode
  without an owner is given a fixed key.
\<close>

definition revoke_endpoint ::
  "('w, 'z) auth_flows \<Rightarrow> keypair option \<Rightarrow> (outpoint \<times> utxo_entry) list option \<Rightarrow> submit_answer option \<Rightarrow>
     http_peer \<Rightarrow> u64 \<Rightarrow> string \<Rightarrow> string \<Rightarrow> (http_code + revoke_reply) option" where
  "revoke_endpoint fe wallet utxos client p i token signature =
     (if poisoned p then Some (Inl 500)
      else case mirror p i of
        None \<Rightarrow> Some (Inl 404)
      | Some g \<Rightarrow>
          if owner g = None \<and> \<not> pk_slice_ok (ae_crypto (fe_auth fe)) (replicate 33 2) then None
          else let participant = (case owner g of Some pk \<Rightarrow> pk | None \<Rightarrow> PubKey (replicate 33 2)) in
            if session_token g \<noteq> Some token then Some (Inl 400)
            else case wallet of
              None \<Rightarrow> Some (Inl 500)
            | Some kp \<Rightarrow>
                if client = None then Some (Inl 500)
                else case utxos of
                  None \<Rightarrow> Some (Inl 500)
                | Some [] \<Rightarrow> Some (Inl 503)
                | Some (u # _) \<Rightarrow>
                    if i \<ge> 2 ^ 32 then Some (Inl 400)
                    else map_option (\<lambda>r. Inr (case r of
                          Inr tx \<Rightarrow> \<lparr>rr_tx = Some tx, rr_status = ''session_revocation_submitted''\<rparr>
                        | Inl _ \<Rightarrow> \<lparr>rr_tx = None, rr_status = ''session_revocation_failed''\<rparr>))
                      (submit_episode_message fe client (kp_public kp) u
                        (new_signed_command (fe_cfg fe) (ucast i) (RevokeSession token signature) (kp_secret kp) participant)))"

text \<open>The submission on behalf of a participant in \<^verbatim>\<open>blockchain.rs\<close> also signs with the organizer's key.\<close>

definition submit_auth ::
  "('w, 'z) auth_flows \<Rightarrow> flow_net \<Rightarrow> keypair \<Rightarrow> u64 \<Rightarrow> string \<Rightarrow> string \<Rightarrow> pubkey \<Rightarrow> transaction flow" where
  "submit_auth fe net organizer i signature nonce participant =
     flow_bind (first_utxo net) (\<lambda>u.
       submit_flow_message fe (kp_public organizer) (net_submit net 0) u
         (new_signed_command (fe_cfg fe) (ucast i) (SubmitResponse signature nonce) (kp_secret organizer) participant))"

text \<open>The helpers of \<^verbatim>\<open>crypto.rs\<close>; they expect a compact signature of 64 bytes over the plain text.\<close>

definition parse_participant_pubkey :: "auth_env \<Rightarrow> string \<Rightarrow> string + pubkey" where
  "parse_participant_pubkey env text =
     (case hex_decode env text of
        None \<Rightarrow> Inl ''Invalid hex''
      | Some bs \<Rightarrow>
          if length bs \<noteq> 33 then Inl ''Invalid length''
          else if \<not> pk_slice_ok (ae_crypto env) bs then Inl ''Invalid pubkey'' else Inr (PubKey bs))"

definition http_verify_signature ::
  "auth_env \<Rightarrow> (bytes \<Rightarrow> bytes option) \<Rightarrow> pubkey \<Rightarrow> string \<Rightarrow> string \<Rightarrow> string + bool" where
  "http_verify_signature env from_compact pk message sig_hex =
     (case hex_decode env sig_hex of
        None \<Rightarrow> Inl ''Invalid hex''
      | Some sb \<Rightarrow>
          if length sb \<noteq> 64 then Inl ''Invalid sig length''
          else let digest = sha256 (ae_crypto env) (ascii message) in
            if length digest \<noteq> 32 then Inl ''Bad hash''
            else case from_compact sb of
              None \<Rightarrow> Inl ''Bad sig''
            | Some der \<Rightarrow> Inr (ecdsa_verify (ae_crypto env) digest der (pk_bytes pk)))"

end
