(* ===== verification/Auth_Flows_Properties.thy ===== *)
theory Auth_Flows_Properties
  imports Auth_Flows Auth_Properties
begin

text \<open>
  What the client flows put on the chain, and that the engine of the organizer makes a session out of
  it: the flow of the daemon, the episode and the engine composed. The flow over HTTP hands the secret
  key to the peer.
\<close>

section \<open>Laws of the parameters\<close>

text \<open>Signing changes neither id, payload nor outputs, and spends what it was given.\<close>

definition plain_signing :: "tx_env \<Rightarrow> bool" where
  "plain_signing te \<longleftrightarrow> (\<forall>tx es. id_of te (sign_tx te tx es) = id_of te tx \<and> tx_payload (sign_tx te tx es) = tx_payload tx \<and>
     tx_outs (sign_tx te tx es) = tx_outs tx \<and>
     map previous_outpoint (tx_inputs (sign_tx te tx es)) = map previous_outpoint (tx_inputs tx))"

text \<open>Signatures of the pair verify, and hexadecimal text decodes to what was encoded.\<close>

definition keys_work :: "auth_env \<Rightarrow> keypair \<Rightarrow> bool" where
  "keys_work env kp \<longleftrightarrow>
     (\<forall>m. ecdsa_verify (ae_crypto env) m (ecdsa_sign (ae_crypto env) (kp_secret kp) m) (pk_bytes (kp_public kp)) \<and>
          der_ok (ae_crypto env) (ecdsa_sign (ae_crypto env) (kp_secret kp) m)) \<and>
     (\<forall>b. hex_decode env (hex_encode env b) = Some b)"

lemma sign_text_verifies: "keys_work env kp \<Longrightarrow> verify_text env (kp_public kp) t (sign_text env (kp_secret kp) t)"
  by (simp add: keys_work_def verify_text_def sign_text_def sign_message_def verify_signature_def)

section \<open>What a flow leaves on the chain\<close>

definition carries :: "('g, 'c, 'r, 'e, 'w, 'z) flow_env_scheme \<Rightarrow> transaction \<Rightarrow> 'c episode_message \<Rightarrow> bool" where
  "carries fe tx msg \<longleftrightarrow> check_pattern (id_of (fe_tx fe) tx) AUTH_PATTERN \<and> check_header (tx_payload tx) AUTH_PREFIX \<and>
     strip_header (tx_payload tx) = Some (fe_enc fe msg)"

lemma flow_bind_SomeE:
  assumes "flow_bind m f tr = Some (tr2, Inr y)"
  obtains tr1 x where "m tr = Some (tr1, Inr x)" "f x tr1 = Some (tr2, Inr y)"
  using assms by (auto simp: flow_bind_def split: option.splits prod.splits sum.splits)

lemma first_utxo_InrE:
  assumes "first_utxo net tr = Some (tr1, Inr u)"
  obtains us where "net_utxos net = Some (u # us)" "tr1 = tr"
  using assms by (auto simp: first_utxo_def flow_fail_def flow_return_def split: option.splits list.splits)

lemma command_tx_carries:
  assumes "build_command_transaction (fe_tx fe) auth_generator u script (fe_enc fe msg) 5000 = Some tx" "plain_signing (fe_tx fe)"
  shows "carries fe tx msg \<and> map previous_outpoint (tx_inputs tx) = [fst u] \<and>
    map output_value (tx_outs tx) = [utxo_amount (snd u) - 5000]"
proof -
  from built_transaction [OF assms(1) [unfolded build_command_transaction_def]] obtain tx0 k where
    tx0: "tx = sign_tx (fe_tx fe) tx0 [snd u]" "check_pattern (id_of (fe_tx fe) tx0) AUTH_PATTERN"
      "tx0 = \<lparr>tx_inputs = build_inputs [u], tx_outs = build_outputs (utxo_amount (snd u) - 5000) 1 script,
              tx_payload = header AUTH_PREFIX k (fe_enc fe msg)\<rparr>"
    by (auto simp: auth_generator_def)
  from assms(2) have sg: "id_of (fe_tx fe) tx = id_of (fe_tx fe) tx0" "tx_payload tx = tx_payload tx0" "tx_outs tx = tx_outs tx0"
      "map previous_outpoint (tx_inputs tx) = map previous_outpoint (tx_inputs tx0)"
    by (simp_all add: plain_signing_def tx0(1))
  show ?thesis unfolding carries_def sg
    using tx0(2,3) by (auto simp: build_outputs_def build_inputs_def split: prod.split)
qed

lemma submit_flow_message_InrE:
  assumes "submit_flow_message fe pk answer u msg tr = Some (tr1, Inr tx)" "plain_signing (fe_tx fe)"
  shows "tr1 = tr @ [SubmitTx tx] \<and> carries fe tx msg \<and> map previous_outpoint (tx_inputs tx) = [fst u] \<and>
    map output_value (tx_outs tx) = [utxo_amount (snd u) - 5000]"
  using assms(1) command_tx_carries [OF _ assms(2)]
  by (auto simp: submit_flow_message_def split: option.splits submit_answer.splits)

lemma first_output_InrE:
  assumes "first_output fe tx tr = Some (tr1, Inr u)"
  shows "tr1 = tr \<and> fst u = \<lparr>op_txid = id_of (fe_tx fe) tx, op_index = 0\<rparr> \<and> utxo_amount (snd u) = output_value (hd (tx_outs tx))"
  using assms by (auto simp: first_output_def get_first_output_utxo_def split: list.splits)

lemma await_challenge_InrE:
  assumes "await_challenge look net tr = Some (tr1, Inr c)"
  shows "tr1 = tr \<and> c \<noteq> [] \<and> poll_status look (net_challenge net) 0 10 = Found c"
  using assms by (auto simp: await_challenge_def flow_fail_def flow_return_def split: seen.splits if_splits)

lemma poll_numeral:
  "poll_status look a k (numeral n) = (case look (a k) of Again \<Rightarrow> poll_status look a (Suc k) (pred_numeral n) | x \<Rightarrow> x)"
  by (simp add: numeral_eq_Suc)

lemma poll_Found: "poll_status look a k n = Found x \<Longrightarrow> \<exists>j. look (a j) = Found x"
  by (induction n arbitrary: k) (auto split: seen.splits)

lemma await_token_InrE:
  assumes "await_token look n net tr = Some (tr1, Inr t)"
  shows "tr1 = tr \<and> (\<exists>j. look (net_token net j) = Found t)"
  using assms by (auto simp: await_token_def flow_fail_def flow_return_def dest: poll_Found split: seen.splits)

text \<open>
  C25: What the daemon puts on the chain to authenticate: exactly three transactions, routed to the
  authentication engine, that carry the new episode, the request and the signed response to the
  challenge the peer showed. They form a chain from the first output of the wallet and each costs
  5000. The token returned is one the peer showed.
\<close>
theorem p2p_flow_exact:
  assumes "plain_signing (fe_tx fe)"
    and "p2p_authentication_flow fe net kp i [] = Some (tr, Inr result)"
  shows "\<exists>u us tx1 tx2 tx3 c.
    net_utxos net = Some (u # us) \<and> tr = [SubmitTx tx1, SubmitTx tx2, SubmitTx tx3] \<and>
    carries fe tx1 (NewEpisode i [kp_public kp]) \<and> carries fe tx2 (signed_by fe kp i RequestChallenge) \<and>
    carries fe tx3 (response_by fe kp i c) \<and> c \<noteq> [] \<and>
    poll_status (look_any (found_text \<circ> sv_challenge)) (net_challenge net) 0 10 = Found c \<and>
    map previous_outpoint (tx_inputs tx1) = [fst u] \<and>
    map previous_outpoint (tx_inputs tx2) = [\<lparr>op_txid = id_of (fe_tx fe) tx1, op_index = 0\<rparr>] \<and>
    map previous_outpoint (tx_inputs tx3) = [\<lparr>op_txid = id_of (fe_tx fe) tx2, op_index = 0\<rparr>] \<and>
    map output_value (tx_outs tx3) = [utxo_amount (snd u) - 15000] \<and>
    ao_episode result = ucast i \<and> ao_token result \<noteq> [] \<and> (\<exists>j ok v. net_token net j = PollReply ok (Some v) \<and> sv_token v = Some (ao_token result))"
proof -
  note sub = submit_flow_message_InrE [OF _ assms(1)]
  from assms(2) obtain tr0 u tr1 tx1 tr1' u1 tr2 tx2 tr2' u2 trc c tr3 tx3 trt t where
    f: "first_utxo net [] = Some (tr0, Inr u)"
      "submit_flow_message fe (kp_public kp) (net_submit net 0) u (NewEpisode i [kp_public kp]) tr0 = Some (tr1, Inr tx1)"
      "first_output fe tx1 tr1 = Some (tr1', Inr u1)"
      "submit_flow_message fe (kp_public kp) (net_submit net 1) u1 (signed_by fe kp i RequestChallenge) tr1' = Some (tr2, Inr tx2)"
      "first_output fe tx2 tr2 = Some (tr2', Inr u2)"
      "await_challenge (look_any (found_text \<circ> sv_challenge)) net tr2' = Some (trc, Inr c)"
      "submit_flow_message fe (kp_public kp) (net_submit net 2) u2 (response_by fe kp i c) trc = Some (tr3, Inr tx3)"
      "await_token (look_any (nonempty_text \<circ> sv_token)) 10 net tr3 = Some (trt, Inr t)"
      "flow_return \<lparr>ao_episode = ucast i, ao_token = t, ao_authenticated = True\<rparr> trt = Some (tr, Inr result)"
    unfolding p2p_authentication_flow_def by (elim flow_bind_SomeE)
  from f(1) obtain us where us: "net_utxos net = Some (u # us)" "tr0 = []" by (rule first_utxo_InrE)
  note t1 = sub [OF f(2)] and t2 = sub [OF f(4)] and t3 = sub [OF f(7)]
  note o1 = first_output_InrE [OF f(3)] and o2 = first_output_InrE [OF f(5)]
  note ch = await_challenge_InrE [OF f(6)] and tk = await_token_InrE [OF f(8)]
  have res: "result = \<lparr>ao_episode = ucast i, ao_token = t, ao_authenticated = True\<rparr>" "tr = trt"
    using f(9) by (simp_all add: flow_return_def)
  have "utxo_amount (snd u1) = utxo_amount (snd u) - 5000" using t1 o1 by (cases "tx_outs tx1") auto
  moreover have "utxo_amount (snd u2) = utxo_amount (snd u1) - 5000" using t2 o2 by (cases "tx_outs tx2") auto
  ultimately have amount: "map output_value (tx_outs tx3) = [utxo_amount (snd u) - 15000]" using t3 by simp
  from tk obtain j where "look_any (nonempty_text \<circ> sv_token) (net_token net j) = Found t" by blast
  then have tok: "t \<noteq> [] \<and> (\<exists>ok v. net_token net j = PollReply ok (Some v) \<and> sv_token v = Some t)"
    by (auto simp: look_any_def nonempty_text_def split: poll_answer.splits option.splits if_splits)
  have "tr = [SubmitTx tx1, SubmitTx tx2, SubmitTx tx3]" using t1 t2 t3 o1 o2 ch tk us(2) res(2) by simp
  moreover have "carries fe tx1 (NewEpisode i [kp_public kp])" "carries fe tx2 (signed_by fe kp i RequestChallenge)"
      "carries fe tx3 (response_by fe kp i c)" "map previous_outpoint (tx_inputs tx1) = [fst u]"
    using t1 t2 t3 by blast+
  moreover have "map previous_outpoint (tx_inputs tx2) = [\<lparr>op_txid = id_of (fe_tx fe) tx1, op_index = 0\<rparr>]"
      "map previous_outpoint (tx_inputs tx3) = [\<lparr>op_txid = id_of (fe_tx fe) tx2, op_index = 0\<rparr>]"
    using t2 t3 o1 o2 by metis+
  moreover have "c \<noteq> []" "poll_status (look_any (found_text \<circ> sv_challenge)) (net_challenge net) 0 10 = Found c" using ch by simp_all
  moreover obtain ok v where "net_token net j = PollReply ok (Some v)" "sv_token v = Some (ao_token result)"
    using res(1) tok by auto
  moreover have "ao_episode result = ucast i" "ao_token result \<noteq> []" using res(1) tok by simp_all
  ultimately show ?thesis using us(1) amount by (intro exI conjI)
qed

section \<open>What the engine makes of it\<close>

text \<open>Messages delivered one after the other, each with its metadata.\<close>

fun deliver ::
  "('g, 'c, 'r, 'e, 'w) config \<Rightarrow> ('c episode_message \<times> metadata) list \<Rightarrow> ('g, 'r) engine \<times> 'w \<Rightarrow> (('g, 'r) engine \<times> 'w) option" where
  "deliver cfg [] s = Some s"
| "deliver cfg ((m, md) # ms) s = (case handle_message cfg m md s of None \<Rightarrow> None | Some (s', _) \<Rightarrow> deliver cfg ms s')"

lemma deliver_append:
  "deliver cfg (xs @ ys) s = (case deliver cfg xs s of None \<Rightarrow> None | Some s' \<Rightarrow> deliver cfg ys s')"
  by (induction cfg xs s rule: deliver.induct) (auto split: option.split)

text \<open>The engine of the authentication episodes.\<close>

definition auth_engine :: "('w, 'z) auth_flows \<Rightarrow> (auth_command \<Rightarrow> metadata \<Rightarrow> u64) \<Rightarrow> bool" where
  "auth_engine fe clock \<longleftrightarrow> cfg_ep (fe_cfg fe) = auth_episode (fe_auth fe) clock \<and> cfg_crypto (fe_cfg fe) = ae_crypto (fe_auth fe)"

lemma signed_command_executes:
  assumes "auth_engine fe clock" "keys_work (fe_auth fe) kp"
    and "episodes e i = Some wr"
    and "auth_execute (fe_auth fe) (clock cmd md) (ew_episode wr) cmd (Some (kp_public kp)) md = (g, Inr r)"
  shows "\<exists>e' w' wr'. handle_message (fe_cfg fe) (signed_by fe kp i cmd) md (e, w) = Some ((e', w'), Some (i, md)) \<and>
    episodes e' i = Some wr' \<and> ew_episode wr' = g"
proof -
  have "verify_signature (cfg_crypto (fe_cfg fe)) (kp_public kp) (to_message (cfg_crypto (fe_cfg fe)) (cmd_bytes (fe_cfg fe) cmd))
      (sign_message (cfg_crypto (fe_cfg fe)) (kp_secret kp) (to_message (cfg_crypto (fe_cfg fe)) (cmd_bytes (fe_cfg fe) cmd)))"
    using assms(1,2) by (simp add: auth_engine_def keys_work_def verify_signature_def sign_message_def)
  then show ?thesis
    using assms by (simp add: signed_by_def new_signed_command_def Let_def execute_signed_def auth_engine_def auth_episode_def
      finish_command_def)
qed

lemma rate_limit_first:
  assumes "rate_limits g = Map.empty"
  shows "\<not> is_rate_limited (increment_rate_limit g pk t) pk t'" "\<not> is_rate_limited g pk t'"
  using assms by (auto simp: is_rate_limited_def increment_rate_limit_def Let_def recent_attempts_def intro: order_le_less_trans [OF length_filter_le])

text \<open>
  C26: The chain makes a session of the daemon's messages. When the engine executes the three messages
  of the flow, the response within an hour of the request, the episode is authenticated by its owner
  and shows a session token; the revocation flow for this token then ends exactly this session.
\<close>
theorem daemon_session_lifecycle:
  assumes "auth_engine fe clock" and "keys_work (fe_auth fe) kp" and "episodes e i = None"
    and "c = generate_with_entropy (fe_auth fe) (accepting_time md2) (pk_bytes (kp_public kp) @ ascii (hash_text (fe_auth fe) (tx_id md2)))"
    and "sat_sub (clock (SubmitResponse (sign_text (fe_auth fe) (kp_secret kp) c) c) md3) (accepting_time md2) \<le> 3600"
  shows "\<exists>e3 w3 wr token.
    deliver (fe_cfg fe) [(NewEpisode i [kp_public kp], md1), (signed_by fe kp i RequestChallenge, md2), (response_by fe kp i c, md3)] (e, w)
      = Some (e3, w3) \<and>
    episodes e3 i = Some wr \<and> is_authenticated (ew_episode wr) \<and> owner (ew_episode wr) = Some (kp_public kp) \<and>
    challenge (ew_episode wr) = Some c \<and> session_token (ew_episode wr) = Some token \<and>
    (\<exists>e4 w4 wr4. deliver (fe_cfg fe) [(signed_by fe kp i (RevokeSession token (sign_text (fe_auth fe) (kp_secret kp) token)), md4)] (e3, w3)
        = Some (e4, w4) \<and>
      episodes e4 i = Some wr4 \<and> \<not> is_authenticated (ew_episode wr4) \<and> session_token (ew_episode wr4) = None)"
proof -
  let ?pk = "kp_public kp" and ?env = "fe_auth fe"
  let ?g1 = "auth_initialize [?pk] md1"
  let ?wr1 = "wrapper_initialize (fe_cfg fe) [?pk] md1"
  have ep: "ew_episode ?wr1 = ?g1" using assms(1) by (simp add: wrapper_initialize_def auth_engine_def auth_episode_def)
  obtain e1 w1 where s1: "handle_message (fe_cfg fe) (NewEpisode i [?pk]) md1 (e, w) = Some ((e1, w1), Some (i, md1))"
      "episodes e1 i = Some ?wr1"
    using assms(3) by (simp add: Let_def)
  obtain g2 where g2: "auth_execute ?env (clock RequestChallenge md2) ?g1 RequestChallenge (Some ?pk) md2 = (g2, Inr (UndoChallenge None (accepting_time md1)))"
      "challenge g2 = Some c" "\<not> is_authenticated g2" "owner g2 = Some ?pk" "authorized_participants g2 = [?pk]"
      "\<forall>t. \<not> is_rate_limited g2 ?pk t"
    using assms(4) by (simp add: auth_execute_def request_challenge_def Let_def auth_initialize_def rate_limit_first)
  from signed_command_executes [OF assms(1,2) s1(2), unfolded ep, OF g2(1)] obtain e2 w2 wr2 where
    s2: "handle_message (fe_cfg fe) (signed_by fe kp i RequestChallenge) md2 (e1, w1) = Some ((e2, w2), Some (i, md2))"
      "episodes e2 i = Some wr2" "ew_episode wr2 = g2"
    by blast
  let ?cmd3 = "SubmitResponse (sign_text ?env (kp_secret kp) c) c"
  obtain g3 r3 token where g3: "auth_execute ?env (clock ?cmd3 md3) g2 ?cmd3 (Some ?pk) md3 = (g3, Inr r3)"
      "is_authenticated g3" "session_token g3 = Some token" "challenge g3 = Some c" "owner g3 = Some ?pk"
      "authorized_participants g3 = [?pk]" "\<forall>t. \<not> is_rate_limited g3 ?pk t"
    using g2 assms(4,5) sign_text_verifies [OF assms(2), of c]
    by (simp add: auth_execute_def submit_response_def generated_valid Let_def) (simp add: is_rate_limited_def)
  from signed_command_executes [OF assms(1,2) s2(2), unfolded s2(3), OF g3(1)] obtain e3 w3 wr3 where
    s3: "handle_message (fe_cfg fe) (response_by fe kp i c) md3 (e2, w2) = Some ((e3, w3), Some (i, md3))"
      "episodes e3 i = Some wr3" "ew_episode wr3 = g3"
    unfolding response_by_def by blast
  let ?cmd4 = "RevokeSession token (sign_text ?env (kp_secret kp) token)"
  obtain g4 r4 where g4: "auth_execute ?env (clock ?cmd4 md4) g3 ?cmd4 (Some ?pk) md4 = (g4, Inr r4)"
      "\<not> is_authenticated g4" "session_token g4 = None"
    using g3 sign_text_verifies [OF assms(2), of token]
    by (simp add: auth_execute_def revoke_session_def)
  from signed_command_executes [OF assms(1,2) s3(2), unfolded s3(3), OF g4(1)] obtain e4 w4 wr4 where
    s4: "handle_message (fe_cfg fe) (signed_by fe kp i ?cmd4) md4 (e3, w3) = Some ((e4, w4), Some (i, md4))"
      "episodes e4 i = Some wr4" "ew_episode wr4 = g4"
    by blast
  have "deliver (fe_cfg fe) [(NewEpisode i [?pk], md1), (signed_by fe kp i RequestChallenge, md2), (response_by fe kp i c, md3)] (e, w)
      = Some (e3, w3)"
    using s1(1) s2(1) s3(1) by (simp only: deliver.simps option.case prod.case)
  moreover have "deliver (fe_cfg fe) [(signed_by fe kp i ?cmd4, md4)] (e3, w3) = Some (e4, w4)"
    using s4(1) by (simp only: deliver.simps option.case prod.case)
  ultimately show ?thesis
    using s3(2) s4(2) g3 [folded s3(3)] g4 [folded s4(3)] by blast
qed

section \<open>The flow over HTTP\<close>

text \<open>
  The flow over the HTTP endpoints gives the secret key away. Whenever it succeeds it has posted
  the secret key of the signer, in hexadecimal, to the peer.
\<close>
theorem working_flow_reveals_key:
  assumes "working_endpoint_flow env net signer [] = Some (tr, Inr result)"
  shows "\<exists>c. Post (PostSign c (hex_encode env (kp_secret signer))) \<in> set tr"
proof -
  have posted: "tr2 = tr1 @ [Post b]" if "post_message net b tr1 = Some (tr2, Inr r)" for b tr1 tr2 and r :: post_reply
    using that by (auto simp: post_message_def split: option.splits)
  have same: "tr2 = tr1" if "started_episode True r1 tr1 = Some (tr2, Inr (i :: u64))" for r1 tr1 tr2 i
    using that by (auto simp: started_episode_def flow_fail_def flow_return_def split: option.splits if_splits)
  show ?thesis
    using assms unfolding working_endpoint_flow_def Let_def
    by (elim flow_bind_SomeE)
      (auto dest!: posted await_token_InrE await_challenge_InrE same
        simp: require_success_def signature_of_def flow_return_def flow_fail_def split: if_splits option.splits)
qed

section \<open>Runs\<close>

definition demo_flow_tx :: tx_env where
  "demo_flow_tx = \<lparr>id_of = (\<lambda>_. [0, 0, 0, 0, 1, 0, 0, 0, 0, 0, 0, 0, 8, 0, 0, 64, 0, 0, 0, 0, 0, 0, 0, 0, 0, 1, 0, 0, 0, 0, 0, 4]),
     sign_tx = (\<lambda>t _. t)\<rparr>"

lemma demo_flow_sign [simp]: "sign_tx demo_flow_tx t es = t"
  by (simp add: demo_flow_tx_def)

lemma demo_flow_nonce: "find_nonce demo_flow_tx AUTH_PATTERN t 0 = Some t"
  by (subst find_nonce.simps) (simp add: demo_flow_tx_def AUTH_PATTERN_def Let_def)

definition demo_flow_auth :: auth_env where
  "demo_flow_auth = auth_demo_env\<lparr>hex_encode := map (\<lambda>b. char_of (unat b)), hex_decode := (\<lambda>s. Some (ascii s))\<rparr>"

definition demo_flow_env :: "unit auth_flow_env" where
  "demo_flow_env = \<lparr>fe_cfg = \<lparr>cfg_ep = auth_episode demo_flow_auth (\<lambda>_ md. accepting_time md), cfg_crypto = ae_crypto demo_flow_auth,
       cmd_bytes = (\<lambda>_. []), decode_msg = (\<lambda>_. None), handlers = []\<rparr>,
     fe_auth = demo_flow_auth, fe_tx = demo_flow_tx, fe_enc = (\<lambda>_. [1]), fe_script = pk_bytes\<rparr>"

definition demo_keys :: keypair where
  "demo_keys = \<lparr>kp_secret = [80], kp_public = PubKey [80]\<rparr>"

lemma demo_keys_work: "keys_work demo_flow_auth demo_keys"
  by (simp add: keys_work_def demo_flow_auth_def demo_keys_def auth_demo_env_def ascii_def comp_def)

definition demo_flow_net :: flow_net where
  "demo_flow_net = \<lparr>net_utxos = Some [(\<lparr>op_txid = [9], op_index = 0\<rparr>, \<lparr>utxo_amount = 100000, utxo_script = []\<rparr>)],
     net_submit = (\<lambda>_. Submitted), net_post = (\<lambda>_. Some \<lparr>pr_success = True, pr_body = Some \<lparr>rb_episode = Some 5, rb_signature = Some ''s''\<rparr>\<rparr>),
     net_challenge = (\<lambda>k. if k = 0 then PollReply True (Some \<lparr>sv_challenge = None, sv_authenticated = None, sv_token = None\<rparr>)
        else PollReply True (Some \<lparr>sv_challenge = Some ''c'', sv_authenticated = None, sv_token = None\<rparr>)),
     net_token = (\<lambda>_. PollReply True (Some \<lparr>sv_challenge = None, sv_authenticated = Some True, sv_token = Some ''t''\<rparr>))\<rparr>"

lemmas flow_eval = flow_bind_def flow_return_def flow_fail_def first_utxo_def first_output_def submit_flow_message_def post_message_def
  await_challenge_def await_token_def look_any_def look_strict_def found_text_def nonempty_text_def authenticated_token_def
  started_episode_def require_success_def signature_of_def

lemma demo_flow_run:
  "\<exists>tr. p2p_authentication_flow demo_flow_env demo_flow_net demo_keys 7 [] =
     Some (tr, Inr \<lparr>ao_episode = 7, ao_token = ''t'', ao_authenticated = True\<rparr>)"
proof -
  have fe: "fe_tx demo_flow_env = demo_flow_tx" by (simp add: demo_flow_env_def)
  show ?thesis
    by (simp add: p2p_authentication_flow_def flow_eval demo_flow_net_def fe build_command_transaction_def build_transaction_def
        auth_generator_def demo_flow_nonce poll_numeral get_first_output_utxo_def build_outputs_def)
qed

theorem p2p_flow_exact_witness:
  "\<exists>tx1 tx2 tx3 c. p2p_authentication_flow demo_flow_env demo_flow_net demo_keys 7 [] =
      Some ([SubmitTx tx1, SubmitTx tx2, SubmitTx tx3], Inr \<lparr>ao_episode = 7, ao_token = ''t'', ao_authenticated = True\<rparr>) \<and>
    carries demo_flow_env tx3 (response_by demo_flow_env demo_keys 7 c) \<and> map output_value (tx_outs tx3) = [85000]"
proof -
  have signing: "plain_signing (fe_tx demo_flow_env)" by (simp add: plain_signing_def demo_flow_env_def demo_flow_tx_def)
  obtain tr where run: "p2p_authentication_flow demo_flow_env demo_flow_net demo_keys 7 [] =
      Some (tr, Inr \<lparr>ao_episode = 7, ao_token = ''t'', ao_authenticated = True\<rparr>)" using demo_flow_run by blast
  from p2p_flow_exact [OF signing this] run show ?thesis by (auto simp: demo_flow_net_def)
qed

theorem working_flow_reveals_key_witness:
  "\<exists>tr result c. working_endpoint_flow demo_flow_auth demo_flow_net demo_keys [] = Some (tr, Inr result) \<and> Post (PostSign c (hex_encode demo_flow_auth [80])) \<in> set tr"
proof -
  obtain tr where run: "working_endpoint_flow demo_flow_auth demo_flow_net demo_keys [] =
      Some (tr, Inr \<lparr>ao_episode = 5, ao_token = ''t'', ao_authenticated = True\<rparr>)"
    by (simp add: working_endpoint_flow_def flow_eval demo_flow_net_def poll_numeral Let_def)
  from working_flow_reveals_key [OF this] run show ?thesis by (auto simp: demo_keys_def)
qed

theorem daemon_session_lifecycle_witness:
  "\<exists>e3 w3 wr token c.
    deliver (fe_cfg demo_flow_env) [(NewEpisode 7 [PubKey [80]], auth_demo_meta 10),
      (signed_by demo_flow_env demo_keys 7 RequestChallenge, auth_demo_meta 20),
      (response_by demo_flow_env demo_keys 7 c, auth_demo_meta 30)] (new_engine, ()) = Some (e3, w3) \<and>
    episodes e3 7 = Some wr \<and> is_authenticated (ew_episode wr) \<and> session_token (ew_episode wr) = Some token"
proof -
  have "auth_engine demo_flow_env (\<lambda>_ md. accepting_time md)" by (simp add: auth_engine_def demo_flow_env_def)
  moreover have "keys_work (fe_auth demo_flow_env) demo_keys" using demo_keys_work by (simp add: demo_flow_env_def)
  moreover have "episodes new_engine 7 = None" by (simp add: new_engine_def)
  moreover have "sat_sub (accepting_time (auth_demo_meta 30)) (accepting_time (auth_demo_meta 20)) \<le> 3600" by (simp add: sat_sub_def)
  moreover have "kp_public demo_keys = PubKey [80]" by (simp add: demo_keys_def)
  ultimately show ?thesis
    using daemon_session_lifecycle [of demo_flow_env "\<lambda>_ md. accepting_time md" demo_keys new_engine 7, OF _ _ _ refl,
        of "auth_demo_meta 30" "auth_demo_meta 20" "auth_demo_meta 10" "()"]
    by metis
qed

end
