(* ===== verification/Engine_Watch.thy ===== *)
theory Engine_Watch
  imports Reorg
begin

text \<open>
  Event handlers that keep something of every episode: the interface between an engine and whoever
  follows it through \<^verbatim>\<open>EpisodeEventHandler\<close>. \<open>seen i wr w\<close> is what the handlers' state \<open>w\<close> has of the
  episode \<open>i\<close> (its state and what can be rolled back), \<open>w_ok\<close> what they keep of their own state. A handler that does not follow
  rollbacks meets the contract without them (\<open>reverts\<close> is false).
\<close>

text \<open>Handlers keep ids in 64 bits.\<close>

lemma ucast_id [simp]: "(ucast (i :: episode_id) :: u64) = ucast j \<longleftrightarrow> i = j"
proof
  assume "(ucast i :: u64) = ucast j"
  then have "unat (ucast i :: u64) = unat (ucast j :: u64)" by simp
  moreover have "unat i < 2 ^ 32" "unat j < 2 ^ 32"
    using unsigned_less [of i] unsigned_less [of j] by simp_all
  ultimately show "i = j" by (simp add: unsigned_ucast_eq take_bit_nat_eq_self word_unat_eq_iff)
qed simp

primrec ev_id :: "('g, 'c) episode_event \<Rightarrow> episode_id" where
  "ev_id (OnInitialize i g) = i"
| "ev_id (OnCommand i g c a md) = i"
| "ev_id (OnRollback i g) = i"

locale episode_watch =
  fixes cfg :: "('g, 'c, 'r, 'e, 'w) config" and seen :: "episode_id \<Rightarrow> ('g, 'r) wrapper \<Rightarrow> 'w \<Rightarrow> bool" and w_ok :: "'w \<Rightarrow> bool" and reverts :: bool
  assumes keeps_ok: "w_ok w \<Longrightarrow> w_ok (notify cfg ev w)"
    and other: "w_ok w \<Longrightarrow> j \<noteq> ev_id ev \<Longrightarrow> seen j h w \<Longrightarrow> seen j h (notify cfg ev w)"
    and init: "w_ok w \<Longrightarrow> seen i (wrapper_initialize cfg ps md) (notify cfg (OnInitialize i (ep_initialize (cfg_ep cfg) ps md)) w)"
    and step: "w_ok w \<Longrightarrow> seen i wr w \<Longrightarrow> ep_execute (cfg_ep cfg) (ew_episode wr) c a md = Some (g', Inr r) \<Longrightarrow>
       seen i \<lparr>ew_episode = g', rollback_stack = rollback_stack wr @ [r]\<rparr> (notify cfg (OnCommand i g' c a md) w)"
    and refused: "w_ok w \<Longrightarrow> seen i wr w \<Longrightarrow> ep_execute (cfg_ep cfg) (ew_episode wr) c a md = Some (g', Inl err) \<Longrightarrow>
       seen i (wr\<lparr>ew_episode := g'\<rparr>) w"
    and undo: "reverts \<Longrightarrow> w_ok w \<Longrightarrow> seen i \<lparr>ew_episode = g, rollback_stack = rs @ [r]\<rparr> w \<Longrightarrow>
       ep_rollback (cfg_ep cfg) g r = Some (g', b) \<Longrightarrow> seen i \<lparr>ew_episode = g', rollback_stack = rs\<rparr> (notify cfg (OnRollback i g') w)"
begin

definition watched :: "('g, 'r) engine \<times> 'w \<Rightarrow> bool" where
  "watched s \<longleftrightarrow> w_ok (snd s) \<and> (\<forall>i wr. episodes (fst s) i = Some wr \<longrightarrow> seen i wr (snd s))"

lemma watched_event:
  assumes "watched (e, w)" "episodes e' = (episodes e)(ev_id ev := x)"
    and "\<And>wr. x = Some wr \<Longrightarrow> seen (ev_id ev) wr (notify cfg ev w)"
  shows "watched (e', notify cfg ev w)"
  using assms keeps_ok other by (auto simp: watched_def split: if_splits)

lemma watched_refused:
  assumes "watched (e, w)" "episodes e' = (episodes e)(i \<mapsto> wr)" "seen i wr w"
  shows "watched (e', w)"
  using assms by (auto simp: watched_def split: if_splits)

lemma watched_finish:
  assumes "watched (e, w)" "episodes e i = Some wr" "finish_command cfg i c a md (e, w) res = Some ((e', w'), r)"
    and "\<And>wr' r. res = Some (wr', Inr r) \<Longrightarrow> \<exists>u. ep_execute (cfg_ep cfg) (ew_episode wr) c a md = Some (ew_episode wr', Inr u) \<and> rollback_stack wr' = rollback_stack wr @ [u]"
    and "\<And>wr' err. res = Some (wr', Inl err) \<Longrightarrow> wr' = wr \<or> (\<exists>u g. ep_execute (cfg_ep cfg) (ew_episode wr) c a md = Some (g, Inl u) \<and> wr' = wr\<lparr>ew_episode := g\<rparr>)"
  shows "watched (e', w')"
proof -
  have ok: "w_ok w" "seen i wr w" using assms(1,2) by (auto simp: watched_def)
  obtain wr' x where res: "res = Some (wr', x)" using assms(3) by (auto simp: finish_command_def split: option.splits)
  show ?thesis
  proof (cases x)
    case (Inl err)
    with assms(3) res have e': "episodes e' = (episodes e)(i \<mapsto> wr')" "w' = w" by (auto simp: finish_command_def)
    have "seen i wr' w" using assms(5) res Inl ok refused by blast
    with watched_refused [OF assms(1) e'(1)] e'(2) show ?thesis by simp
  next
    case (Inr u)
    with assms(3) res have e': "episodes e' = (episodes e)(i \<mapsto> wr')" "w' = notify cfg (OnCommand i (ew_episode wr') c a md) w"
      by (auto simp: finish_command_def)
    from assms(4) [of wr' u] res Inr obtain r' where r': "ep_execute (cfg_ep cfg) (ew_episode wr) c a md = Some (ew_episode wr', Inr r')"
        "wr' = \<lparr>ew_episode = ew_episode wr', rollback_stack = rollback_stack wr @ [r']\<rparr>" by (cases wr') auto
    have "seen i wr' (notify cfg (OnCommand i (ew_episode wr') c a md) w)" using step [OF ok r'(1)] r'(2) by simp
    with watched_event [OF assms(1), of e' "OnCommand i (ew_episode wr') c a md" "Some wr'"] e' show ?thesis by simp
  qed
qed

lemma watched_handle:
  assumes "watched (e, w)" "handle_message cfg m md (e, w) = Some ((e', w'), r)" "reverts \<or> (\<forall>i. m \<noteq> Revert i)"
  shows "watched (e', w')"
proof (cases m)
  case (NewEpisode i ps)
  show ?thesis
  proof (cases "episodes e i")
    case None
    let ?ev = "OnInitialize i (ep_initialize (cfg_ep cfg) ps md)"
    have "w_ok w" using assms(1) by (simp add: watched_def)
    then have "watched (e', notify cfg ?ev w)"
      using NewEpisode None assms(2) init
      by (intro watched_event [OF assms(1), where x = "Some (wrapper_initialize cfg ps md)"]) (auto simp: Let_def wrapper_initialize_def)
    with NewEpisode None assms(2) show ?thesis by (auto simp: Let_def wrapper_initialize_def)
  qed (use NewEpisode assms(1,2) in auto)
next
  case (SignedCommand i cmd pk sg)
  show ?thesis
  proof (cases "episodes e i")
    case (Some wr)
    with SignedCommand assms(2) have f: "finish_command cfg i cmd (Some pk) md (e, w) (execute_signed cfg wr cmd pk sg md) = Some ((e', w'), r)"
      by simp
    show ?thesis
      by (rule watched_finish [OF assms(1) Some f]) (auto simp: execute_signed_def split: if_splits option.splits prod.splits sum.splits)
  qed (use SignedCommand assms(1,2) in auto)
next
  case (UnsignedCommand i cmd)
  show ?thesis
  proof (cases "episodes e i")
    case (Some wr)
    with UnsignedCommand assms(2) have f: "finish_command cfg i cmd None md (e, w) (execute_unsigned cfg wr cmd md) = Some ((e', w'), r)"
      by simp
    show ?thesis
      by (rule watched_finish [OF assms(1) Some f]) (auto simp: execute_unsigned_def split: option.splits prod.splits sum.splits)
  qed (use UnsignedCommand assms(1,2) in auto)
next
  case (Revert i)
  show ?thesis
  proof (cases "episodes e i")
    case (Some wr)
    with Revert assms(2) obtain wr' res where rb: "wrapper_rollback cfg wr = Some (wr', res)"
        "episodes e' = (episodes e)(i := if res = Inl DeleteEpisode then None else Some wr')"
        "w' = notify cfg (OnRollback i (ew_episode wr')) w"
      by (auto simp: Let_def split: option.splits prod.splits if_splits)
    have ok: "w_ok w" "seen i wr w" using assms(1) Some by (auto simp: watched_def)
    have "seen i wr' w'" if "res \<noteq> Inl DeleteEpisode"
    proof -
      from rb(1) that obtain g b where g: "ep_rollback (cfg_ep cfg) (ew_episode wr) (last (rollback_stack wr)) = Some (g, b)"
          "wr' = \<lparr>ew_episode = g, rollback_stack = butlast (rollback_stack wr)\<rparr>" "rollback_stack wr \<noteq> []"
        by (auto simp: wrapper_rollback_def split: if_splits option.splits)
      then have "wr = \<lparr>ew_episode = ew_episode wr, rollback_stack = butlast (rollback_stack wr) @ [last (rollback_stack wr)]\<rparr>" by (cases wr) simp
      with ok(2) undo [OF _ ok(1) _ g(1)] assms(3) Revert have "seen i wr' (notify cfg (OnRollback i g) w)" unfolding g(2) by metis
      then show ?thesis by (simp add: rb(3) g(2))
    qed
    then show ?thesis unfolding rb(3)
      using rb(2,3) by (intro watched_event [OF assms(1), where x = "if res = Inl DeleteEpisode then None else Some wr'"]) (auto split: if_splits)
  qed (use Revert assms(1,2) in auto)
qed

lemma watched_txs:
  assumes "watched s" "process_txs cfg h daa time txs s = Some (s', rv)"
  shows "watched s'"
  using assms
proof (induction txs arbitrary: s rv)
  case (Cons x txs)
  obtain tid payload outs where x: "x = (tid, payload, outs)" by (cases x)
  from Cons.prems(2) [unfolded x] show ?case
  proof (cases rule: process_txs_Cons_Some)
    case skip
    then show ?thesis using Cons.IH Cons.prems(1) by blast
  next
    case (act m s1 r rv')
    with watched_handle [of "fst s" "snd s" m _ "fst s1" "snd s1" r] Cons.prems(1) have "watched s1" by simp
    with Cons.IH act(4) show ?thesis by blast
  qed
qed simp

lemma watched_reverts: "reverts \<Longrightarrow> watched s \<Longrightarrow> revert_all cfg h rs s = Some s' \<Longrightarrow> watched s'"
proof (induction rs arbitrary: s)
  case (Cons x rs)
  obtain i md where x: "x = (i, md)" by (cases x)
  obtain e w where s: "s = (e, w)" by (cases s)
  from Cons.prems(3) obtain e1 w1 where "handle_message cfg (Revert i) (md\<lparr>accepting_hash := h\<rparr>) (e, w) = Some ((e1, w1), None)"
      "revert_all cfg h rs (e1, w1) = Some s'"
    unfolding x s by (auto simp del: handle_message.simps split: option.splits prod.splits)
  with watched_handle Cons.IH Cons.prems(1,2) s show ?case by blast
qed simp

lemma watched_filter: "watched (e, w) \<Longrightarrow> watched (filter_old_episodes e daa, w)"
  by (auto simp: watched_def filter_old_episodes_def split: if_splits)

lemma watched_revert_map: "watched (e\<lparr>revert_map := m\<rparr>, w) \<longleftrightarrow> watched (e, w)"
  by (simp add: watched_def)

lemma watched_step:
  assumes "watched (e, w)" "engine_step cfg m (e, w) = Some s'" "reverts \<or> (\<forall>h. m \<noteq> BlkReverted h)"
  shows "watched s'"
proof (cases m)
  case (BlkAccepted h daa time txs)
  with assms(2) obtain e1 w1 rv where "process_txs cfg h daa time txs (filter_old_episodes e daa, w) = Some ((e1, w1), rv)"
      "s' = (e1\<lparr>revert_map := (revert_map e1)(h \<mapsto> rv)\<rparr>, w1)"
    by (auto split: option.splits prod.splits)
  with watched_txs watched_filter [OF assms(1)] show ?thesis by (metis watched_revert_map)
next
  case (BlkReverted h)
  with assms(3) have rev: reverts by blast
  show ?thesis
  proof (cases "revert_map e h")
    case (Some rv)
    with BlkReverted assms(2) have "revert_all cfg h (rev rv) (e\<lparr>revert_map := (revert_map e)(h := None)\<rparr>, w) = Some s'" by simp
    with watched_reverts [OF rev] assms(1) show ?thesis by (metis watched_revert_map)
  qed (use BlkReverted assms in simp)
qed (use assms in auto)

lemma watched_start:
  assumes "watched s" "start cfg ms s = Some s'" "reverts \<or> (\<forall>h. BlkReverted h \<notin> set ms)"
  shows "watched s'"
  using assms
proof (induction ms arbitrary: s)
  case (Cons m ms)
  show ?case
  proof (cases "m = Exit")
    case False
    then obtain s1 where s1: "engine_step cfg m s = Some s1" "start cfg ms s1 = Some s'"
      using Cons.prems(2) by (auto split: option.splits)
    have "watched s1" using watched_step [of "fst s" "snd s" m s1] Cons.prems s1(1) by fastforce
    moreover have "reverts \<or> (\<forall>h. BlkReverted h \<notin> set ms)" using Cons.prems(3) by auto
    ultimately show ?thesis using Cons.IH s1(2) by blast
  qed (use Cons.prems in simp)
qed simp

text \<open>Whatever blocks the engine accepts (and reverts), what is kept belongs to the episodes it has.\<close>

lemma follows_engine:
  assumes "start cfg ms (new_engine, w) = Some (e, w')" "w_ok w" "reverts \<or> (\<forall>h. BlkReverted h \<notin> set ms)"
    and "episodes e i = Some wr"
  shows "seen i wr w'" "w_ok w'"
proof -
  have "watched (new_engine, w)" using assms(2) by (simp add: watched_def new_engine_def)
  with watched_start assms(1,3) have "watched (e, w')" by blast
  with assms(4) show "seen i wr w'" "w_ok w'" by (simp_all add: watched_def)
qed

end

section \<open>Engines with other handlers\<close>

text \<open>
  The engine itself does not depend on what its handlers keep: two engines that differ in the handlers
  run alike, and a relation between the states of the handlers that every event preserves stays true.
\<close>

definition same_engine :: "('g, 'c, 'r, 'e, 'w) config \<Rightarrow> ('g, 'c, 'r, 'e, 'v) config \<Rightarrow> bool" where
  "same_engine c1 c2 \<longleftrightarrow> cfg_ep c1 = cfg_ep c2 \<and> cfg_crypto c1 = cfg_crypto c2 \<and> cmd_bytes c1 = cmd_bytes c2 \<and> decode_msg c1 = decode_msg c2"

definition both :: "('w \<Rightarrow> 'v \<Rightarrow> bool) \<Rightarrow> (('a \<times> 'w) \<times> 'b) option \<Rightarrow> (('a \<times> 'v) \<times> 'b) option \<Rightarrow> bool" where
  "both R x y \<longleftrightarrow> rel_option (\<lambda>p q. fst (fst p) = fst (fst q) \<and> R (snd (fst p)) (snd (fst q)) \<and> snd p = snd q) x y"

lemma both_simps [simp]: "both R None None" "both R (Some ((a, w), b)) (Some ((c, v), d)) \<longleftrightarrow> a = c \<and> R w v \<and> b = d"
    "\<not> both R None (Some z)" "\<not> both R (Some z') None"
  by (simp_all add: both_def)

locale related_handlers =
  fixes c1 :: "('g, 'c, 'r, 'e, 'w) config" and c2 :: "('g, 'c, 'r, 'e, 'v) config" and R :: "'w \<Rightarrow> 'v \<Rightarrow> bool"
  assumes same: "same_engine c1 c2"
    and event: "R w v \<Longrightarrow> R (notify c1 ev w) (notify c2 ev v)"
begin

lemma same_steps: "wrapper_initialize c1 = wrapper_initialize c2" "execute_signed c1 = execute_signed c2"
    "execute_unsigned c1 = execute_unsigned c2" "wrapper_rollback c1 = wrapper_rollback c2" "decode_msg c1 = decode_msg c2"
  using same by (simp_all add: same_engine_def wrapper_initialize_def execute_signed_def execute_unsigned_def wrapper_rollback_def fun_eq_iff)

lemma related_finish: "R w v \<Longrightarrow> both R (finish_command c1 i c a md (e, w) res) (finish_command c2 i c a md (e, v) res)"
  by (auto simp: finish_command_def event split: option.split sum.split)

lemma related_handle: "R w v \<Longrightarrow> both R (handle_message c1 m md (e, w)) (handle_message c2 m md (e, v))"
  by (cases m) (auto simp: Let_def same_steps event related_finish split: option.split)

lemma related_txs: "R w v \<Longrightarrow> both R (process_txs c1 h daa time txs (e, w)) (process_txs c2 h daa time txs (e, v))"
proof (induction txs arbitrary: e w v)
  case (Cons x txs)
  obtain tid payload outs where x: "x = (tid, payload, outs)" by (cases x)
  show ?case
  proof (cases "decode_msg c2 payload")
    case (Some m)
    let ?md = "\<lparr>accepting_hash = h, accepting_daa = daa, accepting_time = time, tx_id = tid, tx_outputs = outs\<rparr>"
    show ?thesis
    proof (cases "\<exists>i. m = Revert i")
      case True
      with Some Cons show ?thesis by (auto simp: x same_steps(5))
    next
      case False
      then have one: "process_txs c (h) daa time (x # txs) s = (case handle_message c m ?md s of None \<Rightarrow> None
          | Some (s', r) \<Rightarrow> map_option (\<lambda>(s'', rv). (s'', (case r of None \<Rightarrow> rv | Some x \<Rightarrow> x # rv))) (process_txs c h daa time txs s'))"
        if "decode_msg c payload = Some m" for c :: "('g, 'c, 'r, 'e, 'z) config" and s
        using that by (cases m) (simp_all add: x del: handle_message.simps)
      from related_handle [OF Cons.prems, of m ?md e] show ?thesis
      proof (cases "handle_message c1 m ?md (e, w)"; cases "handle_message c2 m ?md (e, v)")
        fix p q assume pq: "handle_message c1 m ?md (e, w) = Some p" "handle_message c2 m ?md (e, v) = Some q"
        obtain e1 w1 r v1 where eq: "p = ((e1, w1), r)" "q = ((e1, v1), r)" "R w1 v1"
          using related_handle [OF Cons.prems, of m ?md e] pq by (cases p; cases q) auto
        from Cons.IH [OF eq(3), of e1] show ?thesis
          using one [of c1] one [of c2] Some same_steps(5) pq eq
          by (cases "process_txs c1 h daa time txs (e1, w1)"; cases "process_txs c2 h daa time txs (e1, v1)") auto
      qed (use one [of c1] one [of c2] Some same_steps(5) in auto)
    qed
  qed (use Cons in \<open>simp add: x same_steps(5)\<close>)
qed simp

lemma related_reverts: "R w v \<Longrightarrow> rel_option (rel_prod (=) R) (revert_all c1 h rs (e, w)) (revert_all c2 h rs (e, v))"
proof (induction rs arbitrary: e w v)
  case (Cons x rs)
  obtain i md where x: "x = (i, md)" by (cases x)
  let ?h = "\<lambda>c s. handle_message c (Revert i) (md\<lparr>accepting_hash := h\<rparr>) s"
  show ?case
  proof (cases "?h c1 (e, w)")
    case None
    with related_handle [OF Cons.prems, of "Revert i" "md\<lparr>accepting_hash := h\<rparr>" e] show ?thesis
      by (cases "?h c2 (e, v)") (simp_all add: x del: handle_message.simps)
  next
    case (Some p)
    then obtain e1 w1 r v1 where eq: "?h c1 (e, w) = Some ((e1, w1), r)" "?h c2 (e, v) = Some ((e1, v1), r)" "R w1 v1"
      using related_handle [OF Cons.prems, of "Revert i" "md\<lparr>accepting_hash := h\<rparr>" e]
      by (cases p; cases "?h c2 (e, v)") (auto simp del: handle_message.simps)
    with Cons.IH [OF eq(3)] show ?thesis by (cases r) (simp_all add: x del: handle_message.simps)
  qed
qed simp

lemma related_step: "R w v \<Longrightarrow> rel_option (rel_prod (=) R) (engine_step c1 m (e, w)) (engine_step c2 m (e, v))"
proof (cases m)
  case (BlkAccepted h daa time txs)
  assume R: "R w v"
  let ?p = "\<lambda>c s. process_txs c h daa time txs (filter_old_episodes e daa, s)"
  from related_txs [OF R, of h daa time txs "filter_old_episodes e daa"] BlkAccepted show ?thesis
    by (cases "?p c1 w"; cases "?p c2 v") (auto split: prod.splits)
next
  case (BlkReverted h)
  assume "R w v"
  with BlkReverted related_reverts show ?thesis by (auto split: option.split)
qed simp

lemma related_start: "R w v \<Longrightarrow> rel_option (rel_prod (=) R) (start c1 ms (e, w)) (start c2 ms (e, v))"
proof (induction ms arbitrary: e w v)
  case (Cons m ms)
  show ?case
  proof (cases "m = Exit")
    case False
    show ?thesis
    proof (cases "engine_step c1 m (e, w)")
      case None
      with related_step [OF Cons.prems, of m e] False show ?thesis
        by (cases "engine_step c2 m (e, v)") (simp_all del: engine_step.simps)
    next
      case (Some p)
      then obtain e1 w1 v1 where "engine_step c1 m (e, w) = Some (e1, w1)" "engine_step c2 m (e, v) = Some (e1, v1)" "R w1 v1"
        using related_step [OF Cons.prems, of m e] by (cases p; cases "engine_step c2 m (e, v)") (auto simp del: engine_step.simps)
      with Cons.IH False show ?thesis by (simp del: engine_step.simps)
    qed
  qed (use Cons.prems in simp)
qed simp

end

end
