(* ===== verification/Auth_Http_Properties.thy ===== *)
theory Auth_Http_Properties
  imports Auth_Http Auth_Flows_Properties Engine_Watch
begin

text \<open>
  What the HTTP peer shows of the chain: its copy follows the engine block by block, but not through a
  reorganisation, and not when an endpoint executes commands in the copy.
\<close>

section \<open>The copy follows the engine\<close>

lemma broadcast_fields [simp]:
  "mirror (broadcast_ws m p) = mirror p" "poisoned (broadcast_ws m p) = poisoned p"
  by (simp_all add: broadcast_ws_def)

lemma stored_mirror:
  "poisoned (http_on_command i g p) = poisoned p" "poisoned (http_on_initialize i g p) = poisoned p"
  "\<not> poisoned p \<Longrightarrow> mirror (http_on_command i g p) = (mirror p)(ucast i \<mapsto> g)"
  "\<not> poisoned p \<Longrightarrow> mirror (http_on_initialize i g p) = (mirror p)(ucast i \<mapsto> g)"
  by (simp_all add: http_on_command_def http_on_initialize_def store_episode_def Let_def)

text \<open>The configuration of the HTTP peer; rollbacks are not followed.\<close>

definition http_config ::
  "auth_env \<Rightarrow> (auth_command \<Rightarrow> metadata \<Rightarrow> u64) \<Rightarrow> crypto \<Rightarrow> (auth_command \<Rightarrow> bytes) \<Rightarrow> (bytes \<Rightarrow> auth_command episode_message option) \<Rightarrow>
     (simple_auth, auth_command, auth_rollback, auth_error, http_peer) config" where
  "http_config env clock cr cb dm =
     \<lparr>cfg_ep = auth_episode env clock, cfg_crypto = cr, cmd_bytes = cb, decode_msg = dm, handlers = [http_auth_handler]\<rparr>"

lemma http_config_eq:
  "cfg_ep cfg = auth_episode env clock \<Longrightarrow> handlers cfg = [http_auth_handler] \<Longrightarrow>
     cfg = http_config env clock (cfg_crypto cfg) (cmd_bytes cfg) (decode_msg cfg)"
  by (cases cfg) (simp add: http_config_def)

lemma http_event: "notify (http_config env clock cr cb dm) ev p = http_auth_handler ev p"
  by (simp add: notify_def http_config_def)

lemma http_event_mirror:
  assumes "\<not> poisoned p"
  shows "\<not> poisoned (http_auth_handler ev p)"
    "j \<noteq> ev_id ev \<Longrightarrow> mirror (http_auth_handler ev p) (ucast j) = mirror p (ucast j)"
  using assms by (cases ev; simp add: http_auth_handler_def stored_mirror http_on_rollback_def)+

lemma http_event_own:
  "http_auth_handler (OnInitialize i g) p = http_on_initialize i g p" "http_auth_handler (OnCommand i g c a md) p = http_on_command i g p"
  by (simp_all add: http_auth_handler_def)

interpretation http_watch: episode_watch "http_config env clock cr cb dm" "\<lambda>i wr p. mirror p (ucast i) = Some (ew_episode wr)" "\<lambda>p. \<not> poisoned p" False
  for env clock cr cb dm
  by unfold_locales
    (simp_all add: http_event http_event_mirror http_event_own stored_mirror, auto simp: http_config_def auth_episode_def wrapper_initialize_def dest: auth_err)

text \<open>
  While blocks are only added, the peer shows the chain: whatever blocks the engine has accepted,
  the status endpoint answers for every episode of the engine with exactly its state.
\<close>
theorem status_shows_chain:
  assumes "cfg_ep cfg = auth_episode env clock" and "handlers cfg = [http_auth_handler]"
    and "start cfg ms (new_engine, http_peer_new) = Some (e, p)" and "\<forall>h. BlkReverted h \<notin> set ms"
    and "episodes e i = Some wr"
  shows "\<exists>r. get_status env p (ucast i) = Inr r \<and> sr_confirmed r \<and> sr_authenticated r = is_authenticated (ew_episode wr) \<and>
    sr_challenge r = challenge (ew_episode wr) \<and> sr_token r = session_token (ew_episode wr)"
proof -
  have "\<not> poisoned http_peer_new" by (simp add: http_peer_new_def)
  then have "mirror p (ucast i) = Some (ew_episode wr)" "\<not> poisoned p"
    using http_watch.follows_engine [where ms = ms and wr = wr] assms(3-5) http_config_eq [OF assms(1,2)] by metis+
  then show ?thesis by (simp add: get_status_def)
qed

section \<open>Where the copy and the chain part\<close>

text \<open>
  A reverted session stays visible. When a response is executed and its block then reverted, the
  episode of the engine is no longer authenticated, but the peer keeps answering that it is, with a
  session token, as confirmed by the blockchain.
\<close>
theorem reverted_session_still_shown:
  assumes "auth_engine fe clock" and "keys_work (fe_auth fe) kp" and "handlers (fe_cfg fe) = [http_auth_handler]"
    and "\<not> poisoned p" and "episodes e i = Some wr"
    and "auth_execute (fe_auth fe) (clock cmd md) (ew_episode wr) cmd (Some (kp_public kp)) md = (g, Inr rb)"
    and "is_authenticated g" and "\<not> is_authenticated (ew_episode wr)" and "cmd = SubmitResponse (sign_text (fe_auth fe) (kp_secret kp) c) c"
  shows "\<exists>e' p' wr'. deliver (fe_cfg fe) [(response_by fe kp i c, md), (Revert i, md')] (e, p) = Some (e', p') \<and>
    episodes e' i = Some wr' \<and> \<not> is_authenticated (ew_episode wr') \<and>
    (\<exists>r. get_status (fe_auth fe) p' (ucast i) = Inr r \<and> sr_authenticated r \<and> sr_token r \<noteq> None \<and> sr_confirmed r)"
proof -
  have res: "rb = UndoAuthentication False (session_token (ew_episode wr))" "session_token g \<noteq> None"
    using assms(6,8,9) by (auto simp: auth_execute_def submit_response_def Let_def split: if_splits option.splits)
  let ?wr1 = "\<lparr>ew_episode = g, rollback_stack = rollback_stack wr @ [rb]\<rparr>"
  have sig: "verify_signature (cfg_crypto (fe_cfg fe)) (kp_public kp) (to_message (cfg_crypto (fe_cfg fe)) (cmd_bytes (fe_cfg fe) cmd))
      (sign_message (cfg_crypto (fe_cfg fe)) (kp_secret kp) (to_message (cfg_crypto (fe_cfg fe)) (cmd_bytes (fe_cfg fe) cmd)))"
    using assms(1,2) by (simp add: auth_engine_def keys_work_def verify_signature_def sign_message_def)
  have s1: "handle_message (fe_cfg fe) (response_by fe kp i c) md (e, p) =
      Some ((e\<lparr>episodes := (episodes e)(i \<mapsto> ?wr1)\<rparr>, http_on_command i g p), Some (i, md))"
    using assms(1,3,5,6,9) sig
    by (simp add: response_by_def signed_by_def new_signed_command_def Let_def execute_signed_def auth_engine_def auth_episode_def
        finish_command_def notify_def http_auth_handler_def)
  let ?g2 = "fst (auth_rollback_cmd g rb)"
  have s2: "\<exists>e2. handle_message (fe_cfg fe) (Revert i) md' (e\<lparr>episodes := (episodes e)(i \<mapsto> ?wr1)\<rparr>, http_on_command i g p) =
      Some ((e2, http_on_command i g p), None) \<and> episodes e2 i = Some \<lparr>ew_episode = ?g2, rollback_stack = rollback_stack wr\<rparr>"
    using assms(1,3) by (simp add: wrapper_rollback_def auth_engine_def auth_episode_def res(1) auth_rollback_cmd_def Let_def notify_def
        http_auth_handler_def http_on_rollback_def)
  then obtain e2 where e2: "handle_message (fe_cfg fe) (Revert i) md' (e\<lparr>episodes := (episodes e)(i \<mapsto> ?wr1)\<rparr>, http_on_command i g p) =
      Some ((e2, http_on_command i g p), None)" "episodes e2 i = Some \<lparr>ew_episode = ?g2, rollback_stack = rollback_stack wr\<rparr>" by blast
  have "deliver (fe_cfg fe) [(response_by fe kp i c, md), (Revert i, md')] (e, p) = Some (e2, http_on_command i g p)"
    using s1 e2(1) by (simp only: deliver.simps option.case prod.case)
  moreover have "\<not> is_authenticated ?g2" by (simp add: res(1) auth_rollback_cmd_def)
  moreover have "get_status (fe_auth fe) (http_on_command i g p) (ucast i) =
      Inr \<lparr>sr_authenticated = True, sr_status = ''authenticated'', sr_challenge = challenge g, sr_token = session_token g, sr_confirmed = True,
        sr_public_key = map_option (\<lambda>pk. hex_encode (fe_auth fe) (pk_bytes pk)) (owner g)\<rparr>"
    using assms(4,7) by (simp add: get_status_def stored_mirror)
  ultimately show ?thesis using e2(2) res(2) by (intro exI conjI) (assumption | simp)+
qed

text \<open>
  The verification endpoint reports success and does nothing. For a challenge the peer itself gave
  out, it answers a valid signature with \<open>authenticated: true\<close>, but the challenge carries the time zero,
  so the episode refuses the response as expired and stays unauthenticated.
\<close>
theorem http_verify_reports_success:
  assumes "http_request_challenge env hash_of now0 p i = Some (p1, Inr c)" and "mirror p1 i = Some g1" and "\<not> is_authenticated g1"
    and "owner g1 = Some pk" and "verify_text env pk c sg" and "3600 < now"
  shows "verify_auth env hash_of now p1 i sg c =
    (p1, Some (Inr \<lparr>vr_authenticated = True, vr_status = ''verification_successful_awaiting_blockchain_confirmation''\<rparr>))"
proof -
  obtain g r where g: "\<not> poisoned p" "mirror p i = Some g" "auth_execute env now0 g RequestChallenge (owner g) (local_metadata hash_of i) = (g1, Inr r)"
      "p1 = p\<lparr>mirror := (mirror p)(i \<mapsto> g1)\<rparr>" "challenge g1 = Some c"
    using assms(1,2) by (auto simp: http_request_challenge_def split: if_splits option.splits prod.splits sum.splits)
  then obtain extra where c: "c = generate_with_entropy env 0 extra"
    by (auto simp: auth_execute_def request_challenge_def local_metadata_def Let_def split: option.splits if_splits)
  have "\<not> challenge_valid now c 3600"
    using assms(6) unfolding c generated_valid by (simp add: sat_sub_def not_le)
  then have "fst (auth_execute env now g1 (SubmitResponse sg c) (Some pk) (local_metadata hash_of i)) = g1"
    using assms(3) g(5) by (simp add: auth_execute_def submit_response_def)
  then have "p1\<lparr>mirror := (mirror p1)(i \<mapsto> fst (auth_execute env now g1 (SubmitResponse sg c) (Some pk) (local_metadata hash_of i)))\<rparr> = p1"
    using g(4) by simp
  then show ?thesis
    using assms(2-5) g(1,4,5) by (auto simp: verify_auth_def verify_text_def Let_def split: option.splits if_splits)
qed

text \<open>
  One transaction and one request stop the peer. Anybody can create an episode without
  participants; verifying it panics with the mutex held. From then on every status is an error, every
  challenge and verification panics, and blocks no longer reach the copy.
\<close>
theorem ownerless_episode_stops_peer:
  assumes "auth_engine fe clock" and "handlers (fe_cfg fe) = [http_auth_handler]" and "\<not> poisoned p" and "episodes e i = None"
  shows "\<exists>e1 p1 p2. handle_message (fe_cfg fe) (NewEpisode i []) md (e, p) = Some ((e1, p1), Some (i, md)) \<and>
    verify_auth env hash_of now p1 (ucast i) sg c = (p2, None) \<and>
    (\<forall>env' j. get_status env' p2 j = Inl 500) \<and> (\<forall>now' j. http_request_challenge env hash_of now' p2 j = None) \<and>
    (\<forall>now' j s n. verify_auth env hash_of now' p2 j s n = (p2, None)) \<and>
    (\<forall>ev. mirror (http_auth_handler ev p2) = mirror p2 \<and> poisoned (http_auth_handler ev p2))"
proof -
  let ?g = "auth_initialize [] md"
  let ?p1 = "http_on_initialize i ?g p" 
  have "\<exists>e1. handle_message (fe_cfg fe) (NewEpisode i []) md (e, p) = Some ((e1, ?p1), Some (i, md))"
    using assms by (simp add: Let_def wrapper_initialize_def auth_engine_def auth_episode_def notify_def http_auth_handler_def)
  moreover have "verify_auth env hash_of now ?p1 (ucast i) sg c = (?p1\<lparr>poisoned := True\<rparr>, None)"
    using assms(3) by (simp add: verify_auth_def stored_mirror auth_initialize_def)
  moreover have "mirror (http_auth_handler ev (?p1\<lparr>poisoned := True\<rparr>)) = mirror (?p1\<lparr>poisoned := True\<rparr>) \<and>
      poisoned (http_auth_handler ev (?p1\<lparr>poisoned := True\<rparr>))" for ev
    by (simp add: http_auth_handler_def http_on_initialize_def http_on_command_def http_on_rollback_def store_episode_def Let_def
        split: episode_event.split)
  moreover have "get_status env' (?p1\<lparr>poisoned := True\<rparr>) j = Inl 500" for env' j by (simp add: get_status_def)
  moreover have "http_request_challenge env hash_of now' (?p1\<lparr>poisoned := True\<rparr>) j = None" for now' j
    by (simp add: http_request_challenge_def)
  moreover have "verify_auth env hash_of now' (?p1\<lparr>poisoned := True\<rparr>) j s n = (?p1\<lparr>poisoned := True\<rparr>, None)" for now' j s n
    by (simp add: verify_auth_def)
  ultimately show ?thesis by blast
qed

text \<open>Requests one after the other; the results say which succeeded.\<close>

fun request_many :: "auth_env \<Rightarrow> (u64 \<Rightarrow> hash) \<Rightarrow> http_peer \<Rightarrow> u64 \<Rightarrow> u64 list \<Rightarrow> bool list" where
  "request_many env hash_of p i [] = []"
| "request_many env hash_of p i (now # nows) =
     (case http_request_challenge env hash_of now p i of
        None \<Rightarrow> []
      | Some (p', res) \<Rightarrow> (case res of Inl _ \<Rightarrow> False | Inr _ \<Rightarrow> True) # request_many env hash_of p' i nows)"

definition attempts :: "simple_auth \<Rightarrow> pubkey \<Rightarrow> u64 list" where
  "attempts g pk = (case rate_limits g (pk_bytes pk) of None \<Rightarrow> [] | Some ts \<Rightarrow> ts)"

lemma recent_at_zero: "recent_attempts 0 (replicate n 0) = replicate n 0"
  by (simp add: recent_attempts_def)

lemma request_many_from:
  assumes "\<not> poisoned p" "mirror p i = Some g" "owner g = Some pk" "pk \<in> set (authorized_participants g)"
    and "attempts g pk = replicate n 0" "n \<le> 5"
  shows "request_many env hash_of p i nows = replicate (min (5 - n) (length nows)) True @ replicate (length nows - (5 - n)) False"
  using assms
proof (induction nows arbitrary: p g n)
  case (Cons now nows)
  have lim: "is_rate_limited g pk 0 \<longleftrightarrow> 5 \<le> n"
    using Cons.prems(5) by (auto simp: is_rate_limited_def attempts_def recent_at_zero split: option.splits)
  show ?case
  proof (cases "n = 5")
    case True
    with lim Cons.prems have "http_request_challenge env hash_of now p i = Some (p, Inl 500)"
      by (auto simp: http_request_challenge_def auth_execute_def local_metadata_def fun_upd_idem)
    with True Cons.IH [OF Cons.prems(1-6)] show ?thesis by simp
  next
    case False
    with Cons.prems(6) have n: "n < 5" by simp
    let ?md = "local_metadata hash_of i"
    obtain g' r where g': "auth_execute env now g RequestChallenge (Some pk) ?md = (g', Inr r)" "owner g' = Some pk" "challenge g' \<noteq> None"
        "authorized_participants g' = authorized_participants g" "attempts g' pk = recent_attempts 0 (attempts g pk @ [0])"
      using n lim Cons.prems(4) by (auto simp: auth_execute_def request_challenge_def local_metadata_def Let_def increment_rate_limit_def attempts_def
          split: option.splits)
    have "attempts g' pk = replicate (Suc n) 0"
      using g'(5) Cons.prems(5) recent_at_zero [of "Suc n"] by (simp flip: replicate_append_same)
    moreover obtain c where "http_request_challenge env hash_of now p i = Some (p\<lparr>mirror := (mirror p)(i \<mapsto> g')\<rparr>, Inr c)"
      using g' Cons.prems(1-3) by (auto simp: http_request_challenge_def)
    moreover have "5 - n = Suc (5 - Suc n)" using n by simp
    ultimately show ?thesis
      using Cons.IH [of "p\<lparr>mirror := (mirror p)(i \<mapsto> g')\<rparr>" g' "Suc n"] Cons.prems(1,4) g' n by simp
  qed
qed simp

text \<open>
  Five challenges per episode, for good. Challenges given out by the endpoint are all counted at
  time zero: the first five requests for an episode succeed, and every later one fails, whatever the
  clocks read.
\<close>
theorem http_challenges_end:
  assumes "\<not> poisoned p" and "mirror p i = Some g" and "owner g = Some pk" and "pk \<in> set (authorized_participants g)"
    and "rate_limits g (pk_bytes pk) = None"
  shows "request_many env hash_of p i nows = replicate (min 5 (length nows)) True @ replicate (length nows - 5) False"
  using request_many_from [OF assms(1-4), of 0] assms(5) by (simp add: attempts_def)

text \<open>
  The revocation endpoint never revokes. It signs with the server's wallet a command in the name of
  the owner: unless signatures of the one key verify under the other, the engine refuses the message of
  every transaction the endpoint reports as submitted, and no episode changes.
\<close>
theorem revoke_endpoint_never_revokes:
  assumes "auth_engine fe clock" and "plain_signing (fe_tx fe)"
    and "revoke_endpoint fe (Some kp) utxos client p i token sg = Some (Inr r)" and "rr_tx r = Some tx"
    and "mirror p i = Some g" and "owner g = Some pk"
    and "\<And>m. \<not> ecdsa_verify (ae_crypto (fe_auth fe)) m (ecdsa_sign (ae_crypto (fe_auth fe)) (kp_secret kp) m) (pk_bytes pk)"
  shows "rr_status r = ''session_revocation_submitted'' \<and>
    (\<exists>msg. carries fe tx msg \<and> (\<forall>md e w. \<exists>e'. handle_message (fe_cfg fe) msg md (e, w) = Some ((e', w), None) \<and> episodes e' = episodes e))"
proof -
  let ?msg = "new_signed_command (fe_cfg fe) (ucast i) (RevokeSession token sg) (kp_secret kp) pk"
  obtain u us res where sub: "submit_episode_message fe client (kp_public kp) u ?msg = Some res" "utxos = Some (u # us)"
      "r = (case res of Inr tx \<Rightarrow> \<lparr>rr_tx = Some tx, rr_status = ''session_revocation_submitted''\<rparr>
        | Inl _ \<Rightarrow> \<lparr>rr_tx = None, rr_status = ''session_revocation_failed''\<rparr>)"
    using assms(3,5,6) by (auto simp: revoke_endpoint_def Let_def split: if_splits option.splits list.splits)
  then have "res = Inr tx" and status: "rr_status r = ''session_revocation_submitted''" using assms(4) by (cases res; simp)+
  with sub(1) have b: "build_command_transaction (fe_tx fe) auth_generator u (fe_script fe (kp_public kp)) (fe_enc fe ?msg) 5000 = Some tx"
    by (cases client; cases "the client") (auto simp: submit_episode_message_def)
  have "\<not> verify_signature (cfg_crypto (fe_cfg fe)) pk m (sign_message (cfg_crypto (fe_cfg fe)) (kp_secret kp) m)" for m
    using assms(1,7) by (simp add: verify_signature_def sign_message_def auth_engine_def)
  then have "\<exists>e'. handle_message (fe_cfg fe) ?msg md (e, w) = Some ((e', w), None) \<and> episodes e' = episodes e" for md e w
    by (auto simp: new_signed_command_def Let_def execute_signed_def finish_command_def fun_upd_idem split: option.split)
  with command_tx_carries [OF b assms(2)] status show ?thesis by blast
qed

section \<open>Runs\<close>

definition demo_http_env :: "http_peer auth_flow_env" where
  "demo_http_env = \<lparr>fe_cfg = \<lparr>cfg_ep = auth_episode demo_flow_auth (\<lambda>_ md. accepting_time md), cfg_crypto = ae_crypto demo_flow_auth,
       cmd_bytes = (\<lambda>_. []), decode_msg = (\<lambda>b. if b = [1] then Some (NewEpisode 7 [PubKey [80]]) else None),
       handlers = [http_auth_handler]\<rparr>,
     fe_auth = demo_flow_auth, fe_tx = demo_flow_tx, fe_enc = (\<lambda>_. [1]), fe_script = pk_bytes\<rparr>"

lemma demo_http_engine: "auth_engine demo_http_env (\<lambda>_ md. accepting_time md)" "handlers (fe_cfg demo_http_env) = [http_auth_handler]"
    "fe_auth demo_http_env = demo_flow_auth" "fe_tx demo_http_env = demo_flow_tx"
  by (simp_all add: auth_engine_def demo_http_env_def)

definition demo_fresh :: simple_auth where
  "demo_fresh = auth_initialize [PubKey [80]] (auth_demo_meta 10)"

definition demo_peer :: http_peer where
  "demo_peer = http_peer_new\<lparr>mirror := [7 \<mapsto> demo_fresh]\<rparr>"

lemma demo_peer_fields: "\<not> poisoned demo_peer" "mirror demo_peer 7 = Some demo_fresh" "owner demo_fresh = Some (PubKey [80])"
    "authorized_participants demo_fresh = [PubKey [80]]" "rate_limits demo_fresh = Map.empty" "\<not> is_authenticated demo_fresh"
  by (simp_all add: demo_peer_def http_peer_new_def demo_fresh_def auth_initialize_def)

theorem status_shows_chain_witness:
  "\<exists>e p r. start (fe_cfg demo_http_env) [BlkAccepted [3] 5 10 [([2], [1], None)]] (new_engine, http_peer_new) = Some (e, p) \<and>
     episodes e 7 \<noteq> None \<and> get_status demo_flow_auth p (ucast (7 :: u32)) = Inr r \<and> sr_confirmed r \<and> \<not> sr_authenticated r"
proof -
  obtain e p wr where run: "start (fe_cfg demo_http_env) [BlkAccepted [3] 5 10 [([2], [1], None)]] (new_engine, http_peer_new) = Some (e, p)"
      "episodes e 7 = Some wr" "\<not> is_authenticated (ew_episode wr)"
    by (simp add: demo_http_env_def Let_def new_engine_def filter_old_episodes_def SAMPLE_REMOVAL_TIME_def wrapper_initialize_def
        auth_episode_def auth_initialize_def)
  have "cfg_ep (fe_cfg demo_http_env) = auth_episode demo_flow_auth (\<lambda>_ md. accepting_time md)" by (simp add: demo_http_env_def)
  from status_shows_chain [OF this demo_http_engine(2) run(1) _ run(2)] run show ?thesis by auto
qed

theorem http_challenges_end_witness:
  "request_many demo_flow_auth (\<lambda>_. []) demo_peer 7 [1, 2, 3, 4, 5, 1000000, 2000000] = [True, True, True, True, True, False, False]"
  using http_challenges_end [OF demo_peer_fields(1-3), of demo_flow_auth "\<lambda>_. []" "[1, 2, 3, 4, 5, 1000000, 2000000]"] demo_peer_fields(4,5)
  by (simp add: numeral_eq_Suc)

theorem ownerless_episode_stops_peer_witness:
  "\<exists>e1 p1 p2. handle_message (fe_cfg demo_http_env) (NewEpisode 3 []) (auth_demo_meta 1) (new_engine, http_peer_new)
      = Some ((e1, p1), Some (3, auth_demo_meta 1)) \<and>
    verify_auth demo_flow_auth (\<lambda>_. []) 9 p1 (ucast (3 :: u32)) [] [] = (p2, None) \<and> get_status demo_flow_auth p2 5 = Inl 500"
  using ownerless_episode_stops_peer [OF demo_http_engine(1,2), of http_peer_new new_engine 3 "auth_demo_meta 1" demo_flow_auth "\<lambda>_. []" 9 "[]" "[]"]
  by (simp add: http_peer_new_def new_engine_def) blast

theorem http_verify_reports_success_witness:
  "\<exists>p1 c. http_request_challenge demo_flow_auth (\<lambda>_. []) 5 demo_peer 7 = Some (p1, Inr c) \<and>
     fst (verify_auth demo_flow_auth (\<lambda>_. []) 1700000000 p1 7 (sign_text demo_flow_auth [80] c) c) = p1"
proof -
  obtain g1 r where g1: "auth_execute demo_flow_auth 5 demo_fresh RequestChallenge (Some (PubKey [80])) (local_metadata (\<lambda>_. []) 7) = (g1, Inr r)"
      "\<not> is_authenticated g1" "owner g1 = Some (PubKey [80])"
    using demo_peer_fields(3-6) by (simp add: auth_execute_def request_challenge_def Let_def is_rate_limited_def)
  then obtain c where c: "challenge g1 = Some c"
    by (auto simp: auth_execute_def request_challenge_def Let_def split: if_splits)
  let ?p1 = "demo_peer\<lparr>mirror := (mirror demo_peer)(7 \<mapsto> g1)\<rparr>"
  have req: "http_request_challenge demo_flow_auth (\<lambda>_. []) 5 demo_peer 7 = Some (?p1, Inr c)"
    using g1(1) c demo_peer_fields(1-3) by (simp add: http_request_challenge_def)
  have "verify_text demo_flow_auth (PubKey [80]) c (sign_text demo_flow_auth [80] c)"
    using sign_text_verifies [OF demo_keys_work] by (simp add: demo_keys_def)
  from http_verify_reports_success [OF req _ g1(2,3) this] have
    "fst (verify_auth demo_flow_auth (\<lambda>_. []) 1700000000 ?p1 7 (sign_text demo_flow_auth [80] c) c) = ?p1"
    by simp
  with req show ?thesis by blast
qed

theorem reverted_session_still_shown_witness:
  "\<exists>e c e' p' r. deliver (fe_cfg demo_http_env) [(response_by demo_http_env demo_keys 7 c, auth_demo_meta 20), (Revert 7, auth_demo_meta 20)]
      (e, demo_peer) = Some (e', p') \<and> get_status demo_flow_auth p' (ucast (7 :: u32)) = Inr r \<and> sr_authenticated r"
proof -
  let ?c = "generate_with_entropy demo_flow_auth 10 []"
  let ?g0 = "demo_fresh\<lparr>challenge := Some ?c\<rparr>"
  let ?cmd = "SubmitResponse (sign_text demo_flow_auth [80] ?c) ?c"
  let ?e = "new_engine\<lparr>episodes := [7 \<mapsto> \<lparr>ew_episode = ?g0, rollback_stack = []\<rparr>]\<rparr>"
  have keys: "keys_work (fe_auth demo_http_env) demo_keys" using demo_keys_work by (simp add: demo_http_engine)
  have "verify_text demo_flow_auth (PubKey [80]) ?c (sign_text demo_flow_auth [80] ?c)"
    using sign_text_verifies [OF demo_keys_work] by (simp add: demo_keys_def)
  then obtain g rb where g: "auth_execute demo_flow_auth 20 ?g0 ?cmd (Some (PubKey [80])) (auth_demo_meta 20) = (g, Inr rb)" "is_authenticated g"
    using demo_peer_fields(4-6)
    by (simp add: auth_execute_def submit_response_def generated_valid sat_sub_def is_rate_limited_def Let_def)
  have kp: "kp_secret demo_keys = [80]" "kp_public demo_keys = PubKey [80]" by (simp_all add: demo_keys_def)
  have ep: "episodes ?e 7 = Some \<lparr>ew_episode = ?g0, rollback_stack = []\<rparr>" by simp
  have exec: "auth_execute (fe_auth demo_http_env) ((\<lambda>_ md. accepting_time md) ?cmd (auth_demo_meta 20))
      (ew_episode \<lparr>ew_episode = ?g0, rollback_stack = []\<rparr>) ?cmd (Some (kp_public demo_keys)) (auth_demo_meta 20) = (g, Inr rb)"
    using g(1) by (simp add: demo_http_engine(3) kp)
  have "\<not> is_authenticated (ew_episode \<lparr>ew_episode = ?g0, rollback_stack = []\<rparr>)" using demo_peer_fields(6) by simp
  moreover have "?cmd = SubmitResponse (sign_text (fe_auth demo_http_env) (kp_secret demo_keys) ?c) ?c" by (simp add: demo_http_engine(3) kp)
  ultimately show ?thesis
    using reverted_session_still_shown [OF demo_http_engine(1) keys demo_http_engine(2) demo_peer_fields(1) ep exec g(2), of ?c "auth_demo_meta 20"]
    unfolding demo_http_engine(3) by blast
qed

theorem revoke_endpoint_never_revokes_witness:
  "\<exists>r tx msg. revoke_endpoint demo_http_env (Some \<lparr>kp_secret = [81], kp_public = PubKey [81]\<rparr>)
      (Some [(\<lparr>op_txid = [9], op_index = 0\<rparr>, \<lparr>utxo_amount = 100000, utxo_script = []\<rparr>)]) (Some Submitted)
      (demo_peer\<lparr>mirror := [7 \<mapsto> demo_fresh\<lparr>session_token := Some ''t''\<rparr>]\<rparr>) 7 ''t'' ''s'' = Some (Inr r) \<and>
    rr_tx r = Some tx \<and> rr_status r = ''session_revocation_submitted'' \<and> carries demo_http_env tx msg"
proof -
  let ?p = "demo_peer\<lparr>mirror := [7 \<mapsto> demo_fresh\<lparr>session_token := Some ''t''\<rparr>]\<rparr>"
  let ?kp = "\<lparr>kp_secret = [81], kp_public = PubKey [81]\<rparr>"
  have own: "owner (demo_fresh\<lparr>session_token := Some ''t''\<rparr>) = Some (PubKey [80])" using demo_peer_fields(3) by simp
  obtain r tx where r: "revoke_endpoint demo_http_env (Some ?kp)
      (Some [(\<lparr>op_txid = [9], op_index = 0\<rparr>, \<lparr>utxo_amount = 100000, utxo_script = []\<rparr>)]) (Some Submitted) ?p 7 ''t'' ''s'' = Some (Inr r)"
      "rr_tx r = Some tx"
    using own demo_peer_fields(1)
    by (simp add: revoke_endpoint_def submit_episode_message_def demo_http_engine(3,4) build_command_transaction_def build_transaction_def
        auth_generator_def demo_flow_nonce Let_def)
  have "plain_signing (fe_tx demo_http_env)" by (simp add: plain_signing_def demo_http_engine(4))
  moreover have "\<not> ecdsa_verify (ae_crypto (fe_auth demo_http_env)) m (ecdsa_sign (ae_crypto (fe_auth demo_http_env)) (kp_secret ?kp) m)
      (pk_bytes (PubKey [80]))" for m
    by (simp add: demo_http_engine(3) demo_flow_auth_def auth_demo_env_def)
  moreover have "mirror ?p 7 = Some (demo_fresh\<lparr>session_token := Some ''t''\<rparr>)" by simp
  ultimately show ?thesis
    using revoke_endpoint_never_revokes [OF demo_http_engine(1) _ r(1,2) _ own] r by blast
qed

end
