(* ===== verification/Auth_Keychain.thy ===== *)
theory Auth_Keychain
  imports Auth_Flows
begin

text \<open>
  The keychain of kaspa-auth (\<^verbatim>\<open>kaspa-auth/src/utils/keychain.rs\<close>): wallets and password hashes on disk,
  in development, or in the keyring of the system. Disk and keyring are maps; the first access of a call
  may fail. Password hashing and the generated keys are parameters or arguments. A wallet is its key
  pair.
\<close>

section \<open>Files and keyring\<close>

text \<open>
  A path is the list of its components, resolved from the working directory; empty components and
  \<^verbatim>\<open>.\<close> do not count.
\<close>

definition path_parts :: "string \<Rightarrow> string list" where
  "path_parts s = filter (\<lambda>c. c \<noteq> [] \<and> c \<noteq> ''.'') (split_char (CHR ''/'') s)"

definition path_join :: "string \<Rightarrow> string \<Rightarrow> string" where
  "path_join a b =
     (if take 1 b = ''/'' then b else if a = [] then b else a @ ''/'' @ b)"

record storage =
  files :: "string list \<rightharpoonup> string"
  keyring :: "string \<times> string \<rightharpoonup> string"
  cwd :: "string list"

definition resolve :: "storage \<Rightarrow> string \<Rightarrow> string list" where
  "resolve st path = (if take 1 path = ''/'' then path_parts path else cwd st @ path_parts path)"

definition read_file :: "storage \<Rightarrow> string \<Rightarrow> string option" where
  "read_file st path = files st (resolve st path)"

definition write_file :: "string \<Rightarrow> string \<Rightarrow> storage \<Rightarrow> storage" where
  "write_file path text st = st\<lparr>files := (files st)(resolve st path \<mapsto> text)\<rparr>"

section \<open>The keychain\<close>

record keychain =
  kc_service :: string
  kc_dev :: bool
  kc_dir :: string

definition keychain_config :: "string \<Rightarrow> bool \<Rightarrow> string \<Rightarrow> keychain" where
  "keychain_config service dev dir = \<lparr>kc_service = service, kc_dev = dev, kc_dir = dir\<rparr>"

record daemon_env =
  de_auth :: auth_env
  secret_ok :: "bytes \<Rightarrow> bool"                     \<comment> \<open>\<^verbatim>\<open>SecretKey::from_slice\<close> succeeds\<close>
  public_of :: "bytes \<Rightarrow> pubkey"
  argon_verify :: "string \<Rightarrow> string \<Rightarrow> bool option" \<comment> \<open>stored hash, password; \<^const>\<open>None\<close>: no hash\<close>

definition keypair_of :: "daemon_env \<Rightarrow> bytes \<Rightarrow> keypair" where
  "keypair_of env sk = \<lparr>kp_secret = sk, kp_public = public_of env sk\<rparr>"

datatype keychain_error = StorageFailed | KeyMissing | BadKey | BadHash | DevOnly

definition dev_file :: "keychain \<Rightarrow> string \<Rightarrow> string" where
  "dev_file kc name = path_join (path_join (kc_dir kc) ''.kaspa-auth'') name"

text \<open>\<open>sk\<close> is the generated key, \<open>ok\<close> whether the storage can be written.\<close>

definition create_wallet ::
  "daemon_env \<Rightarrow> keychain \<Rightarrow> bool \<Rightarrow> bytes \<Rightarrow> storage \<Rightarrow> string \<Rightarrow> storage \<times> (keychain_error + keypair)" where
  "create_wallet env kc ok sk st username =
     (if \<not> ok then (st, Inl StorageFailed)
      else let text = hex_encode (de_auth env) sk;
               st' = (if kc_dev kc then write_file (dev_file kc (username @ ''.key'')) text st
                      else st\<lparr>keyring := (keyring st)((kc_service kc, username) \<mapsto> text)\<rparr>)
        in (st', Inr (keypair_of env sk)))"

text \<open>The raw key in a file of the wallet directory \<open>dir\<close>.\<close>

definition create_and_save_wallet ::
  "daemon_env \<Rightarrow> string \<Rightarrow> bool \<Rightarrow> bytes \<Rightarrow> storage \<Rightarrow> string \<Rightarrow> storage \<times> (keychain_error + keypair)" where
  "create_and_save_wallet env dir ok sk st username =
     (if \<not> ok then (st, Inl StorageFailed)
      else (write_file (path_join dir (username @ ''.key'')) (map (\<lambda>b. char_of (unat b)) sk) st, Inr (keypair_of env sk)))"

definition load_wallet :: "daemon_env \<Rightarrow> keychain \<Rightarrow> storage \<Rightarrow> string \<Rightarrow> keychain_error + keypair" where
  "load_wallet env kc st username =
     (case (if kc_dev kc then read_file st (dev_file kc (username @ ''.key'')) else keyring st (kc_service kc, username)) of
        None \<Rightarrow> Inl KeyMissing
      | Some text \<Rightarrow>
          (case hex_decode (de_auth env) text of
             None \<Rightarrow> Inl BadKey
           | Some sk \<Rightarrow> if secret_ok env sk then Inr (keypair_of env sk) else Inl BadKey))"

definition store_password_hash :: "keychain \<Rightarrow> bool \<Rightarrow> storage \<Rightarrow> string \<Rightarrow> string \<Rightarrow> storage \<times> (keychain_error + unit)" where
  "store_password_hash kc ok st username hash =
     (if \<not> ok then (st, Inl StorageFailed)
      else (if kc_dev kc then write_file (dev_file kc (username @ ''.pwd'')) hash st
            else st\<lparr>keyring := (keyring st)((kc_service kc @ ''-pwd'', username) \<mapsto> hash)\<rparr>, Inr ()))"

definition load_password_hash :: "keychain \<Rightarrow> storage \<Rightarrow> string \<Rightarrow> string option" where
  "load_password_hash kc st username =
     (if kc_dev kc then read_file st (dev_file kc (username @ ''.pwd'')) else keyring st (kc_service kc @ ''-pwd'', username))"

definition verify_password :: "daemon_env \<Rightarrow> keychain \<Rightarrow> storage \<Rightarrow> string \<Rightarrow> string \<Rightarrow> keychain_error + bool" where
  "verify_password env kc st username password =
     (case load_password_hash kc st username of
        None \<Rightarrow> Inl KeyMissing
      | Some stored \<Rightarrow> (case argon_verify env stored password of None \<Rightarrow> Inl BadHash | Some b \<Rightarrow> Inr b))"

definition load_or_create_wallet ::
  "daemon_env \<Rightarrow> keychain \<Rightarrow> bool \<Rightarrow> bytes \<Rightarrow> storage \<Rightarrow> string \<Rightarrow> storage \<times> (keychain_error + keypair)" where
  "load_or_create_wallet env kc ok sk st username =
     (case load_wallet env kc st username of
        Inr kp \<Rightarrow> (st, Inr kp)
      | Inl _ \<Rightarrow> create_wallet env kc ok sk st username)"

text \<open>These two name the file without the data directory.\<close>

definition wallet_exists :: "keychain \<Rightarrow> storage \<Rightarrow> string \<Rightarrow> bool" where
  "wallet_exists kc st username =
     (if kc_dev kc then read_file st (''.kaspa-auth/'' @ username @ ''.key'') \<noteq> None
      else keyring st (kc_service kc, username) \<noteq> None)"

definition delete_wallet :: "keychain \<Rightarrow> bool \<Rightarrow> storage \<Rightarrow> string \<Rightarrow> storage \<times> (keychain_error + unit)" where
  "delete_wallet kc ok st username =
     (if kc_dev kc then
        (let path = ''.kaspa-auth/'' @ username @ ''.key'' in
         if read_file st path = None then (st, Inr ())
         else if \<not> ok then (st, Inl StorageFailed)
         else (st\<lparr>files := (files st)(resolve st path := None)\<rparr>, Inr ()))
      else if keyring st (kc_service kc, username) = None \<or> \<not> ok then (st, Inl StorageFailed)
      else (st\<lparr>keyring := (keyring st)((kc_service kc, username) := None)\<rparr>, Inr ()))"

text \<open>\<open>listed\<close> are the names in the directory, in the order of the system.\<close>

definition list_dev_wallets :: "keychain \<Rightarrow> string list \<Rightarrow> keychain_error + string list" where
  "list_dev_wallets kc listed =
     (if \<not> kc_dev kc then Inl DevOnly
      else Inr (map (\<lambda>n. take (length n - 4) n) (filter (\<lambda>n. 4 \<le> length n \<and> drop (length n - 4) n = ''.key'') listed)))"

definition keychain_username :: "string \<Rightarrow> string" where
  "keychain_username command =
     (if command = ''organizer-peer'' \<or> command = ''http-peer'' then ''organizer-peer''
      else if command = ''participant-peer'' \<or> command = ''web-participant'' \<or> command = ''authenticate'' then ''participant-peer''
      else ''default-wallet'')"

definition get_keychain_wallet_for_command ::
  "daemon_env \<Rightarrow> bool \<Rightarrow> bytes \<Rightarrow> storage \<Rightarrow> string \<Rightarrow> bool \<Rightarrow> string \<Rightarrow> storage \<times> (keychain_error + keypair)" where
  "get_keychain_wallet_for_command env ok sk st command dev dir =
     load_or_create_wallet env (keychain_config ''kaspa-auth'' dev dir) ok sk st (keychain_username command)"

end
