(* ===== verification/Auth_Daemon.thy ===== *)
theory Auth_Daemon
  imports Auth_Keychain
begin

text \<open>
  The daemon of kaspa-auth (\<^verbatim>\<open>kaspa-auth/src/daemon/service.rs\<close>, \<^verbatim>\<open>protocol.rs\<close>): the identities unlocked in
  memory, the sessions it holds, its requests, and the frames they travel in. The JSON form of the
  messages and the order in which maps are walked are parameters; what the clock, the disk, the random
  generators and the network answer to a request is an argument.
\<close>

section \<open>Messages\<close>

datatype daemon_request =
    Ping
  | UnlockIdentity string string
  | LockAll
  | StatusRequest
  | SignChallenge string string
  | CreateIdentity string string
  | ListIdentities
  | ListSessions
  | Authenticate string string
  | RevokeActive u64 string string
  | Shutdown

record session_info =
  si_episode :: hash
  si_username :: string
  si_peer :: string
  si_token :: string
  si_age :: u64

datatype daemon_success = Unlocked string | Locked nat | Created string | Revoked u64

datatype daemon_error =
    PasswordTooShort
  | InvalidPassword
  | VerificationFailed keychain_error
  | UnlockFailed keychain_error
  | HashFailed
  | HashNotStored keychain_error
  | CreateFailed keychain_error
  | NotUnlocked string
  | AuthenticationFailed flow_error
  | SessionDenied
  | SessionMissing u64

datatype daemon_response =
    DaemonSuccess daemon_success
  | DaemonError daemon_error
  | Pong string u64 nat
  | StatusReply bool "string list" nat
  | SignatureReply string string
  | AuthReply bool "u64 option" "string option"
  | Identities "string list"
  | Sessions "session_info list"

record 'a ipc_message =
  ipc_id :: u64
  ipc_payload :: 'a

text \<open>Four bytes of length, then the JSON text.\<close>

definition serialize_message :: "('a \<Rightarrow> bytes) \<Rightarrow> 'a \<Rightarrow> bytes" where
  "serialize_message json m = (let text = json m in u32_le (of_nat (length text)) @ text)"

datatype frame_error = ShortHeader | ShortPayload | BadMessage

definition deserialize_message :: "(bytes \<Rightarrow> 'a option) \<Rightarrow> bytes \<Rightarrow> frame_error + 'a" where
  "deserialize_message parse buf =
     (if length buf < 4 then Inl ShortHeader
      else let len = unat (le_u32 (take 4 buf)) in
        if length buf < 4 + len then Inl ShortPayload
        else case parse (take len (drop 4 buf)) of None \<Rightarrow> Inl BadMessage | Some m \<Rightarrow> Inr m)"

section \<open>State\<close>

record active_session =
  ds_username :: string
  ds_peer :: string
  ds_episode :: hash
  ds_token :: string
  ds_created :: u64

datatype daemon_event =
    IdentityUnlocked string
  | AuthenticationStarted string string
  | AuthenticationCompleted string bool
  | SessionRevoked string u64

record daemon =
  dm_dev :: bool
  dm_dir :: string
  dm_start :: u64
  dm_identities :: "string \<rightharpoonup> keypair"
  dm_sessions :: "u64 \<rightharpoonup> active_session"
  dm_storage :: storage
  dm_events :: "daemon_event list"

record service_env = daemon_env +
  public_hex :: "pubkey \<Rightarrow> string"
  name_order :: "(string \<rightharpoonup> keypair) \<Rightarrow> string list"
  session_order :: "(u64 \<rightharpoonup> active_session) \<Rightarrow> active_session list"

record daemon_input =
  di_now :: u64
  di_disk1 :: bool
  di_disk2 :: bool
  di_hash :: "string option"
  di_secret :: bytes
  di_episode :: u32
  di_net :: flow_net

text \<open>A request is answered, ends the process, or panics.\<close>

datatype outcome = Reply daemon_response | Exited | Crashed

definition daemon_new :: "bool \<Rightarrow> string \<Rightarrow> u64 \<Rightarrow> storage \<Rightarrow> daemon" where
  "daemon_new dev dir now st = \<lparr>dm_dev = dev, dm_dir = dir, dm_start = now, dm_identities = Map.empty,
     dm_sessions = Map.empty, dm_storage = st, dm_events = []\<rparr>"

definition dm_keychain :: "daemon \<Rightarrow> keychain" where
  "dm_keychain d = keychain_config ''kaspa-auth'' (dm_dev d) (dm_dir d)"

definition send_event :: "daemon_event \<Rightarrow> daemon \<Rightarrow> daemon" where
  "send_event ev d = d\<lparr>dm_events := dm_events d @ [ev]\<rparr>"

section \<open>Identities\<close>

definition unlock_identity :: "'z service_env_scheme \<Rightarrow> daemon \<Rightarrow> string \<Rightarrow> string \<Rightarrow> daemon \<times> daemon_response" where
  "unlock_identity env d username password =
     (if length password < 4 then (d, DaemonError PasswordTooShort)
      else case verify_password (daemon_env.truncate env) (dm_keychain d) (dm_storage d) username password of
        Inl e \<Rightarrow> (d, DaemonError (VerificationFailed e))
      | Inr False \<Rightarrow> (d, DaemonError InvalidPassword)
      | Inr True \<Rightarrow>
          (case load_wallet (daemon_env.truncate env) (dm_keychain d) (dm_storage d) username of
             Inl e \<Rightarrow> (d, DaemonError (UnlockFailed e))
           | Inr kp \<Rightarrow>
               (send_event (IdentityUnlocked username) (d\<lparr>dm_identities := (dm_identities d)(username \<mapsto> kp)\<rparr>),
                DaemonSuccess (Unlocked username))))"

definition lock_all_identities :: "daemon \<Rightarrow> daemon \<times> daemon_response" where
  "lock_all_identities d =
     (d\<lparr>dm_identities := Map.empty\<rparr>, DaemonSuccess (Locked (card (dom (dm_identities d)))))"

definition create_identity :: "'z service_env_scheme \<Rightarrow> daemon_input \<Rightarrow> daemon \<Rightarrow> string \<Rightarrow> daemon \<times> daemon_response" where
  "create_identity env inp d username =
     (case di_hash inp of
        None \<Rightarrow> (d, DaemonError HashFailed)
      | Some hash \<Rightarrow>
          (case store_password_hash (dm_keychain d) (di_disk1 inp) (dm_storage d) username hash of
             (st1, Inl e) \<Rightarrow> (d\<lparr>dm_storage := st1\<rparr>, DaemonError (HashNotStored e))
           | (st1, Inr _) \<Rightarrow>
               (case create_wallet (daemon_env.truncate env) (dm_keychain d) (di_disk2 inp) (di_secret inp) st1 username of
                  (st2, Inl e) \<Rightarrow> (d\<lparr>dm_storage := st2\<rparr>, DaemonError (CreateFailed e))
                | (st2, Inr kp) \<Rightarrow>
                    (d\<lparr>dm_storage := st2, dm_identities := (dm_identities d)(username \<mapsto> kp)\<rparr>,
                     DaemonSuccess (Created username)))))"

text \<open>The signature is a text made of the challenge and the name.\<close>

definition sign_challenge :: "'z service_env_scheme \<Rightarrow> daemon \<Rightarrow> string \<Rightarrow> string \<Rightarrow> daemon_response" where
  "sign_challenge env d username ch =
     (case dm_identities d username of
        Some kp \<Rightarrow> SignatureReply (''sig_'' @ ch @ ''_'' @ username) (public_hex env (kp_public kp))
      | None \<Rightarrow> DaemonError (NotUnlocked username))"

section \<open>Sessions\<close>

definition session_hash :: "u64 \<Rightarrow> hash" where
  "session_hash i = u64_le i @ replicate 24 0"

definition authenticate :: "('w, 'y) auth_flows \<Rightarrow> daemon_input \<Rightarrow> daemon \<Rightarrow> string \<Rightarrow> string \<Rightarrow> daemon \<times> outcome" where
  "authenticate fe inp d username peer_url =
     (case dm_identities d username of
        None \<Rightarrow> (d, Reply (DaemonError (NotUnlocked username)))
      | Some kp \<Rightarrow>
          let d1 = send_event (AuthenticationStarted username peer_url) d in
          (case p2p_authentication_flow fe (di_net inp) kp (di_episode inp) [] of
             None \<Rightarrow> (d1, Crashed)
           | Some (_, Inl e) \<Rightarrow>
               (send_event (AuthenticationCompleted username False) d1, Reply (DaemonError (AuthenticationFailed e)))
           | Some (_, Inr res) \<Rightarrow>
               let session = \<lparr>ds_username = username, ds_peer = peer_url, ds_episode = session_hash (ao_episode res),
                              ds_token = ao_token res, ds_created = di_now inp\<rparr>
               in (send_event (AuthenticationCompleted username True)
                     (d1\<lparr>dm_sessions := (dm_sessions d1)(ao_episode res \<mapsto> session)\<rparr>),
                   Reply (AuthReply True (Some (ao_episode res)) (Some (ao_token res))))))"

definition revoke_active :: "daemon \<Rightarrow> string \<Rightarrow> u64 \<Rightarrow> string \<Rightarrow> daemon \<times> daemon_response" where
  "revoke_active d username i token =
     (case dm_sessions d i of
        Some s \<Rightarrow>
          if ds_username s = username \<and> ds_token s = token then
            (send_event (SessionRevoked username i) (d\<lparr>dm_sessions := (dm_sessions d)(i := None)\<rparr>), DaemonSuccess (Revoked i))
          else (d, DaemonError SessionDenied)
      | None \<Rightarrow> (d, DaemonError (SessionMissing i)))"

section \<open>Requests\<close>

fun reply :: "daemon \<times> daemon_response \<Rightarrow> daemon \<times> outcome" where
  "reply (d, r) = (d, Reply r)"

definition process_request ::
  "'z service_env_scheme \<Rightarrow> ('w, 'y) auth_flows \<Rightarrow> daemon_input \<Rightarrow> daemon \<Rightarrow> daemon_request \<Rightarrow> daemon \<times> outcome" where
  "process_request env fe inp d request =
     (case request of
        Ping \<Rightarrow> (d, Reply (Pong ''0.1.0'' (sat_sub (di_now inp) (dm_start d)) (card (dom (dm_identities d)))))
      | StatusRequest \<Rightarrow>
          (d, Reply (StatusReply (dm_identities d \<noteq> Map.empty) (name_order env (dm_identities d)) (card (dom (dm_sessions d)))))
      | UnlockIdentity password username \<Rightarrow> reply (unlock_identity env d username password)
      | LockAll \<Rightarrow> reply (lock_all_identities d)
      | CreateIdentity username _ \<Rightarrow> reply (create_identity env inp d username)
      | SignChallenge ch username \<Rightarrow> (d, Reply (sign_challenge env d username ch))
      | Authenticate peer_url username \<Rightarrow> authenticate fe inp d username peer_url
      | ListIdentities \<Rightarrow> (d, Reply (Identities [''organizer-peer'', ''participant-peer'']))
      | ListSessions \<Rightarrow>
          (d, Reply (Sessions (map (\<lambda>s. \<lparr>si_episode = ds_episode s, si_username = ds_username s, si_peer = ds_peer s,
             si_token = ds_token s, si_age = sat_sub (di_now inp) (ds_created s)\<rparr>) (session_order env (dm_sessions d)))))
      | RevokeActive i token username \<Rightarrow> reply (revoke_active d username i token)
      | Shutdown \<Rightarrow> (d, Exited))"

text \<open>
  One connection. The list holds what the client sends, each entry available before the next; a read
  takes at most 8192 bytes of an entry and is taken for one request, an empty read is the end. \<open>inp k\<close>
  belongs to the \<open>k\<close>-th request. The result has the frames written.
\<close>

function serve_peer ::
  "'z service_env_scheme \<Rightarrow> ('w, 'y) auth_flows \<Rightarrow> (bytes \<Rightarrow> daemon_request ipc_message option) \<Rightarrow>
     (daemon_response ipc_message \<Rightarrow> bytes) \<Rightarrow> (nat \<Rightarrow> daemon_input) \<Rightarrow> nat \<Rightarrow> bytes list \<Rightarrow> daemon \<Rightarrow> daemon \<times> bytes list" where
  "serve_peer env fe parse json inp k [] d = (d, [])"
| "serve_peer env fe parse json inp k (buf # bufs) d =
     (if buf = [] then (d, [])
      else case deserialize_message parse (take 8192 buf) of
        Inl _ \<Rightarrow> (d, [])
      | Inr m \<Rightarrow>
          (case process_request env fe (inp k) d (ipc_payload m) of
             (d1, Reply r) \<Rightarrow>
               (let (d2, out) = serve_peer env fe parse json inp (Suc k)
                      (if length buf \<le> 8192 then bufs else drop 8192 buf # bufs) d1
                in (d2, serialize_message json \<lparr>ipc_id = ipc_id m, ipc_payload = r\<rparr> # out))
           | (d1, _) \<Rightarrow> (d1, [])))"
  by pat_completeness auto
termination
  by (relation "measure (\<lambda>(env, fe, parse, json, inp, k, bufs, d). sum_list (map length bufs) + length bufs)") auto

end
