(* ===== verification/Auth_Daemon_Properties.thy ===== *)
theory Auth_Daemon_Properties
  imports Auth_Daemon Auth_Flows_Properties
begin

text \<open>
  What the daemon keeps: identities survive locking, sessions belong to who authenticated, and requests
  are answered in order when each travels in a frame and a read of its own.
\<close>

section \<open>The names in the storage\<close>

lemma split_char_join: "split_char d (a @ d # t) = split_char d a @ split_char d t"
  by (induction a) auto

lemma path_parts_join: "path_parts (a @ CHR ''/'' # t) = path_parts a @ path_parts t"
  by (simp add: path_parts_def split_char_join)

lemma path_parts_name: "CHR ''/'' \<notin> set t \<Longrightarrow> t \<noteq> [] \<Longrightarrow> t \<noteq> ''.'' \<Longrightarrow> path_parts t = [t]"
  by (simp add: path_parts_def split_char_none)

lemma dev_file_parts:
  assumes "CHR ''/'' \<notin> set t" "t \<noteq> []" "t \<noteq> ''.''"
  shows "resolve st (dev_file kc t) = resolve st (path_join (kc_dir kc) ''.kaspa-auth'') @ [t]"
proof -
  have "take 1 t \<noteq> ''/''" using assms(1,2) by (cases t) auto
  then have "dev_file kc t = path_join (kc_dir kc) ''.kaspa-auth'' @ CHR ''/'' # t"
    by (simp add: dev_file_def path_join_def)
  moreover have "take 1 (path_join (kc_dir kc) ''.kaspa-auth'') = take 1 (path_join (kc_dir kc) ''.kaspa-auth'' @ CHR ''/'' # t)"
    by (cases "kc_dir kc") (auto simp: path_join_def)
  ultimately show ?thesis using path_parts_name [OF assms] by (simp add: resolve_def path_parts_join)
qed

text \<open>In development names must not leave the directory; the keyring takes any name.\<close>

definition name_ok :: "keychain \<Rightarrow> string \<Rightarrow> bool" where
  "name_ok kc u \<longleftrightarrow> (kc_dev kc \<longrightarrow> CHR ''/'' \<notin> set u)"

lemma write_fields [simp]: "cwd (write_file p t st) = cwd st" "keyring (write_file p t st) = keyring st"
    "resolve (write_file p t st) = resolve st"
  by (auto simp: write_file_def resolve_def fun_eq_iff)

lemma read_write: "read_file (write_file p t st) q = (if resolve st q = resolve st p then Some t else read_file st q)"
  by (simp add: read_file_def write_file_def resolve_def)

lemma user_files:
  assumes "CHR ''/'' \<notin> set u" "CHR ''/'' \<notin> set v"
  shows "resolve st (dev_file kc (u @ ''.key'')) = resolve st (dev_file kc (v @ ''.key'')) \<longleftrightarrow> u = v"
    "resolve st (dev_file kc (u @ ''.pwd'')) = resolve st (dev_file kc (v @ ''.pwd'')) \<longleftrightarrow> u = v"
    "resolve st (dev_file kc (u @ ''.key'')) \<noteq> resolve st (dev_file kc (v @ ''.pwd''))"
  using assms by (simp_all add: dev_file_parts append_eq_append_conv2)

text \<open>What the storage has of a name: the text of its key, and the hash of its password.\<close>

definition key_text :: "keychain \<Rightarrow> storage \<Rightarrow> string \<Rightarrow> string option" where
  "key_text kc st u = (if kc_dev kc then read_file st (dev_file kc (u @ ''.key'')) else keyring st (kc_service kc, u))"

lemma stored_hash:
  assumes "name_ok kc u" "name_ok kc v" "store_password_hash kc ok st v hash = (st', r)"
  shows "key_text kc st' u = key_text kc st u"
    "load_password_hash kc st' u = (if ok \<and> u = v then Some hash else load_password_hash kc st u)"
  using assms user_files [of u v st kc] user_files [of v u st kc]
  by (auto simp: store_password_hash_def key_text_def load_password_hash_def name_ok_def read_write split: if_splits)

lemma stored_key:
  assumes "name_ok kc u" "name_ok kc v" "create_wallet env kc ok sk st v = (st', r)"
  shows "key_text kc st' u = (if ok \<and> u = v then Some (hex_encode (de_auth env) sk) else key_text kc st u)"
    "load_password_hash kc st' u = load_password_hash kc st u"
  using assms user_files [of u v st kc] user_files [of v u st kc]
  by (auto simp: create_wallet_def key_text_def load_password_hash_def name_ok_def read_write Let_def split: if_splits)

section \<open>Identities come back\<close>

fun requests :: "'z service_env_scheme \<Rightarrow> ('w, 'y) auth_flows \<Rightarrow> (daemon_input \<times> daemon_request) list \<Rightarrow> daemon \<Rightarrow> daemon" where
  "requests env fe [] d = d"
| "requests env fe ((inp, r) # rs) d = requests env fe rs (fst (process_request env fe inp d r))"

lemma identity_mode [simp]:
  "dm_keychain (fst (unlock_identity env d u q)) = dm_keychain d" "dm_storage (fst (unlock_identity env d u q)) = dm_storage d"
  "dm_keychain (fst (lock_all_identities d)) = dm_keychain d" "dm_storage (fst (lock_all_identities d)) = dm_storage d"
  "dm_keychain (fst (create_identity env inp d v)) = dm_keychain d"
  "dm_keychain (fst (authenticate fe inp d u peer)) = dm_keychain d" "dm_storage (fst (authenticate fe inp d u peer)) = dm_storage d"
  "dm_keychain (fst (revoke_active d u i t)) = dm_keychain d" "dm_storage (fst (revoke_active d u i t)) = dm_storage d"
  by (auto simp: unlock_identity_def lock_all_identities_def create_identity_def authenticate_def revoke_active_def
      send_event_def dm_keychain_def Let_def split: option.split sum.split bool.split prod.split)

lemma reply_fields [simp]: "fst (reply x) = fst x" "snd (reply x) = Reply (snd x)"
  by (cases x; simp)+

lemma other_name_kept:
  assumes "name_ok (dm_keychain d) u" "name_ok (dm_keychain d) v" "u \<noteq> v" "d' = fst (create_identity env inp d v)"
  shows "key_text (dm_keychain d) (dm_storage d') u = key_text (dm_keychain d) (dm_storage d) u"
    "load_password_hash (dm_keychain d) (dm_storage d') u = load_password_hash (dm_keychain d) (dm_storage d) u"
proof -
  have "key_text (dm_keychain d) (dm_storage d') u = key_text (dm_keychain d) (dm_storage d) u \<and>
    load_password_hash (dm_keychain d) (dm_storage d') u = load_password_hash (dm_keychain d) (dm_storage d) u"
    using assms(3) stored_hash [OF assms(1,2)] stored_key [OF assms(1,2)]
    by (auto simp: assms(4) create_identity_def split: option.splits prod.splits sum.splits)
  then show "key_text (dm_keychain d) (dm_storage d') u = key_text (dm_keychain d) (dm_storage d) u"
    "load_password_hash (dm_keychain d) (dm_storage d') u = load_password_hash (dm_keychain d) (dm_storage d) u" by simp_all
qed

text \<open>No request but the creation of the same name touches what is stored of it.\<close>

definition spares :: "keychain \<Rightarrow> string \<Rightarrow> daemon_request \<Rightarrow> bool" where
  "spares kc u r \<longleftrightarrow> (case r of CreateIdentity v _ \<Rightarrow> u \<noteq> v \<and> name_ok kc v | _ \<Rightarrow> True)"

lemma request_spares:
  assumes "name_ok (dm_keychain d) u" "spares (dm_keychain d) u r" "d' = fst (process_request env fe inp d r)"
  shows "dm_keychain d' = dm_keychain d" "key_text (dm_keychain d) (dm_storage d') u = key_text (dm_keychain d) (dm_storage d) u"
    "load_password_hash (dm_keychain d) (dm_storage d') u = load_password_hash (dm_keychain d) (dm_storage d) u"
  using assms(2) other_name_kept [OF assms(1) _ _ refl]
  by (auto simp: assms(3) process_request_def spares_def split: daemon_request.split daemon_request.split_asm)

lemma requests_spare:
  assumes "name_ok (dm_keychain d) u" "list_all (spares (dm_keychain d) u) (map snd rs)"
  shows "dm_keychain (requests env fe rs d) = dm_keychain d \<and>
    key_text (dm_keychain d) (dm_storage (requests env fe rs d)) u = key_text (dm_keychain d) (dm_storage d) u \<and>
    load_password_hash (dm_keychain d) (dm_storage (requests env fe rs d)) u = load_password_hash (dm_keychain d) (dm_storage d) u"
  using assms
proof (induction rs arbitrary: d)
  case (Cons x rs)
  obtain inp r where x: "x = (inp, r)" by (cases x)
  let ?d1 = "fst (process_request env fe inp d r)"
  have "spares (dm_keychain d) u r" using Cons.prems(2) by (simp add: x)
  note step = request_spares [OF Cons.prems(1) this refl, of env fe inp]
  from Cons.prems have "name_ok (dm_keychain ?d1) u" "list_all (spares (dm_keychain ?d1) u) (map snd rs)"
    by (simp_all add: step(1))
  from Cons.IH [OF this] show ?case by (simp add: x step)
qed simp

text \<open>
  C27: Created identities come back. After an identity is created, and whatever requests follow that do
  not create the same name (locking included), unlocking it depends on the password alone: less than
  four bytes are refused, otherwise the stored hash decides, and the key loaded is the key created.
\<close>
theorem unlock_after_create:
  assumes "process_request env fe inp d (CreateIdentity u p) = (d1, Reply (DaemonSuccess s))" and "di_hash inp = Some hash"
    and "name_ok (dm_keychain d) u" and "list_all (spares (dm_keychain d) u) (map snd rs)"
    and "hex_decode (de_auth env) (hex_encode (de_auth env) (di_secret inp)) = Some (di_secret inp)" and "secret_ok env (di_secret inp)"
    and "d2 = requests env fe rs d1"
  shows "process_request env fe inp2 d2 (UnlockIdentity q u) =
    (if length q < 4 then (d2, Reply (DaemonError PasswordTooShort))
     else case argon_verify env hash q of
       None \<Rightarrow> (d2, Reply (DaemonError (VerificationFailed BadHash)))
     | Some False \<Rightarrow> (d2, Reply (DaemonError InvalidPassword))
     | Some True \<Rightarrow> (send_event (IdentityUnlocked u)
          (d2\<lparr>dm_identities := (dm_identities d2)(u \<mapsto> keypair_of (daemon_env.truncate env) (di_secret inp))\<rparr>),
          Reply (DaemonSuccess (Unlocked u))))"
proof -
  let ?kc = "dm_keychain d"
  obtain st1 x st2 kp where run: "store_password_hash ?kc (di_disk1 inp) (dm_storage d) u hash = (st1, Inr x)"
      "create_wallet (daemon_env.truncate env) ?kc (di_disk2 inp) (di_secret inp) st1 u = (st2, Inr kp)"
      "dm_storage d1 = st2" and kc1: "dm_keychain d1 = ?kc"
    using assms(1,2) by (auto simp: process_request_def create_identity_def dm_keychain_def split: prod.splits sum.splits)
  from run(1,2) have ok: "di_disk1 inp" "di_disk2 inp"
    by (auto simp: store_password_hash_def create_wallet_def split: if_splits)
  note first = stored_hash [OF assms(3,3) run(1)] and second = stored_key [OF assms(3,3) run(2)]
  have stored: "dm_keychain d2 = ?kc" "key_text ?kc (dm_storage d2) u = Some (hex_encode (de_auth env) (di_secret inp))"
      "load_password_hash ?kc (dm_storage d2) u = Some hash"
    using requests_spare [of d1 u rs env fe] assms(3,4) first second ok run(3) by (simp_all add: kc1 assms(7) daemon_env.truncate_def)
  have "load_wallet (daemon_env.truncate env) ?kc (dm_storage d2) u = Inr (keypair_of (daemon_env.truncate env) (di_secret inp))"
    using stored(2) assms(5,6) by (simp add: load_wallet_def key_text_def daemon_env.truncate_def)
  moreover have "argon_verify (daemon_env.truncate env) = argon_verify env" by (simp add: daemon_env.truncate_def)
  ultimately show ?thesis
    using stored(1,3) by (simp add: process_request_def unlock_identity_def verify_password_def split: option.split bool.split)
qed

section \<open>Sessions\<close>

lemma p2p_outcome:
  assumes "p2p_authentication_flow fe net kp i tr = Some (tr', Inr result)"
  shows "ao_episode result = ucast i \<and> ao_token result \<noteq> []"
proof -
  obtain tr3 trt t where f: "await_token (look_any (nonempty_text \<circ> sv_token)) 10 net tr3 = Some (trt, Inr t)"
      "flow_return \<lparr>ao_episode = ucast i, ao_token = t, ao_authenticated = True\<rparr> trt = Some (tr', Inr result)"
    using assms unfolding p2p_authentication_flow_def by (elim flow_bind_SomeE)
  from await_token_InrE [OF f(1)] obtain j where "look_any (nonempty_text \<circ> sv_token) (net_token net j) = Found t" by blast
  then have "t \<noteq> []" by (auto simp: look_any_def nonempty_text_def split: poll_answer.splits option.splits if_splits)
  with f(2) show ?thesis by (auto simp: flow_return_def)
qed

definition sessions_sound :: "daemon \<Rightarrow> bool" where
  "sessions_sound d \<longleftrightarrow> (\<forall>i s. dm_sessions d i = Some s \<longrightarrow> ds_episode s = session_hash i \<and> ds_token s \<noteq> [] \<and> unat i < 2 ^ 32 \<and>
     AuthenticationCompleted (ds_username s) True \<in> set (dm_events d))"

lemma episode_bound: "unat (ucast (i :: u32) :: u64) < 2 ^ 32"
proof -
  have "unat i < 2 ^ 32" using unsigned_less [of i] by simp
  then show ?thesis by (simp add: unsigned_ucast_eq take_bit_nat_eq_self)
qed

lemma sound_authenticate:
  assumes "sessions_sound d"
  shows "sessions_sound (fst (authenticate fe inp d u peer))"
proof (cases "dm_identities d u")
  case (Some kp)
  show ?thesis
  proof (cases "p2p_authentication_flow fe (di_net inp) kp (di_episode inp) []")
    case (Some x)
    obtain tr res where x: "x = (tr, res)" by (cases x)
    show ?thesis
    proof (cases res)
      case (Inl e)
      with Some x assms \<open>dm_identities d u = _\<close> show ?thesis by (auto simp: authenticate_def send_event_def sessions_sound_def Let_def)
    next
      case (Inr result)
      have "ao_episode result = ucast (di_episode inp) \<and> ao_token result \<noteq> []"
        using p2p_outcome Some [unfolded x Inr] by blast
      with Inr Some x assms \<open>dm_identities d u = _\<close> show ?thesis
        using episode_bound [of "di_episode inp"] by (auto simp: authenticate_def send_event_def sessions_sound_def Let_def)
    qed
  qed (use Some assms in \<open>auto simp: authenticate_def send_event_def sessions_sound_def Let_def\<close>)
qed (use assms in \<open>simp add: authenticate_def\<close>)

lemma sound_same: "dm_sessions d' = dm_sessions d \<Longrightarrow> set (dm_events d) \<subseteq> set (dm_events d') \<Longrightarrow> sessions_sound d \<Longrightarrow> sessions_sound d'"
  by (auto simp: sessions_sound_def)

lemma identity_keeps_sessions:
  "dm_sessions (fst (unlock_identity env d u q)) = dm_sessions d" "dm_sessions (fst (lock_all_identities d)) = dm_sessions d"
  "dm_sessions (fst (create_identity env inp d u)) = dm_sessions d"
  "set (dm_events d) \<subseteq> set (dm_events (fst (unlock_identity env d u q)))" "set (dm_events d) \<subseteq> set (dm_events (fst (lock_all_identities d)))"
  "set (dm_events d) \<subseteq> set (dm_events (fst (create_identity env inp d u)))"
  by (auto simp: unlock_identity_def lock_all_identities_def create_identity_def send_event_def
      split: option.split sum.split bool.split prod.split)

lemmas sound_identity = sound_same [OF identity_keeps_sessions(1,4)] sound_same [OF identity_keeps_sessions(2,5)]
  sound_same [OF identity_keeps_sessions(3,6)]

lemma sound_revoke: "sessions_sound d \<Longrightarrow> sessions_sound (fst (revoke_active d u i t))"
  by (auto simp: revoke_active_def sessions_sound_def send_event_def split: option.split)

lemma sound_request: "sessions_sound d \<Longrightarrow> sessions_sound (fst (process_request env fe inp d r))"
  by (cases r) (auto simp: process_request_def sound_authenticate sound_revoke sound_identity)

lemma sound_requests: "sessions_sound d \<Longrightarrow> sessions_sound (requests env fe rs d)"
  by (induction env fe rs d rule: requests.induct) (auto simp: sound_request)

text \<open>
  What a session of the daemon is. After any requests to a new daemon, every session it holds has
  the hash of its own episode, an id of 32 bits, a token that is not empty, and the name of an identity
  for which an authentication was completed.
\<close>
theorem daemon_sessions_sound:
  assumes "d = requests env fe rs (daemon_new dev dir now st)" and "dm_sessions d i = Some s"
  shows "ds_episode s = session_hash i \<and> ds_token s \<noteq> [] \<and> unat i < 2 ^ 32 \<and> AuthenticationCompleted (ds_username s) True \<in> set (dm_events d)"
proof -
  have "sessions_sound (daemon_new dev dir now st)" by (simp add: sessions_sound_def daemon_new_def)
  then have "sessions_sound d" unfolding assms(1) by (rule sound_requests)
  with assms(2) show ?thesis by (simp add: sessions_sound_def)
qed

text \<open>
  How a session leaves the daemon. A request that changes or removes a session is the revocation
  with its very token and name, or a new authentication of an unlocked identity that got the same
  episode id. Locking all identities, or creating the name again, leaves it.
\<close>
theorem session_leaves_with_token:
  assumes "dm_sessions d i = Some s" and "dm_sessions (fst (process_request env fe inp d r)) i \<noteq> Some s"
  shows "r = RevokeActive i (ds_token s) (ds_username s) \<or>
    (\<exists>peer u. r = Authenticate peer u \<and> dm_identities d u \<noteq> None \<and> ucast (di_episode inp) = i)"
proof (cases r)
  case (Authenticate peer u)
  with assms show ?thesis
    by (auto simp: process_request_def authenticate_def send_event_def Let_def dest!: p2p_outcome
        split: option.splits prod.splits sum.splits if_splits)
next
  case (RevokeActive j t u)
  with assms show ?thesis
    by (auto simp: process_request_def revoke_active_def send_event_def split: option.splits if_splits)
qed (use assms in \<open>simp_all add: process_request_def identity_keeps_sessions\<close>)

section \<open>Signatures\<close>

text \<open>
  The daemon's signatures never verify. What it answers to a request to sign a challenge is not
  hexadecimal: no key accepts it for any text, and it does not even have the format of a signature.
\<close>
theorem daemon_signature_never_verifies:
  assumes "\<And>t. hex_decode aenv (CHR ''s'' # t) = None"
    and "process_request env fe inp d (SignChallenge c u) = (d', Reply (SignatureReply sg pk_text))"
  shows "\<not> verify_text aenv pk m sg \<and> \<not> is_valid_signature_format aenv sg"
  using assms by (auto simp: process_request_def sign_challenge_def verify_text_def is_valid_signature_format_def split: option.splits)

section \<open>Frames\<close>

lemma frame_length: "length (serialize_message json m) = 4 + length (json m)"
  by (simp add: serialize_message_def Let_def)

lemma frame_roundtrip:
  assumes "parse (json m) = Some m" "length (json m) < 2 ^ 32"
  shows "deserialize_message parse (serialize_message json m @ rest) = Inr m"
proof -
  have "unat (of_nat (length (json m)) :: u32) = length (json m)" using assms(2) by (simp add: unat_of_nat)
  with assms(1) show ?thesis by (simp add: deserialize_message_def serialize_message_def Let_def)
qed

lemma frame_cut:
  assumes "length (json m) < 2 ^ 32" "n < 4 + length (json m)"
  shows "\<exists>e. deserialize_message parse (take n (serialize_message json m)) = Inl e"
proof (cases "n < 4")
  case False
  have "unat (of_nat (length (json m)) :: u32) = length (json m)" using assms(1) by (simp add: unat_of_nat)
  moreover have "take 4 (take n (serialize_message json m)) = u32_le (of_nat (length (json m)))"
    using False by (simp add: serialize_message_def Let_def)
  ultimately show ?thesis using assms(2) False by (simp add: deserialize_message_def frame_length)
qed (simp add: deserialize_message_def frame_length)

text \<open>The daemon without frames: messages in, messages out, until one ends the connection.\<close>

fun answers ::
  "'z service_env_scheme \<Rightarrow> ('w, 'y) auth_flows \<Rightarrow> (nat \<Rightarrow> daemon_input) \<Rightarrow> nat \<Rightarrow> daemon_request ipc_message list \<Rightarrow>
     daemon \<Rightarrow> daemon \<times> daemon_response ipc_message list" where
  "answers env fe inp k [] d = (d, [])"
| "answers env fe inp k (m # ms) d =
     (case process_request env fe (inp k) d (ipc_payload m) of
        (d1, Reply r) \<Rightarrow> (let (d2, out) = answers env fe inp (Suc k) ms d1 in (d2, \<lparr>ipc_id = ipc_id m, ipc_payload = r\<rparr> # out))
      | (d1, _) \<Rightarrow> (d1, []))"

text \<open>
  C28: Requests are answered in order. When every request is a frame of at most 8192 bytes and a read of
  its own, the connection does what the daemon does to the messages, one after the other, each answer
  with the id of its request.
\<close>
theorem daemon_answers_frames:
  assumes "\<forall>m \<in> set ms. parse (js m) = Some m \<and> length (js m) \<le> 8188"
  shows "serve_peer env fe parse json inp k (map (serialize_message js) ms) d =
    (let (d', out) = answers env fe inp k ms d in (d', map (serialize_message json) out))"
  using assms
proof (induction ms arbitrary: k d)
  case (Cons m ms)
  have m: "parse (js m) = Some m" "length (js m) \<le> 8188" using Cons.prems by simp_all
  obtain d1 r where step: "process_request env fe (inp k) d (ipc_payload m) = (d1, r)" by (cases "process_request env fe (inp k) d (ipc_payload m)")
  have "serialize_message js m \<noteq> []" using frame_length [of js m] by auto
  moreover have "deserialize_message parse (take 8192 (serialize_message js m)) = Inr m"
    using frame_roundtrip [of parse js m "[]"] m by (simp add: frame_length)
  moreover have "length (serialize_message js m) \<le> 8192" using m(2) by (simp add: frame_length)
  ultimately show ?case
    using Cons.IH [of "Suc k" d1] Cons.prems step by (cases r) (simp_all split: prod.split)
qed simp

text \<open>
  Requests that share a read are lost, and so is a long one. Of several frames in one read only the
  first is answered, whatever follows it, and a frame of more than 8192 bytes ends the connection
  unanswered.
\<close>
theorem daemon_reads_lose_requests:
  assumes "parse (js m) = Some m" and "length (js m) < 2 ^ 32"
  shows "(length (serialize_message js m @ rest) \<le> 8192 \<longrightarrow>
      serve_peer env fe parse json inp k [serialize_message js m @ rest] d = serve_peer env fe parse json inp k [serialize_message js m] d) \<and>
    (8188 < length (js m) \<longrightarrow> serve_peer env fe parse json inp k (serialize_message js m # bufs) d = (d, []))"
proof -
  have ne: "serialize_message js m \<noteq> []" using frame_length [of js m] by auto
  have "serve_peer env fe parse json inp k [serialize_message js m @ rest] d = serve_peer env fe parse json inp k [serialize_message js m] d"
    if "length (serialize_message js m @ rest) \<le> 8192"
    using that ne frame_roundtrip [of parse js m, OF assms, of rest] frame_roundtrip [of parse js m "[]", OF assms] by (simp del: take_append)
  moreover have "serve_peer env fe parse json inp k (serialize_message js m # bufs) d = (d, [])" if "8188 < length (js m)"
    using ne frame_cut [of js m 8192 parse] assms(2) that by auto
  ultimately show ?thesis by blast
qed

section \<open>Runs\<close>

definition demo_service_env :: service_env where
  "demo_service_env = \<lparr>de_auth = demo_flow_auth, secret_ok = (\<lambda>_. True), public_of = PubKey,
     argon_verify = (\<lambda>h q. Some (h = ''h'' @ q)), public_hex = (\<lambda>_. []), name_order = (\<lambda>_. []), session_order = (\<lambda>_. [])\<rparr>"

definition demo_input :: daemon_input where
  "demo_input = \<lparr>di_now = 5, di_disk1 = True, di_disk2 = True, di_hash = Some ''hgood'', di_secret = [80], di_episode = 7, di_net = demo_flow_net\<rparr>"

definition demo_daemon :: daemon where
  "demo_daemon = daemon_new True ''/var'' 0 \<lparr>files = Map.empty, keyring = Map.empty, cwd = []\<rparr>"

abbreviation demo_request :: "daemon \<Rightarrow> daemon_request \<Rightarrow> daemon \<times> outcome" where
  "demo_request \<equiv> process_request demo_service_env demo_flow_env demo_input"

lemma demo_created:
  "\<exists>d1 s. demo_request demo_daemon (CreateIdentity ''ann'' ''good'') = (d1, Reply (DaemonSuccess s)) \<and> dm_identities d1 = [''ann'' \<mapsto> demo_keys]"
  by (simp add: process_request_def create_identity_def store_password_hash_def create_wallet_def demo_input_def Let_def demo_daemon_def
      daemon_new_def demo_service_env_def demo_keys_def keypair_of_def daemon_env.truncate_def)

theorem unlock_after_create_witness:
  "\<exists>d1 s. demo_request demo_daemon (CreateIdentity ''ann'' ''good'') = (d1, Reply (DaemonSuccess s)) \<and>
     (let d2 = requests demo_service_env demo_flow_env [(demo_input, LockAll), (demo_input, CreateIdentity ''bob'' ''pass'')] d1 in
      snd (demo_request d2 (UnlockIdentity ''good'' ''ann'')) = Reply (DaemonSuccess (Unlocked ''ann'')) \<and>
      snd (demo_request d2 (UnlockIdentity ''evil'' ''ann'')) = Reply (DaemonError InvalidPassword))"
proof -
  obtain d1 s where c: "demo_request demo_daemon (CreateIdentity ''ann'' ''good'') = (d1, Reply (DaemonSuccess s))" using demo_created by blast
  have laws: "hex_decode (de_auth demo_service_env) (hex_encode (de_auth demo_service_env) (di_secret demo_input)) = Some (di_secret demo_input)"
      "secret_ok demo_service_env (di_secret demo_input)"
    by (simp_all add: demo_service_env_def demo_flow_auth_def ascii_def comp_def)
  have names: "name_ok (dm_keychain demo_daemon) ''ann''"
      "list_all (spares (dm_keychain demo_daemon) ''ann'') (map snd [(demo_input, LockAll), (demo_input, CreateIdentity ''bob'' ''pass'')])"
    by (simp_all add: name_ok_def spares_def)
  have hash: "di_hash demo_input = Some ''hgood''" by (simp add: demo_input_def)
  have "argon_verify demo_service_env = (\<lambda>h q. Some (h = ''h'' @ q))" by (simp add: demo_service_env_def)
  then show ?thesis using c unlock_after_create [OF c hash names laws refl, of demo_input] by (auto simp: Let_def)
qed

lemma demo_authenticated:
  "\<exists>d s. d = requests demo_service_env demo_flow_env [(demo_input, CreateIdentity ''ann'' ''good''), (demo_input, Authenticate ''url'' ''ann'')] demo_daemon \<and>
     dm_sessions d 7 = Some s \<and> ds_username s = ''ann'' \<and> ds_token s = ''t''"
proof -
  obtain d1 s where c: "demo_request demo_daemon (CreateIdentity ''ann'' ''good'') = (d1, Reply (DaemonSuccess s))"
      "dm_identities d1 = [''ann'' \<mapsto> demo_keys]" using demo_created by blast
  have inp: "di_net demo_input = demo_flow_net" "di_episode demo_input = 7" "di_now demo_input = 5" by (simp_all add: demo_input_def)
  show ?thesis using demo_flow_run c(2)
    by (auto simp: c(1) process_request_def [of _ _ _ d1] authenticate_def inp send_event_def Let_def)
qed

theorem daemon_sessions_sound_witness:
  "\<exists>d s. d = requests demo_service_env demo_flow_env [(demo_input, CreateIdentity ''ann'' ''good''), (demo_input, Authenticate ''url'' ''ann'')] demo_daemon \<and>
     dm_sessions d 7 = Some s \<and> ds_episode s = session_hash 7 \<and> AuthenticationCompleted ''ann'' True \<in> set (dm_events d)"
proof -
  obtain d s where d: "d = requests demo_service_env demo_flow_env [(demo_input, CreateIdentity ''ann'' ''good''), (demo_input, Authenticate ''url'' ''ann'')] demo_daemon"
      "dm_sessions d 7 = Some s" "ds_username s = ''ann''" using demo_authenticated by blast
  from daemon_sessions_sound [OF d(1) [unfolded demo_daemon_def] d(2)] d show ?thesis by metis
qed

theorem session_leaves_with_token_witness:
  "\<exists>d s. dm_sessions d 7 = Some s \<and> dm_sessions (fst (demo_request d (RevokeActive 7 ''t'' ''ann''))) 7 = None \<and>
     RevokeActive 7 ''t'' ''ann'' = RevokeActive 7 (ds_token s) (ds_username s)"
proof -
  obtain d :: daemon and s where s: "dm_sessions d 7 = Some s" "ds_username s = ''ann''" "ds_token s = ''t''" using demo_authenticated by blast
  then have none: "dm_sessions (fst (demo_request d (RevokeActive 7 ''t'' ''ann''))) 7 = None"
    by (simp add: process_request_def revoke_active_def send_event_def)
  then have "dm_sessions (fst (demo_request d (RevokeActive 7 ''t'' ''ann''))) 7 \<noteq> Some s" by simp
  from session_leaves_with_token [OF s(1) this] s(1) none show ?thesis by blast
qed

theorem daemon_signature_never_verifies_witness:
  "\<exists>d d' sg pk_text. demo_request d (SignChallenge ''c'' ''ann'') = (d', Reply (SignatureReply sg pk_text)) \<and>
     \<not> verify_text (demo_flow_auth\<lparr>hex_decode := (\<lambda>t. if take 1 t = ''s'' then None else Some (ascii t))\<rparr>) (PubKey [80]) ''c'' sg"
proof -
  obtain d1 :: daemon where "dm_identities d1 = [''ann'' \<mapsto> demo_keys]" using demo_created by blast
  then obtain sg pk_text where r: "demo_request d1 (SignChallenge ''c'' ''ann'') = (d1, Reply (SignatureReply sg pk_text))"
    by (simp add: process_request_def sign_challenge_def)
  let ?aenv = "demo_flow_auth\<lparr>hex_decode := (\<lambda>t. if take 1 t = ''s'' then None else Some (ascii t))\<rparr>"
  have "hex_decode ?aenv (CHR ''s'' # t) = None" for t by simp
  from daemon_signature_never_verifies [OF this r] r show ?thesis by blast
qed

definition demo_ms :: "daemon_request ipc_message list" where
  "demo_ms = [\<lparr>ipc_id = 1, ipc_payload = Ping\<rparr>, \<lparr>ipc_id = 2, ipc_payload = LockAll\<rparr>]"

definition demo_json :: "daemon_request ipc_message \<Rightarrow> bytes" where
  "demo_json m = [ucast (ipc_id m)]"

definition demo_parse :: "bytes \<Rightarrow> daemon_request ipc_message option" where
  "demo_parse b = (if b = [1] then Some \<lparr>ipc_id = 1, ipc_payload = Ping\<rparr> else if b = [2] then Some \<lparr>ipc_id = 2, ipc_payload = LockAll\<rparr> else None)"

theorem daemon_answers_frames_witness:
  "snd (serve_peer demo_service_env demo_flow_env demo_parse (\<lambda>m. [ucast (ipc_id m)]) (\<lambda>_. demo_input) 0
      (map (serialize_message demo_json) demo_ms) demo_daemon) = [[1, 0, 0, 0, 1], [1, 0, 0, 0, 2]]"
proof -
  have "\<forall>m \<in> set demo_ms. demo_parse (demo_json m) = Some m \<and> length (demo_json m) \<le> 8188"
    by (simp add: demo_ms_def demo_json_def demo_parse_def)
  from daemon_answers_frames [OF this, of demo_service_env demo_flow_env "\<lambda>m. [ucast (ipc_id m)]" "\<lambda>_. demo_input" 0 demo_daemon]
  show ?thesis
    by (simp add: demo_ms_def process_request_def lock_all_identities_def serialize_message_def u32_le_def nat_le_numeral Let_def)
qed

theorem daemon_reads_lose_requests_witness:
  "serve_peer demo_service_env demo_flow_env demo_parse (\<lambda>m. [ucast (ipc_id m)]) (\<lambda>_. demo_input) 0 [concat (map (serialize_message demo_json) demo_ms)] demo_daemon =
     serve_peer demo_service_env demo_flow_env demo_parse (\<lambda>m. [ucast (ipc_id m)]) (\<lambda>_. demo_input) 0 [serialize_message demo_json (hd demo_ms)] demo_daemon"
proof -
  have "demo_parse (demo_json (hd demo_ms)) = Some (hd demo_ms)" "length (demo_json (hd demo_ms)) < 2 ^ 32"
    by (simp_all add: demo_ms_def demo_json_def demo_parse_def)
  from daemon_reads_lose_requests [of demo_parse demo_json "hd demo_ms", OF this, where rest = "serialize_message demo_json (demo_ms ! 1)" and env = demo_service_env and
      fe = demo_flow_env and json = "\<lambda>m. [ucast (ipc_id m)]" and inp = "\<lambda>_. demo_input" and k = 0 and d = demo_daemon]
  moreover have "length (serialize_message demo_json (hd demo_ms) @ serialize_message demo_json (demo_ms ! 1)) \<le> 8192"
    by (simp add: frame_length demo_json_def)
  moreover have "concat (map (serialize_message demo_json) demo_ms) = serialize_message demo_json (hd demo_ms) @ serialize_message demo_json (demo_ms ! 1)"
    by (simp add: demo_ms_def)
  ultimately show ?thesis by (simp del: serve_peer.simps)
qed

end
