(* ===== verification/Indexer_Store.thy ===== *)
theory Indexer_Store
  imports Prelude "HOL-Library.List_Lexorder" "HOL-Library.Product_Lexorder"
begin

text \<open>
  The storage of the indexer (\<^verbatim>\<open>kdapp-indexer/src/storage.rs\<close>, \<^verbatim>\<open>models.rs\<close>): the trait as a record of
  its methods and its two implementations, in memory and on RocksDB. The database is a tree of byte
  keys; the bincode forms of the records and the walk of a prefix iterator are parameters, and an oracle
  says which accesses fail. What the walk yields when the database is opened as here is a law of
  \<^verbatim>\<open>Indexer_Properties\<close>.
\<close>

section \<open>Rows\<close>

record episode_row =
  row_episode :: u64
  row_creator :: "string option"
  row_created :: u64
  row_authenticated :: nat

record comment_row =
  com_episode :: u64
  com_id :: u64
  com_author :: string
  com_text :: string
  com_timestamp :: u64

record episode_detail =
  det_row :: episode_row
  det_recent :: "comment_row list"

record store_stats =
  st_episodes :: nat
  st_comments :: nat
  st_memberships :: nat

datatype store_error = Internal

section \<open>The trait\<close>

text \<open>Every method returns the store, also those that only read: an access counts in the oracle.\<close>

record 's store_trait =
  upsert_episode :: "episode_row \<Rightarrow> 's \<Rightarrow> 's \<times> (store_error + unit)"
  add_comment :: "comment_row \<Rightarrow> 's \<Rightarrow> 's \<times> (store_error + unit)"
  add_membership :: "string \<Rightarrow> u64 \<Rightarrow> 's \<Rightarrow> 's \<times> (store_error + unit)"
  get_episode :: "u64 \<Rightarrow> nat \<Rightarrow> 's \<Rightarrow> 's \<times> (store_error + episode_detail option)"
  get_comments_after :: "u64 \<Rightarrow> u64 \<Rightarrow> nat \<Rightarrow> 's \<Rightarrow> 's \<times> (store_error + comment_row list)"
  get_recent :: "nat \<Rightarrow> 's \<Rightarrow> 's \<times> (store_error + episode_row list)"
  get_my_episodes :: "string \<Rightarrow> nat \<Rightarrow> 's \<Rightarrow> 's \<times> (store_error + u64 list)"
  store_stats_of :: "'s \<Rightarrow> 's \<times> (store_error + store_stats)"

section \<open>In memory\<close>

record mem =
  mem_episodes :: "u64 \<rightharpoonup> episode_row"
  mem_comments :: "(u64 \<times> u64, comment_row) bmap"
  mem_memberships :: "string \<rightharpoonup> u64 set"
  mem_recent :: "(u64, u64) bmap"

definition mem_new :: mem where
  "mem_new = \<lparr>mem_episodes = Map.empty, mem_comments = [], mem_memberships = Map.empty, mem_recent = []\<rparr>"

text \<open>A walk that stops once the limit is reached, looked at after a row was taken.\<close>

fun take_rows :: "nat \<Rightarrow> ('a \<Rightarrow> bool) \<Rightarrow> 'a list \<Rightarrow> 'a list \<Rightarrow> 'a list" where
  "take_rows limit p out [] = out"
| "take_rows limit p out (x # xs) =
     (if p x then (if length out + 1 \<ge> limit then out @ [x] else take_rows limit p (out @ [x]) xs)
      else take_rows limit p out xs)"

text \<open>The same, but the limit is looked at after every entry.\<close>

fun take_found :: "nat \<Rightarrow> ('a \<Rightarrow> 'b option) \<Rightarrow> 'b list \<Rightarrow> 'a list \<Rightarrow> 'b list" where
  "take_found limit f out [] = out"
| "take_found limit f out (x # xs) =
     (let out' = (case f x of Some y \<Rightarrow> out @ [y] | None \<Rightarrow> out)
      in if length out' \<ge> limit then out' else take_found limit f out' xs)"

definition mem_upsert_episode :: "episode_row \<Rightarrow> mem \<Rightarrow> mem \<times> (store_error + unit)" where
  "mem_upsert_episode ep s =
     (s\<lparr>mem_episodes := (mem_episodes s)(row_episode ep \<mapsto> ep), mem_recent := bm_insert (row_created ep) (row_episode ep) (mem_recent s)\<rparr>,
      Inr ())"

definition mem_add_comment :: "comment_row \<Rightarrow> mem \<Rightarrow> mem \<times> (store_error + unit)" where
  "mem_add_comment row s = (s\<lparr>mem_comments := bm_insert (com_episode row, com_id row) row (mem_comments s)\<rparr>, Inr ())"

definition mem_add_membership :: "string \<Rightarrow> u64 \<Rightarrow> mem \<Rightarrow> mem \<times> (store_error + unit)" where
  "mem_add_membership pubkey i s =
     (s\<lparr>mem_memberships := (mem_memberships s)(pubkey \<mapsto>
        insert i (case mem_memberships s pubkey of Some m \<Rightarrow> m | None \<Rightarrow> {}))\<rparr>, Inr ())"

definition mem_get_episode :: "u64 \<Rightarrow> nat \<Rightarrow> mem \<Rightarrow> mem \<times> (store_error + episode_detail option)" where
  "mem_get_episode i recent s =
     (s, Inr (case mem_episodes s i of
        None \<Rightarrow> None
      | Some ep \<Rightarrow> Some \<lparr>det_row = ep, det_recent = map snd (take_rows recent (\<lambda>e. fst (fst e) = i) [] (rev (mem_comments s)))\<rparr>))"

definition mem_get_comments_after :: "u64 \<Rightarrow> u64 \<Rightarrow> nat \<Rightarrow> mem \<Rightarrow> mem \<times> (store_error + comment_row list)" where
  "mem_get_comments_after i after_ts limit s =
     (s, Inr (map snd (take_rows limit (\<lambda>e. fst (fst e) = i \<and> com_timestamp (snd e) > after_ts) [] (mem_comments s))))"

definition mem_get_recent :: "nat \<Rightarrow> mem \<Rightarrow> mem \<times> (store_error + episode_row list)" where
  "mem_get_recent limit s = (s, Inr (take_found limit (\<lambda>e. mem_episodes s (snd e)) [] (rev (mem_recent s))))"

definition mem_get_my_episodes :: "string \<Rightarrow> nat \<Rightarrow> mem \<Rightarrow> mem \<times> (store_error + u64 list)" where
  "mem_get_my_episodes pubkey limit s =
     (s, Inr (case mem_memberships s pubkey of None \<Rightarrow> [] | Some m \<Rightarrow> take limit (sorted_list_of_set m)))"

definition mem_stats :: "mem \<Rightarrow> mem \<times> (store_error + store_stats)" where
  "mem_stats s = (s, Inr \<lparr>st_episodes = card (dom (mem_episodes s)), st_comments = length (mem_comments s),
     st_memberships = card (dom (mem_memberships s))\<rparr>)"

definition mem_store :: "mem store_trait" where
  "mem_store = \<lparr>upsert_episode = mem_upsert_episode, add_comment = mem_add_comment, add_membership = mem_add_membership,
     get_episode = mem_get_episode, get_comments_after = mem_get_comments_after, get_recent = mem_get_recent,
     get_my_episodes = mem_get_my_episodes, store_stats_of = mem_stats\<rparr>"

section \<open>On RocksDB\<close>

record rocks =
  rk_db :: "(bytes, bytes) bmap"
  rk_access :: nat

record rocks_env =
  enc_episode :: "episode_row \<Rightarrow> bytes"
  dec_episode :: "bytes \<Rightarrow> episode_row option"
  enc_comment :: "comment_row \<Rightarrow> bytes"
  dec_comment :: "bytes \<Rightarrow> comment_row option"
  enc_ids :: "u64 list \<Rightarrow> bytes"
  dec_ids :: "bytes \<Rightarrow> u64 list option"
  prefix_walk :: "bytes \<Rightarrow> (bytes, bytes) bmap \<Rightarrow> bytes list" \<comment> \<open>the values \<^verbatim>\<open>prefix_iterator\<close> yields\<close>
  rk_fails :: "nat \<Rightarrow> bool"

definition rk_new :: rocks where
  "rk_new = \<lparr>rk_db = [], rk_access = 0\<rparr>"

definition key_ep :: "u64 \<Rightarrow> bytes" where "key_ep i = 0x65 # u64_be i"
definition key_recent :: "u64 \<Rightarrow> u64 \<Rightarrow> bytes" where "key_recent ts i = 0x72 # u64_be ts @ u64_be i"
definition key_comment_prefix :: "u64 \<Rightarrow> bytes" where "key_comment_prefix i = 0x63 # u64_be i"
definition key_comment :: "u64 \<Rightarrow> u64 \<Rightarrow> bytes" where "key_comment i c = 0x63 # u64_be i @ u64_be c"
definition key_members :: "string \<Rightarrow> bytes" where "key_members pubkey = 0x6d # ascii pubkey"

definition rk_touch :: "rocks \<Rightarrow> rocks" where
  "rk_touch s = s\<lparr>rk_access := Suc (rk_access s)\<rparr>"

definition rk_put :: "rocks_env \<Rightarrow> bytes \<Rightarrow> bytes \<Rightarrow> rocks \<Rightarrow> rocks \<times> (store_error + unit)" where
  "rk_put env k v s =
     (if rk_fails env (rk_access s) then (rk_touch s, Inl Internal)
      else ((rk_touch s)\<lparr>rk_db := bm_insert k v (rk_db s)\<rparr>, Inr ()))"

definition rk_get :: "rocks_env \<Rightarrow> bytes \<Rightarrow> rocks \<Rightarrow> rocks \<times> (store_error + bytes option)" where
  "rk_get env k s = (rk_touch s, if rk_fails env (rk_access s) then Inl Internal else Inr (map_of (rk_db s) k))"

definition rk_upsert_episode :: "rocks_env \<Rightarrow> episode_row \<Rightarrow> rocks \<Rightarrow> rocks \<times> (store_error + unit)" where
  "rk_upsert_episode env ep s =
     (case rk_put env (key_ep (row_episode ep)) (enc_episode env ep) s of
        (s1, Inl e) \<Rightarrow> (s1, Inl e)
      | (s1, Inr _) \<Rightarrow> rk_put env (key_recent (row_created ep) (row_episode ep)) [] s1)"

definition rk_add_comment :: "rocks_env \<Rightarrow> comment_row \<Rightarrow> rocks \<Rightarrow> rocks \<times> (store_error + unit)" where
  "rk_add_comment env row s = rk_put env (key_comment (com_episode row) (com_id row)) (enc_comment env row) s"

text \<open>Ids that cannot be decoded are taken for none.\<close>

definition ids_of :: "rocks_env \<Rightarrow> bytes option \<Rightarrow> u64 list" where
  "ids_of env v = (case v of None \<Rightarrow> [] | Some b \<Rightarrow> (case dec_ids env b of None \<Rightarrow> [] | Some ids \<Rightarrow> ids))"

definition rk_add_membership :: "rocks_env \<Rightarrow> string \<Rightarrow> u64 \<Rightarrow> rocks \<Rightarrow> rocks \<times> (store_error + unit)" where
  "rk_add_membership env pubkey i s =
     (case rk_get env (key_members pubkey) s of
        (s1, Inl e) \<Rightarrow> (s1, Inl e)
      | (s1, Inr current) \<Rightarrow>
          let ids = ids_of env current
          in rk_put env (key_members pubkey) (enc_ids env (if i \<in> set ids then ids else ids @ [i])) s1)"

text \<open>A failing walk yields only errors, which are skipped.\<close>

definition rk_walk :: "rocks_env \<Rightarrow> bytes \<Rightarrow> rocks \<Rightarrow> rocks \<times> bytes list" where
  "rk_walk env p s = (rk_touch s, if rk_fails env (rk_access s) then [] else prefix_walk env p (rk_db s))"

definition rk_get_episode :: "rocks_env \<Rightarrow> u64 \<Rightarrow> nat \<Rightarrow> rocks \<Rightarrow> rocks \<times> (store_error + episode_detail option)" where
  "rk_get_episode env i recent s =
     (case rk_get env (key_ep i) s of
        (s1, Inl e) \<Rightarrow> (s1, Inl e)
      | (s1, Inr None) \<Rightarrow> (s1, Inr None)
      | (s1, Inr (Some b)) \<Rightarrow>
          (case dec_episode env b of
             None \<Rightarrow> (s1, Inl Internal)
           | Some ep \<Rightarrow>
               let (s2, vs) = rk_walk env (key_comment_prefix i) s1;
                   every = sort_key com_id (List.map_filter (dec_comment env) vs)
               in (s2, Inr (Some \<lparr>det_row = ep, det_recent = take recent (rev every)\<rparr>))))"

definition rk_get_comments_after :: "rocks_env \<Rightarrow> u64 \<Rightarrow> u64 \<Rightarrow> nat \<Rightarrow> rocks \<Rightarrow> rocks \<times> (store_error + comment_row list)" where
  "rk_get_comments_after env i after_ts limit s =
     (let (s1, vs) = rk_walk env (key_comment_prefix i) s
      in (s1, Inr (take_found limit (\<lambda>v. case dec_comment env v of
            Some r \<Rightarrow> if com_timestamp r > after_ts then Some r else None | None \<Rightarrow> None) [] vs)))"

text \<open>The walk from the end; \<open>lookup\<close> is a further access for every key of the order.\<close>

fun rk_recent_walk :: "rocks_env \<Rightarrow> nat \<Rightarrow> episode_row list \<Rightarrow> bytes list \<Rightarrow> rocks \<Rightarrow> rocks \<times> episode_row list" where
  "rk_recent_walk env limit out [] s = (s, out)"
| "rk_recent_walk env limit out (k # ks) s =
     (if k \<noteq> [] \<and> hd k = 0x72 \<and> length k = 17 then
        (let (s1, v) = rk_get env (key_ep (be_u64 (drop 9 k))) s;
             out' = (case v of Inr (Some b) \<Rightarrow> (case dec_episode env b of Some ep \<Rightarrow> out @ [ep] | None \<Rightarrow> out) | _ \<Rightarrow> out)
         in if length out' \<ge> limit then (s1, out') else rk_recent_walk env limit out' ks s1)
      else rk_recent_walk env limit out ks s)"

definition rk_get_recent :: "rocks_env \<Rightarrow> nat \<Rightarrow> rocks \<Rightarrow> rocks \<times> (store_error + episode_row list)" where
  "rk_get_recent env limit s =
     (if rk_fails env (rk_access s) \<and> rk_db s \<noteq> [] then (rk_touch s, Inl Internal)
      else let (s1, out) = rk_recent_walk env limit [] (map fst (rev (rk_db s))) (rk_touch s) in (s1, Inr out))"

definition rk_get_my_episodes :: "rocks_env \<Rightarrow> string \<Rightarrow> nat \<Rightarrow> rocks \<Rightarrow> rocks \<times> (store_error + u64 list)" where
  "rk_get_my_episodes env pubkey limit s =
     (case rk_get env (key_members pubkey) s of
        (s1, Inl e) \<Rightarrow> (s1, Inl e)
      | (s1, Inr v) \<Rightarrow> (s1, Inr (take limit (ids_of env v))))"

definition rk_stats :: "rocks_env \<Rightarrow> rocks \<Rightarrow> rocks \<times> (store_error + store_stats)" where
  "rk_stats env s =
     (let n = (\<lambda>c. length (filter (\<lambda>e. take 1 (fst e) = [c]) (rk_db s)))
      in (rk_touch s, if rk_fails env (rk_access s) \<and> rk_db s \<noteq> [] then Inl Internal
           else Inr \<lparr>st_episodes = n 0x65, st_comments = n 0x63, st_memberships = n 0x6d\<rparr>))"

definition rocks_store :: "rocks_env \<Rightarrow> rocks store_trait" where
  "rocks_store env = \<lparr>upsert_episode = rk_upsert_episode env, add_comment = rk_add_comment env, add_membership = rk_add_membership env,
     get_episode = rk_get_episode env, get_comments_after = rk_get_comments_after env, get_recent = rk_get_recent env,
     get_my_episodes = rk_get_my_episodes env, store_stats_of = rk_stats env\<rparr>"

end
