(* ===== verification/Json.thy ===== *)
theory Json
  imports Prelude
begin

text \<open>
  The JSON values that requests, replies and configuration are made of, and the accessors of
  \<^verbatim>\<open>serde_json\<close> that the servers use on them. Their text form is a parameter where it matters.
\<close>

text \<open>What \<^verbatim>\<open>serde_json::Value\<close> can hold. Other numbers than those of 64 bits are floating point, kept as text.\<close>

datatype json = JNull | JBool bool | JInt int | JFloat string | JStr string | JArr "json list" | JObj "(string \<times> json) list"

fun json_get :: "string \<Rightarrow> json \<Rightarrow> json option" where
  "json_get k (JObj fs) = map_of fs k"
| "json_get k _ = None"

fun as_str :: "json \<Rightarrow> string option" where
  "as_str (JStr s) = Some s"
| "as_str _ = None"

fun as_i64 :: "json \<Rightarrow> int option" where
  "as_i64 (JInt n) = (if - (2 ^ 63) \<le> n \<and> n < 2 ^ 63 then Some n else None)"
| "as_i64 _ = None"

definition get_str :: "string \<Rightarrow> json \<Rightarrow> string option" where
  "get_str k j = Option.bind (json_get k j) as_str"

fun as_u64 :: "json \<Rightarrow> u64 option" where
  "as_u64 (JInt n) = (if 0 \<le> n \<and> n < 2 ^ 64 then Some (word_of_int n) else None)"
| "as_u64 _ = None"

fun as_bool :: "json \<Rightarrow> bool option" where
  "as_bool (JBool b) = Some b"
| "as_bool _ = None"

fun as_array :: "json \<Rightarrow> json list option" where
  "as_array (JArr js) = Some js"
| "as_array _ = None"

definition get_u64 :: "string \<Rightarrow> json \<Rightarrow> u64 option" where
  "get_u64 k j = Option.bind (json_get k j) as_u64"

definition get_bool :: "string \<Rightarrow> json \<Rightarrow> bool option" where
  "get_bool k j = Option.bind (json_get k j) as_bool"

lemma as_u64_show [simp]: "as_u64 (JInt (uint w)) = Some w" for w :: u64
  using uint_lt2p [of w] by simp

end
