(* ===== verification/Indexer.thy ===== *)
theory Indexer
  imports Indexer_Store Comment_Room Json
begin

text \<open>
  The indexer (\<^verbatim>\<open>kdapp-indexer/src/listener.rs\<close>, \<^verbatim>\<open>api.rs\<close>): an engine of comment rooms whose handler
  writes rows to a store, and the endpoints that read them. The store is any implementation of the trait.
  A failure of the store is logged by the handler and a status of 500 at the endpoints.
\<close>

section \<open>The handler\<close>

definition episode_row_of :: "auth_env \<Rightarrow> episode_id \<Rightarrow> room \<Rightarrow> episode_row" where
  "episode_row_of env i g =
     \<lparr>row_episode = ucast i, row_creator = map_option (pk_text env) (creator g), row_created = room_created_at g,
      row_authenticated = card (authenticated_participants g)\<rparr>"

definition comment_row_of :: "episode_id \<Rightarrow> room_comment \<Rightarrow> comment_row" where
  "comment_row_of i c =
     \<lparr>com_episode = ucast i, com_id = rc_id c, com_author = rc_author c, com_text = rc_text c, com_timestamp = rc_timestamp c\<rparr>"

definition index_on_initialize :: "'s store_trait \<Rightarrow> auth_env \<Rightarrow> episode_id \<Rightarrow> room \<Rightarrow> 's \<Rightarrow> 's" where
  "index_on_initialize T env i g s = fst (upsert_episode T (episode_row_of env i g) s)"

definition index_on_command ::
  "'s store_trait \<Rightarrow> auth_env \<Rightarrow> episode_id \<Rightarrow> room \<Rightarrow> room_command \<Rightarrow> pubkey option \<Rightarrow> metadata \<Rightarrow> 's \<Rightarrow> 's" where
  "index_on_command T env i g cmd authorization md s =
     (case cmd of
        RoomSubmitResponse _ _ \<Rightarrow>
          (case authorization of
             Some pk \<Rightarrow> fst (upsert_episode T (episode_row_of env i g) (fst (add_membership T (pk_text env pk) (ucast i) s)))
           | None \<Rightarrow> s)
      | RoomSubmitComment txt _ \<Rightarrow>
          (if room_comments g \<noteq> [] then fst (add_comment T (comment_row_of i (last (room_comments g))) s)
           else case authorization of
             Some pk \<Rightarrow> fst (add_comment T \<lparr>com_episode = ucast i, com_id = 0, com_author = pk_text env pk, com_text = txt,
                 com_timestamp = accepting_time md\<rparr> s)
           | None \<Rightarrow> s)
      | _ \<Rightarrow> fst (upsert_episode T (episode_row_of env i g) s))"

text \<open>A rollback is ignored.\<close>

definition index_on_rollback :: "'s store_trait \<Rightarrow> episode_id \<Rightarrow> room \<Rightarrow> 's \<Rightarrow> 's" where
  "index_on_rollback T i g s = s"

definition indexer_handler :: "'s store_trait \<Rightarrow> auth_env \<Rightarrow> (room, room_command) episode_event \<Rightarrow> 's \<Rightarrow> 's" where
  "indexer_handler T env ev s =
     (case ev of
        OnInitialize i g \<Rightarrow> index_on_initialize T env i g s
      | OnCommand i g c a md \<Rightarrow> index_on_command T env i g c a md s
      | OnRollback i g \<Rightarrow> index_on_rollback T i g s)"

text \<open>The engine of the listener.\<close>

definition index_config ::
  "'s store_trait \<Rightarrow> auth_env \<Rightarrow> crypto \<Rightarrow> (room_command \<Rightarrow> bytes) \<Rightarrow> (bytes \<Rightarrow> room_command episode_message option) \<Rightarrow>
     (room, room_command, room_rollback, room_error, 's) config" where
  "index_config T env cr cb dm =
     \<lparr>cfg_ep = room_episode env, cfg_crypto = cr, cmd_bytes = cb, decode_msg = dm, handlers = [indexer_handler T env]\<rparr>"

section \<open>Reducers for other callers\<close>

definition apply_new_episode :: "'s store_trait \<Rightarrow> u64 \<Rightarrow> string option \<Rightarrow> u64 \<Rightarrow> 's \<Rightarrow> 's \<times> (store_error + unit)" where
  "apply_new_episode T i creator_pubkey created =
     upsert_episode T \<lparr>row_episode = i, row_creator = creator_pubkey, row_created = created, row_authenticated = 0\<rparr>"

definition apply_auth_update :: "'s store_trait \<Rightarrow> u64 \<Rightarrow> string \<Rightarrow> bool \<Rightarrow> u64 \<Rightarrow> 's \<Rightarrow> 's \<times> (store_error + unit)" where
  "apply_auth_update T i pubkey authenticated ts = add_membership T pubkey i"

definition apply_new_comment :: "'s store_trait \<Rightarrow> u64 \<Rightarrow> u64 \<Rightarrow> string \<Rightarrow> string \<Rightarrow> u64 \<Rightarrow> 's \<Rightarrow> 's \<times> (store_error + unit)" where
  "apply_new_comment T i c author txt ts =
     add_comment T \<lparr>com_episode = i, com_id = c, com_author = author, com_text = txt, com_timestamp = ts\<rparr>"

section \<open>Endpoints\<close>

fun or_500 :: "'s \<times> (store_error + 'a) \<Rightarrow> 's \<times> (nat + 'a)" where
  "or_500 (s, Inl _) = (s, Inl 500)"
| "or_500 (s, Inr x) = (s, Inr x)"

definition unwrap_or :: "'a \<Rightarrow> 'a option \<Rightarrow> 'a" where
  "unwrap_or d x = (case x of Some v \<Rightarrow> v | None \<Rightarrow> d)"

definition recent_episodes :: "'s store_trait \<Rightarrow> nat option \<Rightarrow> 's \<Rightarrow> 's \<times> (nat + episode_row list)" where
  "recent_episodes T limit s = or_500 (get_recent T (min (unwrap_or 50 limit) 500) s)"

definition index_episode_snapshot :: "'s store_trait \<Rightarrow> u64 \<Rightarrow> 's \<Rightarrow> 's \<times> (nat + episode_detail option)" where
  "index_episode_snapshot T i s = or_500 (get_episode T i 50 s)"

definition episode_comments :: "'s store_trait \<Rightarrow> u64 \<Rightarrow> u64 option \<Rightarrow> nat option \<Rightarrow> 's \<Rightarrow> 's \<times> (nat + comment_row list)" where
  "episode_comments T i after_ts limit s =
     or_500 (get_comments_after T i (unwrap_or 0 after_ts) (min (unwrap_or 200 limit) 1000) s)"

definition my_episodes :: "'s store_trait \<Rightarrow> string \<Rightarrow> 's \<Rightarrow> 's \<times> (nat + u64 list)" where
  "my_episodes T pubkey s = or_500 (get_my_episodes T pubkey 100 s)"

definition index_me :: "'s store_trait \<Rightarrow> u64 \<Rightarrow> string \<Rightarrow> 's \<Rightarrow> 's \<times> (nat + bool)" where
  "index_me T i pubkey s =
     (case get_my_episodes T pubkey 1000 s of
        (s1, Inl _) \<Rightarrow> (s1, Inl 500)
      | (s1, Inr eps) \<Rightarrow> (s1, Inr (i \<in> set eps)))"

definition me_qs :: "'s store_trait \<Rightarrow> u64 option \<Rightarrow> string option \<Rightarrow> 's \<Rightarrow> 's \<times> (nat + bool)" where
  "me_qs T i pubkey s =
     (case (i, pubkey) of
        (Some j, Some p) \<Rightarrow> index_me T j p s
      | _ \<Rightarrow> (s, Inl 400))"

definition index_metrics :: "'s store_trait \<Rightarrow> 's \<Rightarrow> 's \<times> (nat + store_stats)" where
  "index_metrics T s = or_500 (store_stats_of T s)"

text \<open>The body of a reply with recent episodes.\<close>

definition row_json :: "episode_row \<Rightarrow> json" where
  "row_json r = JObj [(''episode_id'', JInt (uint (row_episode r))),
     (''creator_pubkey'', case row_creator r of Some t \<Rightarrow> JStr t | None \<Rightarrow> JNull),
     (''created_at'', JInt (uint (row_created r))), (''authenticated_count'', JInt (int (row_authenticated r)))]"

definition recent_json :: "episode_row list \<Rightarrow> json" where
  "recent_json rows = JObj [(''episodes'', JArr (map row_json rows))]"

end
