(* ===== verification/Indexer_Contract.thy ===== *)
theory Indexer_Contract
  imports Indexer Engine_Watch
begin

text \<open>
  What the indexer relies on in a store, as two locales: the laws of its writes, which both
  implementations of the trait meet, and the laws of its reads, which only the store in memory meets.
  From the writes alone: the store follows the engine through reorganisations.
\<close>

section \<open>Walks\<close>

lemma take_rows_eq:
  "length out < max 1 limit \<Longrightarrow> take_rows limit p out xs = out @ take (max 1 limit - length out) (filter p xs)"
proof (induction xs arbitrary: out)
  case (Cons x xs)
  show ?case
  proof (cases "p x \<and> \<not> length out + 1 \<ge> limit")
    case True
    then have "max 1 limit - length out = Suc (max 1 limit - length (out @ [x]))" by auto
    moreover have "take_rows limit p (out @ [x]) xs = (out @ [x]) @ take (max 1 limit - length (out @ [x])) (filter p xs)"
      using True by (intro Cons.IH) auto
    ultimately show ?thesis using True by simp
  next
    case False
    moreover have "max 1 limit - length out = 1" if "length out + 1 \<ge> limit" using that Cons.prems by auto
    ultimately show ?thesis using Cons by auto
  qed
qed simp

lemma take_found_eq:
  "length out < limit \<Longrightarrow> take_found limit f out xs = out @ take (limit - length out) (List.map_filter f xs)"
proof (induction xs arbitrary: out)
  case (Cons x xs)
  show ?case
  proof (cases "f x")
    case (Some y)
    show ?thesis
    proof (cases "limit \<le> Suc (length out)")
      case True
      then have "limit - length out = 1" using Cons.prems by simp
      with Some True show ?thesis by (simp add: map_filter_simps Let_def)
    next
      case False
      then have "limit - length out = Suc (limit - length (out @ [y]))" by simp
      with Cons.IH [of "out @ [y]"] Some False show ?thesis by (simp add: map_filter_simps Let_def)
    qed
  qed (use Cons in \<open>simp add: map_filter_simps Let_def\<close>)
qed (simp add: map_filter_simps)

section \<open>The rows of an episode\<close>

definition rows_of :: "(u64 \<times> u64 \<rightharpoonup> comment_row) \<Rightarrow> u64 \<Rightarrow> comment_row list" where
  "rows_of cs i = map (\<lambda>c. the (cs (i, c))) (sorted_list_of_set {c. cs (i, c) \<noteq> None})"

definition keyed :: "(u64 \<times> u64 \<rightharpoonup> comment_row) \<Rightarrow> bool" where
  "keyed cs \<longleftrightarrow> (\<forall>i c r. cs (i, c) = Some r \<longrightarrow> com_episode r = i \<and> com_id r = c)"

lemma rows_unique:
  assumes "keyed cs" "sorted (map com_id xs)" "distinct (map com_id xs)" "set xs = {r. \<exists>c. cs (i, c) = Some r}"
  shows "xs = rows_of cs i"
proof -
  have ids: "set (map com_id xs) = {c. cs (i, c) \<noteq> None}" using assms(1,4) by (auto simp: keyed_def image_iff)
  have "map com_id xs = sorted_list_of_set (set (map com_id xs))" by (rule sym) (rule sorted_list_of_set.idem_if_sorted_distinct [OF assms(2,3)])
  then have "map com_id xs = sorted_list_of_set {c. cs (i, c) \<noteq> None}" using ids by simp
  moreover have "map (\<lambda>c. the (cs (i, c))) (map com_id xs) = xs"
    using assms(1,4) by (auto simp: keyed_def intro!: map_idI)
  ultimately show ?thesis by (simp add: rows_of_def)
qed

lemma rows_ids: "keyed cs \<Longrightarrow> map com_id (rows_of cs i) = sorted_list_of_set {c. cs (i, c) \<noteq> None}"
  by (auto simp: rows_of_def keyed_def comp_def intro!: map_idI)

lemma rows_in: "r \<in> set (rows_of cs i) \<longleftrightarrow> (\<exists>c. cs (i, c) = Some r)"
  by (auto simp: rows_of_def image_iff)

lemma keyed_upd: "keyed cs \<Longrightarrow> keyed (cs((com_episode r, com_id r) \<mapsto> r))"
  by (auto simp: keyed_def)

section \<open>The contract\<close>

locale index_store =
  fixes T :: "'s store_trait" and sinv :: "'s \<Rightarrow> bool" and eps :: "'s \<Rightarrow> u64 \<rightharpoonup> episode_row"
    and coms :: "'s \<Rightarrow> u64 \<times> u64 \<rightharpoonup> comment_row" and members :: "'s \<Rightarrow> string \<Rightarrow> u64 set"
  assumes upsert: "sinv s \<Longrightarrow> \<exists>s'. upsert_episode T ep s = (s', Inr ()) \<and> sinv s' \<and>
      eps s' = (eps s)(row_episode ep \<mapsto> ep) \<and> coms s' = coms s \<and> members s' = members s"
    and comment: "sinv s \<Longrightarrow> \<exists>s'. add_comment T row s = (s', Inr ()) \<and> sinv s' \<and>
      eps s' = eps s \<and> coms s' = (coms s)((com_episode row, com_id row) \<mapsto> row) \<and> members s' = members s"
    and member: "sinv s \<Longrightarrow> \<exists>s'. add_membership T p i s = (s', Inr ()) \<and> sinv s' \<and>
      eps s' = eps s \<and> coms s' = coms s \<and> members s' = (members s)(p := insert i (members s p))"
    and mine: "sinv s \<Longrightarrow> \<exists>s' ids. get_my_episodes T p n s = (s', Inr ids) \<and> set ids \<subseteq> members s p \<and>
      (card (members s p) \<le> n \<longrightarrow> set ids = members s p)"

text \<open>Reading: the comments of an episode, and of no other.\<close>

locale index_reads = index_store +
  assumes find: "sinv s \<Longrightarrow> 0 < n \<Longrightarrow> \<exists>s'. get_episode T i n s = (s', Inr (case eps s i of None \<Rightarrow> None
      | Some ep \<Rightarrow> Some \<lparr>det_row = ep, det_recent = take n (rev (rows_of (coms s) i))\<rparr>))"
    and after: "sinv s \<Longrightarrow> 0 < n \<Longrightarrow> \<exists>s'. get_comments_after T i ts n s =
      (s', Inr (take n (filter (\<lambda>r. com_timestamp r > ts) (rows_of (coms s) i))))"

section \<open>The store follows the engine\<close>

definition last_rows :: "(room_comment \<Rightarrow> 'a) \<Rightarrow> room_comment list \<Rightarrow> u64 \<rightharpoonup> 'a" where
  "last_rows f cs = map_of (map (\<lambda>c. (rc_id c, f c)) (rev cs))"

text \<open>What a store shows of a room: its creator, who is authenticated, and for every number the last comment with it.\<close>

definition shown ::
  "auth_env \<Rightarrow> (u64 \<rightharpoonup> episode_row) \<Rightarrow> (u64 \<times> u64 \<rightharpoonup> comment_row) \<Rightarrow> (string \<Rightarrow> u64 set) \<Rightarrow> episode_id \<Rightarrow> room \<Rightarrow> bool" where
  "shown env es cs ms i g \<longleftrightarrow>
     (\<exists>row. es (ucast i) = Some row \<and> row_creator row = map_option (pk_text env) (creator g) \<and> row_created row = room_created_at g) \<and>
     (\<forall>p \<in> authenticated_participants g. ucast i \<in> ms p) \<and>
     last_rows (comment_row_of i) (room_comments g) \<subseteq>\<^sub>m (\<lambda>c. cs (ucast i, c))"

text \<open>Participants whom a rollback would authenticate again are members, too.\<close>

definition restorable :: "room_rollback \<Rightarrow> string \<Rightarrow> bool" where
  "restorable r k \<longleftrightarrow> (case r of RoomUndoRevoked k' was \<Rightarrow> was \<and> k = k' | RoomUndoAuthentication k' was \<Rightarrow> was \<and> k = k' | _ \<Rightarrow> False)"

definition index_seen ::
  "auth_env \<Rightarrow> (u64 \<rightharpoonup> episode_row) \<Rightarrow> (u64 \<times> u64 \<rightharpoonup> comment_row) \<Rightarrow> (string \<Rightarrow> u64 set) \<Rightarrow> episode_id \<Rightarrow> (room, room_rollback) wrapper \<Rightarrow> bool" where
  "index_seen env es cs ms i wr \<longleftrightarrow> shown env es cs ms i (ew_episode wr) \<and>
     (\<forall>r \<in> set (rollback_stack wr). \<forall>k. restorable r k \<longrightarrow> ucast i \<in> ms k)"

lemma shown_mono:
  assumes "shown env es cs ms i g" "es' (ucast i) = es (ucast i)" "\<And>c. cs' (ucast i, c) = cs (ucast i, c)" "\<And>p. ms p \<subseteq> ms' p"
  shows "shown env es' cs' ms' i g"
  using assms(1,2,3) subsetD [OF assms(4)] unfolding shown_def by auto

lemma shown_same_room:
  assumes "shown env es cs ms i g" "room_comments g' = room_comments g" "creator g' = creator g" "room_created_at g' = room_created_at g"
    and "\<And>p. p \<in> authenticated_participants g' \<Longrightarrow> p \<in> authenticated_participants g \<or> ucast i \<in> ms p"
  shows "shown env es cs ms i g'"
  using assms unfolding shown_def by auto

lemma shown_refreshed:
  "shown env es cs ms i g \<Longrightarrow> shown env (es(ucast i \<mapsto> episode_row_of env i g)) cs ms i g"
  by (simp add: shown_def episode_row_of_def)

lemma shown_posted:
  assumes "shown env es cs ms i g" "room_comments g' = room_comments g @ [c]" "creator g' = creator g"
    and "room_created_at g' = room_created_at g" "authenticated_participants g' = authenticated_participants g"
  shows "shown env es (cs((ucast i, rc_id c) \<mapsto> comment_row_of i c)) ms i g'"
  using assms by (auto simp: shown_def map_le_def last_rows_def)

text \<open>Removing the first comment with a number at most takes the number away.\<close>

lemma last_rows_Cons: "last_rows f (c # cs) x = (case last_rows f cs x of None \<Rightarrow> if x = rc_id c then Some (f c) else None | Some r \<Rightarrow> Some r)"
  by (simp add: last_rows_def map_add_def split: option.split)

lemma remove_first_rows:
  "remove_first (\<lambda>c. rc_id c = n) cs = Some cs' \<Longrightarrow>
     last_rows f cs' x = last_rows f cs x \<or> x = n \<and> last_rows f cs' x = None"
proof (induction cs arbitrary: cs')
  case (Cons c cs)
  show ?case
  proof (cases "rc_id c = n")
    case True
    with Cons.prems have "cs' = cs" by simp
    with True show ?thesis by (auto simp: last_rows_Cons split: option.split)
  next
    case False
    with Cons.prems obtain ds where ds: "remove_first (\<lambda>c. rc_id c = n) cs = Some ds" "cs' = c # ds" by auto
    from Cons.IH [OF ds(1)] False show ?thesis by (elim disjE conjE) (simp_all add: ds(2) last_rows_Cons)
  qed
qed simp

lemma shown_removed:
  assumes "shown env es cs ms i g" "remove_first (\<lambda>c. rc_id c = n) (room_comments g) = Some ds"
  shows "shown env es cs ms i (g\<lparr>room_comments := ds, next_comment_id := n\<rparr>)"
proof -
  have "last_rows (comment_row_of i) ds \<subseteq>\<^sub>m last_rows (comment_row_of i) (room_comments g)"
    using remove_first_rows [OF assms(2), of "comment_row_of i"] unfolding map_le_def by (metis domIff)
  with assms(1) show ?thesis by (auto simp: shown_def intro: map_le_trans)
qed

lemma index_config_simps [simp]:
  "cfg_ep (index_config T env cr cb dm) = room_episode env" "notify (index_config T env cr cb dm) ev s = indexer_handler T env ev s"
  by (simp_all add: index_config_def notify_def)

lemma room_episode_simps [simp]:
  "ep_initialize (room_episode env) = room_initialize" "ep_execute (room_episode env) g c a md = Some (room_execute env g c a md)"
  "ep_rollback (room_episode env) g r = Some (room_rollback_cmd g r)"
  by (simp_all add: room_episode_def)

text \<open>The handler on what a store is seen as: episodes, comments and members.\<close>

type_synonym index_view = "(u64 \<rightharpoonup> episode_row) \<times> (u64 \<times> u64 \<rightharpoonup> comment_row) \<times> (string \<Rightarrow> u64 set)"

fun view_event :: "auth_env \<Rightarrow> (room, room_command) episode_event \<Rightarrow> index_view \<Rightarrow> index_view" where
  "view_event env (OnInitialize i g) (es, cs, ms) = (es(ucast i \<mapsto> episode_row_of env i g), cs, ms)"
| "view_event env (OnRollback i g) v = v"
| "view_event env (OnCommand i g (RoomSubmitResponse sg n) None md) v = v"
| "view_event env (OnCommand i g (RoomSubmitResponse sg n) (Some pk) md) (es, cs, ms) =
     (es(ucast i \<mapsto> episode_row_of env i g), cs, ms(pk_text env pk := insert (ucast i) (ms (pk_text env pk))))"
| "view_event env (OnCommand i g (RoomSubmitComment txt tok) a md) (es, cs, ms) =
     (if room_comments g \<noteq> [] then (es, cs((ucast i, rc_id (last (room_comments g))) \<mapsto> comment_row_of i (last (room_comments g))), ms)
      else case a of
        Some pk \<Rightarrow> (es, cs((ucast i, 0) \<mapsto> \<lparr>com_episode = ucast i, com_id = 0, com_author = pk_text env pk, com_text = txt,
            com_timestamp = accepting_time md\<rparr>), ms)
      | None \<Rightarrow> (es, cs, ms))"
| "view_event env (OnCommand i g RoomRequestChallenge a md) (es, cs, ms) = (es(ucast i \<mapsto> episode_row_of env i g), cs, ms)"
| "view_event env (OnCommand i g (RoomRevokeSession t sg) a md) (es, cs, ms) = (es(ucast i \<mapsto> episode_row_of env i g), cs, ms)"

context index_store
begin

lemma op_laws:
  assumes "sinv s"
  shows "sinv (fst (upsert_episode T ep s))" "eps (fst (upsert_episode T ep s)) = (eps s)(row_episode ep \<mapsto> ep)"
    "coms (fst (upsert_episode T ep s)) = coms s" "members (fst (upsert_episode T ep s)) = members s"
    "sinv (fst (add_comment T row s))" "eps (fst (add_comment T row s)) = eps s"
    "coms (fst (add_comment T row s)) = (coms s)((com_episode row, com_id row) \<mapsto> row)" "members (fst (add_comment T row s)) = members s"
    "sinv (fst (add_membership T p i s))" "eps (fst (add_membership T p i s)) = eps s" "coms (fst (add_membership T p i s)) = coms s"
    "members (fst (add_membership T p i s)) = (members s)(p := insert i (members s p))"
  using upsert [OF assms, of ep] comment [OF assms, of row] member [OF assms, of p i] by auto

lemma handler_sinv: "sinv s \<Longrightarrow> sinv (indexer_handler T env ev s)"
  by (auto simp: indexer_handler_def index_on_initialize_def index_on_command_def index_on_rollback_def op_laws
      split: episode_event.split room_command.split option.split)

lemma row_ids [simp]:
  "row_episode (episode_row_of env i g) = ucast i" "com_episode (comment_row_of i c) = ucast i" "com_id (comment_row_of i c) = rc_id c"
  by (simp_all add: episode_row_of_def comment_row_of_def)

lemma handler_view:
  assumes "sinv s"
  shows "(eps (indexer_handler T env ev s), coms (indexer_handler T env ev s), members (indexer_handler T env ev s)) =
    view_event env ev (eps s, coms s, members s)"
  using assms by (cases "(env, ev, (eps s, coms s, members s))" rule: view_event.cases)
    (auto simp: indexer_handler_def index_on_initialize_def index_on_command_def index_on_rollback_def op_laws split: option.split)

text \<open>An event touches the rows of its episode only.\<close>

lemma handler_other:
  assumes "sinv s" "j \<noteq> ev_id ev"
  shows "eps (indexer_handler T env ev s) (ucast j) = eps s (ucast j)" "coms (indexer_handler T env ev s) (ucast j, c) = coms s (ucast j, c)"
    "members s p \<subseteq> members (indexer_handler T env ev s) p"
  using assms by (auto simp: indexer_handler_def index_on_initialize_def index_on_command_def index_on_rollback_def op_laws
      split: episode_event.split room_command.split option.split)

lemma seen_other:
  assumes "sinv s" "j \<noteq> ev_id ev" "index_seen env (eps s) (coms s) (members s) j wr"
  shows "index_seen env (eps (indexer_handler T env ev s)) (coms (indexer_handler T env ev s)) (members (indexer_handler T env ev s)) j wr"
proof -
  have sh: "shown env (eps s) (coms s) (members s) j (ew_episode wr)"
    and st: "\<forall>r \<in> set (rollback_stack wr). \<forall>k. restorable r k \<longrightarrow> ucast j \<in> members s k"
    using assms(3) by (simp_all add: index_seen_def)
  have "shown env (eps (indexer_handler T env ev s)) (coms (indexer_handler T env ev s)) (members (indexer_handler T env ev s)) j (ew_episode wr)"
    by (rule shown_mono [OF sh]) (rule handler_other [OF assms(1,2)])+
  with st handler_other(3) [OF assms(1,2)] show ?thesis unfolding index_seen_def by blast
qed

lemma seen_start:
  assumes "sinv s"
  shows "index_seen env (eps (indexer_handler T env (OnInitialize i (room_initialize ps md)) s))
    (coms (indexer_handler T env (OnInitialize i (room_initialize ps md)) s))
    (members (indexer_handler T env (OnInitialize i (room_initialize ps md)) s)) i \<lparr>ew_episode = room_initialize ps md, rollback_stack = []\<rparr>"
  using assms by (simp add: index_seen_def shown_def indexer_handler_def index_on_initialize_def op_laws episode_row_of_def
      room_initialize_def last_rows_def)

lemma seen_command:
  assumes "sinv s" "index_seen env (eps s) (coms s) (members s) i wr" "room_execute env (ew_episode wr) c a md = (g', Inr r)"
    and "s' = indexer_handler T env (OnCommand i g' c a md) s"
  shows "index_seen env (eps s') (coms s') (members s') i \<lparr>ew_episode = g', rollback_stack = rollback_stack wr @ [r]\<rparr>"
proof -
  let ?g = "ew_episode wr"
  have sh: "shown env (eps s) (coms s) (members s) i ?g" and st: "\<forall>r \<in> set (rollback_stack wr). \<forall>k. restorable r k \<longrightarrow> ucast i \<in> members s k"
    using assms(2) by (simp_all add: index_seen_def)
  have s': "s' = index_on_command T env i g' c a md s" by (simp add: assms(4) indexer_handler_def)
  from assms(3) show ?thesis
  proof (cases rule: room_ok_cases)
    case (request p)
    have "shown env (eps s) (coms s) (members s) i g'" by (rule shown_same_room [OF sh]) (simp_all add: request(4))
    with st assms(1) show ?thesis
      by (auto simp: index_seen_def s' index_on_command_def request(1,5) op_laws restorable_def shown_refreshed)
  next
    case (response p sg n)
    have "shown env (eps s) (coms s) (members s') i g'"
      by (rule shown_same_room [OF shown_mono [OF sh]]) (auto simp: response(6) s' index_on_command_def response(1,2) op_laws assms(1))
    with st assms(1) show ?thesis
      by (auto simp: index_seen_def s' index_on_command_def response(1,2,7) op_laws restorable_def shown_refreshed)
  next
    case (revoke p tok sg)
    have "shown env (eps s) (coms s) (members s) i g'" by (rule shown_same_room [OF sh]) (simp_all add: revoke(4))
    moreover have "ucast i \<in> members s (pk_text env p)" using sh revoke(3) by (simp add: shown_def)
    ultimately show ?thesis
      using st assms(1) by (auto simp: index_seen_def s' index_on_command_def revoke(1,5) op_laws restorable_def shown_refreshed)
  next
    case (post p msg tok)
    let ?c = "\<lparr>rc_id = next_comment_id ?g, rc_text = msg, rc_author = pk_text env p, rc_timestamp = accepting_time md\<rparr>"
    have "shown env (eps s) ((coms s)((ucast i, rc_id ?c) \<mapsto> comment_row_of i ?c)) (members s) i g'"
      by (rule shown_posted [OF sh]) (simp_all add: post(7))
    with st assms(1) show ?thesis
      by (auto simp: index_seen_def s' index_on_command_def post(1,7,8) op_laws restorable_def)
  qed
qed

lemma seen_undo:
  assumes "index_seen env (eps s) (coms s) (members s) i \<lparr>ew_episode = g, rollback_stack = rs @ [r]\<rparr>"
    and "room_rollback_cmd g r = (g', b)"
  shows "index_seen env (eps s) (coms s) (members s) i \<lparr>ew_episode = g', rollback_stack = rs\<rparr>"
proof -
  have sh: "shown env (eps s) (coms s) (members s) i g" and st: "\<And>k. restorable r k \<Longrightarrow> ucast i \<in> members s k"
    and rest: "\<forall>r \<in> set rs. \<forall>k. restorable r k \<longrightarrow> ucast i \<in> members s k"
    using assms(1) by (auto simp: index_seen_def)
  have "shown env (eps s) (coms s) (members s) i g'"
  proof (cases r)
    case (RoomUndoComment n)
    with assms(2) sh shown_removed [OF sh, of n] show ?thesis by (auto simp: room_rollback_cmd_def split: option.splits)
  qed (use assms(2) st in \<open>auto simp: room_rollback_cmd_def restorable_def intro!: shown_same_room [OF sh] split: if_splits\<close>)
  with rest show ?thesis by (simp add: index_seen_def)
qed

end

sublocale index_store \<subseteq> watch: episode_watch "index_config T env cr cb dm"
    "\<lambda>i wr s. index_seen env (eps s) (coms s) (members s) i wr" sinv True
  for env cr cb dm
proof unfold_locales
  fix w i wr c a md g' err
  assume "index_seen env (eps w) (coms w) (members w) i wr"
    and "ep_execute (cfg_ep (index_config T env cr cb dm)) (ew_episode wr) c a md = Some (g', Inl err)"
  then show "index_seen env (eps w) (coms w) (members w) i (wr\<lparr>ew_episode := g'\<rparr>)"
    by (cases wr) (auto dest: room_err)
qed (simp_all add: handler_sinv seen_other wrapper_initialize_def seen_start seen_command,
     simp add: indexer_handler_def index_on_rollback_def seen_undo)

end
