(* ===== verification/Indexer_Properties.thy ===== *)
theory Indexer_Properties
  imports Indexer_Contract
begin

text \<open>
  Both stores of the indexer write as the contract asks, the map in memory also reads so; the database
  reads past the episode it is asked for. Then: what the index shows of the chain, how the answers of the
  two stores differ, and what the endpoints lose.
\<close>

section \<open>The store in memory\<close>

definition mem_inv :: "mem \<Rightarrow> bool" where
  "mem_inv s \<longleftrightarrow> bm_wf (mem_comments s) \<and> keyed (map_of (mem_comments s)) \<and> (\<forall>p m. mem_memberships s p = Some m \<longrightarrow> finite m)"

definition mem_members :: "mem \<Rightarrow> string \<Rightarrow> u64 set" where
  "mem_members s p = (case mem_memberships s p of Some m \<Rightarrow> m | None \<Rightarrow> {})"

text \<open>The rows of an episode are the entries of the tree with its id, in order.\<close>

lemma mem_rows:
  assumes "bm_wf t" "keyed (map_of t)"
  shows "map snd (filter (\<lambda>e. fst (fst e) = i) t) = rows_of (map_of t) i"
proof (rule rows_unique [OF assms(2)])
  have d: "distinct (map fst t)" using assms(1) by (rule bm_wf_distinct)
  have ids: "com_id (snd e) = snd (fst e)" if "e \<in> set t" for e
    using assms(2) map_of_is_SomeI [OF d, of "fst e" "snd e"] that by (cases e; cases "fst e") (auto simp: keyed_def)
  have sub: "sorted_wrt (<) (map fst (filter (\<lambda>e. fst (fst e) = i) t))"
    using assms(1) by (simp add: bm_wf_def sorted_wrt_map sorted_wrt_filter)
  have "sorted_wrt (<) (map (\<lambda>e. snd (fst e)) (filter (\<lambda>e. fst (fst e) = i) t))"
    using sub unfolding sorted_wrt_map by (rule sorted_wrt_mono_rel [rotated]) (auto simp: less_prod_def)
  moreover have eq: "map com_id (map snd (filter (\<lambda>e. fst (fst e) = i) t)) = map (\<lambda>e. snd (fst e)) (filter (\<lambda>e. fst (fst e) = i) t)"
    using ids by simp
  ultimately show "sorted (map com_id (map snd (filter (\<lambda>e. fst (fst e) = i) t)))" "distinct (map com_id (map snd (filter (\<lambda>e. fst (fst e) = i) t)))"
    unfolding eq by (simp_all add: strict_sorted_iff)
  show "set (map snd (filter (\<lambda>e. fst (fst e) = i) t)) = {r. \<exists>c. map_of t (i, c) = Some r}"
    using d by (force simp: image_iff)
qed

interpretation mem_index: index_reads mem_store mem_inv mem_episodes "\<lambda>s. map_of (mem_comments s)" mem_members
proof unfold_locales
  fix s :: mem and ep row p i n ts
  assume inv: "mem_inv s"
  show "\<exists>s'. upsert_episode mem_store ep s = (s', Inr ()) \<and> mem_inv s' \<and> mem_episodes s' = (mem_episodes s)(row_episode ep \<mapsto> ep) \<and>
      map_of (mem_comments s') = map_of (mem_comments s) \<and> mem_members s' = mem_members s"
    using inv by (simp add: mem_store_def mem_upsert_episode_def mem_inv_def mem_members_def fun_eq_iff)
  show "\<exists>s'. add_comment mem_store row s = (s', Inr ()) \<and> mem_inv s' \<and> mem_episodes s' = mem_episodes s \<and>
      map_of (mem_comments s') = (map_of (mem_comments s))((com_episode row, com_id row) \<mapsto> row) \<and> mem_members s' = mem_members s"
    using inv by (simp add: mem_store_def mem_add_comment_def mem_inv_def mem_members_def keyed_upd fun_eq_iff)
  show "\<exists>s'. add_membership mem_store p i s = (s', Inr ()) \<and> mem_inv s' \<and> mem_episodes s' = mem_episodes s \<and>
      map_of (mem_comments s') = map_of (mem_comments s) \<and> mem_members s' = (mem_members s)(p := insert i (mem_members s p))"
    using inv by (auto simp: mem_store_def mem_add_membership_def mem_inv_def mem_members_def fun_eq_iff split: option.split)
  show "\<exists>s'. get_comments_after mem_store i ts n s =
      (s', Inr (take n (filter (\<lambda>r. com_timestamp r > ts) (rows_of (map_of (mem_comments s)) i))))" if "0 < n"
  proof -
    have "map snd (filter (\<lambda>e. fst (fst e) = i \<and> com_timestamp (snd e) > ts) (mem_comments s)) =
        filter (\<lambda>r. com_timestamp r > ts) (rows_of (map_of (mem_comments s)) i)"
      using inv by (simp add: mem_inv_def filter_map comp_def conj_commute flip: mem_rows)
    with that show ?thesis by (simp add: mem_store_def mem_get_comments_after_def take_rows_eq flip: take_map)
  qed
  show "\<exists>s' ids. get_my_episodes mem_store p n s = (s', Inr ids) \<and> set ids \<subseteq> mem_members s p \<and>
      (card (mem_members s p) \<le> n \<longrightarrow> set ids = mem_members s p)"
    using inv by (auto simp: mem_store_def mem_get_my_episodes_def mem_members_def mem_inv_def dest: in_set_takeD split: option.split)
  show "\<exists>s'. get_episode mem_store i n s = (s', Inr (case mem_episodes s i of None \<Rightarrow> None
      | Some ep \<Rightarrow> Some \<lparr>det_row = ep, det_recent = take n (rev (rows_of (map_of (mem_comments s)) i))\<rparr>))" if "0 < n"
  proof -
    have "map snd (filter (\<lambda>e. fst (fst e) = i) (rev (mem_comments s))) = rev (rows_of (map_of (mem_comments s)) i)"
      using inv by (simp add: mem_inv_def rev_filter rev_map flip: mem_rows)
    with that show ?thesis by (auto simp: mem_store_def mem_get_episode_def take_rows_eq split: option.split simp flip: take_map)
  qed
qed

section \<open>The database\<close>

text \<open>Keys in big-endian order are ordered as their numbers.\<close>

lemma le_nat_snoc: "le_nat (bs @ [b]) = le_nat bs + 256 ^ length bs * unat b"
  by (induction bs) (simp_all add: algebra_simps)

lemma bytes_less: "length xs = length ys \<Longrightarrow> xs < ys \<longleftrightarrow> le_nat (rev xs) < le_nat (rev ys)" for xs ys :: bytes
proof (induction xs ys rule: list_induct2)
  case (Cons x xs y ys)
  let ?n = "256 ^ length xs :: nat"
  have b: "le_nat (rev xs) < ?n" "le_nat (rev ys) < ?n"
    using le_nat_bound [of "rev xs"] le_nat_bound [of "rev ys"] Cons.hyps by simp_all
  have val: "le_nat (rev (x # xs)) = le_nat (rev xs) + ?n * unat x" "le_nat (rev (y # ys)) = le_nat (rev ys) + ?n * unat y"
    using Cons.hyps by (simp_all add: le_nat_snoc)
  consider "x < y" | "x = y" | "y < x" by (rule linorder_cases)
  then show ?case
  proof cases
    case 1
    then have "Suc (unat x) \<le> unat y" by (simp add: word_less_nat_alt Suc_le_eq)
    then have "?n * Suc (unat x) \<le> ?n * unat y" by (rule mult_le_mono2)
    with 1 b show ?thesis unfolding val by simp
  next
    case 2
    then show ?thesis unfolding val using Cons.IH by simp
  next
    case 3
    then have "Suc (unat y) \<le> unat x" by (simp add: word_less_nat_alt Suc_le_eq)
    then have "?n * Suc (unat y) \<le> ?n * unat x" by (rule mult_le_mono2)
    with 3 b show ?thesis unfolding val by auto
  qed
qed simp

lemma u64_be_less: "u64_be a < u64_be b \<longleftrightarrow> a < b"
proof -
  have "le_nat (rev (u64_be x)) = unat x" for x
  proof -
    have "unat x < 2 ^ 64" using unsigned_less [of x] by simp
    then show ?thesis by (simp add: u64_be_def le_nat_nat_le)
  qed
  then show ?thesis by (simp add: bytes_less word_less_nat_alt)
qed

lemma u64_be_inject: "u64_be a = u64_be b \<longleftrightarrow> a = b"
  by (metis le_word_roundtrip(4))

lemma keys_apart [simp]:
  "key_ep i = key_ep j \<longleftrightarrow> i = j" "key_comment i c = key_comment j e \<longleftrightarrow> i = j \<and> c = e"
  "key_ep i \<noteq> key_comment j e" "key_comment j e \<noteq> key_ep i" "key_recent ts i \<noteq> key_ep j" "key_recent ts i \<noteq> key_comment j e"
  "key_ep j \<noteq> key_recent ts i" "key_comment j e \<noteq> key_recent ts i"
  "key_members p \<noteq> key_ep i" "key_members p \<noteq> key_comment j e" "key_ep i \<noteq> key_members p" "key_comment j e \<noteq> key_members p"
  "key_members p \<noteq> key_recent ts i" "key_recent ts i \<noteq> key_members p"
  by (simp_all add: key_ep_def key_comment_def key_recent_def key_members_def u64_be_inject)

lemma key_members_inject [simp]: "key_members p = key_members q \<longleftrightarrow> p = q"
proof -
  have "inj (of_char :: char \<Rightarrow> u8)"
  proof (rule injI)
    fix x y :: char
    assume "(of_char x :: u8) = of_char y"
    then have "(of_nat (of_char x) :: u8) = of_nat (of_char y)" by (simp only: of_nat_of_char)
    then have "unat (of_nat (of_char x) :: u8) = unat (of_nat (of_char y) :: u8)" by (rule arg_cong)
    then have "(of_char x :: nat) = of_char y" by (simp add: unat_of_nat)
    then show "x = y" by simp
  qed
  then show ?thesis by (simp add: key_members_def ascii_def inj_map_eq_map)
qed

text \<open>
  What is documented of the libraries: accesses succeed, bincode reads back what it wrote, and a prefix
  iterator on a database that was opened without a prefix extractor, as this one is, starts at the first
  key that is not below the prefix and goes on to the end of the database.
\<close>

definition rk_lawful :: "rocks_env \<Rightarrow> bool" where
  "rk_lawful env \<longleftrightarrow> (\<forall>k. \<not> rk_fails env k) \<and> (\<forall>x. dec_episode env (enc_episode env x) = Some x) \<and>
     (\<forall>x. dec_comment env (enc_comment env x) = Some x) \<and> (\<forall>x. dec_ids env (enc_ids env x) = Some x) \<and>
     (\<forall>p t. bm_wf t \<longrightarrow> prefix_walk env p t = map snd (filter (\<lambda>e. p \<le> fst e) t))"

definition rk_eps :: "rocks_env \<Rightarrow> rocks \<Rightarrow> u64 \<rightharpoonup> episode_row" where
  "rk_eps env s i = Option.bind (map_of (rk_db s) (key_ep i)) (dec_episode env)"

definition rk_coms :: "rocks_env \<Rightarrow> rocks \<Rightarrow> u64 \<times> u64 \<rightharpoonup> comment_row" where
  "rk_coms env s k = Option.bind (map_of (rk_db s) (key_comment (fst k) (snd k))) (dec_comment env)"

definition rk_members :: "rocks_env \<Rightarrow> rocks \<Rightarrow> string \<Rightarrow> u64 set" where
  "rk_members env s p = set (ids_of env (map_of (rk_db s) (key_members p)))"

definition rk_inv :: "rocks_env \<Rightarrow> rocks \<Rightarrow> bool" where
  "rk_inv env s \<longleftrightarrow> rk_lawful env \<and> bm_wf (rk_db s) \<and>
     (\<forall>i b. map_of (rk_db s) (key_ep i) = Some b \<longrightarrow> dec_episode env b \<noteq> None) \<and>
     (\<forall>k b. map_of (rk_db s) k = Some b \<longrightarrow> take (Suc 0) k = [0x63] \<longrightarrow>
        (\<exists>r. k = key_comment (com_episode r) (com_id r) \<and> dec_comment env b = Some r)) \<and>
     (\<forall>p. distinct (ids_of env (map_of (rk_db s) (key_members p))))"

lemma key_tags [simp]: "take (Suc 0) (key_ep i) = [0x65]" "take (Suc 0) (key_recent ts i) = [0x72]" "take (Suc 0) (key_members p) = [0x6d]"
    "take (Suc 0) (key_comment i c) = [0x63]" "length (key_comment_prefix i) = 9"
  by (simp_all add: key_ep_def key_recent_def key_members_def key_comment_def key_comment_prefix_def)

lemma append_less: "as @ xs < as @ ys \<longleftrightarrow> xs < ys" for xs ys :: "'a::linorder list"
  by (induction as) simp_all

lemma key_comment_order: "key_comment i c < key_comment j d \<longleftrightarrow> (i, c) < (j, d)"
proof -
  have "as @ xs < bs @ ys \<longleftrightarrow> as < bs \<or> as = bs \<and> xs < ys" if "length as = length bs" for as bs xs ys :: bytes
    using that by (induction as bs rule: list_induct2) auto
  then show ?thesis by (auto simp: key_comment_def u64_be_less u64_be_inject less_prod_def)
qed

text \<open>The prefix of an episode is below the comments of this and every later episode, and below what follows the comments.\<close>

lemma key_prefix_order: "key_comment_prefix i \<le> key_comment j c \<longleftrightarrow> i \<le> j"
proof -
  have "as \<le> bs @ ys \<longleftrightarrow> as \<le> bs" if "length as = length bs" for as bs ys :: bytes
    using that by (induction as bs rule: list_induct2) auto
  moreover have "u64_be i \<le> u64_be j \<longleftrightarrow> i \<le> j" by (simp add: u64_be_less flip: not_less)
  ultimately show ?thesis by (simp add: key_comment_def key_comment_prefix_def)
qed

lemma comment_block:
  assumes "key_comment_prefix i \<le> k" "k < [0x64]"
  shows "take (Suc 0) k = [0x63]"
proof (cases k)
  case (Cons x r)
  with assms have "0x63 \<le> x" "x < 0x64" by (auto simp: key_comment_prefix_def)
  then have "unat x = 99" by (simp add: word_less_nat_alt word_le_nat_alt)
  then have "x = 0x63" by (simp add: word_unat_eq_iff)
  with Cons show ?thesis by simp
qed (use assms in \<open>simp add: key_comment_prefix_def\<close>)

lemma rk_keyed: "rk_inv env s \<Longrightarrow> keyed (rk_coms env s)"
proof -
  assume inv: "rk_inv env s"
  have "com_episode r = i \<and> com_id r = c" if "rk_coms env s (i, c) = Some r" for i c r
  proof -
    from that obtain b where b: "map_of (rk_db s) (key_comment i c) = Some b" "dec_comment env b = Some r"
      by (auto simp: rk_coms_def bind_eq_Some_conv)
    moreover have "take (Suc 0) (key_comment i c) = [0x63]" by simp
    ultimately obtain r' where "key_comment i c = key_comment (com_episode r') (com_id r')" "dec_comment env b = Some r'"
      using inv unfolding rk_inv_def by blast
    with b(2) show ?thesis by simp
  qed
  then show ?thesis by (simp add: keyed_def)
qed

lemma map_filter_all: "(\<And>x. x \<in> set xs \<Longrightarrow> f x \<noteq> None) \<Longrightarrow> List.map_filter f xs = map (\<lambda>x. the (f x)) xs"
proof (induction xs)
  case (Cons x xs)
  from Cons.prems [of x] obtain y where "f x = Some y" by auto
  with Cons show ?case by (simp add: map_filter_simps)
qed (simp add: map_filter_simps)

text \<open>What lies between two keys, and what comes from the second on.\<close>

lemma filter_split:
  fixes t :: "('k::linorder, 'v) bmap"
  assumes "bm_wf t" "p \<le> q"
  shows "filter (\<lambda>e. p \<le> fst e) t = filter (\<lambda>e. p \<le> fst e \<and> fst e < q) t @ filter (\<lambda>e. q \<le> fst e) t"
  using assms(1)
proof (induction t)
  case (Cons e t)
  obtain k v where e: "e = (k, v)" by (cases e)
  with Cons have IH: "filter (\<lambda>e. p \<le> fst e) t = filter (\<lambda>e. p \<le> fst e \<and> fst e < q) t @ filter (\<lambda>e. q \<le> fst e) t"
    and above: "\<forall>k' \<in> fst ` set t. k < k'" by (simp_all add: bm_wf_Cons)
  show ?case
  proof (cases "k < q")
    case True
    then show ?thesis using IH by (auto simp: e)
  next
    case False
    then have "\<forall>e \<in> set t. \<not> fst e < q" using above by fastforce
    then have "filter (\<lambda>e. p \<le> fst e \<and> fst e < q) t = []" by (simp add: filter_empty_conv)
    with IH False assms(2) show ?thesis by (auto simp: e)
  qed
qed simp

text \<open>The comments the values filed after all comments decode to, if any does.\<close>

definition stray_rows :: "rocks_env \<Rightarrow> rocks \<Rightarrow> comment_row list" where
  "stray_rows env s = List.map_filter (dec_comment env) (map snd (filter (\<lambda>e. [0x64] \<le> fst e) (rk_db s)))"

definition rows_from :: "(u64 \<times> u64, comment_row) bmap \<Rightarrow> u64 \<Rightarrow> comment_row list" where
  "rows_from t i = map snd (filter (\<lambda>e. i \<le> fst (fst e)) t)"

lemma map_filter_append: "List.map_filter f (xs @ ys) = List.map_filter f xs @ List.map_filter f ys"
  by (simp add: List.map_filter_def)

text \<open>A walk from the prefix of an episode yields the comments of this and all later episodes, then the strays.\<close>

lemma rk_walk_rows:
  assumes inv: "rk_inv env s" and t: "bm_wf t" "map_of t = rk_coms env s"
  shows "List.map_filter (dec_comment env) (prefix_walk env (key_comment_prefix i) (rk_db s)) = rows_from t i @ stray_rows env s"
proof -
  define F where "F = filter (\<lambda>e. key_comment_prefix i \<le> fst e \<and> fst e < [0x64]) (rk_db s)"
  define C where "C = filter (\<lambda>e. i \<le> fst (fst e)) t"
  let ?row = "\<lambda>e. the (dec_comment env (snd e))" and ?key = "\<lambda>r. (com_episode r, com_id r)"
  have wf: "bm_wf (rk_db s)" and d: "distinct (map fst (rk_db s))" using inv by (simp_all add: rk_inv_def bm_wf_distinct)
  have row: "\<exists>r. fst e = key_comment (com_episode r) (com_id r) \<and> i \<le> com_episode r \<and> dec_comment env (snd e) = Some r \<and>
      rk_coms env s (?key r) = Some r" if "e \<in> set F" for e
  proof -
    from that have e: "map_of (rk_db s) (fst e) = Some (snd e)" "key_comment_prefix i \<le> fst e" "fst e < [0x64]"
      using map_of_is_SomeI [OF d] by (simp_all add: F_def)
    with inv comment_block [OF e(2,3)] obtain r where r: "fst e = key_comment (com_episode r) (com_id r)" "dec_comment env (snd e) = Some r"
      unfolding rk_inv_def by blast
    with e show ?thesis by (auto simp: key_prefix_order rk_coms_def)
  qed
  have entry: "fst e = ?key (snd e) \<and> i \<le> com_episode (snd e) \<and> rk_coms env s (?key (snd e)) = Some (snd e)" if "e \<in> set C" for e
  proof -
    from that have "map_of t (fst e) = Some (snd e)" "i \<le> fst (fst e)"
      using map_of_is_SomeI [OF bm_wf_distinct [OF t(1)]] by (simp_all add: C_def)
    with rk_keyed [OF inv] show ?thesis by (cases "fst e") (auto simp: t(2) keyed_def)
  qed
  have "map ?row F = map snd C"
  proof (rule map_sorted_distinct_set_unique [where f = ?key])
    show "inj_on ?key (set (map ?row F) \<union> set (map snd C))"
      using row entry by (intro inj_onI) (auto, (metis option.sel prod.inject)+)
    have keys: "map fst F = map (\<lambda>e. key_comment (com_episode (?row e)) (com_id (?row e))) F" using row by (intro map_cong refl) (metis option.sel)
    have "sorted_wrt (<) (map fst F)" using wf by (simp add: F_def bm_wf_def sorted_wrt_map sorted_wrt_filter)
    then have "sorted_wrt (<) (map ?key (map ?row F))" unfolding keys by (simp add: sorted_wrt_map key_comment_order comp_def del: less_prod_simp)
    then show "sorted (map ?key (map ?row F))" "distinct (map ?key (map ?row F))" unfolding strict_sorted_iff by simp_all
    have entries: "map fst C = map ?key (map snd C)" using entry by simp
    have "sorted_wrt (<) (map fst C)" using t(1) by (simp add: C_def bm_wf_def sorted_wrt_map sorted_wrt_filter)
    then show "sorted (map ?key (map snd C))" "distinct (map ?key (map snd C))" unfolding entries strict_sorted_iff by simp_all
    have "r \<in> set (map snd C)" if "i \<le> com_episode r" "rk_coms env s (?key r) = Some r" for r
      using that map_of_SomeD [of t "?key r" r] by (force simp: C_def t(2))
    moreover have "r \<in> set (map ?row F)" if r: "i \<le> com_episode r" "rk_coms env s (?key r) = Some r" for r
    proof -
      from r(2) obtain b where b: "map_of (rk_db s) (key_comment (com_episode r) (com_id r)) = Some b" "dec_comment env b = Some r"
        by (auto simp: rk_coms_def bind_eq_Some_conv)
      moreover have "key_comment (com_episode r) (com_id r) < [0x64]" by (simp add: key_comment_def)
      ultimately have "(key_comment (com_episode r) (com_id r), b) \<in> set F"
        using r(1) by (auto simp: F_def key_prefix_order dest: map_of_SomeD)
      with b(2) show ?thesis by force
    qed
    ultimately show "set (map ?row F) = set (map snd C)" using row entry by (intro equalityI subsetI) (auto, (metis option.sel)+)
  qed
  moreover have "List.map_filter (dec_comment env) (map snd F) = map ?row F"
    using row by (subst map_filter_all) (auto dest!: row)
  moreover have "prefix_walk env (key_comment_prefix i) (rk_db s) = map snd F @ map snd (filter (\<lambda>e. [0x64] \<le> fst e) (rk_db s))"
    using inv wf filter_split [OF wf, of "key_comment_prefix i" "[0x64]"]
    by (simp add: rk_inv_def rk_lawful_def F_def) (simp add: key_comment_prefix_def)
  ultimately show ?thesis by (simp add: map_filter_append stray_rows_def rows_from_def C_def)
qed

lemma rk_put_ok:
  "rk_inv env s \<Longrightarrow> rk_put env k v s = (\<lparr>rk_db = bm_insert k v (rk_db s), rk_access = Suc (rk_access s)\<rparr>, Inr ())"
  by (cases s) (simp add: rk_put_def rk_touch_def rk_inv_def rk_lawful_def)

lemma rk_get_ok: "rk_inv env s \<Longrightarrow> rk_get env k s = (rk_touch s, Inr (map_of (rk_db s) k))"
  by (simp add: rk_get_def rk_inv_def rk_lawful_def)

lemma rk_touch_same [simp]: "rk_db (rk_touch s) = rk_db s" "rk_inv env (rk_touch s) = rk_inv env s"
    "rk_coms env (rk_touch s) = rk_coms env s"
  by (simp_all add: rk_touch_def rk_inv_def rk_coms_def fun_eq_iff)

lemma rk_inv_put:
  assumes "rk_inv env s"
    and "\<And>i. k = key_ep i \<Longrightarrow> dec_episode env v \<noteq> None"
    and "take (Suc 0) k = [0x63] \<Longrightarrow> \<exists>r. k = key_comment (com_episode r) (com_id r) \<and> dec_comment env v = Some r"
    and "\<And>p. k = key_members p \<Longrightarrow> distinct (ids_of env (Some v))"
  shows "rk_inv env \<lparr>rk_db = bm_insert k v (rk_db s), rk_access = n\<rparr>"
  using assms by (auto simp: rk_inv_def)

lemma ids_of_enc: "rk_inv env s \<Longrightarrow> ids_of env (Some (enc_ids env ids)) = ids"
  by (simp add: ids_of_def rk_inv_def rk_lawful_def)

lemma rk_upsert_law:
  assumes "rk_inv env s"
  shows "\<exists>s'. rk_upsert_episode env ep s = (s', Inr ()) \<and> rk_inv env s' \<and> rk_eps env s' = (rk_eps env s)(row_episode ep \<mapsto> ep) \<and>
    rk_coms env s' = rk_coms env s \<and> rk_members env s' = rk_members env s"
proof -
  have dec: "dec_episode env (enc_episode env ep) = Some ep" using assms by (simp add: rk_inv_def rk_lawful_def)
  let ?s1 = "\<lparr>rk_db = bm_insert (key_ep (row_episode ep)) (enc_episode env ep) (rk_db s), rk_access = Suc (rk_access s)\<rparr>"
  have i1: "rk_inv env ?s1" by (rule rk_inv_put [OF assms]) (auto simp: dec)
  have i2: "rk_inv env \<lparr>rk_db = bm_insert (key_recent (row_created ep) (row_episode ep)) [] (rk_db ?s1), rk_access = Suc (Suc (rk_access s))\<rparr>"
    by (rule rk_inv_put [OF i1]) auto
  then show ?thesis
    using dec rk_put_ok [OF assms] rk_put_ok [OF i1]
    by (simp add: rk_upsert_episode_def rk_eps_def rk_coms_def rk_members_def fun_eq_iff)
qed

lemma rk_comment_law:
  assumes "rk_inv env s"
  shows "\<exists>s'. rk_add_comment env row s = (s', Inr ()) \<and> rk_inv env s' \<and> rk_eps env s' = rk_eps env s \<and>
    rk_coms env s' = (rk_coms env s)((com_episode row, com_id row) \<mapsto> row) \<and> rk_members env s' = rk_members env s"
proof -
  have dec: "dec_comment env (enc_comment env row) = Some row" using assms by (simp add: rk_inv_def rk_lawful_def)
  have "rk_inv env \<lparr>rk_db = bm_insert (key_comment (com_episode row) (com_id row)) (enc_comment env row) (rk_db s), rk_access = Suc (rk_access s)\<rparr>"
    by (rule rk_inv_put [OF assms]) (auto simp: dec)
  then show ?thesis
    using dec rk_put_ok [OF assms] by (auto simp: rk_add_comment_def rk_eps_def rk_coms_def rk_members_def fun_eq_iff)
qed

lemma rk_member_law:
  assumes "rk_inv env s"
  shows "\<exists>s'. rk_add_membership env p i s = (s', Inr ()) \<and> rk_inv env s' \<and> rk_eps env s' = rk_eps env s \<and>
    rk_coms env s' = rk_coms env s \<and> rk_members env s' = (rk_members env s)(p := insert i (rk_members env s p))"
proof -
  let ?ids = "ids_of env (map_of (rk_db s) (key_members p))"
  let ?new = "if i \<in> set ?ids then ?ids else ?ids @ [i]"
  have d: "distinct ?new" using assms by (simp add: rk_inv_def)
  have t: "rk_inv env (rk_touch s)" using assms by simp
  have "rk_inv env \<lparr>rk_db = bm_insert (key_members p) (enc_ids env ?new) (rk_db s), rk_access = Suc (rk_access (rk_touch s))\<rparr>"
    by (rule rk_inv_put [OF assms]) (auto simp: ids_of_enc [OF assms] d simp del: if_split)
  then show ?thesis
    using rk_get_ok [OF assms] rk_put_ok [OF t] ids_of_enc [OF assms]
    by (auto simp: rk_add_membership_def Let_def rk_eps_def rk_coms_def rk_members_def fun_eq_iff)
qed

interpretation rocks_index: index_store "rocks_store renv" "rk_inv renv" "rk_eps renv" "rk_coms renv" "rk_members renv" for renv
proof unfold_locales
  fix s ep row p i n ts
  assume inv: "rk_inv renv s"
  show "\<exists>s'. upsert_episode (rocks_store renv) ep s = (s', Inr ()) \<and> rk_inv renv s' \<and> rk_eps renv s' = (rk_eps renv s)(row_episode ep \<mapsto> ep) \<and>
      rk_coms renv s' = rk_coms renv s \<and> rk_members renv s' = rk_members renv s"
    using rk_upsert_law [OF inv] by (simp add: rocks_store_def)
  show "\<exists>s'. add_comment (rocks_store renv) row s = (s', Inr ()) \<and> rk_inv renv s' \<and> rk_eps renv s' = rk_eps renv s \<and>
      rk_coms renv s' = (rk_coms renv s)((com_episode row, com_id row) \<mapsto> row) \<and> rk_members renv s' = rk_members renv s"
    using rk_comment_law [OF inv] by (simp add: rocks_store_def)
  show "\<exists>s'. add_membership (rocks_store renv) p i s = (s', Inr ()) \<and> rk_inv renv s' \<and> rk_eps renv s' = rk_eps renv s \<and>
      rk_coms renv s' = rk_coms renv s \<and> rk_members renv s' = (rk_members renv s)(p := insert i (rk_members renv s p))"
    using rk_member_law [OF inv] by (simp add: rocks_store_def)
  show "\<exists>s' ids. get_my_episodes (rocks_store renv) p n s = (s', Inr ids) \<and> set ids \<subseteq> rk_members renv s p \<and>
      (card (rk_members renv s p) \<le> n \<longrightarrow> set ids = rk_members renv s p)"
  proof -
    have "distinct (ids_of renv (map_of (rk_db s) (key_members p)))" using inv by (simp add: rk_inv_def)
    then show ?thesis
      using rk_get_ok [OF inv] by (auto simp: rocks_store_def rk_get_my_episodes_def rk_members_def distinct_card dest: in_set_takeD)
  qed
qed

section \<open>Both stores under one engine\<close>

definition stores_related :: "rocks_env \<Rightarrow> mem \<Rightarrow> rocks \<Rightarrow> bool" where
  "stores_related env s t \<longleftrightarrow> mem_inv s \<and> rk_inv env t \<and>
     (mem_episodes s, map_of (mem_comments s), mem_members s) = (rk_eps env t, rk_coms env t, rk_members env t)"

interpretation stores: related_handlers "index_config mem_store env cr cb dm" "index_config (rocks_store renv) env cr cb dm"
    "stores_related renv" for renv env cr cb dm
proof unfold_locales
  show "same_engine (index_config mem_store env cr cb dm) (index_config (rocks_store renv) env cr cb dm)"
    by (simp add: same_engine_def index_config_def)
  fix s t ev
  assume "stores_related renv s t"
  then have r: "mem_inv s" "rk_inv renv t"
      "(mem_episodes s, map_of (mem_comments s), mem_members s) = (rk_eps renv t, rk_coms renv t, rk_members renv t)"
    by (simp_all add: stores_related_def)
  show "stores_related renv (notify (index_config mem_store env cr cb dm) ev s) (notify (index_config (rocks_store renv) env cr cb dm) ev t)"
    unfolding stores_related_def index_config_simps mem_index.handler_view [OF r(1)] rocks_index.handler_view [OF r(2)] r(3)
    using mem_index.handler_sinv [OF r(1)] rocks_index.handler_sinv [OF r(2)] by simp
qed

lemma new_stores: "mem_inv mem_new" "rk_lawful env \<Longrightarrow> rk_inv env rk_new" "rk_lawful env \<Longrightarrow> stores_related env mem_new rk_new"
  by (simp_all add: stores_related_def mem_inv_def mem_new_def rk_inv_def rk_new_def keyed_def rk_eps_def rk_coms_def rk_members_def
      mem_members_def ids_of_def fun_eq_iff)

section \<open>What the index shows\<close>

text \<open>
  C29: The index follows the chain through reorganisations. Whatever blocks the listener's engine has
  accepted and reverted, the index shows every episode the engine has: with its creator and time, every
  authenticated participant as a member, and for every number the last comment with it as it is in the
  episode.
\<close>
theorem index_follows_chain:
  assumes "start (index_config mem_store env cr cb dm) ms (new_engine, mem_new) = Some (e, s)" and "episodes e i = Some wr"
  shows "shown env (mem_episodes s) (map_of (mem_comments s)) (mem_members s) i (ew_episode wr) \<and>
    (\<exists>det. snd (index_episode_snapshot mem_store (ucast i) s) = Inr (Some det) \<and>
       row_creator (det_row det) = map_option (pk_text env) (creator (ew_episode wr)) \<and>
       det_recent det = take 50 (rev (rows_of (map_of (mem_comments s)) (ucast i))))"
proof -
  have sh: "shown env (mem_episodes s) (map_of (mem_comments s)) (mem_members s) i (ew_episode wr)" and inv: "mem_inv s"
    using mem_index.watch.follows_engine [OF assms(1) new_stores(1) _ assms(2)] by (simp_all add: index_seen_def)
  from sh obtain row where row: "mem_episodes s (ucast i) = Some row" "row_creator row = map_option (pk_text env) (creator (ew_episode wr))"
    by (auto simp: shown_def)
  with mem_index.find [OF inv, of 50 "ucast i"] sh show ?thesis by (auto simp: index_episode_snapshot_def)
qed

section \<open>What the database answers\<close>

lemma rk_walk_ok: "rk_inv env t \<Longrightarrow> rk_walk env p t = (rk_touch t, prefix_walk env p (rk_db t))"
  by (simp add: rk_walk_def rk_inv_def rk_lawful_def)

lemma rk_find:
  assumes "rk_inv env t" "bm_wf c" "map_of c = rk_coms env t"
  shows "snd (rk_get_episode env i n t) = Inr (map_option (\<lambda>ep. \<lparr>det_row = ep,
      det_recent = take n (rev (sort_key com_id (rows_from c i @ stray_rows env t)))\<rparr>) (rk_eps env t i))"
proof (cases "map_of (rk_db t) (key_ep i)")
  case None
  with assms(1) show ?thesis by (simp add: rk_get_episode_def rk_get_ok rk_eps_def)
next
  case (Some b)
  with assms(1) obtain ep where "dec_episode env b = Some ep" unfolding rk_inv_def by blast
  with Some assms(1) show ?thesis
    by (simp add: rk_get_episode_def rk_get_ok rk_eps_def rk_walk_ok rk_walk_rows [OF assms(1-3)] Let_def)
qed

lemma rk_after:
  assumes "rk_inv env t" "bm_wf c" "map_of c = rk_coms env t" "0 < n"
  shows "snd (rk_get_comments_after env i ts n t) =
    Inr (take n (filter (\<lambda>r. com_timestamp r > ts) (rows_from c i @ stray_rows env t)))"
proof -
  have "List.map_filter (\<lambda>v. case dec_comment env v of Some r \<Rightarrow> if com_timestamp r > ts then Some r else None | None \<Rightarrow> None) vs =
      filter (\<lambda>r. com_timestamp r > ts) (List.map_filter (dec_comment env) vs)" for vs
    by (induction vs) (auto simp: map_filter_simps split: option.split)
  with assms show ?thesis
    by (simp add: rk_get_comments_after_def rk_walk_ok take_found_eq rk_walk_rows [OF assms(1-3)] del: filter_append)
qed

text \<open>
  The rows the database serves for an episode beyond its own: the comments of all later episodes,
  and whatever else decodes.
\<close>

definition foreign_rows :: "rocks_env \<Rightarrow> u64 \<Rightarrow> mem \<Rightarrow> rocks \<Rightarrow> comment_row list" where
  "foreign_rows env i s t = map snd (filter (\<lambda>e. i < fst (fst e)) (mem_comments s)) @ stray_rows env t"

lemma rows_from_split:
  assumes "bm_wf c" "keyed (map_of c)"
  shows "rows_from c i = rows_of (map_of c) i @ map snd (filter (\<lambda>e. i < fst (fst e)) c)"
proof -
  have "filter (\<lambda>e. i \<le> fst (fst e)) c = filter (\<lambda>e. fst (fst e) = i) c @ filter (\<lambda>e. i < fst (fst e)) c"
    using assms(1)
  proof (induction c)
    case (Cons e c)
    then have IH: "filter (\<lambda>e. i \<le> fst (fst e)) c = filter (\<lambda>e. fst (fst e) = i) c @ filter (\<lambda>e. i < fst (fst e)) c"
      and above: "\<forall>k \<in> fst ` set c. fst (fst e) \<le> fst k" by (cases e; fastforce simp: bm_wf_Cons less_prod_def)+
    have "filter (\<lambda>e. fst (fst e) = i) c = []" if "i < fst (fst e)"
      using that above by (fastforce simp: filter_empty_conv)
    with IH show ?case by auto
  qed simp
  with mem_rows [OF assms, of i] show ?thesis by (simp add: rows_from_def)
qed

text \<open>
  C30: What the two stores answer. On the same messages the engine over the database, when its libraries
  behave as documented, reaches the same state as the engine over the store in memory. A snapshot names
  the same episode over both, but over the database its recent comments are taken from the comments of this
  and every later episode together, ordered by comment number. The comments after a time begin with those
  the store in memory gives and are filled up to the limit with rows of later episodes. Where there are no
  such rows both endpoints answer alike. The other endpoints are not compared.
\<close>
theorem stores_compared:
  assumes "rk_lawful renv" and "start (index_config mem_store env cr cb dm) ms (new_engine, mem_new) = Some (e, s)"
  shows "\<exists>t. start (index_config (rocks_store renv) env cr cb dm) ms (new_engine, rk_new) = Some (e, t) \<and> (\<forall>i.
    snd (index_episode_snapshot mem_store i s) = Inr (map_option (\<lambda>row. \<lparr>det_row = row,
      det_recent = take 50 (rev (rows_of (map_of (mem_comments s)) i))\<rparr>) (mem_episodes s i)) \<and>
    snd (index_episode_snapshot (rocks_store renv) i t) = Inr (map_option (\<lambda>row. \<lparr>det_row = row,
      det_recent = take 50 (rev (sort_key com_id (rows_of (map_of (mem_comments s)) i @ foreign_rows renv i s t)))\<rparr>) (mem_episodes s i)) \<and>
    (\<forall>ts limit. limit \<noteq> Some 0 \<longrightarrow> (\<exists>rows. snd (episode_comments mem_store i ts limit s) = Inr rows \<and>
      snd (episode_comments (rocks_store renv) i ts limit t) = Inr (rows @
        take (min (unwrap_or 200 limit) 1000 - length rows) (filter (\<lambda>r. com_timestamp r > unwrap_or 0 ts) (foreign_rows renv i s t))))) \<and>
    (foreign_rows renv i s t = [] \<longrightarrow>
      snd (index_episode_snapshot (rocks_store renv) i t) = snd (index_episode_snapshot mem_store i s)))"
proof -
  from stores.related_start [OF new_stores(3) [OF assms(1)], of env cr cb dm ms new_engine] assms(2) obtain t where
    t: "start (index_config (rocks_store renv) env cr cb dm) ms (new_engine, rk_new) = Some (e, t)" "stores_related renv s t"
    by (auto simp: option_rel_Some1)
  then have inv: "mem_inv s" "rk_inv renv t" and same: "rk_eps renv t = mem_episodes s" "map_of (mem_comments s) = rk_coms renv t"
    by (simp_all add: stores_related_def)
  have wf: "bm_wf (mem_comments s)" "keyed (map_of (mem_comments s))" using inv(1) by (simp_all add: mem_inv_def)
  let ?own = "\<lambda>i. rows_of (map_of (mem_comments s)) i"
  have served: "rows_from (mem_comments s) i @ stray_rows renv t = ?own i @ foreign_rows renv i s t" for i
    by (simp add: rows_from_split [OF wf] foreign_rows_def)
  have mem: "snd (index_episode_snapshot mem_store i s) =
      Inr (map_option (\<lambda>row. \<lparr>det_row = row, det_recent = take 50 (rev (?own i))\<rparr>) (mem_episodes s i))" for i
    using mem_index.find [OF inv(1), of 50 i] by (auto simp: index_episode_snapshot_def split: option.split)
  have rk: "snd (index_episode_snapshot (rocks_store renv) i t) = Inr (map_option (\<lambda>row. \<lparr>det_row = row,
      det_recent = take 50 (rev (sort_key com_id (?own i @ foreign_rows renv i s t)))\<rparr>) (mem_episodes s i))" for i
    using rk_find [OF inv(2) wf(1) same(2), of i 50] unfolding same(1) served
    by (cases "rk_get_episode renv i 50 t") (simp add: index_episode_snapshot_def rocks_store_def)
  have after: "\<exists>rows. snd (episode_comments mem_store i ts limit s) = Inr rows \<and>
      snd (episode_comments (rocks_store renv) i ts limit t) = Inr (rows @
        take (min (unwrap_or 200 limit) 1000 - length rows) (filter (\<lambda>r. com_timestamp r > unwrap_or 0 ts) (foreign_rows renv i s t)))"
    if "limit \<noteq> Some 0" for i ts limit
  proof -
    let ?n = "min (unwrap_or 200 limit) 1000" and ?p = "\<lambda>r. com_timestamp r > unwrap_or 0 ts"
    have pos: "0 < ?n" using that by (auto simp: unwrap_or_def split: option.split)
    have "snd (episode_comments mem_store i ts limit s) = Inr (take ?n (filter ?p (?own i)))"
      using mem_index.after [OF inv(1) pos, of i "unwrap_or 0 ts"] by (auto simp: episode_comments_def)
    moreover have "snd (episode_comments (rocks_store renv) i ts limit t) = Inr (take ?n (filter ?p (?own i @ foreign_rows renv i s t)))"
      using rk_after [OF inv(2) wf(1) same(2) pos, of i "unwrap_or 0 ts"] unfolding served
      by (cases "rk_get_comments_after renv i (unwrap_or 0 ts) ?n t") (simp add: episode_comments_def rocks_store_def del: filter_append)
    ultimately show ?thesis by (auto simp: min_def)
  qed
  have "sort_key com_id (?own i) = ?own i" for i by (rule sort_key_id_if_sorted) (simp add: rows_ids [OF wf(2)])
  then have "snd (index_episode_snapshot (rocks_store renv) i t) = snd (index_episode_snapshot mem_store i s)" if "foreign_rows renv i s t = []" for i
    using that by (simp add: mem rk)
  with t(1) mem rk after show ?thesis by blast
qed

text \<open>
  The rows do come back: in a database with one comment, asking any earlier episode, known or not, for a
  comment older than it yields the comment.
\<close>
theorem comment_served_elsewhere:
  assumes "rk_lawful env" and "i < com_episode row" and "ts < com_timestamp row"
  shows "snd (rk_get_comments_after env i ts 1 (fst (rk_add_comment env row rk_new))) = Inr [row]"
proof -
  let ?c = "[((com_episode row, com_id row), row)]"
  obtain t where t: "rk_add_comment env row rk_new = (t, Inr ())" "rk_inv env t" "rk_coms env t = (rk_coms env rk_new)((com_episode row, com_id row) \<mapsto> row)"
    using rk_comment_law [OF new_stores(2) [OF assms(1)], of row] by blast
  have "bm_wf ?c" by (simp add: bm_wf_def)
  moreover have "map_of ?c = rk_coms env t" by (simp add: t(3) rk_coms_def rk_new_def fun_eq_iff)
  ultimately show ?thesis using rk_after [OF t(2), of ?c 1 i ts] assms(2,3) by (simp add: t(1) rows_from_def)
qed

section \<open>What the index keeps too long\<close>

text \<open>
  The index keeps comments the chain took back. After a comment is executed and its block reverted,
  the room no longer has it, but the index still serves its row.
\<close>
theorem reverted_comment_stays:
  assumes "handle_message (index_config mem_store env cr cb dm) (SignedCommand i (RoomSubmitComment txt tok) pk sg) md (e, s) = Some ((e1, s1), Some x)"
    and "handle_message (index_config mem_store env cr cb dm) (Revert i) md' (e1, s1) = Some ((e2, s2), None)"
    and "mem_inv s" and "episodes e i = Some wr" and "next_comment_id (ew_episode wr) \<notin> rc_id ` set (room_comments (ew_episode wr))"
  shows "\<exists>wr2 row. episodes e2 i = Some wr2 \<and> room_comments (ew_episode wr2) = room_comments (ew_episode wr) \<and>
    map_of (mem_comments s2) (ucast i, next_comment_id (ew_episode wr)) = Some row \<and> com_text row = txt"
proof -
  let ?cfg = "index_config mem_store env cr cb dm" and ?g = "ew_episode wr"
  from assms(1,4) obtain g1 r where ex: "room_execute env ?g (RoomSubmitComment txt tok) (Some pk) md = (g1, Inr r)"
      and e1: "episodes e1 = (episodes e)(i \<mapsto> \<lparr>ew_episode = g1, rollback_stack = rollback_stack wr @ [r]\<rparr>)"
      and s1: "s1 = indexer_handler mem_store env (OnCommand i g1 (RoomSubmitComment txt tok) (Some pk) md) s"
    by (auto simp: finish_command_def execute_signed_def split: if_splits option.splits prod.splits sum.splits)
  let ?c = "\<lparr>rc_id = next_comment_id ?g, rc_text = txt, rc_author = pk_text env pk, rc_timestamp = accepting_time md\<rparr>"
  from ex have g1: "room_comments g1 = room_comments ?g @ [?c]" "r = RoomUndoComment (next_comment_id ?g)"
    by (cases rule: room_ok_cases; simp)+
  have rows: "map_of (mem_comments s1) (ucast i, next_comment_id ?g) = Some (comment_row_of i ?c)"
    using mem_index.op_laws(7) [OF assms(3), of "comment_row_of i ?c"] g1(1) by (simp add: s1 indexer_handler_def index_on_command_def)
  have "remove_first (\<lambda>c. rc_id c = next_comment_id ?g) (room_comments ?g @ [?c]) = Some (room_comments ?g)"
    using assms(5) by (intro remove_first_last) (simp_all add: image_iff, metis)
  then have "room_rollback_cmd g1 r = (g1\<lparr>room_comments := room_comments ?g, next_comment_id := next_comment_id ?g\<rparr>, True)"
    by (simp add: room_rollback_cmd_def g1)
  with assms(2) e1 have "\<exists>wr2. episodes e2 i = Some wr2 \<and> room_comments (ew_episode wr2) = room_comments ?g" "s2 = s1"
    by (auto simp: wrapper_rollback_def Let_def indexer_handler_def index_on_rollback_def)
  with rows show ?thesis by (auto simp: comment_row_of_def)
qed

section \<open>What the endpoints lose\<close>

text \<open>A client that reads on from the time of the last comment it got.\<close>

fun page_through :: "'s store_trait \<Rightarrow> u64 \<Rightarrow> nat \<Rightarrow> nat \<Rightarrow> u64 \<Rightarrow> 's \<Rightarrow> comment_row list" where
  "page_through T i limit 0 ts s = []"
| "page_through T i limit (Suc k) ts s =
     (case episode_comments T i (Some ts) (Some limit) s of
        (s1, Inr rows) \<Rightarrow> if rows = [] then [] else rows @ page_through T i limit k (com_timestamp (last rows)) s1
      | (s1, Inl _) \<Rightarrow> [])"

lemma mem_page:
  assumes "mem_inv s" "0 < limit" "limit \<le> 1000"
  shows "episode_comments mem_store i (Some ts) (Some limit) s =
    (s, Inr (take limit (filter (\<lambda>r. com_timestamp r > ts) (rows_of (map_of (mem_comments s)) i))))"
  using mem_index.after [OF assms(1,2), of i ts] assms(2,3)
  by (auto simp: episode_comments_def unwrap_or_def mem_store_def mem_get_comments_after_def)

lemma page_later:
  assumes "mem_inv s" "0 < limit" "limit \<le> 1000"
  shows "r \<in> set (page_through mem_store i limit k ts s) \<Longrightarrow> com_timestamp r > ts"
proof (induction k arbitrary: ts)
  case (Suc k)
  let ?rows = "take limit (filter (\<lambda>r. com_timestamp r > ts) (rows_of (map_of (mem_comments s)) i))"
  from Suc.prems consider "r \<in> set ?rows" | "?rows \<noteq> []" "r \<in> set (page_through mem_store i limit k (com_timestamp (last ?rows)) s)"
    by (auto simp: mem_page [OF assms] split: if_splits)
  then show ?case
  proof cases
    case 1
    then show ?thesis by (auto dest: in_set_takeD)
  next
    case 2
    have "com_timestamp (last ?rows) > ts" using last_in_set [OF 2(1)] by (auto dest: in_set_takeD)
    with Suc.IH [OF 2(2)] show ?thesis by auto
  qed
qed simp

text \<open>
  Paging loses comments. A client that goes on from the time of the last comment of a page never
  sees the next one when it has the same time, as comments of one block do: however many pages it reads.
\<close>
theorem paging_loses_comments:
  assumes "mem_inv s" and "limit \<le> 1000"
    and "filter (\<lambda>r. com_timestamp r > ts) (rows_of (map_of (mem_comments s)) i) = xs @ r1 # r2 # ys"
    and "limit = Suc (length xs)" and "com_timestamp r2 = com_timestamp r1"
  shows "r2 \<notin> set (page_through mem_store i limit k ts s)"
proof (cases k)
  case (Suc j)
  have "distinct (map com_id (rows_of (map_of (mem_comments s)) i))"
    using assms(1) by (simp add: rows_ids mem_inv_def)
  then have "distinct (xs @ r1 # r2 # ys)" unfolding assms(3) [symmetric] by (simp add: distinct_map)
  then have r2: "r2 \<notin> set (xs @ [r1])" by auto
  have pos: "0 < limit" using assms(4) by simp
  have "take limit (xs @ r1 # r2 # ys) = xs @ [r1]" using assms(4) by simp
  then have "page_through mem_store i limit k ts s = (xs @ [r1]) @ page_through mem_store i limit j (com_timestamp r1) s"
    using Suc by (simp add: mem_page [OF assms(1) pos assms(2)] assms(3))
  moreover have "r2 \<notin> set (page_through mem_store i limit j (com_timestamp r1) s)"
    using page_later [OF assms(1) pos assms(2), of r2 i j "com_timestamp r1"] assms(5) by auto
  ultimately show ?thesis using r2 by simp
qed simp

text \<open>
  Membership is answered from the thousand smallest episodes. The answer is true exactly for the
  episodes of the key that have less than a thousand of its other episodes before them.
\<close>
theorem index_me_bound:
  assumes "mem_inv s"
  shows "snd (index_me mem_store i p s) = Inr (i \<in> mem_members s p \<and> card {j \<in> mem_members s p. j < i} < 1000)"
proof -
  let ?M = "mem_members s p" and ?xs = "sorted_list_of_set (mem_members s p)"
  have fin: "finite ?M" by simp
  have "(i \<in> set (take 1000 ?xs)) = (i \<in> ?M \<and> card {j \<in> ?M. j < i} < 1000)"
  proof (cases "i \<in> ?M")
    case True
    then obtain n where n: "n < length ?xs" "?xs ! n = i" by (metis in_set_conv_nth set_sorted_list_of_set fin)
    have srt: "sorted_wrt (<) ?xs" by simp
    have "{j \<in> ?M. j < i} = set (take n ?xs)"
    proof (intro equalityI subsetI)
      fix j assume "j \<in> {j \<in> ?M. j < i}"
      then obtain m where m: "m < length ?xs" "?xs ! m = j" "j < i" by (metis (no_types, lifting) in_set_conv_nth mem_Collect_eq set_sorted_list_of_set fin)
      have "m < n" using srt n m by (metis linorder_neqE_nat order.asym order_less_irrefl sorted_wrt_nth_less)
      with m(1,2) show "j \<in> set (take n ?xs)" by (auto simp: in_set_conv_nth)
    next
      fix j assume "j \<in> set (take n ?xs)"
      then obtain m where m: "m < n" "?xs ! m = j" using n(1) by (auto simp: in_set_conv_nth)
      then have "j < i" using sorted_wrt_nth_less [OF srt m(1) n(1)] n(2) by simp
      moreover have "j \<in> set ?xs" using m n(1) by (metis nth_mem order.strict_trans)
      ultimately show "j \<in> {j \<in> ?M. j < i}" using fin by simp
    qed
    moreover have "card (set (take n ?xs)) = n" using n(1) by (simp add: distinct_card)
    moreover have "i \<in> set (take 1000 ?xs) \<longleftrightarrow> n < 1000"
    proof
      assume "i \<in> set (take 1000 ?xs)"
      then obtain m where "m < 1000" "m < length ?xs" "?xs ! m = i" by (auto simp: in_set_conv_nth)
      with n show "n < 1000" using distinct_sorted_list_of_set [of ?M] by (metis nth_eq_iff_index_eq)
    qed (use n in \<open>auto simp: in_set_conv_nth\<close>)
    ultimately show ?thesis using True by simp
  qed (use fin in \<open>auto dest: in_set_takeD\<close>)
  moreover have "snd (index_me mem_store i p s) = Inr (i \<in> set (take 1000 ?xs))"
    by (simp add: index_me_def mem_store_def mem_get_my_episodes_def mem_members_def split: option.split)
  ultimately show ?thesis by simp
qed

lemma bm_insert_map: "bm_insert k (f v) (map (\<lambda>e. (fst e, f (snd e))) m) = map (\<lambda>e. (fst e, f (snd e))) (bm_insert k v m)"
  by (induction m) auto

lemma bm_insert_size: "length (bm_insert k v m) \<le> Suc (length m)" "snd ` set (bm_insert k v m) \<subseteq> insert v (snd ` set m)"
  by (induction k v m rule: bm_insert.induct) auto

definition by_time :: "episode_row list \<Rightarrow> (u64, episode_row) bmap" where
  "by_time rows = fold (\<lambda>r. bm_insert (row_created r) r) rows []"

lemma by_time_bounds: "length (by_time rows) \<le> length rows \<and> snd ` set (by_time rows) \<subseteq> set rows"
proof (induction rows rule: rev_induct)
  case (snoc r rows)
  with bm_insert_size [of "row_created r" r "by_time rows"] show ?case by (auto simp: by_time_def)
qed (simp add: by_time_def)

lemma written_rows:
  assumes "distinct (map row_episode rows)" "S = fold (\<lambda>r s. fst (mem_upsert_episode r s)) rows mem_new"
  shows "mem_recent S = map (\<lambda>e. (fst e, row_episode (snd e))) (by_time rows)" "\<And>r. r \<in> set rows \<Longrightarrow> mem_episodes S (row_episode r) = Some r"
proof -
  have "mem_recent S = map (\<lambda>e. (fst e, row_episode (snd e))) (by_time rows) \<and> (\<forall>r \<in> set rows. mem_episodes S (row_episode r) = Some r)"
    using assms
  proof (induction rows arbitrary: S rule: rev_induct)
    case (snoc r rows)
    let ?S = "fold (\<lambda>r s. fst (mem_upsert_episode r s)) rows mem_new"
    have "mem_recent ?S = map (\<lambda>e. (fst e, row_episode (snd e))) (by_time rows)" "\<forall>r \<in> set rows. mem_episodes ?S (row_episode r) = Some r"
      using snoc.IH [OF _ refl] snoc.prems(1) by simp_all
    moreover have "\<forall>q \<in> set rows. row_episode q \<noteq> row_episode r" using snoc.prems(1) by (force simp: image_iff)
    ultimately show ?case
      by (auto simp: snoc.prems(2) mem_upsert_episode_def by_time_def bm_insert_map)
  qed (simp add: by_time_def mem_new_def)
  then show "mem_recent S = map (\<lambda>e. (fst e, row_episode (snd e))) (by_time rows)" "\<And>r. r \<in> set rows \<Longrightarrow> mem_episodes S (row_episode r) = Some r"
    by simp_all
qed

text \<open>
  One episode per time. The recent episodes of the store in memory are kept by their creation time, so of
  the episodes created at one time, as those of one block are, only the last one written is ever listed.
\<close>
theorem recent_one_per_time:
  assumes "distinct (map row_episode rows)" and "length rows \<le> n" and "0 < n"
  shows "snd (mem_get_recent n (fold (\<lambda>r s. fst (mem_upsert_episode r s)) rows mem_new)) =
    Inr (map snd (rev (by_time rows)))"
proof -
  define S where "S = fold (\<lambda>r s. fst (mem_upsert_episode r s)) rows mem_new"
  note w = written_rows [OF assms(1) S_def]
  have "List.map_filter (\<lambda>e. mem_episodes S (snd e)) (rev (mem_recent S)) = map (\<lambda>e. the (mem_episodes S (snd e))) (rev (mem_recent S))"
    using w by_time_bounds [of rows] by (intro map_filter_all) auto
  also have "\<dots> = map snd (rev (by_time rows))"
    using w(2) by_time_bounds [of rows] by (auto simp: w(1) rev_map)
  finally have "take_found n (\<lambda>e. mem_episodes S (snd e)) [] (rev (mem_recent S)) = take n (map snd (rev (by_time rows)))"
    using assms(3) by (simp add: take_found_eq)
  moreover have "length (map snd (rev (by_time rows))) \<le> n" using by_time_bounds [of rows] assms(2) by simp
  ultimately show ?thesis by (simp add: mem_get_recent_def flip: S_def)
qed

section \<open>Runs\<close>

text \<open>A database whose rows are lists of numbers in unary.\<close>

definition demo_rocks :: rocks_env where
  "demo_rocks = \<lparr>
     enc_episode = (\<lambda>r. enc_nats (0 # unat (row_episode r) # unat (row_created r) # row_authenticated r #
       (case row_creator r of None \<Rightarrow> [0] | Some t \<Rightarrow> 1 # map of_char t))),
     dec_episode = (\<lambda>b. case dec_nats 0 b of 0 # i # t # n # k # cs \<Rightarrow> Some \<lparr>row_episode = of_nat i,
         row_creator = (if k = 0 then None else Some (map char_of cs)), row_created = of_nat t, row_authenticated = n\<rparr> | _ \<Rightarrow> None),
     enc_comment = (\<lambda>r. enc_nats (1 # unat (com_episode r) # unat (com_id r) # unat (com_timestamp r) # length (com_author r) #
       map of_char (com_author r) @ map of_char (com_text r))),
     dec_comment = (\<lambda>b. case dec_nats 0 b of Suc 0 # i # c # t # n # cs \<Rightarrow> Some \<lparr>com_episode = of_nat i, com_id = of_nat c,
         com_author = map char_of (take n cs), com_text = map char_of (drop n cs), com_timestamp = of_nat t\<rparr> | _ \<Rightarrow> None),
     enc_ids = (\<lambda>ids. enc_nats (map unat ids)), dec_ids = (\<lambda>b. Some (map of_nat (dec_nats 0 b))),
     prefix_walk = (\<lambda>p t. map snd (filter (\<lambda>e. p \<le> fst e) t)), rk_fails = (\<lambda>_. False)\<rparr>"

lemma demo_rocks_lawful: "rk_lawful demo_rocks"
  by (simp add: rk_lawful_def demo_rocks_def dec_enc_nats comp_def split: option.split)

definition demo_decode :: "bytes \<Rightarrow> room_command episode_message option" where
  "demo_decode b = (if b = [1] then Some (NewEpisode 7 [PubKey [80]]) else None)"

abbreviation demo_index :: "'s store_trait \<Rightarrow> (room, room_command, room_rollback, room_error, 's) config" where
  "demo_index T \<equiv> index_config T auth_demo_env (ae_crypto auth_demo_env) (\<lambda>_. []) demo_decode"

lemma demo_index_run:
  "\<exists>e s wr. start (demo_index mem_store) [BlkAccepted [3] 5 10 [([2], [1], None)]] (new_engine, mem_new) = Some (e, s) \<and>
     episodes e 7 = Some wr \<and> creator (ew_episode wr) = Some (PubKey [80])"
proof -
  have "decode_msg (demo_index mem_store) [1] = Some (NewEpisode 7 [PubKey [80]])" by (simp add: index_config_def demo_decode_def)
  then show ?thesis
    by (simp add: Let_def new_engine_def filter_old_episodes_def SAMPLE_REMOVAL_TIME_def wrapper_initialize_def room_initialize_def)
qed

theorem index_follows_chain_witness:
  "\<exists>e s wr det. start (demo_index mem_store) [BlkAccepted [3] 5 10 [([2], [1], None)]] (new_engine, mem_new) = Some (e, s) \<and>
     episodes e 7 = Some wr \<and> snd (index_episode_snapshot mem_store (ucast (7 :: u32)) s) = Inr (Some det) \<and>
     row_creator (det_row det) = Some (pk_text auth_demo_env (PubKey [80]))"
proof -
  obtain e s wr where run: "start (demo_index mem_store) [BlkAccepted [3] 5 10 [([2], [1], None)]] (new_engine, mem_new) = Some (e, s)"
      "episodes e 7 = Some wr" "creator (ew_episode wr) = Some (PubKey [80])" using demo_index_run by blast
  from index_follows_chain [OF run(1,2)] run show ?thesis by auto
qed

theorem stores_compared_witness:
  "\<exists>e s t det det'. start (demo_index mem_store) [BlkAccepted [3] 5 10 [([2], [1], None)]] (new_engine, mem_new) = Some (e, s) \<and>
     start (demo_index (rocks_store demo_rocks)) [BlkAccepted [3] 5 10 [([2], [1], None)]] (new_engine, rk_new) = Some (e, t) \<and>
     snd (index_episode_snapshot mem_store 7 s) = Inr (Some det) \<and>
     snd (index_episode_snapshot (rocks_store demo_rocks) 7 t) = Inr (Some det') \<and> det_row det' = det_row det"
proof -
  obtain e s wr where run: "start (demo_index mem_store) [BlkAccepted [3] 5 10 [([2], [1], None)]] (new_engine, mem_new) = Some (e, s)"
      "episodes e 7 = Some wr"
    using demo_index_run by blast
  have "shown auth_demo_env (mem_episodes s) (map_of (mem_comments s)) (mem_members s) 7 (ew_episode wr)"
    using mem_index.watch.follows_engine [OF run(1) new_stores(1) _ run(2)] by (simp add: index_seen_def)
  then obtain row where "mem_episodes s 7 = Some row" by (auto simp: shown_def)
  with stores_compared [OF demo_rocks_lawful run(1)] run(1) show ?thesis by fastforce
qed

theorem comment_served_elsewhere_witness:
  "snd (rk_get_comments_after demo_rocks 7 0 1 (fst (rk_add_comment demo_rocks
     \<lparr>com_episode = 8, com_id = 1, com_author = ''ann'', com_text = ''hi'', com_timestamp = 5\<rparr> rk_new))) =
   Inr [\<lparr>com_episode = 8, com_id = 1, com_author = ''ann'', com_text = ''hi'', com_timestamp = 5\<rparr>]"
  by (rule comment_served_elsewhere [OF demo_rocks_lawful]) simp_all

definition demo_room :: "(room, room_rollback) wrapper" where
  "demo_room = \<lparr>ew_episode = (room_initialize [PubKey [80]] (auth_demo_meta 0))\<lparr>authenticated_participants := {pk_text auth_demo_env (PubKey [80])}\<rparr>,
     rollback_stack = []\<rparr>"

theorem reverted_comment_stays_witness:
  "\<exists>e1 s1 e2 s2 wr2 row. handle_message (demo_index mem_store) (SignedCommand 7 (RoomSubmitComment ''hi'' []) (PubKey [80]) (Sig [80])) (auth_demo_meta 9)
       (new_engine\<lparr>episodes := [7 \<mapsto> demo_room]\<rparr>, mem_new) = Some ((e1, s1), Some (7, auth_demo_meta 9)) \<and>
     handle_message (demo_index mem_store) (Revert 7) (auth_demo_meta 9) (e1, s1) = Some ((e2, s2), None) \<and>
     episodes e2 7 = Some wr2 \<and> room_comments (ew_episode wr2) = [] \<and> map_of (mem_comments s2) (7, 1) = Some row \<and> com_text row = ''hi''"
proof -
  let ?e = "new_engine\<lparr>episodes := [7 \<mapsto> demo_room]\<rparr>"
  have ex: "execute_signed (demo_index mem_store) demo_room (RoomSubmitComment ''hi'' []) (PubKey [80]) (Sig [80]) (auth_demo_meta 9) =
      Some (\<lparr>ew_episode = (ew_episode demo_room)\<lparr>room_comments := [\<lparr>rc_id = 1, rc_text = ''hi'', rc_author = pk_text auth_demo_env (PubKey [80]),
          rc_timestamp = 9\<rparr>], next_comment_id := 2\<rparr>, rollback_stack = [RoomUndoComment 1]\<rparr>, Inr ())"
    by (simp add: execute_signed_def demo_room_def room_initialize_def room_execute_def room_rate_limited_def room_comment_cmd_def Let_def
        ascii_ws_def ws2_def index_config_def verify_signature_def) (simp add: auth_demo_env_def)
  obtain e1 s1 where h1: "handle_message (demo_index mem_store) (SignedCommand 7 (RoomSubmitComment ''hi'' []) (PubKey [80]) (Sig [80])) (auth_demo_meta 9)
      (?e, mem_new) = Some ((e1, s1), Some (7, auth_demo_meta 9))"
      "episodes e1 7 = Some \<lparr>ew_episode = (ew_episode demo_room)\<lparr>room_comments := [\<lparr>rc_id = 1, rc_text = ''hi'', rc_author = pk_text auth_demo_env (PubKey [80]),
          rc_timestamp = 9\<rparr>], next_comment_id := 2\<rparr>, rollback_stack = [RoomUndoComment 1]\<rparr>"
    by (simp add: ex finish_command_def)
  obtain e2 s2 where h2: "handle_message (demo_index mem_store) (Revert 7) (auth_demo_meta 9) (e1, s1) = Some ((e2, s2), None)"
    using h1(2) by (simp add: wrapper_rollback_def room_rollback_cmd_def Let_def)
  have "episodes ?e 7 = Some demo_room" "next_comment_id (ew_episode demo_room) = 1" "room_comments (ew_episode demo_room) = []"
    by (simp_all add: demo_room_def room_initialize_def)
  with reverted_comment_stays [OF h1(1) h2 new_stores(1), of demo_room] h1(1) h2 show ?thesis by fastforce
qed

definition demo_row :: "u64 \<Rightarrow> comment_row" where
  "demo_row c = \<lparr>com_episode = 7, com_id = c, com_author = [], com_text = [], com_timestamp = 5\<rparr>"

definition demo_mem :: mem where
  "demo_mem = mem_new\<lparr>mem_comments := [((7, 1), demo_row 1), ((7, 2), demo_row 2)], mem_memberships := [''ann'' \<mapsto> {3, 7}]\<rparr>"

lemma demo_mem_inv: "mem_inv demo_mem"
  by (simp add: mem_inv_def demo_mem_def mem_new_def bm_wf_def keyed_def demo_row_def less_prod_def)

theorem paging_loses_comments_witness:
  "demo_row 2 \<in> set (rows_of (map_of (mem_comments demo_mem)) 7) \<and> demo_row 2 \<notin> set (page_through mem_store 7 1 50 0 demo_mem)"
proof -
  have "map snd (filter (\<lambda>e. fst (fst e) = 7) (mem_comments demo_mem)) = [demo_row 1, demo_row 2]" by (simp add: demo_mem_def)
  then have rows: "rows_of (map_of (mem_comments demo_mem)) 7 = [demo_row 1, demo_row 2]"
    using mem_rows [of "mem_comments demo_mem" 7] demo_mem_inv by (simp add: mem_inv_def)
  then have "filter (\<lambda>r. com_timestamp r > 0) (rows_of (map_of (mem_comments demo_mem)) 7) = [] @ demo_row 1 # demo_row 2 # []"
    by (simp add: demo_row_def)
  from paging_loses_comments [OF demo_mem_inv _ this, of 1 50] show ?thesis by (simp add: rows) (simp add: demo_row_def)
qed

theorem index_me_bound_witness: "snd (index_me mem_store 7 ''ann'' demo_mem) = Inr True \<and> snd (index_me mem_store 4 ''ann'' demo_mem) = Inr False"
proof -
  have "mem_members demo_mem ''ann'' = {3, 7}" by (simp add: mem_members_def demo_mem_def)
  moreover have "{j \<in> {3, 7 :: u64}. j < 7} = {3}" by auto
  ultimately show ?thesis using index_me_bound [OF demo_mem_inv, of 7 "''ann''"] index_me_bound [OF demo_mem_inv, of 4 "''ann''"] by simp
qed

theorem recent_one_per_time_witness:
  "snd (mem_get_recent 9 (fold (\<lambda>r s. fst (mem_upsert_episode r s))
      [\<lparr>row_episode = 1, row_creator = None, row_created = 5, row_authenticated = 0\<rparr>,
       \<lparr>row_episode = 2, row_creator = None, row_created = 5, row_authenticated = 0\<rparr>] mem_new)) =
    Inr [\<lparr>row_episode = 2, row_creator = None, row_created = 5, row_authenticated = 0\<rparr>]"
  by (subst recent_one_per_time) (simp_all add: by_time_def)

end
