(* ===== verification/Mcp_Game.thy ===== *)
theory Mcp_Game
  imports Engine_Watch
begin

text \<open>
  The game of the tool server (\<^verbatim>\<open>kdapp-mcp-server/src/state.rs\<close>): tic-tac-toe with numbered symbols and
  at most six of them on the board. A move is checked before its author. Unlike the game of
  \<^verbatim>\<open>tictactoe\<close> it restores everything on a rollback whatever the number of participants, so it meets the
  contract of the framework exactly.
\<close>

section \<open>State\<close>

datatype player = PlayerX | PlayerO

record mcp_game =
  mg_board :: "u8 list list"  \<comment> \<open>0 empty, 1 X, 2 O\<close>
  mg_current :: player
  mg_participants :: "pubkey list"
  mg_history :: "(u8 \<times> u8) list"  \<comment> \<open>oldest move first\<close>

datatype mcp_error = McpOutOfBounds | CellOccupied | WrongTurn

datatype ttt_command = Move (mv_row: u8) (mv_col: u8) (mv_player: u8)

record ttt_removed =
  rm_row :: u8
  rm_col :: u8
  rm_symbol :: u8

record mcp_rollback =
  mr_row :: u8
  mr_col :: u8
  mr_prev_player :: u8
  mr_removed :: "ttt_removed option"

section \<open>Operations\<close>

definition at_cell :: "u8 list list \<Rightarrow> u8 \<times> u8 \<Rightarrow> u8" where
  "at_cell b p = b ! unat (fst p) ! unat (snd p)"

definition put_cell :: "u8 list list \<Rightarrow> u8 \<times> u8 \<Rightarrow> u8 \<Rightarrow> u8 list list" where
  "put_cell b p v = b[unat (fst p) := (b ! unat (fst p))[unat (snd p) := v]]"

definition off_board :: "u8 \<times> u8 \<Rightarrow> bool" where
  "off_board p \<longleftrightarrow> fst p > 2 \<or> snd p > 2"

fun player_code :: "player \<Rightarrow> u8" where
  "player_code PlayerX = 0"
| "player_code PlayerO = 1"

definition mcp_initialize :: "pubkey list \<Rightarrow> metadata \<Rightarrow> mcp_game" where
  "mcp_initialize participants md =
     \<lparr>mg_board = replicate 3 (replicate 3 0), mg_current = PlayerX, mg_participants = participants, mg_history = []\<rparr>"

text \<open>The participant a player number stands for.\<close>

definition designated :: "mcp_game \<Rightarrow> u8 \<Rightarrow> pubkey option" where
  "designated g p =
     (let k = (if p = 0 then 0 else 1) in if k < length (mg_participants g) then Some (mg_participants g ! k) else None)"

text \<open>The sliding window; indexing the board outside would panic.\<close>

definition evict :: "mcp_game \<Rightarrow> (mcp_game \<times> ttt_removed option) option" where
  "evict g =
     (if length (mg_history g) = 6 then
        (case mg_history g of
           [] \<Rightarrow> Some (g, None)
         | old # rest \<Rightarrow>
             if off_board old then None
             else let g1 = g\<lparr>mg_history := rest\<rparr>; sym = at_cell (mg_board g) old
               in if sym \<noteq> 0
                  then Some (g1\<lparr>mg_board := put_cell (mg_board g) old 0\<rparr>,
                         Some \<lparr>rm_row = fst old, rm_col = snd old, rm_symbol = sym\<rparr>)
                  else Some (g1, None))
      else Some (g, None))"

fun mcp_execute ::
  "mcp_game \<Rightarrow> ttt_command \<Rightarrow> pubkey option \<Rightarrow> metadata \<Rightarrow> (mcp_game \<times> (mcp_error episode_error + mcp_rollback)) option" where
  "mcp_execute g (Move r c p) authorization md =
     (if off_board (r, c) then Some (g, Inl (InvalidCommand McpOutOfBounds))
      else if at_cell (mg_board g) (r, c) \<noteq> 0 then Some (g, Inl (InvalidCommand CellOccupied))
      else if p \<noteq> player_code (mg_current g) then Some (g, Inl (InvalidCommand WrongTurn))
      else case authorization of
        None \<Rightarrow> Some (g, Inl Unauthorized)
      | Some auth_pk \<Rightarrow>
          if designated g p \<noteq> Some auth_pk then Some (g, Inl Unauthorized)
          else map_option (\<lambda>(g1, removed).
              (g1\<lparr>mg_board := put_cell (mg_board g1) (r, c) (if p = 0 then 1 else 2),
                  mg_history := mg_history g1 @ [(r, c)],
                  mg_current := (if p = 0 then PlayerO else PlayerX)\<rparr>,
               Inr \<lparr>mr_row = r, mr_col = c, mr_prev_player = player_code (mg_current g), mr_removed = removed\<rparr>))
            (evict g))"

definition mcp_rollback_cmd :: "mcp_game \<Rightarrow> mcp_rollback \<Rightarrow> (mcp_game \<times> bool) option" where
  "mcp_rollback_cmd g rb =
     (let p = (mr_row rb, mr_col rb) in
      if off_board p then Some (g, False)
      else let g1 = g\<lparr>mg_board := put_cell (mg_board g) p 0, mg_history := butlast (mg_history g)\<rparr>;
               g2 = (case mr_removed rb of
                   None \<Rightarrow> g1
                 | Some rem \<Rightarrow>
                     let q = (rm_row rem, rm_col rem) in
                     if off_board q then g1
                     else g1\<lparr>mg_board := put_cell (mg_board g1) q (rm_symbol rem), mg_history := q # mg_history g1\<rparr>)
        in Some (g2\<lparr>mg_current := (if mr_prev_player rb = 0 then PlayerX else PlayerO)\<rparr>, True))"

definition mcp_episode :: "(mcp_game, ttt_command, mcp_rollback, mcp_error) episode_impl" where
  "mcp_episode = \<lparr>ep_initialize = mcp_initialize, ep_execute = mcp_execute, ep_rollback = mcp_rollback_cmd\<rparr>"

lemma mcp_episode_simps [simp]: "ep_initialize mcp_episode = mcp_initialize" "ep_execute mcp_episode = mcp_execute"
    "ep_rollback mcp_episode = mcp_rollback_cmd"
  by (simp_all add: mcp_episode_def)

section \<open>Cells\<close>

lemma three_cases: "\<not> off_board p \<Longrightarrow> unat (fst p) < 3 \<and> unat (snd p) < 3"
  by (auto simp: off_board_def word_less_nat_alt)

definition square :: "u8 list list \<Rightarrow> bool" where
  "square b \<longleftrightarrow> length b = 3 \<and> (\<forall>r < 3. length (b ! r) = 3)"

lemma square_put [simp]: "square b \<Longrightarrow> square (put_cell b p v)"
  by (cases "unat (fst p) < 3") (auto simp: square_def put_cell_def nth_list_update list_update_beyond)

lemma at_put [simp]:
  assumes "square b" "\<not> off_board p" shows "at_cell (put_cell b p v) q = (if q = p then v else at_cell b q)"
proof -
  have "unat (fst p) < length b" "unat (snd p) < length (b ! unat (fst p))"
    using assms three_cases [OF assms(2)] by (simp_all add: square_def)
  moreover have "q = p \<longleftrightarrow> unat (fst q) = unat (fst p) \<and> unat (snd q) = unat (snd p)"
    by (cases p; cases q) (auto simp: word_unat_eq_iff)
  ultimately show ?thesis by (auto simp: at_cell_def put_cell_def nth_list_update)
qed

lemma board_eqI:
  assumes "square b" "square b'" "\<And>p. \<not> off_board p \<Longrightarrow> at_cell b p = at_cell b' p"
  shows "b = b'"
proof (rule nth_equalityI)
  show "length b = length b'" using assms by (simp add: square_def)
  fix r assume r: "r < length b"
  show "b ! r = b' ! r"
  proof (rule nth_equalityI)
    show "length (b ! r) = length (b' ! r)" using assms r by (simp add: square_def)
    fix c assume "c < length (b ! r)"
    with assms(1) r have rc: "r < 3" "c < 3" by (simp_all add: square_def)
    then have u: "unat (of_nat r :: u8) = r" "unat (of_nat c :: u8) = c" by (simp_all add: unat_of_nat)
    then have "\<not> off_board (of_nat r, of_nat c)" using rc by (simp add: off_board_def word_less_nat_alt not_less)
    from assms(3) [OF this] show "b ! r ! c = b' ! r ! c" by (simp add: at_cell_def u)
  qed
qed

lemma put_back: "square b \<Longrightarrow> \<not> off_board p \<Longrightarrow> at_cell b p = v \<Longrightarrow> put_cell (put_cell b p w) p v = b"
  by (rule board_eqI) auto

section \<open>The contract\<close>

definition window :: "u8 list list \<Rightarrow> (u8 \<times> u8) list \<Rightarrow> bool" where
  "window b h \<longleftrightarrow> square b \<and> distinct h \<and> (\<forall>p \<in> set h. \<not> off_board p) \<and>
     (\<forall>p. \<not> off_board p \<longrightarrow> (at_cell b p \<noteq> 0 \<longleftrightarrow> p \<in> set h))"

lemma window_drop: "window b (old # h) \<Longrightarrow> window (put_cell b old 0) h"
  by (auto simp: window_def split: if_splits)

lemma window_place: "window b h \<Longrightarrow> \<not> off_board p \<Longrightarrow> at_cell b p = 0 \<Longrightarrow> v \<noteq> 0 \<Longrightarrow> window (put_cell b p v) (h @ [p])"
  by (cases p) (auto simp: window_def split: if_splits)

definition mcp_inv :: "mcp_game \<Rightarrow> bool" where
  "mcp_inv g \<longleftrightarrow> window (mg_board g) (mg_history g) \<and> length (mg_history g) \<le> 6"

lemma mcp_inv_init: "mcp_inv (mcp_initialize ps md)"
proof -
  have "at_cell (replicate 3 (replicate 3 0)) p = 0" if "\<not> off_board p" for p
    using three_cases [OF that] by (simp add: at_cell_def)
  then show ?thesis by (auto simp: mcp_inv_def window_def mcp_initialize_def square_def)
qed

lemma evict_cases:
  assumes "mcp_inv g"
  obtains (keep) "length (mg_history g) < 6" "evict g = Some (g, None)"
  | (drop) old rest where "mg_history g = old # rest" "length rest = 5" "\<not> off_board old" "at_cell (mg_board g) old \<noteq> 0"
      "evict g = Some (g\<lparr>mg_history := rest, mg_board := put_cell (mg_board g) old 0\<rparr>,
         Some \<lparr>rm_row = fst old, rm_col = snd old, rm_symbol = at_cell (mg_board g) old\<rparr>)"
proof (cases "length (mg_history g) = 6")
  case False
  with assms keep show ?thesis by (simp add: mcp_inv_def evict_def)
next
  case True
  then obtain old rest where h: "mg_history g = old # rest" "length rest = 5" by (cases "mg_history g") auto
  with assms have "window (mg_board g) (old # rest)" by (simp add: mcp_inv_def)
  then have "\<not> off_board old" "at_cell (mg_board g) old \<noteq> 0" unfolding window_def by (metis list.set_intros(1))+
  with h drop show ?thesis by (simp add: evict_def)
qed

text \<open>The accepted moves and the state after them.\<close>

lemma mcp_execute_ok:
  assumes "mcp_inv g"
  shows "(\<exists>g' rb. mcp_execute g (Move r c p) a md = Some (g', Inr rb)) \<longleftrightarrow>
    \<not> off_board (r, c) \<and> at_cell (mg_board g) (r, c) = 0 \<and> p = player_code (mg_current g) \<and> a \<noteq> None \<and> designated g p = a"
  using assms by (cases rule: evict_cases) (auto split: option.split)

lemma mcp_execute_total: "mcp_inv g \<Longrightarrow> mcp_execute g cmd a md \<noteq> None"
  by (erule evict_cases; cases cmd) (auto split: option.split)

lemma mcp_execute_err: "mcp_execute g cmd a md = Some (g', Inl e) \<Longrightarrow> g' = g"
  by (cases cmd) (auto split: if_splits option.splits)

lemma mcp_execute_fields:
  assumes "mcp_execute g cmd a md = Some (g', Inr rb)"
  shows "mg_participants g' = mg_participants g \<and> mg_current g' = (if mg_current g = PlayerX then PlayerO else PlayerX)"
proof -
  obtain r c p where [simp]: "cmd = Move r c p" by (cases cmd)
  have "mg_participants g1 = mg_participants g" if "evict g = Some (g1, x)" for g1 x
    using that by (auto simp: evict_def Let_def split: if_splits list.splits)
  with assms show ?thesis
    by (cases "mg_current g") (auto split: if_splits option.splits)
qed

lemma mcp_execute_effect:
  assumes "mcp_inv g" "mcp_execute g (Move r c p) a md = Some (g', Inr rb)"
  shows "at_cell (mg_board g') (r, c) = p + 1 \<and> last (mg_history g') = (r, c) \<and> player_code (mg_current g') = 1 - p"
proof -
  have ok: "\<not> off_board (r, c)" "p = player_code (mg_current g)" "square (mg_board g)"
    using mcp_execute_ok [OF assms(1), of r c p a md] assms by (auto simp: mcp_inv_def window_def)
  from assms(1) show ?thesis
    by (cases rule: evict_cases; cases "mg_current g") (use assms(2) ok in \<open>auto split: if_splits option.splits\<close>)
qed

lemma mcp_inv_execute:
  assumes "mcp_inv g" "mcp_execute g cmd a md = Some (g', Inr rb)"
  shows "mcp_inv g'"
proof -
  obtain r c p where cmd: "cmd = Move r c p" by (cases cmd)
  have ok: "\<not> off_board (r, c)" "at_cell (mg_board g) (r, c) = 0" "p = player_code (mg_current g)" "a \<noteq> None" "designated g p = a"
    using mcp_execute_ok [OF assms(1), of r c p a md] assms(2) by (auto simp: cmd)
  have w: "window (mg_board g) (mg_history g)" using assms(1) by (simp add: mcp_inv_def)
  from assms(1) show ?thesis
  proof (cases rule: evict_cases)
    case keep
    with window_place [OF w ok(1,2)] assms(2) ok show ?thesis by (auto simp: cmd mcp_inv_def split: option.splits)
  next
    case (drop old rest)
    then have "window (put_cell (mg_board g) old 0) rest" using w window_drop by metis
    moreover have "at_cell (put_cell (mg_board g) old 0) (r, c) = 0"
      using w ok(2) drop(3) by (simp add: window_def)
    ultimately show ?thesis using window_place [OF _ ok(1)] drop assms(2) ok by (auto simp: cmd mcp_inv_def split: option.splits)
  qed
qed

lemma mcp_rollback_execute:
  assumes "mcp_inv g" "mcp_execute g cmd a md = Some (g', Inr rb)"
  shows "mcp_rollback_cmd g' rb = Some (g, True)"
proof -
  obtain r c p where cmd: "cmd = Move r c p" by (cases cmd)
  have ok: "\<not> off_board (r, c)" "at_cell (mg_board g) (r, c) = 0" "p = player_code (mg_current g)" "a \<noteq> None" "designated g p = a"
    using mcp_execute_ok [OF assms(1), of r c p a md] assms(2) by (auto simp: cmd)
  have sq: "square (mg_board g)" using assms(1) by (simp add: mcp_inv_def window_def)
  have cur: "(if player_code (mg_current g) = 0 then PlayerX else PlayerO) = mg_current g" by (cases "mg_current g") auto
  from assms(1) show ?thesis
  proof (cases rule: evict_cases)
    case keep
    with assms(2) ok cur show ?thesis
      by (auto simp: cmd mcp_rollback_cmd_def Let_def put_back [OF sq] split: option.splits)
  next
    case (drop old rest)
    have "old \<noteq> (r, c)" using drop(4) ok(2) by auto
    then have "put_cell (put_cell (put_cell (put_cell (mg_board g) old 0) (r, c) v) (r, c) 0) old (at_cell (mg_board g) old) = mg_board g" for v
      using sq ok(1,2) drop(3) by (intro board_eqI) auto
    with assms(2) ok cur drop show ?thesis
      by (auto simp: cmd mcp_rollback_cmd_def Let_def split: option.splits)
  qed
qed

interpretation mcp: exact_episode_contract mcp_episode mcp_inv "\<lambda>_. True"
proof (unfold_locales, goal_cases)
  case (8 g c a md g' r g1)
  then show ?case by (simp add: mcp_rollback_execute)
qed (auto simp: mcp_inv_init mcp_execute_total mcp_inv_execute dest: mcp_execute_err)

end
