(* ===== verification/Mcp_Server.thy ===== *)
theory Mcp_Server
  imports Mcp_Game Json
begin

text \<open>
  The tool server (\<^verbatim>\<open>kdapp-mcp-server/src\<close>): an engine of its own on a channel, the event handler that
  mirrors its games into a shared map and into files, the tools, and the JSON-RPC loop in front of them.
  The node, the files that cannot be written, random ids, the text forms of \<^verbatim>\<open>serde_json\<close> and the
  libraries behind keys and transactions are parameters or arguments. \<^const>\<open>None\<close> is a panic of the server.
\<close>

section \<open>Text\<close>

definition ascii_upper :: "string \<Rightarrow> string" where
  "ascii_upper = map (\<lambda>c. let n = (of_char c :: nat) in if 97 \<le> n \<and> n \<le> 122 then char_of (n - 32) else c)"

section \<open>Games shown and stored\<close>

record ttt_snapshot =
  ts_board :: "u8 list list"
  ts_current :: char
  ts_participants :: nat

record mcp_world =
  mw_out :: "episode_id \<rightharpoonup> ttt_snapshot"
  mw_files :: "string \<rightharpoonup> string"
  mw_log :: "string list"
  mw_access :: nat

record mcp_env =
  me_crypto :: crypto
  me_tx :: tx_env
  me_hex_decode :: "string \<Rightarrow> bytes option"
  me_hex_encode :: "bytes \<Rightarrow> string"
  me_pk_of :: "bytes \<Rightarrow> pubkey option"  \<comment> \<open>\<^verbatim>\<open>PublicKey::from_slice\<close>\<close>
  me_enc_cmd :: "ttt_command \<Rightarrow> bytes"
  me_enc :: "ttt_command episode_message \<Rightarrow> bytes"
  me_dec :: "bytes \<Rightarrow> ttt_command episode_message option"
  me_script :: "pubkey \<Rightarrow> bytes"
  me_show_hash :: "hash \<Rightarrow> string"
  me_debug :: "transaction \<Rightarrow> string"
  me_snap_text :: "ttt_snapshot \<Rightarrow> string"
  me_snap_parse :: "string \<Rightarrow> ttt_snapshot option"
  me_event_line :: "nat \<Rightarrow> episode_id \<Rightarrow> string \<Rightarrow> ttt_snapshot \<Rightarrow> string"
  me_fails :: "nat \<Rightarrow> bool"                    \<comment> \<open>whether the access to the disk fails\<close>
  me_torn :: "nat \<Rightarrow> string option \<Rightarrow> string option"  \<comment> \<open>what a failing write leaves of a file\<close>

definition symbol :: "player \<Rightarrow> char" where
  "symbol p = (case p of PlayerX \<Rightarrow> CHR ''X'' | PlayerO \<Rightarrow> CHR ''O'')"

definition mcp_snapshot :: "char \<Rightarrow> mcp_game \<Rightarrow> ttt_snapshot" where
  "mcp_snapshot c g = \<lparr>ts_board = mg_board g, ts_current = c, ts_participants = length (mg_participants g)\<rparr>"

definition snap_file :: "episode_id \<Rightarrow> string" where
  "snap_file i = show_nat (unat i) @ ''.json''"

text \<open>Directory, file and log: a failure of the first ends the attempt, the others are independent.\<close>

definition persist_snapshot :: "mcp_env \<Rightarrow> episode_id \<Rightarrow> ttt_snapshot \<Rightarrow> string \<Rightarrow> mcp_world \<Rightarrow> mcp_world" where
  "persist_snapshot env i snap event w =
     (let k = mw_access w; path = snap_file i in
      if me_fails env k then w\<lparr>mw_access := k + 1\<rparr>
      else let w1 = w\<lparr>mw_access := k + 3,
               mw_files := (mw_files w)(path := (if me_fails env (k + 1) then me_torn env (k + 1) (mw_files w path)
                 else Some (me_snap_text env snap)))\<rparr>
        in if me_fails env (k + 2) then w1
           else w1\<lparr>mw_log := mw_log w @ [me_event_line env (k + 2) i event snap]\<rparr>)"

definition mirror_snapshot :: "mcp_env \<Rightarrow> episode_id \<Rightarrow> ttt_snapshot \<Rightarrow> string \<Rightarrow> mcp_world \<Rightarrow> mcp_world" where
  "mirror_snapshot env i snap event w = persist_snapshot env i snap event (w\<lparr>mw_out := (mw_out w)(i \<mapsto> snap)\<rparr>)"

fun ttt_event_handler :: "mcp_env \<Rightarrow> (mcp_game, ttt_command) episode_event \<Rightarrow> mcp_world \<Rightarrow> mcp_world" where
  "ttt_event_handler env (OnInitialize i g) w = mirror_snapshot env i (mcp_snapshot (CHR ''X'') g) ''initialize'' w"
| "ttt_event_handler env (OnCommand i g c a md) w = mirror_snapshot env i (mcp_snapshot (symbol (mg_current g)) g) ''command'' w"
| "ttt_event_handler env (OnRollback i g) w = mirror_snapshot env i (mcp_snapshot (symbol (mg_current g)) g) ''rollback'' w"

definition mcp_config :: "mcp_env \<Rightarrow> (mcp_game, ttt_command, mcp_rollback, mcp_error, mcp_world) config" where
  "mcp_config env = \<lparr>cfg_ep = mcp_episode, cfg_crypto = me_crypto env, cmd_bytes = me_enc_cmd env, decode_msg = me_dec env,
     handlers = [ttt_event_handler env]\<rparr>"

section \<open>The server\<close>

text \<open>File names as \<^verbatim>\<open>Path::extension\<close> and \<^verbatim>\<open>file_stem\<close> split them, ids as \<^verbatim>\<open>str::parse::<u32>\<close> reads them.\<close>

definition split_ext :: "string \<Rightarrow> string \<times> string option" where
  "split_ext name =
     (let ext = rev (takeWhile (\<lambda>c. c \<noteq> CHR ''.'') (rev name)); stem = take (length name - length ext - 1) name
      in if length ext = length name \<or> stem = [] then (name, None) else (stem, Some ext))"

definition parse_id :: "string \<Rightarrow> episode_id option" where
  "parse_id s = (case parse_u64 s of Some n \<Rightarrow> if n < 2 ^ 32 then Some (ucast n) else None | None \<Rightarrow> None)"

fun preload :: "mcp_env \<Rightarrow> (string \<rightharpoonup> string) \<Rightarrow> string list \<Rightarrow> (episode_id \<rightharpoonup> ttt_snapshot) \<Rightarrow> (episode_id \<rightharpoonup> ttt_snapshot)" where
  "preload env fs [] m = m"
| "preload env fs (name # names) m =
     preload env fs names
       (case split_ext name of
          (stem, Some ext) \<Rightarrow>
            (if ext = ''json'' then
               (case (parse_id stem, Option.bind (fs name) (me_snap_parse env)) of
                  (Some i, Some snap) \<Rightarrow> m(i \<mapsto> snap)
                | _ \<Rightarrow> m)
             else m)
        | _ \<Rightarrow> m)"

record agent_wallet =
  aw_secret :: bytes
  aw_public :: pubkey
  aw_created :: bool

record mcp_server =
  ms_queue :: "engine_msg list"
  ms_engine :: "(mcp_game, mcp_rollback) engine option"  \<comment> \<open>\<^const>\<open>None\<close> when its thread has ended\<close>
  ms_world :: mcp_world
  ms_agent1 :: agent_wallet
  ms_agent2 :: agent_wallet
  ms_node :: bool
  ms_submitted :: "transaction list"  \<comment> \<open>what the node has taken\<close>

text \<open>\<open>names\<close> is the listing of the directory, in the order of the system (none when it cannot be read).\<close>

definition server_new :: "mcp_env \<Rightarrow> string list \<Rightarrow> mcp_world \<Rightarrow> agent_wallet \<Rightarrow> agent_wallet \<Rightarrow> bool \<Rightarrow> mcp_server" where
  "server_new env names w a1 a2 node =
     \<lparr>ms_queue = [], ms_engine = Some new_engine, ms_world = w\<lparr>mw_out := preload env (mw_files w) names Map.empty\<rparr>,
      ms_agent1 = a1, ms_agent2 = a2, ms_node = node, ms_submitted = []\<rparr>"

text \<open>The thread of the engine takes the next message.\<close>

definition engine_turn :: "mcp_env \<Rightarrow> mcp_server \<Rightarrow> mcp_server" where
  "engine_turn env s =
     (case (ms_engine s, ms_queue s) of
        (Some e, m # ms) \<Rightarrow>
          (case engine_step (mcp_config env) m (e, ms_world s) of
             None \<Rightarrow> s\<lparr>ms_engine := None, ms_queue := ms\<rparr>
           | Some (e', w') \<Rightarrow> s\<lparr>ms_engine := (if m = Exit then None else Some e'), ms_world := w', ms_queue := ms\<rparr>)
      | _ \<Rightarrow> s)"

section \<open>Tools\<close>

datatype tool_error =
    InvalidEpisodeId string | InvalidMoveParameters | UnsupportedCommand | SendFailed | EpisodeNotFound
  | NodeUnavailable | NoUtxosForSigner | NodeError string

definition send_engine :: "engine_msg \<Rightarrow> mcp_server \<Rightarrow> mcp_server \<times> (tool_error + unit)" where
  "send_engine m s = (if ms_engine s = None then (s, Inl SendFailed) else (s\<lparr>ms_queue := ms_queue s @ [m]\<rparr>, Inr ()))"

text \<open>A message of a tool as a block of its own, at the time and score 0.\<close>

definition local_block :: "mcp_env \<Rightarrow> ttt_command episode_message \<Rightarrow> engine_msg" where
  "local_block env msg = BlkAccepted default_hash 0 0 [(default_hash, me_enc env msg, None)]"

text \<open>Participants that cannot be read are left out; \<open>r\<close> is the random id.\<close>

definition start_episode :: "mcp_env \<Rightarrow> u32 \<Rightarrow> string list \<Rightarrow> mcp_server \<Rightarrow> mcp_server \<times> (tool_error + string)" where
  "start_episode env r participants s =
     (let pubkeys = List.map_filter (\<lambda>p. Option.bind (me_hex_decode env p) (me_pk_of env)) participants
      in case send_engine (local_block env (NewEpisode r pubkeys)) s of
           (s1, Inl e) \<Rightarrow> (s1, Inl e)
         | (s1, Inr _) \<Rightarrow> (s1, Inr (show_nat (unat r))))"

definition player_arg :: "json \<Rightarrow> u8" where
  "player_arg command =
     (case json_get ''player'' command of
        Some (JStr t) \<Rightarrow> if ascii_upper t = ''X'' then 0 else if ascii_upper t = ''O'' then 1 else 255
      | Some (JInt n) \<Rightarrow> if 0 \<le> n then of_int n else 255
      | _ \<Rightarrow> 255)"

definition coord_arg :: "string \<Rightarrow> json \<Rightarrow> int" where
  "coord_arg k command = (case Option.bind (json_get k command) as_i64 of Some n \<Rightarrow> n | None \<Rightarrow> - 1)"

definition parse_command :: "json \<Rightarrow> tool_error + ttt_command" where
  "parse_command command =
     (if get_str ''type'' command = Some ''move'' then
        (let r = coord_arg ''row'' command; c = coord_arg ''col'' command; p = player_arg command
         in if \<not> (0 \<le> r \<and> r \<le> 2) \<or> \<not> (0 \<le> c \<and> c \<le> 2) \<or> p > 1 then Inl InvalidMoveParameters
            else Inr (Move (of_int r) (of_int c) p))
      else Inl UnsupportedCommand)"

definition signer_wallet :: "string option \<Rightarrow> mcp_server \<Rightarrow> agent_wallet" where
  "signer_wallet signer s = (if signer = Some ''agent2'' then ms_agent2 s else ms_agent1 s)"

definition MCP_PATTERN :: pattern where "MCP_PATTERN = replicate 10 (0, 0)"
definition MCP_PREFIX :: prefix where "MCP_PREFIX = 0x12345678"
definition MCP_FEE :: u64 where "MCP_FEE = 2000"

definition mcp_generator :: generator where
  "mcp_generator = \<lparr>gen_pattern = MCP_PATTERN, gen_prefix = MCP_PREFIX\<rparr>"

record node_view =
  nv_utxos :: "pubkey \<Rightarrow> string + (outpoint \<times> utxo_entry) list"
  nv_submit :: "transaction \<Rightarrow> string + unit"

text \<open>Without an output, or when the node refuses, nothing is submitted and the tool goes on.\<close>

definition try_submit ::
  "mcp_env \<Rightarrow> node_view \<Rightarrow> agent_wallet \<Rightarrow> bytes \<Rightarrow> mcp_server \<Rightarrow> (mcp_server \<times> json option) option" where
  "try_submit env nv wl payload s =
     (if \<not> ms_node s then Some (s, None)
      else case nv_utxos nv (aw_public wl) of
        Inl _ \<Rightarrow> Some (s, None)
      | Inr [] \<Rightarrow> Some (s, None)
      | Inr (u # _) \<Rightarrow>
          map_option (\<lambda>tx.
              case nv_submit nv tx of
                Inl _ \<Rightarrow> (s, None)
              | Inr _ \<Rightarrow>
                  (s\<lparr>ms_submitted := ms_submitted s @ [tx]\<rparr>,
                   Some (JObj [(''txid'', JStr (me_show_hash env (id_of (me_tx env) tx))),
                     (''explorer_url'', JStr (''https://explorer-tn10.kaspa.org/txs/'' @ me_show_hash env (id_of (me_tx env) tx)))])))
            (build_command_transaction (me_tx env) mcp_generator u (me_script env (aw_public wl)) payload MCP_FEE))"

text \<open>The engine gets the signed command in any case; the given signature is ignored.\<close>

definition execute_command ::
  "mcp_env \<Rightarrow> node_view \<Rightarrow> string \<Rightarrow> json \<Rightarrow> string option \<Rightarrow> mcp_server \<Rightarrow> (mcp_server \<times> (tool_error + json)) option" where
  "execute_command env nv episode_id command signer s =
     (case parse_id episode_id of
        None \<Rightarrow> Some (s, Inl (InvalidEpisodeId episode_id))
      | Some i \<Rightarrow>
          (case parse_command command of
             Inl e \<Rightarrow> Some (s, Inl e)
           | Inr cmd \<Rightarrow>
               let wl = signer_wallet signer s;
                   signed = new_signed_command (mcp_config env) i cmd (aw_secret wl) (aw_public wl)
               in map_option (\<lambda>(s1, tx).
                    case send_engine (local_block env signed) s1 of
                      (s2, Inl e) \<Rightarrow> (s2, Inl e)
                    | (s2, Inr _) \<Rightarrow> (s2, Inr (case tx of Some v \<Rightarrow> v | None \<Rightarrow> JNull)))
                  (try_submit env nv wl (me_enc env signed) s)))"

definition snap_json :: "ttt_snapshot \<Rightarrow> json" where
  "snap_json sn = JObj [(''board'', JArr (map (\<lambda>r. JArr (map (\<lambda>v. JInt (uint v)) r)) (ts_board sn))),
     (''current'', JStr [ts_current sn]), (''participants'', JInt (int (ts_participants sn)))]"

definition mcp_episode_state :: "string \<Rightarrow> mcp_server \<Rightarrow> tool_error + json" where
  "mcp_episode_state episode_id s =
     (case parse_id episode_id of
        None \<Rightarrow> Inl (InvalidEpisodeId episode_id)
      | Some i \<Rightarrow> (case mw_out (ms_world s) i of Some sn \<Rightarrow> Inr (snap_json sn) | None \<Rightarrow> Inl EpisodeNotFound))"

text \<open>A transaction that is not submitted, over an output that does not exist, whatever the command.\<close>

definition generate_transaction :: "mcp_env \<Rightarrow> u32 \<Rightarrow> mcp_server \<Rightarrow> json option" where
  "generate_transaction env r s =
     (let wl = ms_agent1 s; spk = me_script env (aw_public wl)
      in map_option (\<lambda>tx. JObj [(''tx_id'', JStr (me_show_hash env (id_of (me_tx env) tx))), (''transaction'', JStr (me_debug env tx))])
           (build_command_transaction (me_tx env) mcp_generator
             (\<lparr>op_txid = default_hash, op_index = 0\<rparr>, \<lparr>utxo_amount = 100000000, utxo_script = spk\<rparr>) spk
             (me_enc env (UnsignedCommand r (Move 0 0 0))) MCP_FEE))"

text \<open>Only to the chain: the engine of the server does not get the command.\<close>

definition submit_command_tx ::
  "mcp_env \<Rightarrow> node_view \<Rightarrow> string \<Rightarrow> json \<Rightarrow> string option \<Rightarrow> mcp_server \<Rightarrow> (mcp_server \<times> (tool_error + json)) option" where
  "submit_command_tx env nv episode_id command signer s =
     (case parse_id episode_id of
        None \<Rightarrow> Some (s, Inl (InvalidEpisodeId episode_id))
      | Some i \<Rightarrow>
          (case parse_command command of
             Inl e \<Rightarrow> Some (s, Inl e)
           | Inr cmd \<Rightarrow>
               let wl = signer_wallet signer s;
                   signed = new_signed_command (mcp_config env) i cmd (aw_secret wl) (aw_public wl)
               in if \<not> ms_node s then Some (s, Inl NodeUnavailable)
                  else case nv_utxos nv (aw_public wl) of
                    Inl e \<Rightarrow> Some (s, Inl (NodeError e))
                  | Inr [] \<Rightarrow> Some (s, Inl NoUtxosForSigner)
                  | Inr (u # _) \<Rightarrow>
                      map_option (\<lambda>tx.
                          case nv_submit nv tx of
                            Inl e \<Rightarrow> (s, Inl (NodeError e))
                          | Inr _ \<Rightarrow> (s\<lparr>ms_submitted := ms_submitted s @ [tx]\<rparr>,
                              Inr (JObj [(''txid'', JStr (me_show_hash env (id_of (me_tx env) tx)))])))
                        (build_command_transaction (me_tx env) mcp_generator u (me_script env (aw_public wl)) (me_enc env signed) MCP_FEE)))"

definition get_agent_pubkeys :: "mcp_env \<Rightarrow> mcp_server \<Rightarrow> json" where
  "get_agent_pubkeys env s =
     JObj [(''agent1_pubkey'', JStr (me_hex_encode env (pk_bytes (aw_public (ms_agent1 s))))),
       (''agent2_pubkey'', JStr (me_hex_encode env (pk_bytes (aw_public (ms_agent2 s)))))]"

section \<open>JSON-RPC\<close>

record rpc_request =
  rq_id :: "json option"
  rq_method :: string
  rq_params :: "json option"

record rpc_error =
  re_code :: int
  re_message :: string
  re_data :: "json option"

record rpc_response =
  rs_id :: "json option"
  rs_result :: "json option"
  rs_error :: "rpc_error option"

definition rpc_success :: "json option \<Rightarrow> json \<Rightarrow> rpc_response" where
  "rpc_success i v = \<lparr>rs_id = i, rs_result = Some v, rs_error = None\<rparr>"

definition rpc_failure :: "json option \<Rightarrow> int \<Rightarrow> string \<Rightarrow> json option \<Rightarrow> rpc_response" where
  "rpc_failure i code message dat = \<lparr>rs_id = i, rs_result = None, rs_error = Some \<lparr>re_code = code, re_message = message, re_data = dat\<rparr>\<rparr>"

definition str_type :: "string \<Rightarrow> json" where "str_type t = JObj [(''type'', JStr t)]"

definition tool_entry :: "string \<Rightarrow> string \<Rightarrow> (string \<times> json) list \<Rightarrow> string list option \<Rightarrow> json" where
  "tool_entry name description props required =
     JObj [(''name'', JStr name), (''description'', JStr description),
       (''inputSchema'', JObj ([(''type'', JStr ''object''), (''properties'', JObj props)] @
          (case required of None \<Rightarrow> [] | Some ks \<Rightarrow> [(''required'', JArr (map JStr ks))])))]"

definition tools_table :: "json list" where
  "tools_table =
     [tool_entry ''kdapp_start_episode'' ''Start a new episode with the given participants''
        [(''participants'', JObj [(''type'', JStr ''array''), (''items'', str_type ''string'')])] (Some [''participants'']),
      tool_entry ''kdapp_execute_command'' ''Execute a command in the specified episode''
        [(''episode_id'', str_type ''string''), (''command'', str_type ''object''), (''signature'', str_type ''string''),
         (''signer'', str_type ''string'')] (Some [''episode_id'', ''command'']),
      tool_entry ''kdapp_get_episode_state'' ''Get the state of the specified episode''
        [(''episode_id'', str_type ''string'')] (Some [''episode_id'']),
      tool_entry ''kdapp_generate_transaction'' ''Generate a transaction from the given command''
        [(''command'', str_type ''object'')] (Some [''command'']),
      tool_entry ''kdapp_submit_command_tx'' ''Build and submit an on-chain transaction for a signed command''
        [(''episode_id'', str_type ''string''), (''command'', str_type ''object''), (''signer'', str_type ''string'')]
        (Some [''episode_id'', ''command'']),
      tool_entry ''kdapp_get_agent_pubkeys'' ''Return the server agent public keys (hex)'' [] None]"

definition handle_tools_list :: "rpc_request \<Rightarrow> rpc_response" where
  "handle_tools_list rq = rpc_success (rq_id rq) (JArr tools_table)"

definition str_or_empty :: "string \<Rightarrow> json \<Rightarrow> string" where
  "str_or_empty k args = (case get_str k args of Some t \<Rightarrow> t | None \<Rightarrow> [])"

definition command_of :: "json \<Rightarrow> json" where
  "command_of args = (case json_get ''command'' args of Some c \<Rightarrow> c | None \<Rightarrow> JObj [])"

definition participants_of :: "json \<Rightarrow> string list" where
  "participants_of args =
     (case json_get ''participants'' args of
        Some (JArr xs) \<Rightarrow> map (\<lambda>p. case as_str p of Some t \<Rightarrow> t | None \<Rightarrow> []) xs
      | _ \<Rightarrow> [])"

text \<open>One tool; the outer \<^const>\<open>None\<close> is a panic, the inner one an unknown name.\<close>

definition run_tool ::
  "mcp_env \<Rightarrow> node_view \<Rightarrow> u32 \<Rightarrow> string \<Rightarrow> json \<Rightarrow> mcp_server \<Rightarrow> (mcp_server \<times> (tool_error + json) option) option" where
  "run_tool env nv r name args s =
     (if name = ''kdapp_start_episode'' then
        (case start_episode env r (participants_of args) s of
           (s1, Inl e) \<Rightarrow> Some (s1, Some (Inl e))
         | (s1, Inr t) \<Rightarrow> Some (s1, Some (Inr (JStr t))))
      else if name = ''kdapp_execute_command'' then
        map_option (map_prod id Some) (execute_command env nv (str_or_empty ''episode_id'' args) (command_of args) (get_str ''signer'' args) s)
      else if name = ''kdapp_get_episode_state'' then
        Some (s, Some (mcp_episode_state (str_or_empty ''episode_id'' args) s))
      else if name = ''kdapp_generate_transaction'' then
        map_option (\<lambda>v. (s, Some (Inr v))) (generate_transaction env r s)
      else if name = ''kdapp_submit_command_tx'' then
        map_option (map_prod id Some) (submit_command_tx env nv (str_or_empty ''episode_id'' args) (command_of args) (get_str ''signer'' args) s)
      else if name = ''kdapp_get_agent_pubkeys'' then Some (s, Some (Inr (get_agent_pubkeys env s)))
      else Some (s, None))"

text \<open>\<open>show_error\<close> is the text of an error.\<close>

definition handle_tools_call ::
  "mcp_env \<Rightarrow> (tool_error \<Rightarrow> string) \<Rightarrow> node_view \<Rightarrow> u32 \<Rightarrow> rpc_request \<Rightarrow> mcp_server \<Rightarrow> (mcp_server \<times> rpc_response) option" where
  "handle_tools_call env show_error nv r rq s =
     (case rq_params rq of
        None \<Rightarrow> Some (s, rpc_failure (rq_id rq) (- 32602) ''Invalid params'' (Some (JStr ''Missing params'')))
      | Some params \<Rightarrow>
          (case get_str ''name'' params of
             None \<Rightarrow> Some (s, rpc_failure (rq_id rq) (- 32602) ''Invalid params'' (Some (JStr ''Missing tool name'')))
           | Some name \<Rightarrow>
               map_option (\<lambda>(s1, res). (s1,
                   case res of
                     None \<Rightarrow> rpc_failure (rq_id rq) (- 32601) ''Tool not found'' None
                   | Some (Inl e) \<Rightarrow> rpc_failure (rq_id rq) (- 32000) ''Tool execution error'' (Some (JStr (show_error e)))
                   | Some (Inr v) \<Rightarrow> rpc_success (rq_id rq) v))
                 (run_tool env nv r name (case json_get ''arguments'' params of Some a \<Rightarrow> a | None \<Rightarrow> JObj []) s)))"

text \<open>\<open>parse\<close> is \<^verbatim>\<open>serde_json::from_str\<close> with the text of its error.\<close>

definition mcp_process_request ::
  "mcp_env \<Rightarrow> (tool_error \<Rightarrow> string) \<Rightarrow> (string \<Rightarrow> string + rpc_request) \<Rightarrow> node_view \<Rightarrow> u32 \<Rightarrow> string \<Rightarrow> mcp_server \<Rightarrow>
     (mcp_server \<times> rpc_response) option" where
  "mcp_process_request env show_error parse nv r line s =
     (case parse line of
        Inl e \<Rightarrow> Some (s, rpc_failure None (- 32700) ''Parse error'' (Some (JStr e)))
      | Inr rq \<Rightarrow>
          if rq_method rq = ''tools/list'' then Some (s, handle_tools_list rq)
          else if rq_method rq = ''tools/call'' then handle_tools_call env show_error nv r rq s
          else Some (s, rpc_failure (rq_id rq) (- 32601) ''Method not found'' None))"

text \<open>
  A run of the server: lines of standard input, each with what node and random generator give, in any
  order with the turns of the engine's thread. The responses are written in the order of the lines.
\<close>

datatype mcp_event = Line string node_view u32 | Turn

fun mcp_run ::
  "mcp_env \<Rightarrow> (tool_error \<Rightarrow> string) \<Rightarrow> (string \<Rightarrow> string + rpc_request) \<Rightarrow> mcp_event list \<Rightarrow> mcp_server \<Rightarrow>
     (mcp_server \<times> rpc_response list) option" where
  "mcp_run env show_error parse [] s = Some (s, [])"
| "mcp_run env show_error parse (Turn # evs) s = mcp_run env show_error parse evs (engine_turn env s)"
| "mcp_run env show_error parse (Line l nv r # evs) s =
     (case mcp_process_request env show_error parse nv r l s of
        None \<Rightarrow> None
      | Some (s1, rs) \<Rightarrow> map_option (map_prod id ((#) rs)) (mcp_run env show_error parse evs s1))"

section \<open>Wallets of the agents\<close>

datatype wallet_failure = WalletIo | InvalidWalletFile | BadSecretKey

text \<open>
  \<open>file\<close> is the content of the key file, \<open>fresh\<close> the generated pair, \<open>ok\<close> whether the disk can be
  written and \<open>readable\<close> whether the file can be read; \<open>pub\<close> derives the public key and fails
  on bytes that are no secret key.
\<close>

definition create_new_wallet :: "bool \<Rightarrow> bytes \<times> pubkey \<Rightarrow> bytes option \<Rightarrow> bytes option \<times> (wallet_failure + agent_wallet)" where
  "create_new_wallet ok fresh file =
     (if \<not> ok then (file, Inl WalletIo)
      else (Some (fst fresh), Inr \<lparr>aw_secret = fst fresh, aw_public = snd fresh, aw_created = True\<rparr>))"

definition load_existing_wallet :: "(bytes \<Rightarrow> pubkey option) \<Rightarrow> bool \<Rightarrow> bytes option \<Rightarrow> wallet_failure + agent_wallet" where
  "load_existing_wallet pub readable file =
     (case (if readable then file else None) of
        None \<Rightarrow> Inl WalletIo
      | Some key_data \<Rightarrow>
          if length key_data \<noteq> 32 then Inl InvalidWalletFile
          else case pub key_data of
            None \<Rightarrow> Inl BadSecretKey
          | Some pk \<Rightarrow> Inr \<lparr>aw_secret = key_data, aw_public = pk, aw_created = False\<rparr>)"

definition load_or_create_with_config ::
  "(bytes \<Rightarrow> pubkey option) \<Rightarrow> bool \<Rightarrow> bool \<Rightarrow> bytes \<times> pubkey \<Rightarrow> bytes option \<Rightarrow> bytes option \<times> (wallet_failure + agent_wallet)" where
  "load_or_create_with_config pub ok readable fresh file =
     (if file = None then create_new_wallet ok fresh file else (file, load_existing_wallet pub readable file))"

definition check_funding_status :: "agent_wallet \<Rightarrow> bool" where
  "check_funding_status wl = aw_created wl"

end
