(* ===== verification/Mcp_Properties.thy ===== *)
theory Mcp_Properties
  imports Mcp_Server
begin

text \<open>
  What the tool server promises: one answer per request, a view that is exactly the state of its engine,
  which never dies, the effect of a move, and what is left after a restart. The event handler is an
  instance of the locale of handlers that follow the engine, with the files as what it keeps of its own.
\<close>

section \<open>The handler follows the engine\<close>

lemma mirror_out [simp]: "mw_out (mirror_snapshot env i sn ev w) = (mw_out w)(i \<mapsto> sn)"
  by (simp add: mirror_snapshot_def persist_snapshot_def Let_def)

definition event_snapshot :: "(mcp_game, ttt_command) episode_event \<Rightarrow> ttt_snapshot" where
  "event_snapshot ev =
     (case ev of OnInitialize i g \<Rightarrow> mcp_snapshot (CHR ''X'') g | OnCommand i g c a md \<Rightarrow> mcp_snapshot (symbol (mg_current g)) g
      | OnRollback i g \<Rightarrow> mcp_snapshot (symbol (mg_current g)) g)"

lemma handler_mirrors: "\<exists>t. ttt_event_handler env ev w = mirror_snapshot env (ev_id ev) (event_snapshot ev) t w"
  by (cases ev) (auto simp: event_snapshot_def)

lemma handler_out: "mw_out (notify (mcp_config env) ev w) = (mw_out w)(ev_id ev \<mapsto> event_snapshot ev)"
  using handler_mirrors [of env ev w] by (auto simp: notify_def mcp_config_def)

definition shown_game :: "mcp_game \<Rightarrow> ttt_snapshot" where
  "shown_game g = mcp_snapshot (symbol (mg_current g)) g"

definition files_match :: "mcp_env \<Rightarrow> mcp_world \<Rightarrow> bool" where
  "files_match env w \<longleftrightarrow>
     (\<forall>i sn. mw_out w i = Some sn \<longrightarrow> mw_files w (snap_file i) = Some (me_snap_text env sn)) \<and>
     (\<forall>name. mw_files w name \<noteq> None \<longrightarrow> (\<exists>i. name = snap_file i \<and> mw_out w i \<noteq> None))"

lemma show_nat_inject: "show_nat m = show_nat n \<Longrightarrow> m = n"
  by (metis read_show_nat option.inject)

lemma snap_file_inject [simp]: "snap_file i = snap_file j \<longleftrightarrow> i = j"
proof
  assume "snap_file i = snap_file j"
  then have "unat i = unat j" by (intro show_nat_inject) (simp add: snap_file_def)
  then show "i = j" by (simp add: word_unat_eq_iff)
qed simp

text \<open>What a server that was asked to (\<open>files\<close>), on a disk that works, keeps of its files.\<close>

definition disk_ok :: "mcp_env \<Rightarrow> bool \<Rightarrow> mcp_world \<Rightarrow> bool" where
  "disk_ok env files w \<longleftrightarrow> (files \<longrightarrow> (\<forall>k. \<not> me_fails env k) \<longrightarrow> files_match env w)"

lemma disk_ok_event: "disk_ok env files w \<Longrightarrow> disk_ok env files (notify (mcp_config env) ev w)"
proof -
  obtain t where t: "notify (mcp_config env) ev w = mirror_snapshot env (ev_id ev) (event_snapshot ev) t w"
    using handler_mirrors [of env ev w] by (auto simp: notify_def mcp_config_def)
  have "files_match env (mirror_snapshot env i sn t w)" if "\<forall>k. \<not> me_fails env k" "files_match env w" for i sn
  proof -
    have f: "mw_files (mirror_snapshot env i sn t w) = (mw_files w)(snap_file i \<mapsto> me_snap_text env sn)"
      using that(1) by (simp add: mirror_snapshot_def persist_snapshot_def Let_def)
    show ?thesis unfolding files_match_def
    proof (intro conjI allI impI)
      fix j sn' assume "mw_out (mirror_snapshot env i sn t w) j = Some sn'"
      with that(2) show "mw_files (mirror_snapshot env i sn t w) (snap_file j) = Some (me_snap_text env sn')"
        by (auto simp: f files_match_def split: if_splits)
    next
      fix name assume "mw_files (mirror_snapshot env i sn t w) name \<noteq> None"
      then have "name = snap_file i \<or> mw_files w name \<noteq> None" by (auto simp: f split: if_splits)
      with that(2) show "\<exists>j. name = snap_file j \<and> mw_out (mirror_snapshot env i sn t w) j \<noteq> None"
        unfolding files_match_def mirror_out fun_upd_apply by (metis option.distinct(1))
    qed
  qed
  then show "disk_ok env files w \<Longrightarrow> disk_ok env files (notify (mcp_config env) ev w)" unfolding t disk_ok_def by blast
qed

lemma mcp_config_ep [simp]: "cfg_ep (mcp_config env) = mcp_episode"
  by (simp add: mcp_config_def)

interpretation mcp_watch: episode_watch "mcp_config env" "\<lambda>i wr w. mw_out w i = Some (shown_game (ew_episode wr))"
    "disk_ok env files" True for env files
proof (unfold_locales, goal_cases)
  case (6 w i g rs r g' b)
  then show ?case by (simp add: handler_out event_snapshot_def shown_game_def)
qed (auto simp: disk_ok_event handler_out event_snapshot_def shown_game_def wrapper_initialize_def
    mcp_initialize_def symbol_def dest: mcp_execute_err)

section \<open>The server keeps its engine\<close>

definition server_ok :: "mcp_env \<Rightarrow> bool \<Rightarrow> mcp_server \<Rightarrow> bool" where
  "server_ok env files s \<longleftrightarrow> Exit \<notin> set (ms_queue s) \<and>
     (\<exists>e. ms_engine s = Some e \<and> eng_ok mcp_episode mcp_inv (=) e \<and> mcp_watch.watched env files (e, ms_world s))"

lemma any_msg_ok: "msg_ok (\<lambda>_. True) m"
  by (cases m) auto

lemma any_event_ok: "event_ok cfg (\<lambda>_. True) m"
  by (cases m) (auto simp: option.pred_set any_msg_ok)

lemma server_ok_turn:
  assumes "server_ok env files s" shows "server_ok env files (engine_turn env s)"
proof -
  obtain e where e: "ms_engine s = Some e" "eng_ok mcp_episode mcp_inv (=) e" "mcp_watch.watched env files (e, ms_world s)"
      "Exit \<notin> set (ms_queue s)" using assms by (auto simp: server_ok_def)
  show ?thesis
  proof (cases "ms_queue s")
    case (Cons m ms)
    obtain e' w' where st: "engine_step (mcp_config env) m (e, ms_world s) = Some (e', w')" "eng_ok mcp_episode mcp_inv (=) e'"
      using mcp.engine_step_ok [OF mcp_config_ep e(2) any_event_ok] by blast
    then have "mcp_watch.watched env files (e', w')" using mcp_watch.watched_step [OF e(3)] by blast
    with st e Cons show ?thesis by (auto simp: server_ok_def engine_turn_def)
  qed (use assms in \<open>simp add: engine_turn_def split: option.split\<close>)
qed

lemma server_ok_submitted [simp]: "server_ok env files (s\<lparr>ms_submitted := x\<rparr>) = server_ok env files s"
  by (simp add: server_ok_def)

lemma server_ok_send: "server_ok env files s \<Longrightarrow> m \<noteq> Exit \<Longrightarrow> send_engine m s = (s', x) \<Longrightarrow> server_ok env files s' \<and> x = Inr ()"
  by (auto simp: server_ok_def send_engine_def)

lemma not_Inr_unit: "y \<noteq> Inr () \<longleftrightarrow> (\<exists>e. y = Inl e)"
  by (cases y) auto

lemma server_ok_try:
  assumes "server_ok env files s" "try_submit env nv wl pl s = Some (s', x)" shows "server_ok env files s'"
proof -
  have "s' = s \<or> (\<exists>l. s' = s\<lparr>ms_submitted := l\<rparr>)"
    using assms(2) by (auto simp: try_submit_def not_Inr_unit split: if_splits sum.splits list.splits)
  with assms(1) show ?thesis by auto
qed

lemma server_ok_start: "server_ok env files s \<Longrightarrow> start_episode env r ps s = (s', x) \<Longrightarrow> server_ok env files s'"
  by (auto simp: start_episode_def local_block_def split: prod.splits sum.splits dest: server_ok_send)

lemma server_ok_execute:
  assumes "server_ok env files s" "execute_command env nv t c sg s = Some (s', x)"
  shows "server_ok env files s'"
proof (cases "parse_id t")
  case (Some i)
  show ?thesis
  proof (cases "parse_command c")
    case (Inr cmd)
    let ?wl = "signer_wallet sg s"
    let ?m = "new_signed_command (mcp_config env) i cmd (aw_secret ?wl) (aw_public ?wl)"
    from assms(2) Some Inr obtain s1 tx where s1: "try_submit env nv ?wl (me_enc env ?m) s = Some (s1, tx)"
        "s' = fst (send_engine (local_block env ?m) s1)"
      by (auto simp: execute_command_def Let_def prod.case_eq_if sum.case_eq_if split: if_splits)
    have "server_ok env files s1" using server_ok_try [OF assms(1) s1(1)] .
    moreover have "local_block env ?m \<noteq> Exit" by (simp add: local_block_def)
    ultimately show ?thesis using server_ok_send [of env files s1 _ s'] s1(2) by (metis prod.collapse)
  qed (use assms Some in \<open>simp add: execute_command_def\<close>)
qed (use assms in \<open>simp add: execute_command_def\<close>)

lemma server_ok_submit:
  assumes "server_ok env files s" "submit_command_tx env nv t c sg s = Some (s', x)"
  shows "server_ok env files s'"
proof -
  have "s' = s \<or> (\<exists>l. s' = s\<lparr>ms_submitted := l\<rparr>)"
    using assms(2) by (auto simp: submit_command_tx_def Let_def not_Inr_unit split: if_splits sum.splits list.splits option.splits)
  with assms(1) show ?thesis by auto
qed

lemma server_ok_tool:
  assumes "server_ok env files s" "run_tool env nv r name args s = Some (s', res)"
  shows "server_ok env files s'"
  using assms server_ok_start [OF assms(1)] server_ok_execute [OF assms(1)] server_ok_submit [OF assms(1)]
  by (fastforce simp: run_tool_def split: if_splits prod.splits sum.splits)

lemma server_ok_call:
  assumes "server_ok env files s" "handle_tools_call env sh nv r rq s = Some (s', rs)"
  shows "server_ok env files s'"
proof (cases "rq_params rq")
  case (Some params)
  show ?thesis
  proof (cases "get_str ''name'' params")
    case name: (Some name)
    then obtain res where "run_tool env nv r name (case json_get ''arguments'' params of Some a \<Rightarrow> a | None \<Rightarrow> JObj []) s = Some (s', res)"
      using assms(2) Some by (auto simp: handle_tools_call_def)
    with server_ok_tool assms(1) show ?thesis by blast
  qed (use assms Some in \<open>simp add: handle_tools_call_def\<close>)
qed (use assms in \<open>simp add: handle_tools_call_def\<close>)

lemma server_ok_request:
  "server_ok env files s \<Longrightarrow> mcp_process_request env sh parse nv r l s = Some (s', rs) \<Longrightarrow> server_ok env files s'"
  by (auto simp: mcp_process_request_def split: sum.splits if_splits dest: server_ok_call)

lemma server_ok_run: "mcp_run env sh parse evs s = Some (s', out) \<Longrightarrow> server_ok env files s \<Longrightarrow> server_ok env files s'"
  by (induction env sh parse evs s arbitrary: out rule: mcp_run.induct)
    (auto split: option.splits prod.splits dest: server_ok_request server_ok_turn)

lemma server_ok_new: "disk_ok env files (w\<lparr>mw_out := preload env (mw_files w) names Map.empty\<rparr>) \<Longrightarrow>
    server_ok env files (server_new env names w a1 a2 node)"
  by (auto simp: server_ok_def server_new_def eng_ok_new mcp_watch.watched_def) (simp_all add: new_engine_def)

lemma disk_ok_off [simp]: "disk_ok env False w"
  by (simp add: disk_ok_def)

lemma engine_inv: "eng_ok mcp_episode mcp_inv (=) e \<Longrightarrow> episodes e i = Some wr \<Longrightarrow> mcp_inv (ew_episode wr)"
  unfolding eng_ok_def by (metis mcp.unwinds_inv)

section \<open>Answers\<close>

definition request_id :: "(string \<Rightarrow> string + rpc_request) \<Rightarrow> string \<Rightarrow> json option" where
  "request_id parse line = (case parse line of Inl _ \<Rightarrow> None | Inr rq \<Rightarrow> rq_id rq)"

definition answers_line :: "(string \<Rightarrow> string + rpc_request) \<Rightarrow> string \<Rightarrow> rpc_response \<Rightarrow> bool" where
  "answers_line parse line rs \<longleftrightarrow> rs_id rs = request_id parse line \<and>
     (case rs_error rs of
        None \<Rightarrow> rs_result rs \<noteq> None
      | Some e \<Rightarrow> rs_result rs = None \<and> re_code e \<in> {- 32700, - 32601, - 32602, - 32000} \<and>
          (re_code e = - 32700 \<longleftrightarrow> (\<exists>err. parse line = Inl err)))"

fun lines_read :: "mcp_event list \<Rightarrow> string list" where
  "lines_read [] = []"
| "lines_read (Turn # evs) = lines_read evs"
| "lines_read (Line l nv r # evs) = l # lines_read evs"

definition can_build :: "mcp_env \<Rightarrow> bool" where
  "can_build env \<longleftrightarrow> (\<forall>u spk payload. build_command_transaction (me_tx env) mcp_generator u spk payload MCP_FEE \<noteq> None)"

lemma build_total: "can_build env \<Longrightarrow> \<exists>f. \<forall>u spk pl. build_command_transaction (me_tx env) mcp_generator u spk pl MCP_FEE = Some (f u spk pl)"
  by (rule exI [of _ "\<lambda>u spk pl. the (build_command_transaction (me_tx env) mcp_generator u spk pl MCP_FEE)"]) (auto simp: can_build_def)

lemma run_tool_total:
  assumes "can_build env" shows "\<exists>s' res. run_tool env nv r name args s = Some (s', res)"
proof -
  obtain f where f: "\<And>u spk pl. build_command_transaction (me_tx env) mcp_generator u spk pl MCP_FEE = Some (f u spk pl)"
    using build_total [OF assms] by blast
  have t: "\<exists>y. try_submit env nv wl pl s = Some y" for wl pl
    by (auto simp: try_submit_def f split: sum.split list.split)
  have "\<exists>y. execute_command env nv t c sg s = Some y" for t c sg
  proof (cases "parse_id t"; cases "parse_command c")
    fix i cmd assume i: "parse_id t = Some i" "parse_command c = Inr cmd"
    obtain y where "try_submit env nv (signer_wallet sg s) (me_enc env (new_signed_command (mcp_config env) i cmd
        (aw_secret (signer_wallet sg s)) (aw_public (signer_wallet sg s)))) s = Some y" using t by blast
    with i show ?thesis by (simp add: execute_command_def Let_def del: split_paired_Ex)
  qed (simp_all add: execute_command_def del: split_paired_Ex)
  moreover have "\<exists>y. submit_command_tx env nv t c sg s = Some y" for t c sg
    by (auto simp: submit_command_tx_def Let_def f split: option.split sum.split list.split)
  moreover have "\<exists>v. generate_transaction env r s = Some v" by (simp add: generate_transaction_def Let_def f)
  ultimately have "\<exists>y. run_tool env nv r name args s = Some y"
    by (simp add: run_tool_def split: prod.split sum.split)
  then show ?thesis by auto
qed

lemma call_answered:
  assumes "can_build env" "parse l = Inr rq"
  shows "\<exists>s' rs. handle_tools_call env sh nv r rq s = Some (s', rs) \<and> answers_line parse l rs"
proof (cases "rq_params rq")
  case (Some params)
  show ?thesis
  proof (cases "get_str ''name'' params")
    case name: (Some name)
    obtain s' res where "run_tool env nv r name (case json_get ''arguments'' params of Some a \<Rightarrow> a | None \<Rightarrow> JObj []) s = Some (s', res)"
      using run_tool_total [OF assms(1)] by blast
    then show ?thesis
      by (auto simp: handle_tools_call_def Some name answers_line_def request_id_def assms(2) rpc_failure_def rpc_success_def
          split: option.split sum.split)
  qed (simp add: handle_tools_call_def Some answers_line_def request_id_def assms(2) rpc_failure_def)
qed (simp add: handle_tools_call_def answers_line_def request_id_def assms(2) rpc_failure_def)

lemma request_answered:
  assumes "can_build env"
  shows "\<exists>s' rs. mcp_process_request env sh parse nv r l s = Some (s', rs) \<and> answers_line parse l rs"
proof (cases "parse l")
  case (Inr rq)
  with call_answered [OF assms, of parse l rq] show ?thesis
    by (auto simp: mcp_process_request_def handle_tools_list_def answers_line_def request_id_def rpc_failure_def rpc_success_def)
qed (simp add: mcp_process_request_def answers_line_def request_id_def rpc_failure_def)

text \<open>
  C33: Every request gets its answer. Whatever lines arrive in whatever order with the turns of the engine,
  the server writes one response per line, with the id of the request, carrying either a result or one of
  four error codes, the parse error exactly for lines that cannot be parsed.
\<close>
theorem mcp_answers_every_line:
  assumes "can_build env"
  shows "\<exists>s' out. mcp_run env sh parse evs s = Some (s', out) \<and> list_all2 (answers_line parse) (lines_read evs) out"
proof (induction evs arbitrary: s)
  case (Cons ev evs)
  show ?case
  proof (cases ev)
    case (Line l nv r)
    obtain s1 rs where "mcp_process_request env sh parse nv r l s = Some (s1, rs)" "answers_line parse l rs"
      using request_answered [OF assms] by blast
    with Cons [of s1] Line show ?thesis by auto
  qed (use Cons in simp)
qed simp

section \<open>The view\<close>

text \<open>
  C31: The view is the state of the engine. After any run the thread of the engine is alive, and for each of
  its games the state tool answers exactly the board, the player to move and the number of participants;
  the board holds at most six symbols, those of the history.
\<close>
theorem mcp_view_exact:
  assumes "mcp_run env sh parse evs (server_new env names w a1 a2 node) = Some (s, out)"
  shows "\<exists>e. ms_engine s = Some e \<and>
    (\<forall>i wr t. episodes e i = Some wr \<and> parse_id t = Some i \<longrightarrow>
       mcp_episode_state t s = Inr (snap_json (shown_game (ew_episode wr))) \<and>
       length (mg_history (ew_episode wr)) \<le> 6 \<and>
       (\<forall>p. \<not> off_board p \<longrightarrow> (at_cell (mg_board (ew_episode wr)) p \<noteq> 0 \<longleftrightarrow> p \<in> set (mg_history (ew_episode wr)))))"
proof -
  have "server_ok env False s" using server_ok_run [OF assms server_ok_new] by simp
  then obtain e where e: "ms_engine s = Some e" "eng_ok mcp_episode mcp_inv (=) e" "mcp_watch.watched env False (e, ms_world s)"
    by (auto simp: server_ok_def)
  have "mcp_inv (ew_episode wr)" "mw_out (ms_world s) i = Some (shown_game (ew_episode wr))" if "episodes e i = Some wr" for i wr
    using that e(2,3) engine_inv by (auto simp: mcp_watch.watched_def)
  with e(1) show ?thesis by (fastforce simp: mcp_episode_state_def mcp_inv_def window_def)
qed

section \<open>A move\<close>

definition mcp_lawful :: "mcp_env \<Rightarrow> mcp_server \<Rightarrow> bool" where
  "mcp_lawful env s \<longleftrightarrow> (\<forall>i c pk sg. me_dec env (me_enc env (SignedCommand i c pk sg)) = Some (SignedCommand i c pk sg)) \<and>
     (\<forall>wl \<in> {ms_agent1 s, ms_agent2 s}. \<forall>m. verify_signature (me_crypto env) (aw_public wl) m (sign_message (me_crypto env) (aw_secret wl) m))"

definition local_meta :: metadata where
  "local_meta = \<lparr>accepting_hash = default_hash, accepting_daa = 0, accepting_time = 0, tx_id = default_hash, tx_outputs = None\<rparr>"

lemma local_turn:
  assumes "me_dec env (me_enc env m) = Some m" "\<forall>i. m \<noteq> Revert i" "ms_queue s = [local_block env m]" "ms_engine s = Some e"
    and "handle_message (mcp_config env) m local_meta (e, ms_world s) = Some ((e', w'), r)"
  shows "\<exists>rm. engine_turn env s = s\<lparr>ms_engine := Some (e'\<lparr>revert_map := rm\<rparr>), ms_world := w', ms_queue := []\<rparr>"
proof -
  have "filter_old_episodes e 0 = e" by (simp add: filter_old_episodes_def)
  moreover have "decode_msg (mcp_config env) (me_enc env m) = Some m" using assms(1) by (simp add: mcp_config_def)
  ultimately show ?thesis
    using assms(2-5) by (cases m) (auto simp: engine_turn_def local_block_def local_meta_def simp del: handle_message.simps)
qed

lemma execute_effect:
  assumes "execute_command env nv t c sg s = Some (s', Inr v)" "parse_id t = Some i" "parse_command c = Inr cmd"
  shows "s' = s\<lparr>ms_queue := ms_queue s @ [local_block env (new_signed_command (mcp_config env) i cmd
      (aw_secret (signer_wallet sg s)) (aw_public (signer_wallet sg s)))], ms_submitted := ms_submitted s'\<rparr>"
proof -
  let ?m = "new_signed_command (mcp_config env) i cmd (aw_secret (signer_wallet sg s)) (aw_public (signer_wallet sg s))"
  from assms obtain s1 tx where s1: "try_submit env nv (signer_wallet sg s) (me_enc env ?m) s = Some (s1, tx)"
      "s' = s1\<lparr>ms_queue := ms_queue s1 @ [local_block env ?m]\<rparr>"
    by (auto simp: execute_command_def Let_def send_engine_def split: if_splits)
  have "s1 = s \<or> (\<exists>l. s1 = s\<lparr>ms_submitted := l\<rparr>)"
    using s1(1) by (auto simp: try_submit_def not_Inr_unit split: if_splits sum.splits list.splits)
  with s1(2) show ?thesis by (cases s) auto
qed

lemma parse_command_on_board: "parse_command c = Inr (Move r cl p) \<Longrightarrow> \<not> off_board (r, cl) \<and> p \<le> 1"
proof -
  have small: "\<not> (of_int n :: u8) > 2" if "0 \<le> n" "n \<le> 2" for n :: int
  proof -
    have "n = 0 \<or> n = 1 \<or> n = 2" using that by auto
    then show ?thesis by auto
  qed
  then show "parse_command c = Inr (Move r cl p) \<Longrightarrow> \<not> off_board (r, cl) \<and> p \<le> 1"
    by (auto simp: parse_command_def Let_def off_board_def not_less split: if_splits)
qed

text \<open>
  C32: What a move does. A move sent with the tool reports success whether or not it is legal. When the engine
  has taken it, it is played exactly if the cell is free, it is the turn of its player and the wallet that
  signed is the participant in that role; otherwise the game is as before.
\<close>
theorem mcp_move_exact:
  assumes "mcp_run env sh parse evs (server_new env names w a1 a2 node) = Some (s, out)" "mcp_lawful env s" "ms_queue s = []" "ms_engine s = Some e" "episodes e i = Some wr"
    and "execute_command env nv t c sg s = Some (s', Inr v)" "parse_id t = Some i" "parse_command c = Inr (Move r cl p)"
  shows "\<exists>e' wr'. ms_engine (engine_turn env s') = Some e' \<and> episodes e' i = Some wr' \<and>
    (if at_cell (mg_board (ew_episode wr)) (r, cl) = 0 \<and> p = player_code (mg_current (ew_episode wr)) \<and>
        designated (ew_episode wr) p = Some (aw_public (signer_wallet sg s))
     then at_cell (mg_board (ew_episode wr')) (r, cl) = p + 1 \<and> last (mg_history (ew_episode wr')) = (r, cl) \<and>
       player_code (mg_current (ew_episode wr')) = 1 - p
     else wr' = wr)"
proof -
  let ?wl = "signer_wallet sg s" and ?g = "ew_episode wr" and ?cfg = "mcp_config env"
  let ?m = "new_signed_command ?cfg i (Move r cl p) (aw_secret ?wl) (aw_public ?wl)"
  have board: "\<not> off_board (r, cl)" using parse_command_on_board [OF assms(8)] by simp
  have "server_ok env False s" using server_ok_run [OF assms(1) server_ok_new] by simp
  then have inv: "mcp_inv ?g" using assms(4,5) engine_inv by (auto simp: server_ok_def)
  have "?wl \<in> {ms_agent1 s, ms_agent2 s}" by (simp add: signer_wallet_def)
  then have sig: "execute_signed ?cfg wr (Move r cl p) (aw_public ?wl) (sign_message (me_crypto env) (aw_secret ?wl)
      (to_message (me_crypto env) (me_enc_cmd env (Move r cl p)))) local_meta =
      (case mcp_execute ?g (Move r cl p) (Some (aw_public ?wl)) local_meta of None \<Rightarrow> None
       | Some (g, Inl err) \<Rightarrow> Some (wr\<lparr>ew_episode := g\<rparr>, Inl err)
       | Some (g, Inr rb) \<Rightarrow> Some (\<lparr>ew_episode = g, rollback_stack = rollback_stack wr @ [rb]\<rparr>, Inr ()))"
    using assms(2) by (auto simp: execute_signed_def mcp_lawful_def mcp_config_def)
  have m: "?m = SignedCommand i (Move r cl p) (aw_public ?wl) (sign_message (me_crypto env) (aw_secret ?wl)
      (to_message (me_crypto env) (me_enc_cmd env (Move r cl p))))"
    by (simp add: new_signed_command_def mcp_config_def)
  have turn: "\<exists>e'. ms_engine (engine_turn env s') = Some e' \<and> episodes e' i = Some wr'"
    if "execute_signed ?cfg wr (Move r cl p) (aw_public ?wl) (sign_message (me_crypto env) (aw_secret ?wl)
      (to_message (me_crypto env) (me_enc_cmd env (Move r cl p)))) local_meta = Some (wr', res)" for wr' res
  proof -
    note s' = execute_effect [OF assms(6,7,8)]
    have "ms_engine s' = Some e" "ms_queue s' = [local_block env ?m]" "ms_world s' = ms_world s" using assms(3,4) by (subst s'; simp)+
    moreover have "\<exists>e' w' rv. handle_message ?cfg ?m local_meta (e, ms_world s) = Some ((e', w'), rv) \<and> episodes e' i = Some wr'"
      unfolding m using that assms(5) by (cases res) (simp_all add: finish_command_def)
    then obtain e' w' rv where "handle_message ?cfg ?m local_meta (e, ms_world s) = Some ((e', w'), rv)" "episodes e' i = Some wr'"
      by blast
    moreover have "me_dec env (me_enc env ?m) = Some ?m" "\<forall>j. ?m \<noteq> Revert j" using assms(2) m by (simp_all add: mcp_lawful_def)
    ultimately show ?thesis using local_turn [of env ?m s' e e' w' rv] by auto
  qed
  show ?thesis
  proof (cases "\<exists>g' rb. mcp_execute ?g (Move r cl p) (Some (aw_public ?wl)) local_meta = Some (g', Inr rb)")
    case True
    then obtain g' rb where ex: "mcp_execute ?g (Move r cl p) (Some (aw_public ?wl)) local_meta = Some (g', Inr rb)" by blast
    with mcp_execute_ok [OF inv] True turn [unfolded sig, of "\<lparr>ew_episode = g', rollback_stack = rollback_stack wr @ [rb]\<rparr>" "Inr ()"]
      mcp_execute_effect [OF inv ex] show ?thesis by auto
  next
    case False
    then obtain err where ex: "mcp_execute ?g (Move r cl p) (Some (aw_public ?wl)) local_meta = Some (?g, Inl err)"
      using mcp_execute_total [OF inv] by (metis mcp_execute_err not_None_eq obj_sumE prod.collapse)
    then have "execute_signed ?cfg wr (Move r cl p) (aw_public ?wl) (sign_message (me_crypto env) (aw_secret ?wl)
      (to_message (me_crypto env) (me_enc_cmd env (Move r cl p)))) local_meta = Some (wr, Inl err)" by (simp add: sig)
    from turn [OF this] False mcp_execute_ok [OF inv, of r cl p "Some (aw_public ?wl)" local_meta] board show ?thesis by auto
  qed
qed

text \<open>
  The number of a player wraps. In a move on the board the tool takes every number of a player that is 0
  or 1 modulo 256 for the first or the second player, and refuses the others.
\<close>
theorem player_number_wraps:
  assumes "get_str ''type'' c = Some ''move''" "json_get ''row'' c = Some (JInt r)" "json_get ''col'' c = Some (JInt k)"
    and "0 \<le> r" "r \<le> 2" "0 \<le> k" "k \<le> 2" and "json_get ''player'' c = Some (JInt n)" "0 \<le> n"
  shows "parse_command c =
    (if n mod 256 = 0 then Inr (Move (of_int r) (of_int k) 0)
     else if n mod 256 = 1 then Inr (Move (of_int r) (of_int k) 1) else Inl InvalidMoveParameters)"
proof -
  have u: "uint (of_int n :: u8) = n mod 256" by (simp add: uint_word_of_int)
  have one: "\<not> (of_int n :: u8) > 1 \<longleftrightarrow> n mod 256 = 0 \<or> n mod 256 = 1"
    unfolding word_less_def u by auto
  have "(of_int n :: u8) = 0 \<longleftrightarrow> n mod 256 = 0" "(of_int n :: u8) = 1 \<longleftrightarrow> n mod 256 = 1"
    by (simp_all add: word_uint_eq_iff u)
  with assms one show ?thesis
    by (auto simp: parse_command_def coord_arg_def player_arg_def Let_def)
qed

section \<open>A game goes on\<close>

definition may_move :: "mcp_game \<Rightarrow> bool" where
  "may_move g \<longleftrightarrow> (\<exists>r c a md g' rb. mcp_execute g (Move r c (player_code (mg_current g))) a md = Some (g', Inr rb))"

lemma free_cell:
  assumes "mcp_inv g" shows "\<exists>p. \<not> off_board p \<and> at_cell (mg_board g) p = 0"
proof (rule ccontr)
  assume no: "\<not> ?thesis"
  let ?P = "{0, 1, 2 :: u8} \<times> {0, 1, 2 :: u8}"
  have "p \<in> set (mg_history g)" if "\<not> off_board p" for p
    using no assms that unfolding mcp_inv_def window_def by blast
  moreover have "\<not> off_board p" if "p \<in> ?P" for p using that by (auto simp: off_board_def)
  ultimately have "?P \<subseteq> set (mg_history g)" by blast
  then have "card ?P \<le> card (set (mg_history g))" by (intro card_mono) auto
  with assms card_length [of "mg_history g"] show False by (simp add: mcp_inv_def card_cartesian_product)
qed

lemma participants_kept: "exec_calls mcp_episode g cs = Some (h, rs) \<Longrightarrow> mg_participants h = mg_participants g"
proof (induction cs arbitrary: g rs)
  case (Cons x cs)
  obtain c a md where x: "x = (c, a, md)" by (cases x)
  with Cons.prems obtain g' res where ex: "mcp_execute g c a md = Some (g', res)" by (auto split: option.splits)
  have "mg_participants g' = mg_participants g"
  proof (cases res)
    case (Inl e)
    with ex mcp_execute_err show ?thesis by blast
  next
    case (Inr rb)
    with ex mcp_execute_fields show ?thesis by blast
  qed
  moreover have "\<exists>rs'. exec_calls mcp_episode g' cs = Some (h, rs')" using Cons.prems ex x by (cases res) auto
  ultimately show ?case using Cons.IH by metis
qed simp

text \<open>
  A game never comes to an end. After any series of commands a free cell is left and the player to move
  can place a symbol on it, provided there is a participant for that player: with two participants always;
  with one only while it is the first player's turn, so a game of one participant stops after one move.
\<close>
theorem mcp_game_goes_on:
  assumes "exec_calls mcp_episode (mcp_initialize ps md) cs = Some (g, rs)"
  shows "may_move g \<longleftrightarrow> (if mg_current g = PlayerX then ps \<noteq> [] else 2 \<le> length ps)"
proof -
  have inv: "mcp_inv g" using mcp.exec_calls_total [OF mcp_inv_init, of ps md cs] assms by auto
  have ps: "mg_participants g = ps" using participants_kept [OF assms] by (simp add: mcp_initialize_def)
  obtain p where p: "\<not> off_board p" "at_cell (mg_board g) p = 0" using free_cell [OF inv] by blast
  have "may_move g \<longleftrightarrow> designated g (player_code (mg_current g)) \<noteq> None"
  proof
    assume "may_move g"
    then show "designated g (player_code (mg_current g)) \<noteq> None"
      unfolding may_move_def using mcp_execute_ok [OF inv] by metis
  next
    assume "designated g (player_code (mg_current g)) \<noteq> None"
    then obtain pk where "designated g (player_code (mg_current g)) = Some pk" by blast
    with p have "\<exists>g' rb. mcp_execute g (Move (fst p) (snd p) (player_code (mg_current g))) (Some pk) md = Some (g', Inr rb)"
      unfolding mcp_execute_ok [OF inv] by simp
    then show "may_move g" unfolding may_move_def by blast
  qed
  then show ?thesis by (cases "mg_current g") (auto simp: designated_def ps Let_def)
qed

section \<open>A restart\<close>

lemma parse_id_show: "parse_id (show_nat (unat i)) = Some i"
proof -
  let ?w = "ucast i :: u64"
  have u: "unat i < 2 ^ 32" using unsigned_less [of i] by simp
  then have n: "unat ?w = unat i" by (simp add: unsigned_ucast_eq unsigned_take_bit_eq take_bit_nat_eq_self)
  then have "parse_u64 (show_nat (unat i)) = Some ?w"
    using parse_show_u64 [of ?w] by (simp add: show_u64_def)
  moreover have "?w < 2 ^ 32" using u n by (simp add: word_less_nat_alt)
  moreover have "(ucast ?w :: u32) = i"
    using u by (simp add: word_unat_eq_iff unsigned_ucast_eq unsigned_take_bit_eq take_bit_nat_eq_self)
  ultimately show ?thesis by (simp add: parse_id_def)
qed

lemma split_snap_file: "split_ext (snap_file i) = (show_nat (unat i), Some ''json'')"
  by (simp add: split_ext_def snap_file_def Let_def)

lemma preload_files:
  assumes "\<forall>i sn. me_snap_parse env (me_snap_text env sn) = Some sn" "files_match env w"
    and "\<forall>name \<in> set names. mw_files w name \<noteq> None \<or> snd (split_ext name) \<noteq> Some ''json''"
  shows "preload env (mw_files w) names m = (\<lambda>i. if snap_file i \<in> set names then mw_out w i else m i)"
  using assms(3)
proof (induction names arbitrary: m)
  case (Cons name names)
  show ?case
  proof (cases "mw_files w name")
    case (Some content)
    then obtain i sn where i: "name = snap_file i" "mw_out w i = Some sn" using assms(2) by (auto simp: files_match_def)
    then have "mw_files w name = Some (me_snap_text env sn)" using assms(2) by (simp add: files_match_def)
    then have "preload env (mw_files w) (name # names) m = preload env (mw_files w) names (m(i \<mapsto> sn))"
      using i(1) assms(1) by (simp add: split_snap_file parse_id_show)
    with Cons i show ?thesis by (auto simp: fun_eq_iff)
  next
    case None
    with Cons.prems have "snd (split_ext name) \<noteq> Some ''json''" by simp
    moreover from this have "name \<noteq> snap_file i" for i by (auto simp: split_snap_file)
    ultimately show ?thesis using Cons by (auto simp: fun_eq_iff split: prod.split option.split)
  qed
qed simp

text \<open>
  After a restart the games are shown and dead. When the disk works, a server started on an empty directory
  and restarted shows every game as before; but its engine has none of them, so a move sent with the tool
  reports success and changes nothing in what is shown.
\<close>
theorem mcp_restart_shows_dead_games:
  assumes "mcp_run env sh parse evs (server_new env [] w0 a1 a2 node) = Some (s, out)" and "mw_files w0 = Map.empty"
    and "\<forall>k. \<not> me_fails env k" and "\<forall>sn. me_snap_parse env (me_snap_text env sn) = Some sn"
    and "\<forall>i c pk sg. me_dec env (me_enc env (SignedCommand i c pk sg)) = Some (SignedCommand i c pk sg)"
    and "set names = insert ''events.jsonl'' (dom (mw_files (ms_world s)))" and "s' = server_new env names (ms_world s) a1 a2 node"
  shows "mcp_episode_state t s' = mcp_episode_state t s \<and>
    (\<forall>nv t' c sg s2 v. execute_command env nv t' c sg s' = Some (s2, Inr v) \<longrightarrow>
       mcp_episode_state t (engine_turn env s2) = mcp_episode_state t s)"
proof -
  have "files_match env (w0\<lparr>mw_out := preload env (mw_files w0) [] Map.empty\<rparr>)" by (simp add: files_match_def assms(2))
  then have "server_ok env True s" using server_ok_run [OF assms(1) server_ok_new] by (simp add: disk_ok_def)
  then have fm: "files_match env (ms_world s)" using assms(3) by (auto simp: server_ok_def mcp_watch.watched_def disk_ok_def)
  have "snd (split_ext ''events.jsonl'') \<noteq> Some ''json''" by (simp add: split_ext_def Let_def)
  then have pre: "preload env (mw_files (ms_world s)) names Map.empty = (\<lambda>i. if snap_file i \<in> set names then mw_out (ms_world s) i else None)"
    using assms(4,6) fm by (intro preload_files) auto
  have out: "mw_out (ms_world s') = mw_out (ms_world s)"
  proof
    fix i
    have "snap_file i \<notin> set names \<Longrightarrow> mw_out (ms_world s) i = None"
      using fm assms(6) by (auto simp: files_match_def dom_def)
    then show "mw_out (ms_world s') i = mw_out (ms_world s) i" by (auto simp: assms(7) server_new_def pre)
  qed
  then have same: "mcp_episode_state t s' = mcp_episode_state t s" by (simp only: mcp_episode_state_def)
  have "mcp_episode_state t (engine_turn env s2) = mcp_episode_state t s"
    if ex: "execute_command env nv t' c sg s' = Some (s2, Inr v)" for nv t' c sg s2 v
  proof -
  from ex obtain i cmd where i: "parse_id t' = Some i" "parse_command c = Inr cmd"
    by (auto simp: execute_command_def split: option.splits sum.splits)
  let ?m = "new_signed_command (mcp_config env) i cmd (aw_secret (signer_wallet sg s')) (aw_public (signer_wallet sg s'))"
  note s2 = execute_effect [OF ex i]
  have e: "ms_engine s2 = Some new_engine" "ms_queue s2 = [local_block env ?m]" "ms_world s2 = ms_world s'"
    by (subst s2; simp add: assms(7) server_new_def)+
  have "handle_message (mcp_config env) ?m local_meta (new_engine, ms_world s2) = Some ((new_engine, ms_world s2), None)"
    by (simp add: new_signed_command_def new_engine_def)
  then have "ms_world (engine_turn env s2) = ms_world s2"
    using local_turn [of env ?m s2 new_engine] assms(5) e by (fastforce simp: new_signed_command_def)
  with e(3) out show ?thesis by (simp only: mcp_episode_state_def)
  qed
  with same show ?thesis by blast
qed

section \<open>Runs\<close>

text \<open>A server whose wallets sign with their key and whose texts are numbers in unary.\<close>

fun rows_nats :: "u8 list list \<Rightarrow> nat list" where
  "rows_nats [] = []"
| "rows_nats (r # rs) = map (\<lambda>v. Suc (unat v)) r @ 0 # rows_nats rs"

fun nats_rows :: "u8 list \<Rightarrow> nat list \<Rightarrow> u8 list list" where
  "nats_rows acc [] = []"
| "nats_rows acc (n # ns) = (if n = 0 then acc # nats_rows [] ns else nats_rows (acc @ [of_nat (n - 1)]) ns)"

lemma nats_rows_row: "nats_rows acc (map (\<lambda>v. Suc (unat v)) r @ ns) = nats_rows (acc @ r) ns"
  by (induction r arbitrary: acc) auto

lemma nats_rows_nats: "nats_rows [] (rows_nats b) = b"
  by (induction b) (simp_all add: nats_rows_row)

definition demo_text :: "nat list \<Rightarrow> string" where
  "demo_text ns = map (\<lambda>b. char_of (unat b)) (enc_nats ns)"

lemma ascii_demo_text: "dec_nats 0 (ascii (demo_text ns)) = ns"
  by (simp add: demo_text_def ascii_def comp_def dec_enc_nats)

fun mcp_demo_enc :: "ttt_command episode_message \<Rightarrow> bytes" where
  "mcp_demo_enc (NewEpisode i ps) = enc_nats (0 # unat i # map (\<lambda>pk. unat (hd (pk_bytes pk))) ps)"
| "mcp_demo_enc (SignedCommand i c pk sg) =
     enc_nats (1 # unat i # unat (mv_row c) # unat (mv_col c) # unat (mv_player c) # length (pk_bytes pk) #
       map unat (pk_bytes pk) @ map unat (sig_der sg))"
| "mcp_demo_enc _ = []"

definition mcp_demo_dec :: "bytes \<Rightarrow> ttt_command episode_message option" where
  "mcp_demo_dec bs =
     (case dec_nats 0 bs of
        k # i # ns \<Rightarrow>
          (if k = 0 then Some (NewEpisode (of_nat i) (map (\<lambda>n. PubKey [of_nat n]) ns))
           else (case ns of r # c # p # n # rest \<Rightarrow>
               Some (SignedCommand (of_nat i) (Move (of_nat r) (of_nat c) (of_nat p)) (PubKey (map of_nat (take n rest)))
                 (Sig (map of_nat (drop n rest)))) | _ \<Rightarrow> None))
      | _ \<Rightarrow> None)"

lemma mcp_demo_codec: "mcp_demo_dec (mcp_demo_enc (SignedCommand i c pk sg)) = Some (SignedCommand i c pk sg)"
  by (cases c; cases pk; cases sg) (simp add: mcp_demo_dec_def dec_enc_nats comp_def)

definition mcp_demo_env :: mcp_env where
  "mcp_demo_env = \<lparr>me_crypto = \<lparr>sha256 = (\<lambda>b. b), ecdsa_sign = (\<lambda>sk m. sk), ecdsa_verify = (\<lambda>m s pk. s = pk),
       pk_slice_ok = (\<lambda>_. True), der_ok = (\<lambda>_. True)\<rparr>,
     me_tx = \<lparr>id_of = (\<lambda>_. [0]), sign_tx = (\<lambda>tx _. tx)\<rparr>, me_hex_decode = (\<lambda>s. Some (ascii s)),
     me_hex_encode = map (\<lambda>b. char_of (unat b)), me_pk_of = (\<lambda>b. Some (PubKey b)), me_enc_cmd = (\<lambda>_. []),
     me_enc = mcp_demo_enc, me_dec = mcp_demo_dec, me_script = pk_bytes, me_show_hash = (\<lambda>_. ''id''), me_debug = (\<lambda>_. []),
     me_snap_text = (\<lambda>sn. demo_text (of_char (ts_current sn) # ts_participants sn # rows_nats (ts_board sn))),
     me_snap_parse = (\<lambda>t. case dec_nats 0 (ascii t) of c # n # ns \<Rightarrow>
         Some \<lparr>ts_board = nats_rows [] ns, ts_current = char_of c, ts_participants = n\<rparr> | _ \<Rightarrow> None),
     me_event_line = (\<lambda>_ _ ev _. ev), me_fails = (\<lambda>_. False), me_torn = (\<lambda>_ x. x)\<rparr>"

lemma mcp_demo_laws:
  "me_dec mcp_demo_env (me_enc mcp_demo_env (SignedCommand i c pk sg)) = Some (SignedCommand i c pk sg)"
  "me_snap_parse mcp_demo_env (me_snap_text mcp_demo_env sn) = Some sn" "\<not> me_fails mcp_demo_env k" "can_build mcp_demo_env"
proof -
  show "me_dec mcp_demo_env (me_enc mcp_demo_env (SignedCommand i c pk sg)) = Some (SignedCommand i c pk sg)"
    by (simp add: mcp_demo_env_def mcp_demo_codec del: mcp_demo_enc.simps)
  show "me_snap_parse mcp_demo_env (me_snap_text mcp_demo_env sn) = Some sn"
    by (simp add: mcp_demo_env_def ascii_demo_text nats_rows_nats)
  have "check_pattern [0] MCP_PATTERN" by (simp add: MCP_PATTERN_def check_pattern_bits)
  then show "can_build mcp_demo_env"
    by (simp add: can_build_def mcp_demo_env_def mcp_generator_def build_command_transaction_def build_transaction_def find_nonce.simps)
qed (simp add: mcp_demo_env_def)

definition mcp_demo_world :: mcp_world where
  "mcp_demo_world = \<lparr>mw_out = Map.empty, mw_files = Map.empty, mw_log = [], mw_access = 0\<rparr>"

definition mcp_demo_agent :: "u8 \<Rightarrow> agent_wallet" where
  "mcp_demo_agent k = \<lparr>aw_secret = [k], aw_public = PubKey [k], aw_created = False\<rparr>"

definition mcp_demo_server :: "string list \<Rightarrow> mcp_world \<Rightarrow> mcp_server" where
  "mcp_demo_server names w = server_new mcp_demo_env names w (mcp_demo_agent 65) (mcp_demo_agent 66) False"

definition mcp_demo_parse :: "string \<Rightarrow> string + rpc_request" where
  "mcp_demo_parse l =
     (if l = ''start'' then Inr \<lparr>rq_id = Some (JInt 1), rq_method = ''tools/call'', rq_params = Some (JObj [(''name'', JStr ''kdapp_start_episode''),
         (''arguments'', JObj [(''participants'', JArr [JStr ''A'', JStr ''B''])])])\<rparr>
      else Inl ''expected value'')"

abbreviation demo_call :: mcp_event where
  "demo_call \<equiv> Line ''start'' \<lparr>nv_utxos = (\<lambda>_. Inr []), nv_submit = (\<lambda>_. Inr ())\<rparr> 7"

definition demo_move_json :: json where
  "demo_move_json = JObj [(''type'', JStr ''move''), (''row'', JInt 1), (''col'', JInt 2), (''player'', JStr ''X'')]"

abbreviation demo_mcp_run :: "mcp_event list \<Rightarrow> mcp_server \<Rightarrow> (mcp_server \<times> rpc_response list) option" where
  "demo_mcp_run \<equiv> mcp_run mcp_demo_env (\<lambda>_. []) mcp_demo_parse"

lemma demo_game_run:
  "\<exists>s out e wr. demo_mcp_run [demo_call, Turn] (mcp_demo_server [] mcp_demo_world) = Some (s, out) \<and>
     ms_engine s = Some e \<and> episodes e 7 = Some wr \<and> ew_episode wr = mcp_initialize [PubKey [65], PubKey [66]] local_meta \<and>
     ms_queue s = [] \<and> ms_agent1 s = mcp_demo_agent 65 \<and> ms_agent2 s = mcp_demo_agent 66 \<and> \<not> ms_node s"
proof -
  have "\<exists>rs. mcp_process_request mcp_demo_env (\<lambda>_. []) mcp_demo_parse nv 7 ''start'' (mcp_demo_server [] mcp_demo_world) =
      Some ((mcp_demo_server [] mcp_demo_world)\<lparr>ms_queue := [local_block mcp_demo_env (NewEpisode 7 [PubKey [65], PubKey [66]])]\<rparr>, rs)" for nv
    by (simp add: mcp_process_request_def mcp_demo_parse_def handle_tools_call_def get_str_def run_tool_def start_episode_def
        participants_of_def send_engine_def mcp_demo_server_def server_new_def Let_def)
      (simp add: mcp_demo_env_def ascii_def map_filter_simps)
  moreover let ?m = "NewEpisode 7 [PubKey [65], PubKey [66]] :: ttt_command episode_message"
  let ?s1 = "(mcp_demo_server [] mcp_demo_world)\<lparr>ms_queue := [local_block mcp_demo_env ?m]\<rparr>"
  have dec: "me_dec mcp_demo_env (me_enc mcp_demo_env ?m) = Some ?m"
    by (simp add: mcp_demo_env_def mcp_demo_dec_def dec_enc_nats)
  obtain e' w' r where h: "handle_message (mcp_config mcp_demo_env) ?m local_meta (new_engine, ms_world ?s1) = Some ((e', w'), r)"
      "episodes e' 7 = Some \<lparr>ew_episode = mcp_initialize [PubKey [65], PubKey [66]] local_meta, rollback_stack = []\<rparr>"
    by (simp add: new_engine_def wrapper_initialize_def Let_def)
  have "ms_engine ?s1 = Some new_engine" by (simp add: mcp_demo_server_def server_new_def)
  then obtain rm where "engine_turn mcp_demo_env ?s1 = ?s1\<lparr>ms_engine := Some (e'\<lparr>revert_map := rm\<rparr>), ms_world := w', ms_queue := []\<rparr>"
    using local_turn [OF dec _ _ _ h(1)] by auto
  moreover from calculation obtain rs where "mcp_process_request mcp_demo_env (\<lambda>_. []) mcp_demo_parse
      \<lparr>nv_utxos = (\<lambda>_. Inr []), nv_submit = (\<lambda>_. Inr ())\<rparr> 7 ''start'' (mcp_demo_server [] mcp_demo_world) = Some (?s1, rs)" by blast
  ultimately have "demo_mcp_run [demo_call, Turn] (mcp_demo_server [] mcp_demo_world) =
      Some (?s1\<lparr>ms_engine := Some (e'\<lparr>revert_map := rm\<rparr>), ms_world := w', ms_queue := []\<rparr>, [rs])" by simp
  with h(2) show ?thesis by (simp add: mcp_demo_server_def server_new_def del: mcp_run.simps)
qed

theorem mcp_answers_every_line_witness:
  "\<exists>s' out. demo_mcp_run [Turn, demo_call, Turn] (mcp_demo_server [] mcp_demo_world) = Some (s', out) \<and> length out = 1 \<and> rs_id (hd out) = Some (JInt 1)"
proof -
  obtain s' out where "demo_mcp_run [Turn, demo_call, Turn] (mcp_demo_server [] mcp_demo_world) = Some (s', out)"
      "list_all2 (answers_line mcp_demo_parse) (lines_read [Turn, demo_call, Turn]) out"
    using mcp_answers_every_line [OF mcp_demo_laws(4)] by blast
  then show ?thesis by (auto simp: list_all2_Cons1 answers_line_def request_id_def mcp_demo_parse_def simp del: mcp_run.simps)
qed

theorem mcp_view_exact_witness:
  "\<exists>s out. demo_mcp_run [demo_call, Turn] (mcp_demo_server [] mcp_demo_world) = Some (s, out) \<and>
     mcp_episode_state (show_nat (unat (7 :: u32))) s =
       Inr (snap_json \<lparr>ts_board = replicate 3 (replicate 3 0), ts_current = CHR ''X'', ts_participants = 2\<rparr>)"
proof -
  obtain s out e wr where s: "demo_mcp_run [demo_call, Turn] (mcp_demo_server [] mcp_demo_world) = Some (s, out)" "ms_engine s = Some e"
      "episodes e 7 = Some wr" "ew_episode wr = mcp_initialize [PubKey [65], PubKey [66]] local_meta" using demo_game_run by blast
  have "mcp_episode_state (show_nat (unat (7 :: u32))) s = Inr (snap_json (shown_game (ew_episode wr)))"
    using mcp_view_exact [OF s(1) [unfolded mcp_demo_server_def]] s(2,3) parse_id_show [of 7] by fastforce
  with s(1,4) show ?thesis by (simp add: shown_game_def mcp_snapshot_def mcp_initialize_def symbol_def numeral_2_eq_2 del: mcp_run.simps)
qed

theorem mcp_move_exact_witness:
  "\<forall>nv. \<exists>s out s' v e' wr'. demo_mcp_run [demo_call, Turn] (mcp_demo_server [] mcp_demo_world) = Some (s, out) \<and>
     execute_command mcp_demo_env nv (show_nat (unat (7 :: u32))) demo_move_json None s = Some (s', Inr v) \<and>
     ms_engine (engine_turn mcp_demo_env s') = Some e' \<and> episodes e' 7 = Some wr' \<and> at_cell (mg_board (ew_episode wr')) (1, 2) = 1"
proof
  fix nv
  define t where "t = show_nat (unat (7 :: u32))"
  have t: "parse_id t = Some 7" unfolding t_def by (rule parse_id_show)
  obtain s out e wr where s: "demo_mcp_run [demo_call, Turn] (mcp_demo_server [] mcp_demo_world) = Some (s, out)" "ms_engine s = Some e"
      "episodes e 7 = Some wr" "ew_episode wr = mcp_initialize [PubKey [65], PubKey [66]] local_meta" "ms_queue s = []"
      "ms_agent1 s = mcp_demo_agent 65" "ms_agent2 s = mcp_demo_agent 66" "\<not> ms_node s" using demo_game_run by blast
  have law: "mcp_lawful mcp_demo_env s"
    using mcp_demo_laws(1) s(6,7) by (auto simp: mcp_lawful_def verify_signature_def sign_message_def mcp_demo_agent_def) (auto simp: mcp_demo_env_def)
  have cmd: "parse_command demo_move_json = Inr (Move 1 2 0)"
    by (simp add: parse_command_def demo_move_json_def get_str_def coord_arg_def player_arg_def ascii_upper_def Let_def)
  obtain s' v where ex: "execute_command mcp_demo_env nv t demo_move_json None s = Some (s', Inr v)"
    using s(2,8) by (simp add: execute_command_def t cmd Let_def send_engine_def try_submit_def)
  from mcp_move_exact [OF s(1) [unfolded mcp_demo_server_def] law s(5,2,3) ex t cmd] s(4,6) ex s(1)
  show "\<exists>s out s' v e' wr'. demo_mcp_run [demo_call, Turn] (mcp_demo_server [] mcp_demo_world) = Some (s, out) \<and>
     execute_command mcp_demo_env nv (show_nat (unat (7 :: u32))) demo_move_json None s = Some (s', Inr v) \<and>
     ms_engine (engine_turn mcp_demo_env s') = Some e' \<and> episodes e' 7 = Some wr' \<and> at_cell (mg_board (ew_episode wr')) (1, 2) = 1"
    unfolding t_def by (fastforce simp: mcp_initialize_def at_cell_def designated_def signer_wallet_def mcp_demo_agent_def)
qed

theorem player_number_wraps_witness:
  "parse_command (JObj [(''type'', JStr ''move''), (''row'', JInt 0), (''col'', JInt 0), (''player'', JInt 257)]) = Inr (Move 0 0 1)"
  by (subst player_number_wraps [where r = 0 and k = 0 and n = 257]) (simp_all add: get_str_def)

theorem mcp_game_goes_on_witness:
  "may_move (mcp_initialize [PubKey [65]] local_meta) \<and>
   (\<exists>g rs. exec_calls mcp_episode (mcp_initialize [PubKey [65]] local_meta) [(Move 0 0 0, Some (PubKey [65]), local_meta)] = Some (g, rs) \<and> \<not> may_move g)"
proof -
  let ?g = "mcp_initialize [PubKey [65]] local_meta" and ?cs = "[(Move 0 0 0, Some (PubKey [65]), local_meta)]"
  have "\<exists>g rs. exec_calls mcp_episode ?g ?cs = Some (g, rs) \<and> mg_current g = PlayerO"
    by (simp add: mcp_initialize_def off_board_def at_cell_def designated_def evict_def)
  then obtain g rs where g: "exec_calls mcp_episode ?g ?cs = Some (g, rs)" "mg_current g = PlayerO" by blast
  have "\<not> may_move g" using mcp_game_goes_on [OF g(1)] g(2) by simp
  moreover have "may_move ?g" using mcp_game_goes_on [of "[PubKey [65]]" local_meta "[]"] by (simp add: mcp_initialize_def)
  ultimately show ?thesis using g(1) by blast
qed

theorem mcp_restart_shows_dead_games_witness:
  "\<exists>s out names s'. demo_mcp_run [demo_call, Turn] (mcp_demo_server [] mcp_demo_world) = Some (s, out) \<and>
     s' = mcp_demo_server names (ms_world s) \<and> mcp_episode_state ''7'' s' = mcp_episode_state ''7'' s"
proof -
  obtain s out where s: "demo_mcp_run [demo_call, Turn] (mcp_demo_server [] mcp_demo_world) = Some (s, out)" using demo_game_run by blast
  have "files_match mcp_demo_env (mcp_demo_world\<lparr>mw_out := preload mcp_demo_env (mw_files mcp_demo_world) [] Map.empty\<rparr>)"
    by (simp add: files_match_def mcp_demo_world_def)
  then have "server_ok mcp_demo_env True s" using server_ok_run [OF s [unfolded mcp_demo_server_def] server_ok_new] by (simp add: disk_ok_def)
  then have "files_match mcp_demo_env (ms_world s)" using mcp_demo_laws(3) by (auto simp: server_ok_def mcp_watch.watched_def disk_ok_def)
  then have "dom (mw_files (ms_world s)) \<subseteq> range snap_file" by (auto simp: files_match_def dom_def)
  then have "finite (dom (mw_files (ms_world s)))" by (rule finite_subset) (rule finite_imageI, rule finite_class.finite_UNIV)
  then obtain names where names: "set names = insert ''events.jsonl'' (dom (mw_files (ms_world s)))"
    using finite_list [of "insert ''events.jsonl'' (dom (mw_files (ms_world s)))"] by auto
  have "mw_files mcp_demo_world = Map.empty" by (simp add: mcp_demo_world_def)
  from mcp_restart_shows_dead_games [OF s [unfolded mcp_demo_server_def] this _ _ _ names refl, of "''7''"] mcp_demo_laws s
  show ?thesis unfolding mcp_demo_server_def by blast
qed

end
