(* ===== verification/Utxo_Cache.thy ===== *)
theory Utxo_Cache
  imports Generator
begin

text \<open>
  The short-lived cache of unspent outputs (\<^verbatim>\<open>kdapp/src/utils/utxo_cache.rs\<close>): what a node answered for an
  address, with the instant of the request. Instants are nanoseconds of a clock that does not run
  backwards; what the node answers to a request is an argument. The lock of the map is never poisoned.
\<close>

type_synonym utxo = "outpoint \<times> utxo_entry"

record utxo_cache =
  uc_ttl :: u64
  uc_entries :: "string \<rightharpoonup> nat \<times> utxo list"

definition clamp_ttl :: "u64 \<Rightarrow> u64" where
  "clamp_ttl t = max 100 (min t 2000)"

definition cache_new :: "u64 \<Rightarrow> utxo_cache" where
  "cache_new ttl = \<lparr>uc_ttl = clamp_ttl ttl, uc_entries = Map.empty\<rparr>"

definition millis_since :: "nat \<Rightarrow> nat \<Rightarrow> nat" where
  "millis_since now t = (now - t) div 1000000"

definition cache_get :: "nat \<Rightarrow> (string \<Rightarrow> 'e + utxo list) \<Rightarrow> string \<Rightarrow> utxo_cache \<Rightarrow> utxo_cache \<times> ('e + utxo list)" where
  "cache_get now node addr c =
     (let fetch = (case node addr of
            Inl e \<Rightarrow> (c, Inl e)
          | Inr fresh \<Rightarrow> (c\<lparr>uc_entries := (uc_entries c)(addr \<mapsto> (now, fresh))\<rparr>, Inr fresh))
      in case uc_entries c addr of
           Some (t, cached) \<Rightarrow> if millis_since now t < unat (uc_ttl c) then (c, Inr cached) else fetch
         | None \<Rightarrow> fetch)"

text \<open>One request after the other; the first that fails ends it, what was fetched before stays.\<close>

fun cache_get_many ::
  "(string \<Rightarrow> nat \<times> (string \<Rightarrow> 'e + utxo list)) \<Rightarrow> string list \<Rightarrow> utxo_cache \<Rightarrow> utxo_cache \<times> ('e + (string \<rightharpoonup> utxo list))" where
  "cache_get_many at [] c = (c, Inr Map.empty)"
| "cache_get_many at (addr # addrs) c =
     (case cache_get (fst (at addr)) (snd (at addr)) addr c of
        (c1, Inl e) \<Rightarrow> (c1, Inl e)
      | (c1, Inr us) \<Rightarrow>
          (case cache_get_many at addrs c1 of
             (c2, Inl e) \<Rightarrow> (c2, Inl e)
           | (c2, Inr m) \<Rightarrow> (c2, Inr (if addr \<in> set addrs then m else m(addr \<mapsto> us)))))"

definition invalidate_address :: "string \<Rightarrow> utxo_cache \<Rightarrow> utxo_cache" where
  "invalidate_address addr c = c\<lparr>uc_entries := (uc_entries c)(addr := None)\<rparr>"

definition holds_outpoint :: "outpoint \<Rightarrow> utxo list \<Rightarrow> bool" where
  "holds_outpoint op us = list_ex (\<lambda>u. fst u = op) us"

definition invalidate_outpoint :: "outpoint \<Rightarrow> utxo_cache \<Rightarrow> utxo_cache" where
  "invalidate_outpoint op c =
     c\<lparr>uc_entries := (\<lambda>addr. case uc_entries c addr of
          Some (t, us) \<Rightarrow> if holds_outpoint op us then None else Some (t, us)
        | None \<Rightarrow> None)\<rparr>"

definition set_ttl_ms :: "u64 \<Rightarrow> utxo_cache \<Rightarrow> utxo_cache" where
  "set_ttl_ms ttl c = c\<lparr>uc_ttl := clamp_ttl ttl\<rparr>"

section \<open>Answers are fresh\<close>

lemma clamp_ttl_bounds: "100 \<le> unat (clamp_ttl t)" "unat (clamp_ttl t) \<le> 2000"
proof -
  have "100 \<le> clamp_ttl t" "clamp_ttl t \<le> 2000" by (simp_all add: clamp_ttl_def)
  then show "100 \<le> unat (clamp_ttl t)" "unat (clamp_ttl t) \<le> 2000" by (simp_all add: word_le_nat_alt)
qed

text \<open>\<open>truth t addr\<close> is what the node answers at the instant \<open>t\<close>.\<close>

datatype cache_call = CGet nat string | CDropAddress string | CDropOutpoint outpoint | CSetTtl u64

fun cache_calls :: "(nat \<Rightarrow> string \<Rightarrow> 'e + utxo list) \<Rightarrow> cache_call list \<Rightarrow> utxo_cache \<Rightarrow> utxo_cache \<times> (nat \<times> string \<times> ('e + utxo list)) list" where
  "cache_calls truth [] c = (c, [])"
| "cache_calls truth (CGet now addr # xs) c =
     (let (c1, a) = cache_get now (truth now) addr c; (c2, out) = cache_calls truth xs c1 in (c2, (now, addr, a) # out))"
| "cache_calls truth (CDropAddress addr # xs) c = cache_calls truth xs (invalidate_address addr c)"
| "cache_calls truth (CDropOutpoint op # xs) c = cache_calls truth xs (invalidate_outpoint op c)"
| "cache_calls truth (CSetTtl t # xs) c = cache_calls truth xs (set_ttl_ms t c)"

fun get_times :: "cache_call list \<Rightarrow> nat list" where
  "get_times [] = []"
| "get_times (CGet now addr # xs) = now # get_times xs"
| "get_times (_ # xs) = get_times xs"

definition cache_true :: "(nat \<Rightarrow> string \<Rightarrow> 'e + utxo list) \<Rightarrow> nat \<Rightarrow> utxo_cache \<Rightarrow> bool" where
  "cache_true truth now c \<longleftrightarrow> 100 \<le> unat (uc_ttl c) \<and> unat (uc_ttl c) \<le> 2000 \<and>
     (\<forall>addr t us. uc_entries c addr = Some (t, us) \<longrightarrow> t \<le> now \<and> truth t addr = Inr us)"

lemma cache_true_new [simp]: "cache_true truth now (cache_new ttl)"
  by (simp add: cache_true_def cache_new_def clamp_ttl_bounds)

lemma cache_true_later: "cache_true truth t c \<Longrightarrow> t \<le> now \<Longrightarrow> cache_true truth now c"
  by (force simp: cache_true_def)

lemma cache_true_keeps:
  "cache_true truth now c \<Longrightarrow> cache_true truth now (invalidate_address addr c)"
  "cache_true truth now c \<Longrightarrow> cache_true truth now (invalidate_outpoint op c)"
  "cache_true truth now c \<Longrightarrow> cache_true truth now (set_ttl_ms ttl c)"
  by (auto simp: cache_true_def invalidate_address_def invalidate_outpoint_def set_ttl_ms_def clamp_ttl_bounds
      split: option.splits if_splits)

definition fresh_answer :: "(nat \<Rightarrow> string \<Rightarrow> 'e + utxo list) \<Rightarrow> nat \<times> string \<times> ('e + utxo list) \<Rightarrow> bool" where
  "fresh_answer truth x =
     (case x of (now, addr, a) \<Rightarrow> \<exists>t \<le> now. truth t addr = a \<and> millis_since now t < 2000 \<and> (\<forall>e. a = Inl e \<longrightarrow> t = now))"

lemma cache_get_fresh:
  assumes "cache_true truth now c" "cache_get now (truth now) addr c = (c', a)"
  shows "cache_true truth now c'" "fresh_answer truth (now, addr, a)"
proof -
  have "cache_true truth now c' \<and> fresh_answer truth (now, addr, a)"
  proof (cases "\<exists>t us. uc_entries c addr = Some (t, us) \<and> millis_since now t < unat (uc_ttl c)")
    case True
    then obtain t us where e: "uc_entries c addr = Some (t, us)" "millis_since now t < unat (uc_ttl c)" by blast
    with assms(1) have "t \<le> now" "truth t addr = Inr us" "millis_since now t < 2000" by (auto simp: cache_true_def)
    moreover have "c' = c" "a = Inr us" using assms(2) e by (simp_all add: cache_get_def Let_def)
    ultimately show ?thesis using assms(1) by (auto simp: fresh_answer_def)
  next
    case False
    then have "cache_get now (truth now) addr c = (case truth now addr of Inl e \<Rightarrow> (c, Inl e)
        | Inr fresh \<Rightarrow> (c\<lparr>uc_entries := (uc_entries c)(addr \<mapsto> (now, fresh))\<rparr>, Inr fresh))"
      by (auto simp: cache_get_def Let_def split: option.split)
    then show ?thesis using assms by (auto simp: cache_true_def fresh_answer_def millis_since_def intro!: exI [of _ now] split: sum.splits)
  qed
  then show "cache_true truth now c'" "fresh_answer truth (now, addr, a)" by simp_all
qed

text \<open>
  C40: The cache never answers from the distant past. In any series of calls, by a clock that does not run
  backwards, every answer is what the node answered for the address less than two seconds before, whatever
  time to live was asked for, and every failure is a failure of this call.
\<close>
theorem cache_answers_fresh:
  assumes "cache_calls truth xs (cache_new ttl) = (c, out)" "sorted (get_times xs)"
  shows "list_all (fresh_answer truth) out"
proof -
  have "list_all (fresh_answer truth) out"
    if "cache_calls truth xs c0 = (c, out)" "sorted (now # get_times xs)" "cache_true truth now c0" for c0 now
    using that
  proof (induction truth xs c0 arbitrary: c out now rule: cache_calls.induct)
    case (2 truth t addr xs c0)
    obtain c1 a where g: "cache_get t (truth t) addr c0 = (c1, a)" by fastforce
    obtain out' where out': "cache_calls truth xs c1 = (c, out')" "out = (t, addr, a) # out'"
      using "2.prems"(1) g by (auto split: prod.splits)
    have "cache_true truth t c0" using "2.prems"(2,3) by (auto intro: cache_true_later)
    with g have "cache_true truth t c1" "fresh_answer truth (t, addr, a)" using cache_get_fresh by blast+
    with "2.IH" [OF g [symmetric] refl, of c out' t] out' "2.prems"(2) show ?case by auto
  qed (auto intro: cache_true_keeps)
  then show ?thesis using assms by (metis cache_true_new le0 sorted_simps(2))
qed

theorem cache_answers_fresh_witness:
  "\<exists>c out. cache_calls (\<lambda>t a. if t < 5 then Inl t else Inr []) [CGet 3 ''x'', CGet 7 ''x'', CSetTtl 9999, CGet 1900000000 ''x''] (cache_new 5) = (c, out) \<and>
     length out = 3 \<and> list_all (fresh_answer (\<lambda>t a. if t < 5 then Inl t else Inr [])) out"
proof -
  let ?xs = "[CGet 3 ''x'', CGet 7 ''x'', CSetTtl 9999, CGet 1900000000 ''x'']"
  let ?truth = "\<lambda>t a. if t < 5 then Inl t else Inr [] :: nat + utxo list"
  obtain c out where run: "cache_calls ?truth ?xs (cache_new 5) = (c, out)" by fastforce
  then have "length out = 3" by (auto split: prod.splits)
  with cache_answers_fresh [OF run] run show ?thesis by auto
qed

end
