(* ===== verification/Room_Peer.thy ===== *)
theory Room_Peer
  imports Utxo_Cache Comment_Room Auth_Flows Json
begin

text \<open>
  The HTTP peer of comment-it below its endpoints (\<^verbatim>\<open>comment-it/src/api/http/state.rs\<close>,
  \<^verbatim>\<open>blockchain_engine.rs\<close>): the copy of the rooms that the handler of its engine keeps, what it broadcasts, the
  submission of messages with reserved outputs, and the episodes it takes over from the indexer after
  a start. Nothing panics while it holds one of the locks, so none of them is ever poisoned.
\<close>

section \<open>State\<close>

record room_env =
  re_auth :: auth_env
  re_tx :: tx_env
  re_pk_of :: "bytes \<Rightarrow> pubkey option"                   \<comment> \<open>\<^verbatim>\<open>PublicKey::from_slice\<close>\<close>
  re_enc_cmd :: "room_command \<Rightarrow> bytes"
  re_enc :: "room_command episode_message \<Rightarrow> bytes"
  re_dec :: "bytes \<Rightarrow> room_command episode_message option"
  re_script :: "pubkey \<Rightarrow> bytes"
  re_address :: "pubkey \<Rightarrow> string"
  re_utxo_id :: "outpoint \<Rightarrow> string"                     \<comment> \<open>\<^verbatim>\<open>id:index\<close>\<close>
  re_tx_id :: "transaction \<Rightarrow> string"
  re_pick :: "(string \<rightharpoonup> string) \<Rightarrow> string option"    \<comment> \<open>the value a hash map yields first\<close>

record room_ws =
  rw_type :: string
  rw_episode :: "u64 option"
  rw_auth :: "bool option"
  rw_challenge :: "string option"
  rw_token :: "string option"
  rw_comment :: "room_comment option"

text \<open>\<open>rp_txs\<close> are the transactions the node has taken from this peer.\<close>

record room_peer =
  rp_key :: pubkey
  rp_episodes :: "u64 \<rightharpoonup> room"
  rp_pending :: "string set"
  rp_used :: "string set"
  rp_cache :: utxo_cache
  rp_sent :: "room_ws list"
  rp_txs :: "transaction list"

definition room_peer_new :: "pubkey \<Rightarrow> room_peer" where
  "room_peer_new pk =
     \<lparr>rp_key = pk, rp_episodes = Map.empty, rp_pending = {}, rp_used = {}, rp_cache = cache_new 750, rp_sent = [], rp_txs = []\<rparr>"

definition room_challenge :: "room_env \<Rightarrow> room \<Rightarrow> string option" where
  "room_challenge env g = re_pick env (active_challenges g)"

definition room_authenticated :: "room \<Rightarrow> bool" where
  "room_authenticated g \<longleftrightarrow> authenticated_participants g \<noteq> {}"

definition room_get_episode_state :: "room_peer \<Rightarrow> episode_id \<Rightarrow> room option" where
  "room_get_episode_state p i = rp_episodes p (ucast i)"

section \<open>The handler of the engine\<close>

definition room_broadcast :: "room_ws \<Rightarrow> room_peer \<Rightarrow> room_peer" where
  "room_broadcast m p = p\<lparr>rp_sent := rp_sent p @ [m]\<rparr>"

definition room_store :: "episode_id \<Rightarrow> room \<Rightarrow> room_peer \<Rightarrow> room_peer" where
  "room_store i g p = p\<lparr>rp_episodes := (rp_episodes p)(ucast i \<mapsto> g)\<rparr>"

text \<open>The handle of a session over the bytes of the key; \<^verbatim>\<open>handlers/status.rs\<close> has one over its text.\<close>

definition deterministic_handle :: "room_env \<Rightarrow> u64 \<Rightarrow> bytes \<Rightarrow> string" where
  "deterministic_handle env i key =
     hex_encode (re_auth env) (sha256 (ae_crypto (re_auth env)) (ascii ''KDAPP/COMMENT-IT/SESSION'' @ u64_be i @ key))"

definition room_on_initialize :: "room_env \<Rightarrow> episode_id \<Rightarrow> room \<Rightarrow> room_peer \<Rightarrow> room_peer" where
  "room_on_initialize env i g p =
     room_broadcast \<lparr>rw_type = ''episode_created'', rw_episode = Some (ucast i), rw_auth = Some False, rw_challenge = room_challenge env g,
       rw_token = None, rw_comment = None\<rparr> (room_store i g p)"

definition room_on_command ::
  "room_env \<Rightarrow> episode_id \<Rightarrow> room \<Rightarrow> room_command \<Rightarrow> pubkey option \<Rightarrow> room_peer \<Rightarrow> room_peer" where
  "room_on_command env i g cmd authorization p =
     (let previous = rp_episodes p (ucast i);
          p1 = room_store i g p;
          msg = \<lparr>rw_type = [], rw_episode = Some (ucast i), rw_auth = Some (room_authenticated g), rw_challenge = room_challenge env g,
            rw_token = None, rw_comment = None\<rparr>
      in case cmd of
           RoomSubmitComment txt token \<Rightarrow>
             (if room_comments g = [] then p1
              else room_broadcast (msg\<lparr>rw_type := ''new_comment'', rw_comment := Some (last (room_comments g))\<rparr>) p1)
         | _ \<Rightarrow>
             if (case previous of Some g0 \<Rightarrow> room_authenticated g0 | None \<Rightarrow> False) \<and> \<not> room_authenticated g then
               room_broadcast (msg\<lparr>rw_type := ''session_revoked''\<rparr>) p1
             else if room_authenticated g then
               room_broadcast (msg\<lparr>rw_type := ''authentication_successful'',
                 rw_token := map_option (\<lambda>pk. deterministic_handle env (ucast i) (pk_bytes pk)) authorization\<rparr>) p1
             else if room_challenge env g \<noteq> None then
               room_broadcast (msg\<lparr>rw_type := ''challenge_issued'',
                 rw_challenge := (case authorization of
                    Some pk \<Rightarrow> get_challenge_for_participant (re_auth env) g pk
                  | None \<Rightarrow> room_challenge env g)\<rparr>) p1
             else p1)"

text \<open>A rollback is only logged.\<close>

definition room_on_rollback :: "episode_id \<Rightarrow> room \<Rightarrow> room_peer \<Rightarrow> room_peer" where
  "room_on_rollback i g p = p"

definition room_http_handler :: "room_env \<Rightarrow> (room, room_command) episode_event \<Rightarrow> room_peer \<Rightarrow> room_peer" where
  "room_http_handler env ev p =
     (case ev of
        OnInitialize i g \<Rightarrow> room_on_initialize env i g p
      | OnCommand i g c a md \<Rightarrow> room_on_command env i g c a p
      | OnRollback i g \<Rightarrow> room_on_rollback i g p)"

definition room_config :: "room_env \<Rightarrow> (room, room_command, room_rollback, room_error, room_peer) config" where
  "room_config env = \<lparr>cfg_ep = room_episode (re_auth env), cfg_crypto = ae_crypto (re_auth env), cmd_bytes = re_enc_cmd env,
     decode_msg = re_dec env, handlers = [room_http_handler env]\<rparr>"

section \<open>Submission\<close>

text \<open>The node at the time of a submission: the clock, the outputs of an address, the answer to a transaction.\<close>

record room_node =
  rn_now :: nat
  rn_utxos :: "string \<Rightarrow> string + utxo list"
  rn_answer :: "transaction \<Rightarrow> string + unit"

fun message_sender :: "room_command episode_message \<Rightarrow> string + pubkey" where
  "message_sender (SignedCommand i c pk sg) = Inr pk"
| "message_sender (NewEpisode i []) = Inl ''NewEpisode has no participants''"
| "message_sender (NewEpisode i (p # ps)) = Inr p"
| "message_sender _ = Inl ''Episode message variant not supported for transaction submission''"

definition find_unused :: "room_env \<Rightarrow> string set \<Rightarrow> utxo list \<Rightarrow> (utxo \<times> string) option" where
  "find_unused env used us =
     map_option (\<lambda>u. (u, re_utxo_id env (fst u))) (List.find (\<lambda>u. re_utxo_id env (fst u) \<notin> used) us)"

definition reserve_utxo :: "string \<Rightarrow> room_peer \<Rightarrow> room_peer" where
  "reserve_utxo uid p = p\<lparr>rp_used := insert uid (rp_used p)\<rparr>"

text \<open>After a failure at once, after a success ten seconds later.\<close>

definition release_utxo :: "string \<Rightarrow> room_peer \<Rightarrow> room_peer" where
  "release_utxo uid p = p\<lparr>rp_used := rp_used p - {uid}\<rparr>"

text \<open>The result is the id of the output that was spent with the transaction; \<^const>\<open>None\<close> is a panic.\<close>

definition send_reserved ::
  "room_env \<Rightarrow> room_node \<Rightarrow> pubkey \<Rightarrow> room_command episode_message \<Rightarrow> utxo \<times> string \<Rightarrow> room_peer \<Rightarrow>
     room_peer \<times> (string + transaction \<times> string) option" where
  "send_reserved env n pk msg u p =
     (case build_command_transaction (re_tx env) auth_generator (fst u) (re_script env pk) (re_enc env msg) 5000 of
        None \<Rightarrow> (p, None)
      | Some tx \<Rightarrow>
          (case rn_answer n tx of
             Inr _ \<Rightarrow> (p\<lparr>rp_txs := rp_txs p @ [tx]\<rparr>, Some (Inr (tx, snd u)))
           | Inl e \<Rightarrow> (release_utxo (snd u) p, Some (Inl e))))"

definition submit_room_message ::
  "room_env \<Rightarrow> room_node option \<Rightarrow> room_command episode_message \<Rightarrow> room_peer \<Rightarrow> room_peer \<times> (string + transaction \<times> string) option" where
  "submit_room_message env node msg p =
     (case node of
        None \<Rightarrow> (p, Some (Inl ''Kaspad client not available for transaction submission.''))
      | Some n \<Rightarrow>
          (case message_sender msg of
             Inl e \<Rightarrow> (p, Some (Inl e))
           | Inr pk \<Rightarrow>
               (case cache_get (rn_now n) (rn_utxos n) (re_address env pk) (rp_cache p) of
                  (c, Inl e) \<Rightarrow> (p\<lparr>rp_cache := c\<rparr>, Some (Inl e))
                | (c, Inr us) \<Rightarrow>
                    if us = [] then
                      (p\<lparr>rp_cache := c\<rparr>, Some (Inl ''No UTXOs found for participant wallet. Please fund the wallet.''))
                    else case find_unused env (rp_used p) us of
                      None \<Rightarrow> (p\<lparr>rp_cache := c\<rparr>,
                        Some (Inl ''No unused UTXOs available. Please wait for previous transactions to confirm.''))
                    | Some u \<Rightarrow> send_reserved env n pk msg u (reserve_utxo (snd u) (p\<lparr>rp_cache := c\<rparr>)))))"

section \<open>Episodes taken over from the indexer\<close>

text \<open>The text of a key, bare or as \<^verbatim>\<open>PublicKey(...)\<close>.\<close>

definition unwrap_key :: "string \<Rightarrow> string" where
  "unwrap_key s =
     (if take 10 s = ''PublicKey('' \<and> s \<noteq> [] \<and> last s = CHR '')'' then butlast (drop 10 s) else s)"

definition rehydrated_message :: "room_env \<Rightarrow> u64 set \<Rightarrow> json \<Rightarrow> (room_command episode_message \<times> u64) option" where
  "rehydrated_message env existing ep =
     (case get_u64 ''episode_id'' ep of
        None \<Rightarrow> None
      | Some i \<Rightarrow>
          if i \<in> existing then None
          else case get_str ''creator_pubkey'' ep of
            None \<Rightarrow> None
          | Some key_text \<Rightarrow>
              if key_text = [] then None
              else case Option.bind (hex_decode (re_auth env) (unwrap_key key_text)) (re_pk_of env) of
                None \<Rightarrow> None
              | Some pk \<Rightarrow>
                  if 2 ^ 32 \<le> i then None
                  else Some (NewEpisode (ucast i) [pk], case get_u64 ''created_at'' ep of Some t \<Rightarrow> t | None \<Rightarrow> 0))"

definition rehydrate_episode :: "room_env \<Rightarrow> u64 \<Rightarrow> u64 set \<Rightarrow> json \<Rightarrow> engine_msg option" where
  "rehydrate_episode env current_daa existing ep =
     map_option (\<lambda>(msg, time). BlkAccepted default_hash (if current_daa > 0 then current_daa else 1) time [(default_hash, re_enc env msg, None)])
       (rehydrated_message env existing ep)"

text \<open>The body of a successful reply of the indexer; what the engine is sent.\<close>

definition rehydrate_from_indexer :: "room_env \<Rightarrow> u64 \<Rightarrow> room_peer \<Rightarrow> json \<Rightarrow> engine_msg list" where
  "rehydrate_from_indexer env current_daa p body =
     List.map_filter (rehydrate_episode env current_daa (dom (rp_episodes p)))
       (case Option.bind (json_get ''episodes'' body) as_array of Some eps \<Rightarrow> eps | None \<Rightarrow> [])"

end
