(* ===== verification/Room_Api.thy ===== *)
theory Room_Api
  imports Room_Peer
begin

text \<open>
  The endpoints of the HTTP peer of comment-it (\<^verbatim>\<open>comment-it/src/api/http/handlers\<close>, \<^verbatim>\<open>organizer_peer.rs\<close>).
  A result is an HTTP status or a reply, \<^const>\<open>None\<close> a panic of the request, which leaves the state as it is. The
  wallet of the server is \<^const>\<open>None\<close> when it cannot be loaded; what the indexer answers is the body of a
  successful reply.
\<close>

type_synonym 'a http_result = "(nat + 'a) option"

definition http_ok :: "'a \<Rightarrow> 'a http_result" where "http_ok x = Some (Inr x)"
definition http_error :: "nat \<Rightarrow> 'a http_result" where "http_error n = Some (Inl n)"

definition room_key_of :: "room_env \<Rightarrow> string \<Rightarrow> pubkey option" where
  "room_key_of env text = Option.bind (hex_decode (re_auth env) text) (re_pk_of env)"

text \<open>What became of a submission: the id or \<^verbatim>\<open>error\<close>, and the status of the reply.\<close>

definition submit_and_reply ::
  "room_env \<Rightarrow> room_node option \<Rightarrow> room_command episode_message \<Rightarrow> string \<Rightarrow> string \<Rightarrow> (string \<Rightarrow> string \<Rightarrow> 'a) \<Rightarrow>
     room_peer \<Rightarrow> room_peer \<times> 'a http_result" where
  "submit_and_reply env node msg good bad reply p =
     (case submit_room_message env node msg p of
        (p1, None) \<Rightarrow> (p1, None)
      | (p1, Some (Inr (tx, uid))) \<Rightarrow> (p1, http_ok (reply (re_tx_id env tx) good))
      | (p1, Some (Inl e)) \<Rightarrow> (p1, http_ok (reply ''error'' bad)))"

section \<open>Starting an episode\<close>

record start_reply =
  st_episode :: u64
  st_organizer :: string
  st_address :: string
  st_tx :: string
  st_status :: string

definition start_reply_of :: "room_env \<Rightarrow> pubkey \<Rightarrow> pubkey \<Rightarrow> u64 \<Rightarrow> string \<Rightarrow> string \<Rightarrow> start_reply" where
  "start_reply_of env organizer pk i tid status =
     \<lparr>st_episode = i, st_organizer = hex_encode (re_auth env) (tl (pk_bytes organizer)), st_address = re_address env pk,
      st_tx = tid, st_status = status\<rparr>"

text \<open>\<open>fresh\<close> is the random id of 64 bits.\<close>

definition room_start_auth ::
  "room_env \<Rightarrow> room_node option \<Rightarrow> keypair option \<Rightarrow> u64 \<Rightarrow> string \<Rightarrow> u64 option \<Rightarrow> room_peer \<Rightarrow> room_peer \<times> start_reply http_result" where
  "room_start_auth env node wallet fresh public_key existing p =
     (case room_key_of env public_key of
        None \<Rightarrow> (p, http_error 400)
      | Some pk \<Rightarrow>
          let i = (case existing of Some j \<Rightarrow> j | None \<Rightarrow> fresh) in
          (case (wallet, node) of
            (Some kp, Some n) \<Rightarrow>
              (case cache_get (rn_now n) (rn_utxos n) (re_address env (kp_public kp)) (rp_cache p) of
                 (c, Inl e) \<Rightarrow> (p\<lparr>rp_cache := c\<rparr>, http_error 500)
               | (c, Inr us) \<Rightarrow>
                   if us = [] then (p\<lparr>rp_cache := c\<rparr>, http_error 503)
                   else submit_and_reply env node (NewEpisode (ucast i) [pk])
                     (if existing = None then ''submitted_to_blockchain'' else ''joined_existing_episode'') ''transaction_submission_failed''
                     (start_reply_of env (rp_key p) pk i) (p\<lparr>rp_cache := c\<rparr>))
          | _ \<Rightarrow> (p, http_error 500)))"

text \<open>Ids are written as text.\<close>

definition start_reply_json :: "start_reply \<Rightarrow> json" where
  "start_reply_json r = JObj [(''episode_id'', JStr (show_u64 (st_episode r))), (''organizer_public_key'', JStr (st_organizer r)),
     (''participant_kaspa_address'', JStr (st_address r)), (''transaction_id'', JStr (st_tx r)), (''status'', JStr (st_status r))]"

section \<open>Asking for a challenge\<close>

text \<open>An id as a number or as text.\<close>

definition u64_flexible :: "json \<Rightarrow> u64 option" where
  "u64_flexible j = (case j of JInt _ \<Rightarrow> as_u64 j | JStr s \<Rightarrow> parse_u64 s | _ \<Rightarrow> None)"

record challenge_reply =
  ch_episode :: u64
  ch_nonce :: string
  ch_tx :: "string option"
  ch_status :: string

datatype challenge_outcome = Answered "challenge_reply http_result" | Awaiting u64 pubkey string string

definition challenge_key :: "u64 \<Rightarrow> string" where
  "challenge_key i = ''challenge_'' @ show_u64 i"

definition drop_pending :: "string \<Rightarrow> room_peer \<Rightarrow> room_peer" where
  "drop_pending k p = p\<lparr>rp_pending := rp_pending p - {k}\<rparr>"

text \<open>
  The request as parsed, \<^const>\<open>None\<close> for a body that is none. The entry that keeps out a second request
  is made before the key is looked at, and only a request with a key has the guard that removes it.
\<close>

definition room_request_challenge ::
  "room_env \<Rightarrow> room_node option \<Rightarrow> keypair option \<Rightarrow> (u64 \<times> string option) option \<Rightarrow> room_peer \<Rightarrow> room_peer \<times> challenge_outcome" where
  "room_request_challenge env node wallet req p =
     (case req of
        None \<Rightarrow> (p, Answered (http_ok \<lparr>ch_episode = 0, ch_nonce = ''pending'', ch_tx = None, ch_status = ''request_in_progress''\<rparr>))
      | Some (i, public_key) \<Rightarrow>
          if challenge_key i \<in> rp_pending p then
            (p, Answered (http_ok \<lparr>ch_episode = i, ch_nonce = ''request_in_progress'', ch_tx = None, ch_status = ''request_in_progress''\<rparr>))
          else
            let p1 = p\<lparr>rp_pending := insert (challenge_key i) (rp_pending p)\<rparr>;
                participant = (case public_key of
                    Some text \<Rightarrow> room_key_of env text
                  | None \<Rightarrow> Option.bind (rp_episodes p i) creator)
            in (case participant of
                 None \<Rightarrow> (p1, Answered (http_error 400))
               | Some pk \<Rightarrow>
                   (case wallet of
                      None \<Rightarrow> (drop_pending (challenge_key i) p1, Answered (http_error 500))
                    | Some kp \<Rightarrow>
                        if 2 ^ 32 \<le> i then (drop_pending (challenge_key i) p1, Answered None)
                        else (case submit_and_reply env node
                            (new_signed_command (room_config env) (ucast i) RoomRequestChallenge (kp_secret kp) pk)
                            ''request_challenge_submitted'' ''request_challenge_failed'' (Awaiting i pk) p1 of
                          (p2, Some (Inr waiting)) \<Rightarrow> (p2, waiting)
                        | (p2, _) \<Rightarrow> (drop_pending (challenge_key i) p2, Answered None)))))"

text \<open>The rooms as the thirty looks at the copy, a fifth of a second apart, find them.\<close>

fun look_for_challenge :: "auth_env \<Rightarrow> u64 \<Rightarrow> pubkey \<Rightarrow> (u64 \<rightharpoonup> room) list \<Rightarrow> string" where
  "look_for_challenge env i pk [] = []"
| "look_for_challenge env i pk (rooms # later) =
     (case Option.bind (rooms i) (\<lambda>g. get_challenge_for_participant env g pk) of
        Some c \<Rightarrow> c
      | None \<Rightarrow> look_for_challenge env i pk later)"

definition room_await_challenge ::
  "room_env \<Rightarrow> (nat \<Rightarrow> (u64 \<rightharpoonup> room)) \<Rightarrow> u64 \<Rightarrow> pubkey \<Rightarrow> string \<Rightarrow> string \<Rightarrow> room_peer \<Rightarrow> room_peer \<times> challenge_reply http_result" where
  "room_await_challenge env seen i pk tid status p =
     (let nonce = look_for_challenge (re_auth env) i pk (map seen [0..<30]);
          p1 = drop_pending (challenge_key i) p
      in if nonce = [] then (p1, http_error 408)
         else (p1, http_ok \<lparr>ch_episode = i, ch_nonce = nonce, ch_tx = Some tid, ch_status = status\<rparr>))"

section \<open>Answering it\<close>

record room_verify_reply =
  rv_episode :: u64
  rv_authenticated :: bool
  rv_status :: string
  rv_tx :: "string option"

definition verify_key :: "u64 \<Rightarrow> string" where
  "verify_key i = ''verify_'' @ show_u64 i"

text \<open>The guard is there from the start, and the request holds the entry only while it runs.\<close>

definition room_verify_auth ::
  "room_env \<Rightarrow> room_node option \<Rightarrow> keypair option \<Rightarrow> u64 \<Rightarrow> string \<Rightarrow> string \<Rightarrow> room_peer \<Rightarrow> room_peer \<times> room_verify_reply http_result" where
  "room_verify_auth env node wallet i signature nonce p =
     (if verify_key i \<in> rp_pending p then
        (p, http_ok \<lparr>rv_episode = i, rv_authenticated = False, rv_status = ''request_in_progress'', rv_tx = None\<rparr>)
      else if (case rp_episodes p i of Some g \<Rightarrow> room_authenticated g | None \<Rightarrow> False) then
        (p, http_ok \<lparr>rv_episode = i, rv_authenticated = True, rv_status = ''already_authenticated'', rv_tx = None\<rparr>)
      else case wallet of
        None \<Rightarrow> (p, http_error 500)
      | Some kp \<Rightarrow>
          if 2 ^ 32 \<le> i then (p, http_error 400)
          else submit_and_reply env node
            (new_signed_command (room_config env) (ucast i) (RoomSubmitResponse signature nonce) (kp_secret kp) (kp_public kp))
            ''submit_response_submitted'' ''submit_response_failed''
            (\<lambda>tid status. \<lparr>rv_episode = i, rv_authenticated = False, rv_status = status, rv_tx = Some tid\<rparr>) p)"

section \<open>Ending a session\<close>

record room_revoke_reply =
  rk_episode :: u64
  rk_tx :: string
  rk_status :: string

text \<open>A room without a creator is given a fixed key, if it is one.\<close>

definition room_revoke_session ::
  "room_env \<Rightarrow> room_node option \<Rightarrow> keypair option \<Rightarrow> u64 \<Rightarrow> string \<Rightarrow> string \<Rightarrow> room_peer \<Rightarrow> room_peer \<times> room_revoke_reply http_result" where
  "room_revoke_session env node wallet i token signature p =
     (case rp_episodes p i of
        None \<Rightarrow> (p, http_error 404)
      | Some g \<Rightarrow>
          (case (case creator g of Some pk \<Rightarrow> Some pk | None \<Rightarrow> re_pk_of env (replicate 33 2)) of
             None \<Rightarrow> (p, None)
           | Some participant \<Rightarrow>
               (case wallet of
                  None \<Rightarrow> (p, http_error 500)
                | Some kp \<Rightarrow>
                    if 2 ^ 32 \<le> i then (p, http_error 400)
                    else submit_and_reply env node
                      (new_signed_command (room_config env) (ucast i) (RoomRevokeSession token signature) (kp_secret kp) participant)
                      ''session_revocation_submitted'' ''session_revocation_failed''
                      (\<lambda>tid status. \<lparr>rk_episode = i, rk_tx = tid, rk_status = status\<rparr>) p)))"

section \<open>Status\<close>

record room_status =
  rt_authenticated :: bool
  rt_status :: string
  rt_challenge :: "string option"
  rt_token :: "string option"
  rt_confirmed :: bool
  rt_public_key :: "string option"

definition try_indexer_membership :: "room_env \<Rightarrow> json option \<Rightarrow> u64 \<Rightarrow> string \<Rightarrow> room_status option" where
  "try_indexer_membership env body i pubkey =
     (if Option.bind body (get_bool ''member'') = Some True
      then Some \<lparr>rt_authenticated = True, rt_status = ''authenticated_via_indexer'', rt_challenge = None,
        rt_token = Some (deterministic_handle env i (ascii pubkey)), rt_confirmed = False, rt_public_key = Some pubkey\<rparr>
      else None)"

definition room_get_status :: "room_env \<Rightarrow> json option \<Rightarrow> u64 \<Rightarrow> string option \<Rightarrow> room_peer \<Rightarrow> room_status" where
  "room_get_status env body i pubkey p =
     (let known = rp_episodes p i;
          authenticated = (case known of Some g \<Rightarrow> room_authenticated g | None \<Rightarrow> False);
          via_indexer = (if authenticated then None else Option.bind pubkey (try_indexer_membership env body i))
      in case via_indexer of
           Some r \<Rightarrow> r
         | None \<Rightarrow>
             (case known of
                Some g \<Rightarrow> \<lparr>rt_authenticated = authenticated, rt_status = (if authenticated then ''authenticated'' else ''pending''),
                  rt_challenge = room_challenge env g, rt_token = map_option (\<lambda>t. deterministic_handle env i (ascii t)) pubkey,
                  rt_confirmed = True, rt_public_key = map_option (pk_text (re_auth env)) (creator g)\<rparr>
              | None \<Rightarrow> \<lparr>rt_authenticated = False, rt_status = ''episode_not_found'', rt_challenge = None, rt_token = None,
                  rt_confirmed = False, rt_public_key = None\<rparr>))"

section \<open>Comments\<close>

record comment_reply =
  cr_episode :: u64
  cr_tx :: string
  cr_status :: string

definition accept_comment :: "string \<Rightarrow> u64 \<Rightarrow> room_env \<Rightarrow> room_node option \<Rightarrow> room_command episode_message \<Rightarrow>
    room_peer \<Rightarrow> room_peer \<times> comment_reply http_result" where
  "accept_comment good i env node msg p =
     (case submit_room_message env node msg p of
        (p1, None) \<Rightarrow> (p1, None)
      | (p1, Some (Inl e)) \<Rightarrow> (p1, http_error 500)
      | (p1, Some (Inr (tx, uid))) \<Rightarrow> (p1, http_ok \<lparr>cr_episode = i, cr_tx = re_tx_id env tx, cr_status = good\<rparr>))"

text \<open>A message that was signed elsewhere, as bytes.\<close>

definition room_submit_comment ::
  "room_env \<Rightarrow> room_node option \<Rightarrow> bytes \<Rightarrow> room_peer \<Rightarrow> room_peer \<times> comment_reply http_result" where
  "room_submit_comment env node bs p =
     (case re_dec env bs of
        None \<Rightarrow> (p, http_error 400)
      | Some msg \<Rightarrow> accept_comment ''comment_submitted_to_blockchain'' (ucast (msg_episode_id msg)) env node msg p)"

text \<open>The key of the server is written into the copy of a room that the indexer says it belongs to.\<close>

definition populate_auth :: "room_env \<Rightarrow> json option \<Rightarrow> u64 \<Rightarrow> pubkey \<Rightarrow> room_peer \<Rightarrow> room_peer" where
  "populate_auth env body i pk p =
     (case rp_episodes p i of
        Some g \<Rightarrow>
          if \<not> is_participant_authenticated (re_auth env) g pk \<and> Option.bind body (get_bool ''member'') = Some True
          then p\<lparr>rp_episodes := (rp_episodes p)(i \<mapsto>
                 g\<lparr>authenticated_participants := insert (pk_text (re_auth env) pk) (authenticated_participants g)\<rparr>)\<rparr>
          else p
      | None \<Rightarrow> p)"

definition room_submit_simple ::
  "room_env \<Rightarrow> room_node option \<Rightarrow> keypair option \<Rightarrow> json option \<Rightarrow> u64 \<Rightarrow> string \<Rightarrow> string option \<Rightarrow> room_peer \<Rightarrow>
     room_peer \<times> comment_reply http_result" where
  "room_submit_simple env node wallet body i txt token p =
     (case wallet of
        None \<Rightarrow> (p, http_error 400)
      | Some kp \<Rightarrow>
          accept_comment ''submitted'' i env node
            (new_signed_command (room_config env) (ucast i)
              (RoomSubmitComment txt (case token of Some t \<Rightarrow> t | None \<Rightarrow> [])) (kp_secret kp) (kp_public kp))
            (populate_auth env body i (kp_public kp) p))"

text \<open>This one has no route.\<close>

definition room_get_comments :: "u64 \<Rightarrow> room_peer \<Rightarrow> room_comment list http_result" where
  "room_get_comments i p = (case rp_episodes p i of None \<Rightarrow> http_error 404 | Some g \<Rightarrow> http_ok (room_comments g))"

section \<open>Lists and notifications\<close>

record episode_info =
  ei_episode :: u64
  ei_code :: string
  ei_creator :: string
  ei_authenticated :: bool

text \<open>\<open>walk\<close> is the order in which the map yields its rooms.\<close>

definition room_list_episodes :: "room_env \<Rightarrow> (u64 \<Rightarrow> nat \<Rightarrow> nat) \<Rightarrow> (u64 \<times> room) list \<Rightarrow> episode_info list" where
  "room_list_episodes env draw walk =
     map (\<lambda>(i, g). \<lparr>ei_episode = i, ei_code = generate_room_code draw i,
       ei_creator = (case creator g of Some pk \<Rightarrow> pk_text (re_auth env) pk | None \<Rightarrow> []), ei_authenticated = room_authenticated g\<rparr>) walk"

record peer_stats =
  ps_episodes :: nat
  ps_comments :: nat
  ps_daa :: "u64 option"

definition room_stats :: "(u64 \<times> room) list \<Rightarrow> u64 option \<Rightarrow> peer_stats" where
  "room_stats walk daa =
     \<lparr>ps_episodes = length walk, ps_comments = (\<Sum>(i, g) \<leftarrow> walk. length (room_comments g)), ps_daa = daa\<rparr>"

text \<open>The text that is signed comes with the request; the key is that of the server.\<close>

definition room_sign_challenge :: "room_env \<Rightarrow> keypair option \<Rightarrow> json \<Rightarrow> string + string \<times> string \<times> string" where
  "room_sign_challenge env wallet req =
     (let text_of = (\<lambda>k. case get_str k req of Some t \<Rightarrow> t | None \<Rightarrow> []); c = text_of ''challenge''; hint = text_of ''private_key''
      in if hint \<noteq> ''use_client_wallet'' \<and> hint \<noteq> ''use_participant_wallet'' then Inl ''Invalid signing request''
         else case wallet of
           None \<Rightarrow> Inl ''Failed to sign challenge''
         | Some kp \<Rightarrow> Inr (c, sign_text (re_auth env) (kp_secret kp) c, pk_text (re_auth env) (kp_public kp)))"

definition room_episode_authenticated :: "json \<Rightarrow> room_peer \<Rightarrow> room_peer" where
  "room_episode_authenticated body p =
     room_broadcast \<lparr>rw_type = ''authentication_successful'',
       rw_episode = Some (case get_u64 ''episode_id'' body of Some i \<Rightarrow> i | None \<Rightarrow> 0), rw_auth = Some True,
       rw_challenge = Some (case get_str ''challenge'' body of Some c \<Rightarrow> c | None \<Rightarrow> []), rw_token = None, rw_comment = None\<rparr> p"

definition room_session_revoked :: "json \<Rightarrow> room_peer \<Rightarrow> room_peer" where
  "room_session_revoked body p =
     room_broadcast \<lparr>rw_type = ''session_revoked'',
       rw_episode = Some (case get_u64 ''episode_id'' body of Some i \<Rightarrow> i | None \<Rightarrow> 0), rw_auth = Some False, rw_challenge = None,
       rw_token = Some (case get_str ''session_token'' body of Some t \<Rightarrow> t | None \<Rightarrow> []), rw_comment = None\<rparr> p"

text \<open>What is posted to a path; \<^const>\<open>None\<close> if the router has no route for it.\<close>

definition room_internal_post :: "string \<Rightarrow> json \<Rightarrow> room_peer \<Rightarrow> room_peer option" where
  "room_internal_post path body p =
     (if path = ''internal/episode-authenticated'' then Some (room_episode_authenticated body p)
      else if path = ''internal/session-revoked'' then Some (room_session_revoked body p)
      else None)"

end
