(* ===== verification/Room_Server.thy ===== *)
theory Room_Server
  imports Room_Api
begin

text \<open>
  The running HTTP peer of comment-it (\<^verbatim>\<open>comment-it/src/api/http/organizer_peer.rs\<close>): its engine and its
  requests in any order. Requests run at once except for the wait of a challenge, which others may
  come between; the timer that gives an output back may fire at any time. A thread of the engine that
  panics is gone, the endpoints stay.
\<close>

record room_server =
  rs_engine :: "(room, room_rollback) engine option"
  rs_peer :: room_peer
  rs_waiting :: "(u64 \<times> pubkey \<times> string \<times> string) list"

definition room_server_new :: "pubkey \<Rightarrow> room_server" where
  "room_server_new pk = \<lparr>rs_engine = Some new_engine, rs_peer = room_peer_new pk, rs_waiting = []\<rparr>"

datatype room_event =
    EngineMsg engine_msg
  | StartAuth "room_node option" "keypair option" u64 string "u64 option"
  | AskChallenge "room_node option" "keypair option" "(u64 \<times> string option) option"
  | EndChallenge nat "nat \<Rightarrow> (u64 \<rightharpoonup> room)"
  | Verify "room_node option" "keypair option" u64 string string
  | Revocation "room_node option" "keypair option" u64 string string
  | PostComment "room_node option" bytes
  | PostSimple "room_node option" "keypair option" "json option" u64 string "string option"
  | InternalPost string json
  | TimeUp string

definition room_engine_step :: "room_env \<Rightarrow> engine_msg \<Rightarrow> room_server \<Rightarrow> room_server" where
  "room_engine_step env m s =
     (case rs_engine s of
        None \<Rightarrow> s
      | Some e \<Rightarrow>
          if m = Exit then s\<lparr>rs_engine := None\<rparr>
          else case engine_step (room_config env) m (e, rs_peer s) of
            None \<Rightarrow> s\<lparr>rs_engine := None\<rparr>
          | Some (e', p') \<Rightarrow> s\<lparr>rs_engine := Some e', rs_peer := p'\<rparr>)"

definition room_request_step :: "room_env \<Rightarrow> room_event \<Rightarrow> room_peer \<Rightarrow> room_peer" where
  "room_request_step env ev p =
     (case ev of
        StartAuth n w fresh k j \<Rightarrow> fst (room_start_auth env n w fresh k j p)
      | Verify n w i sg nonce \<Rightarrow> fst (room_verify_auth env n w i sg nonce p)
      | Revocation n w i token sg \<Rightarrow> fst (room_revoke_session env n w i token sg p)
      | PostComment n bs \<Rightarrow> fst (room_submit_comment env n bs p)
      | PostSimple n w body i txt token \<Rightarrow> fst (room_submit_simple env n w body i txt token p)
      | InternalPost path body \<Rightarrow> (case room_internal_post path body p of Some p' \<Rightarrow> p' | None \<Rightarrow> p)
      | TimeUp uid \<Rightarrow> release_utxo uid p
      | _ \<Rightarrow> p)"

definition ask_challenge :: "room_env \<Rightarrow> room_node option \<Rightarrow> keypair option \<Rightarrow> (u64 \<times> string option) option \<Rightarrow> room_server \<Rightarrow> room_server" where
  "ask_challenge env n w req s =
     (case room_request_challenge env n w req (rs_peer s) of
        (p, Awaiting i pk tid status) \<Rightarrow> s\<lparr>rs_peer := p, rs_waiting := rs_waiting s @ [(i, pk, tid, status)]\<rparr>
      | (p, Answered r) \<Rightarrow> s\<lparr>rs_peer := p\<rparr>)"

definition end_challenge :: "room_env \<Rightarrow> nat \<Rightarrow> (nat \<Rightarrow> (u64 \<rightharpoonup> room)) \<Rightarrow> room_server \<Rightarrow> room_server" where
  "end_challenge env k seen s =
     (if k < length (rs_waiting s) then
        (case rs_waiting s ! k of (i, pk, tid, status) \<Rightarrow>
           s\<lparr>rs_peer := fst (room_await_challenge env seen i pk tid status (rs_peer s)),
             rs_waiting := take k (rs_waiting s) @ drop (Suc k) (rs_waiting s)\<rparr>)
      else s)"

definition room_server_step :: "room_env \<Rightarrow> room_event \<Rightarrow> room_server \<Rightarrow> room_server" where
  "room_server_step env ev s =
     (case ev of
        EngineMsg m \<Rightarrow> room_engine_step env m s
      | AskChallenge n w req \<Rightarrow> ask_challenge env n w req s
      | EndChallenge k seen \<Rightarrow> end_challenge env k seen s
      | _ \<Rightarrow> s\<lparr>rs_peer := room_request_step env ev (rs_peer s)\<rparr>)"

definition room_run :: "room_env \<Rightarrow> room_event list \<Rightarrow> room_server \<Rightarrow> room_server" where
  "room_run env evs s = fold (room_server_step env) evs s"

text \<open>After the start the peer sends its engine what the indexer knows.\<close>

definition rehydrated :: "room_env \<Rightarrow> u64 \<Rightarrow> json \<Rightarrow> room_server \<Rightarrow> room_server" where
  "rehydrated env daa body s = room_run env (map EngineMsg (rehydrate_from_indexer env daa (rs_peer s) body)) s"

section \<open>What requests leave of the peer\<close>

text \<open>Requests reserve and release outputs, fill the cache and send; the rooms are those of the engine.\<close>

lemma submit_keeps:
  assumes "submit_room_message env node msg p = (p', r)"
  shows "rp_episodes p' = rp_episodes p" "rp_pending p' = rp_pending p" "rp_sent p' = rp_sent p" "rp_key p' = rp_key p"
  using assms by (auto simp: submit_room_message_def send_reserved_def reserve_utxo_def release_utxo_def
      split: option.splits sum.splits prod.splits if_splits)

lemma reply_keeps:
  assumes "submit_and_reply env node msg good bad f p = (p', r)"
  shows "rp_episodes p' = rp_episodes p" "rp_pending p' = rp_pending p" "rp_sent p' = rp_sent p"
  using assms by (auto simp: submit_and_reply_def dest: submit_keeps split: prod.splits option.splits sum.splits)

lemma accept_keeps:
  assumes "accept_comment good i env node msg p = (p', r)"
  shows "rp_episodes p' = rp_episodes p" "rp_pending p' = rp_pending p"
  using assms by (auto simp: accept_comment_def dest: submit_keeps split: prod.splits option.splits sum.splits)

lemma start_keeps:
  assumes "room_start_auth env n w fresh k j p = (p', r)"
  shows "rp_episodes p' = rp_episodes p" "rp_pending p' = rp_pending p"
  using assms by (auto simp: room_start_auth_def Let_def dest: reply_keeps split: option.splits sum.splits prod.splits if_splits)

lemma verify_keeps:
  assumes "room_verify_auth env n w i sg nonce p = (p', r)"
  shows "rp_episodes p' = rp_episodes p" "rp_pending p' = rp_pending p"
  using assms by (auto simp: room_verify_auth_def dest: reply_keeps split: option.splits if_splits)

lemma revoke_keeps:
  assumes "room_revoke_session env n w i token sg p = (p', r)"
  shows "rp_episodes p' = rp_episodes p" "rp_pending p' = rp_pending p"
  using assms by (auto simp: room_revoke_session_def dest: reply_keeps split: option.splits if_splits)

lemma comment_keeps:
  assumes "room_submit_comment env n bs p = (p', r)"
  shows "rp_episodes p' = rp_episodes p" "rp_pending p' = rp_pending p"
  using assms by (auto simp: room_submit_comment_def dest: accept_keeps split: option.splits)

lemma populate_pending [simp]: "rp_pending (populate_auth env body i pk p) = rp_pending p"
  by (simp add: populate_auth_def split: option.split)

lemma simple_keeps:
  assumes "room_submit_simple env n w body i txt token p = (p', r)"
  shows "rp_pending p' = rp_pending p"
    "rp_episodes p' = (case w of Some kp \<Rightarrow> rp_episodes (populate_auth env body i (kp_public kp) p) | None \<Rightarrow> rp_episodes p)"
  using assms by (auto simp: room_submit_simple_def dest: accept_keeps split: option.splits)

lemma internal_keeps:
  assumes "room_internal_post path body p = Some p'"
  shows "rp_episodes p' = rp_episodes p" "rp_pending p' = rp_pending p"
  using assms by (auto simp: room_internal_post_def room_episode_authenticated_def room_session_revoked_def room_broadcast_def split: if_splits)

lemma request_pending [simp]: "rp_pending (room_request_step env ev p) = rp_pending p"
proof (cases ev)
  case (InternalPost path body)
  then show ?thesis using internal_keeps by (simp add: room_request_step_def split: option.split)
qed (simp_all add: room_request_step_def release_utxo_def,
  metis start_keeps(2) prod.collapse, metis verify_keeps(2) prod.collapse, metis revoke_keeps(2) prod.collapse,
  metis comment_keeps(2) prod.collapse, metis simple_keeps(1) prod.collapse)

definition populated :: "room_env \<Rightarrow> room_event \<Rightarrow> room_peer \<Rightarrow> room_peer" where
  "populated env ev p = (case ev of PostSimple n (Some kp) body i txt token \<Rightarrow> populate_auth env body i (kp_public kp) p | _ \<Rightarrow> p)"

lemma request_episodes: "rp_episodes (room_request_step env ev p) = rp_episodes (populated env ev p)"
proof (cases ev)
  case (InternalPost path body)
  then show ?thesis using internal_keeps by (simp add: room_request_step_def populated_def split: option.split)
next
  case (PostSimple n w body i t token)
  obtain p' r where "room_submit_simple env n w body i t token p = (p', r)" by fastforce
  with simple_keeps(2) [OF this] PostSimple show ?thesis by (simp add: room_request_step_def populated_def split: option.split)
qed (simp_all add: room_request_step_def populated_def release_utxo_def,
  metis start_keeps(1) prod.collapse, metis verify_keeps(1) prod.collapse, metis revoke_keeps(1) prod.collapse,
  metis comment_keeps(1) prod.collapse)

lemma drop_pending_fields [simp]:
  "rp_episodes (drop_pending k p) = rp_episodes p" "rp_pending (drop_pending k p) = rp_pending p - {k}"
  by (simp_all add: drop_pending_def)

lemma challenge_keeps:
  assumes "room_request_challenge env n w req p = (p', out)"
  shows "rp_episodes p' = rp_episodes p"
  using assms
  by (auto simp: room_request_challenge_def Let_def dest: reply_keeps split: option.splits prod.splits sum.splits if_splits)

end
