(* ===== verification/Room_Clients.thy ===== *)
theory Room_Clients
  imports Room_Api Merchant_Services
begin

text \<open>
  What runs beside the HTTP peer of comment-it: the organizer's event handler, which posts to it
  (\<^verbatim>\<open>comment-it/src/episode_runner.rs\<close>), the client flows (\<^verbatim>\<open>auth/authentication.rs\<close>, \<^verbatim>\<open>auth/session.rs\<close>,
  \<^verbatim>\<open>cli/commands/submit_comment.rs\<close>, \<^verbatim>\<open>api/http/blockchain.rs\<close>) and the WebSocket peer (\<^verbatim>\<open>main.rs\<close>).
\<close>

section \<open>The organizer\<close>

text \<open>What the handler posts, path and body; the answers are only logged.\<close>

definition organizer_posts :: "room_env \<Rightarrow> (room, room_command) episode_event \<Rightarrow> (string \<times> json) list" where
  "organizer_posts env ev =
     (case ev of
        OnCommand i g cmd a md \<Rightarrow>
          (let id = (''episode_id'', JInt (uint i)) in
           case cmd of
             RoomRequestChallenge \<Rightarrow> []
           | RoomSubmitResponse s n \<Rightarrow>
               (if room_authenticated g then
                  [(''internal/episode-authenticated'',
                    JObj [id, (''challenge'', JStr (case room_challenge env g of Some c \<Rightarrow> c | None \<Rightarrow> []))])]
                else [])
           | RoomRevokeSession token s \<Rightarrow>
               (if \<not> room_authenticated g then [(''internal/session-revoked'', JObj [id, (''session_token'', JStr token)])] else [])
           | RoomSubmitComment txt token \<Rightarrow>
               (if room_comments g = [] then []
                else let c = last (room_comments g) in
                  [(''internal/comment-added'', JObj [id, (''comment_id'', JInt (uint (rc_id c))), (''text'', JStr txt),
                     (''author'', JStr (rc_author c)), (''timestamp'', JInt (uint (rc_timestamp c)))])]))
      | _ \<Rightarrow> [])"

definition organizer_handler :: "room_env \<Rightarrow> (room, room_command) episode_event \<Rightarrow> (string \<times> json) list \<Rightarrow> (string \<times> json) list" where
  "organizer_handler env ev posts = posts @ organizer_posts env ev"

section \<open>Client flows\<close>

type_synonym ('w, 'z) room_flows = "(room, room_command, room_rollback, room_error, 'w, 'z) flow_env_scheme"

definition room_response_by :: "('w, 'z) room_flows \<Rightarrow> keypair \<Rightarrow> episode_id \<Rightarrow> string \<Rightarrow> room_command episode_message" where
  "room_response_by fe kp i c = signed_by fe kp i (RoomSubmitResponse (sign_text (fe_auth fe) (kp_secret kp) c) c)"

definition room_coordinated_flow :: "('w, 'z) room_flows \<Rightarrow> flow_net \<Rightarrow> keypair \<Rightarrow> keypair \<Rightarrow> auth_outcome flow" where
  "room_coordinated_flow fe net funder signer =
     flow_bind (first_utxo net) (\<lambda>u0.
     flow_bind (flow_bind (post_message net (PostStart (pk_text (fe_auth fe) (kp_public signer)))) (started_episode False)) (\<lambda>i.
     flow_bind (submit_flow_message fe (kp_public funder) (net_submit net 0) u0 (signed_by fe signer (ucast i) RoomRequestChallenge)) (\<lambda>tx1.
     flow_bind (first_output fe tx1) (\<lambda>u1.
     flow_bind (await_challenge (look_ok (found_text \<circ> sv_challenge)) net) (\<lambda>c.
     flow_bind (submit_flow_message fe (kp_public funder) (net_submit net 1) u1 (room_response_by fe signer (ucast i) c)) (\<lambda>_.
     flow_bind (await_token (look_any authenticated_token) 50 net) (\<lambda>t.
     flow_return \<lparr>ao_episode = i, ao_token = t, ao_authenticated = True\<rparr>)))))))"

definition room_session_revocation :: "('w, 'z) room_flows \<Rightarrow> flow_net \<Rightarrow> keypair \<Rightarrow> u64 \<Rightarrow> string \<Rightarrow> unit flow" where
  "room_session_revocation fe net signer i token =
     flow_bind (first_utxo net) (\<lambda>u0.
     flow_bind (submit_flow_message fe (kp_public signer) (net_submit net 0) u0
       (signed_by fe signer (ucast i) (RoomRevokeSession token (sign_text (fe_auth fe) (kp_secret signer) token)))) (\<lambda>_.
     flow_return ()))"

text \<open>Login and logout with one key; \<open>net'\<close> is the net at the time of the second.\<close>

definition room_full_cycle :: "('w, 'z) room_flows \<Rightarrow> flow_net \<Rightarrow> flow_net \<Rightarrow> keypair \<Rightarrow> auth_outcome flow" where
  "room_full_cycle fe net net' kp =
     flow_bind (room_coordinated_flow fe net kp kp) (\<lambda>r.
     flow_bind (if ao_authenticated r then flow_return () else flow_fail BadReply) (\<lambda>_.
     flow_bind (room_session_revocation fe net' kp (ao_episode r) (ao_token r)) (\<lambda>_.
     flow_return r)))"

definition submit_comment_to_episode :: "('w, 'z) room_flows \<Rightarrow> flow_net \<Rightarrow> keypair \<Rightarrow> u64 \<Rightarrow> string \<Rightarrow> string \<Rightarrow> transaction flow" where
  "submit_comment_to_episode fe net kp i txt token =
     (if is_blank txt \<or> length txt > 2000 then flow_fail BadReply
      else flow_bind (first_utxo net) (\<lambda>u0.
        submit_flow_message fe (kp_public kp) (net_submit net 0) u0 (signed_by fe kp (ucast i) (RoomSubmitComment txt token))))"

text \<open>The submission on behalf of a client signs with the key of the server.\<close>

definition room_submit_auth :: "('w, 'z) room_flows \<Rightarrow> flow_net \<Rightarrow> keypair \<Rightarrow> u64 \<Rightarrow> string \<Rightarrow> string \<Rightarrow> pubkey \<Rightarrow> transaction flow" where
  "room_submit_auth fe net server i signature nonce client =
     flow_bind (first_utxo net) (\<lambda>u.
       submit_flow_message fe (kp_public server) (net_submit net 0) u
         (new_signed_command (fe_cfg fe) (ucast i) (RoomSubmitResponse signature nonce) (kp_secret server) client))"

section \<open>The WebSocket peer\<close>

datatype frontend_command =
    FrontComment string u64
  | FrontChallenge u64
  | FrontResponse u64 string string
  | FrontRevoke u64 string

text \<open>
  The enum is untagged: the variants are tried in order, fields they do not name are ignored, and a named
  field must be there exactly once.
\<close>

definition front_field :: "string \<Rightarrow> json \<Rightarrow> json option" where
  "front_field k j = (case j of JObj fs \<Rightarrow> (case filter (\<lambda>f. fst f = k) fs of [f] \<Rightarrow> Some (snd f) | _ \<Rightarrow> None) | _ \<Rightarrow> None)"

definition front_text :: "string \<Rightarrow> json \<Rightarrow> string option" where
  "front_text k j = Option.bind (front_field k j) as_str"

definition front_id :: "json \<Rightarrow> u64 option" where
  "front_id j = Option.bind (front_field ''episode_id'' j) as_u64"

definition parse_frontend :: "json \<Rightarrow> frontend_command option" where
  "parse_frontend j =
     (case (front_text ''text'' j, front_id j) of
        (Some t, Some i) \<Rightarrow> Some (FrontComment t i)
      | _ \<Rightarrow>
     (case front_id j of
        Some i \<Rightarrow> Some (FrontChallenge i)
      | None \<Rightarrow>
     (case (front_id j, front_text ''signature'' j, front_text ''nonce'' j) of
        (Some i, Some s, Some n) \<Rightarrow> Some (FrontResponse i s n)
      | _ \<Rightarrow>
     (case (front_id j, front_text ''signature'' j) of
        (Some i, Some s) \<Rightarrow> Some (FrontRevoke i s)
      | _ \<Rightarrow> None))))"

definition front_command :: "frontend_command \<Rightarrow> u64 \<times> room_command" where
  "front_command c =
     (case c of
        FrontComment t i \<Rightarrow> (i, RoomSubmitComment t [])
      | FrontChallenge i \<Rightarrow> (i, RoomRequestChallenge)
      | FrontResponse i s n \<Rightarrow> (i, RoomSubmitResponse s n)
      | FrontRevoke i s \<Rightarrow> (i, RoomRevokeSession [] s))"

text \<open>\<open>lower\<close> is \<^verbatim>\<open>to_lowercase\<close>.\<close>

function front_tx_retry :: "(string \<Rightarrow> string) \<Rightarrow> (nat \<Rightarrow> submit_answer) \<Rightarrow> nat \<Rightarrow> nat \<Rightarrow> string + unit" where
  "front_tx_retry lower answer attempts tries =
     (case answer tries of
        Submitted \<Rightarrow> Inr ()
      | SubmitFailed msg \<Rightarrow>
          if contains msg ''already accepted'' then Inr ()
          else if Suc tries \<ge> attempts then Inl msg
          else if contains msg ''WebSocket'' \<or> contains msg ''not connected'' \<or> contains msg ''disconnected'' \<or>
            contains (lower msg) ''orphan'' then front_tx_retry lower answer attempts (Suc tries)
          else Inl msg)"
  by pat_completeness auto
termination by (relation "measure (\<lambda>(_, _, attempts, tries). attempts - tries)") auto

declare front_tx_retry.simps [simp del]

datatype front_reply = FrontSubmitted string | FrontFailed string | FrontInvalid

text \<open>One text message, parsed if it is JSON; what the node does; whether the reply can be written.\<close>

record front_input =
  fi_json :: "json option"
  fi_utxos :: "string + utxo list"
  fi_answer :: "nat \<Rightarrow> submit_answer"
  fi_write :: bool

text \<open>An error or a panic ends the connection. \<open>fc_sent\<close> are the commands the node has taken.\<close>

record front_conn =
  fc_sent :: "(episode_id \<times> room_command) list"
  fc_replies :: "front_reply list"
  fc_open :: bool

definition front_send :: "front_input \<Rightarrow> front_reply \<Rightarrow> front_conn \<Rightarrow> front_conn" where
  "front_send inp r c = (if fi_write inp then c\<lparr>fc_replies := fc_replies c @ [r]\<rparr> else c\<lparr>fc_open := False\<rparr>)"

definition front_step :: "room_env \<Rightarrow> (string \<Rightarrow> string) \<Rightarrow> keypair \<Rightarrow> front_input \<Rightarrow> front_conn \<Rightarrow> front_conn" where
  "front_step env lower kp inp c =
     (case Option.bind (fi_json inp) parse_frontend of
        None \<Rightarrow> front_send inp FrontInvalid c
      | Some fc \<Rightarrow>
          let (i, cmd) = front_command fc in
          if 2 ^ 32 \<le> i then c\<lparr>fc_open := False\<rparr>
          else (case fi_utxos inp of
            Inr (u # us) \<Rightarrow>
              (case build_command_transaction (re_tx env) auth_generator u (re_script env (kp_public kp))
                  (re_enc env (new_signed_command (room_config env) (ucast i) cmd (kp_secret kp) (kp_public kp))) 1000 of
                 None \<Rightarrow> c\<lparr>fc_open := False\<rparr>
               | Some tx \<Rightarrow>
                   (case front_tx_retry lower (fi_answer inp) 3 0 of
                      Inr _ \<Rightarrow> front_send inp (FrontSubmitted (re_tx_id env tx)) (c\<lparr>fc_sent := fc_sent c @ [(ucast i, cmd)]\<rparr>)
                    | Inl e \<Rightarrow> front_send inp (FrontFailed e) c))
          | _ \<Rightarrow> c\<lparr>fc_open := False\<rparr>))"

fun front_connection :: "room_env \<Rightarrow> (string \<Rightarrow> string) \<Rightarrow> keypair \<Rightarrow> front_input list \<Rightarrow> front_conn \<Rightarrow> front_conn" where
  "front_connection env lower kp [] c = c"
| "front_connection env lower kp (inp # inps) c =
     (if fc_open c then front_connection env lower kp inps (front_step env lower kp inp c) else c)"

definition front_new :: front_conn where
  "front_new = \<lparr>fc_sent = [], fc_replies = [], fc_open = True\<rparr>"

end
