(* ===== verification/Room_Properties.thy ===== *)
theory Room_Properties
  imports Room_Server Room_Clients Engine_Watch Indexer
begin

text \<open>
  What the HTTP peer of comment-it shows and does: its copy of the rooms against its engine, in any order of
  requests and blocks; outputs that are reserved; requests that never end; what is left after a restart;
  and what its clients and the WebSocket peer achieve.
\<close>

section \<open>The copy follows the engine\<close>

lemma room_event_rooms: "rp_episodes (notify (room_config env) ev p) =
    (case ev of OnRollback i g \<Rightarrow> rp_episodes p | OnInitialize i g \<Rightarrow> (rp_episodes p)(ucast i \<mapsto> g)
     | OnCommand i g c a md \<Rightarrow> (rp_episodes p)(ucast i \<mapsto> g))"
  by (cases ev) (simp_all add: notify_def room_config_def room_http_handler_def room_on_initialize_def room_on_command_def
      room_on_rollback_def room_broadcast_def room_store_def Let_def split: room_command.split)

text \<open>\<open>K\<close> are the keys that the endpoints may have added.\<close>

definition room_seen :: "string set \<Rightarrow> episode_id \<Rightarrow> (room, room_rollback) wrapper \<Rightarrow> room_peer \<Rightarrow> bool" where
  "room_seen K i wr p \<longleftrightarrow> (\<exists>S \<subseteq> K. rp_episodes p (ucast i) =
     Some ((ew_episode wr)\<lparr>authenticated_participants := authenticated_participants (ew_episode wr) \<union> S\<rparr>))"

lemma room_seen_same: "rp_episodes p (ucast i) = Some (ew_episode wr) \<Longrightarrow> room_seen K i wr p"
  by (auto simp: room_seen_def intro!: exI [of _ "{}"])

lemma room_config_ep [simp]: "cfg_ep (room_config env) = room_episode (re_auth env)"
  by (simp add: room_config_def)

definition small_ids :: "room_peer \<Rightarrow> bool" where
  "small_ids p \<longleftrightarrow> (\<forall>i. rp_episodes p i \<noteq> None \<longrightarrow> i < 2 ^ 32)"

lemma ucast_small: "(ucast (i :: episode_id) :: u64) < 2 ^ 32"
proof -
  have "unat i < 2 ^ 32" using unsigned_less [of i] by simp
  with order_le_less_trans [OF take_bit_nat_less_eq_self this, of 64] show ?thesis by (simp add: word_less_nat_alt unsigned_ucast_eq)
qed

lemma small_ids_event: "small_ids p \<Longrightarrow> small_ids (notify (room_config env) ev p)"
  using ucast_small by (fastforce simp: small_ids_def room_event_rooms split: episode_event.splits if_splits)

interpretation room_watch: episode_watch "room_config env" "room_seen K" "\<lambda>_. True" False for env K
proof (unfold_locales, goal_cases)
  case (2 w j ev h)
  then show ?case by (cases ev) (auto simp: room_seen_def room_event_rooms)
qed (auto simp: room_event_rooms wrapper_initialize_def room_episode_def dest: room_err intro: room_seen_same)

interpretation room_ids: episode_watch "room_config env" "\<lambda>_ _ _. True" small_ids True for env
  by unfold_locales (simp_all add: small_ids_event)

section \<open>Runs\<close>

definition event_keys :: "room_env \<Rightarrow> room_event \<Rightarrow> string set" where
  "event_keys env ev = (case ev of PostSimple n (Some kp) body i t token \<Rightarrow> {pk_text (re_auth env) (kp_public kp)} | _ \<Rightarrow> {})"

definition added_keys :: "room_env \<Rightarrow> room_event list \<Rightarrow> string set" where
  "added_keys env evs = (\<Union>ev \<in> set evs. event_keys env ev)"

definition server_seen :: "room_env \<Rightarrow> string set \<Rightarrow> room_server \<Rightarrow> bool" where
  "server_seen env K s \<longleftrightarrow> (\<forall>e. rs_engine s = Some e \<longrightarrow> room_watch.watched K (e, rs_peer s))"

lemma watched_rooms:
  "rp_episodes p' = rp_episodes p \<Longrightarrow> room_watch.watched K (e, p) \<Longrightarrow> room_watch.watched K (e, p')"
  by (simp add: room_watch.watched_def room_seen_def)

lemma populate_seen:
  assumes "room_seen K j wr p" "pk_text (re_auth env) pk \<in> K"
  shows "room_seen K j wr (populate_auth env body i pk p)"
proof (cases "ucast j = i")
  case True
  from assms(1) obtain S where S: "S \<subseteq> K" "rp_episodes p i = Some ((ew_episode wr)\<lparr>authenticated_participants :=
      authenticated_participants (ew_episode wr) \<union> S\<rparr>)" by (auto simp: room_seen_def True)
  let ?g = "ew_episode wr"
  have "rp_episodes (populate_auth env body i pk p) i = Some (?g\<lparr>authenticated_participants := authenticated_participants ?g \<union> S\<rparr>) \<or>
      rp_episodes (populate_auth env body i pk p) i =
        Some (?g\<lparr>authenticated_participants := authenticated_participants ?g \<union> insert (pk_text (re_auth env) pk) S\<rparr>)"
    using S(2) by (simp add: populate_auth_def)
  then show ?thesis unfolding room_seen_def True using S(1) assms(2) by (meson insert_subset)
next
  case False
  with assms(1) show ?thesis by (auto simp: room_seen_def populate_auth_def split: option.split)
qed

lemma request_seen:
  assumes "room_watch.watched K (e, p)" "event_keys env ev \<subseteq> K"
  shows "room_watch.watched K (e, room_request_step env ev p)"
proof (rule watched_rooms [OF request_episodes])
  show "room_watch.watched K (e, populated env ev p)"
  proof (cases "\<exists>n kp body i t token. ev = PostSimple n (Some kp) body i t token")
    case True
    with assms show ?thesis by (auto simp: populated_def event_keys_def room_watch.watched_def intro!: populate_seen)
  next
    case False
    then have "populated env ev p = p" by (auto simp: populated_def split: room_event.splits option.splits)
    with assms show ?thesis by simp
  qed
qed

lemma challenge_rooms:
  "rp_episodes (rs_peer (ask_challenge env n w req s)) = rp_episodes (rs_peer s)"
  "rs_engine (ask_challenge env n w req s) = rs_engine s"
  "rp_episodes (rs_peer (end_challenge env k seen s)) = rp_episodes (rs_peer s)"
  "rs_engine (end_challenge env k seen s) = rs_engine s"
  by (auto simp: ask_challenge_def end_challenge_def room_await_challenge_def Let_def dest: challenge_keeps
      split: prod.split challenge_outcome.split)

lemma step_seen:
  assumes "server_seen env K s" "event_keys env ev \<subseteq> K" "\<forall>h. ev \<noteq> EngineMsg (BlkReverted h)"
  shows "server_seen env K (room_server_step env ev s)"
proof (cases ev)
  case (EngineMsg m)
  show ?thesis
  proof (cases "rs_engine s")
    case (Some e)
    have "room_watch.watched K (e', p')" if "engine_step (room_config env) m (e, rs_peer s) = Some (e', p')" for e' p'
      using room_watch.watched_step [OF _ that] assms(1,3) EngineMsg Some by (auto simp: server_seen_def)
    with Some EngineMsg show ?thesis by (auto simp: server_seen_def room_server_step_def room_engine_step_def split: option.splits)
  qed (use assms(1) EngineMsg in \<open>simp add: server_seen_def room_server_step_def room_engine_step_def\<close>)
next
  case (AskChallenge n w req)
  with assms(1) show ?thesis by (auto simp: server_seen_def room_server_step_def challenge_rooms intro: watched_rooms [OF challenge_rooms(1)])
next
  case (EndChallenge k seen)
  with assms(1) show ?thesis by (auto simp: server_seen_def room_server_step_def challenge_rooms intro: watched_rooms [OF challenge_rooms(3)])
qed (use assms request_seen in \<open>auto simp: server_seen_def room_server_step_def\<close>)

lemma run_seen:
  "server_seen env K s \<Longrightarrow> added_keys env evs \<subseteq> K \<Longrightarrow> \<forall>h. EngineMsg (BlkReverted h) \<notin> set evs \<Longrightarrow> server_seen env K (room_run env evs s)"
proof (induction evs arbitrary: s)
  case (Cons ev evs)
  have "event_keys env ev \<subseteq> K" "added_keys env evs \<subseteq> K" using Cons.prems(2) by (auto simp: added_keys_def)
  with Cons step_seen [of env K s ev] show ?case by (auto simp: room_run_def)
qed (simp add: room_run_def)

lemma new_seen [simp]: "server_seen env K (room_server_new pk)"
  by (simp add: server_seen_def room_server_new_def room_watch.watched_def new_engine_def)

text \<open>
  C34: What the peer shows of the chain. After any requests and blocks in any order, as long as none is
  reverted, the copy of every room of the engine has exactly its creator, participants, comments and
  challenges. It may call a participant authenticated who is not: only keys of the server itself, which
  the comment endpoint added on the word of the indexer.
\<close>
theorem room_copy_exact:
  assumes "s = room_run env evs (room_server_new pk)" "\<forall>h. EngineMsg (BlkReverted h) \<notin> set evs"
    and "rs_engine s = Some e" "episodes e i = Some wr"
  shows "\<exists>g. rp_episodes (rs_peer s) (ucast i) = Some g \<and> room_comments g = room_comments (ew_episode wr) \<and>
    creator g = creator (ew_episode wr) \<and> room_participants g = room_participants (ew_episode wr) \<and>
    active_challenges g = active_challenges (ew_episode wr) \<and> authenticated_participants (ew_episode wr) \<subseteq> authenticated_participants g \<and>
    authenticated_participants g - authenticated_participants (ew_episode wr) \<subseteq> added_keys env evs"
proof -
  have "server_seen env (added_keys env evs) s" unfolding assms(1) by (rule run_seen) (simp_all add: assms(2))
  with assms(3,4) have "room_seen (added_keys env evs) i wr (rs_peer s)" by (simp add: server_seen_def room_watch.watched_def)
  then show ?thesis by (auto simp: room_seen_def)
qed

section \<open>Ids that no room has\<close>

lemma engine_small: "small_ids (rs_peer s) \<Longrightarrow> small_ids (rs_peer (room_engine_step env m s))"
proof (cases "rs_engine s")
  case (Some e)
  assume "small_ids (rs_peer s)"
  then have "small_ids p'" if "engine_step (room_config env) m (e, rs_peer s) = Some (e', p')" for e' p'
    using room_ids.watched_step [OF _ that] by (simp add: room_ids.watched_def)
  with \<open>small_ids (rs_peer s)\<close> Some show ?thesis by (auto simp: room_engine_step_def split: option.split)
qed (simp add: room_engine_step_def)

lemma small_rooms: "rp_episodes p' = rp_episodes p \<Longrightarrow> small_ids p \<Longrightarrow> small_ids p'"
  by (simp add: small_ids_def)

lemma request_small: "small_ids p \<Longrightarrow> small_ids (room_request_step env ev p)"
  by (rule small_rooms [OF request_episodes])
    (auto simp: populated_def populate_auth_def small_ids_def split: room_event.split option.split)

lemma step_small: "small_ids (rs_peer s) \<Longrightarrow> small_ids (rs_peer (room_server_step env ev s))"
  by (cases ev) (simp_all add: room_server_step_def engine_small request_small small_rooms [OF challenge_rooms(1)] small_rooms [OF challenge_rooms(3)])

lemma run_small: "small_ids (rs_peer s) \<Longrightarrow> small_ids (rs_peer (room_run env evs s))"
  by (induction evs arbitrary: s) (simp_all add: room_run_def step_small)

lemma new_small [simp]: "small_ids (rs_peer (room_server_new pk))"
  by (simp add: small_ids_def room_server_new_def room_peer_new_def)

text \<open>
  C39: The reply to a start names an id no room has. The id is drawn from 64 bits and the room
  gets its low 32. Whenever the drawn id does not fit, whatever happens later, the status of the id in the
  reply is that there is no such episode (unless the request names a key and the indexer calls it a member),
  answering its challenge is refused, revoking it too, and asking for a challenge panics. Only the simple comment
  endpoint cuts the id in the same way: it sends the comment to the room with the low 32 bits, without first looking
  at the copies of the rooms.
\<close>
theorem start_names_no_episode:
  assumes "s = room_run env evs (room_server_new organizer)"
    and "room_start_auth env n (Some kp) fresh key None (rs_peer s) = (p, Some (Inr r))" and "2 ^ 32 \<le> fresh"
    and "s' = room_run env evs' (s\<lparr>rs_peer := p\<rparr>)"
  shows "st_episode r = fresh \<and> rt_status (room_get_status env body fresh None (rs_peer s')) = ''episode_not_found'' \<and>
    snd (room_verify_auth env n' (Some kp) fresh sg nonce (rs_peer s')) \<in> {http_error 400, http_ok
      \<lparr>rv_episode = fresh, rv_authenticated = False, rv_status = ''request_in_progress'', rv_tx = None\<rparr>} \<and>
    snd (room_revoke_session env n' (Some kp) fresh token sg (rs_peer s')) = http_error 404 \<and>
    (challenge_key fresh \<notin> rp_pending (rs_peer s') \<longrightarrow> room_key_of env key' \<noteq> None \<longrightarrow>
       snd (room_request_challenge env n' (Some kp) (Some (fresh, Some key')) (rs_peer s')) = Answered None) \<and>
    (rt_status (room_get_status env body fresh who (rs_peer s')) \<noteq> ''episode_not_found'' \<longrightarrow>
       who \<noteq> None \<and> Option.bind body (get_bool ''member'') = Some True) \<and>
    room_submit_simple env n' (Some kp) body fresh txt given (rs_peer s') =
      accept_comment ''submitted'' fresh env n' (new_signed_command (room_config env) (ucast fresh)
        (RoomSubmitComment txt (case given of Some t \<Rightarrow> t | None \<Rightarrow> [])) (kp_secret kp) (kp_public kp)) (rs_peer s')"
proof -
  have reply: "st_episode r = fresh"
    using assms(2) by (auto simp: room_start_auth_def submit_and_reply_def http_ok_def http_error_def start_reply_of_def Let_def
        split: option.splits sum.splits prod.splits if_splits)
  have "small_ids (rs_peer s)" unfolding assms(1) by (rule run_small) simp
  then have "small_ids p" by (rule small_rooms [OF start_keeps(1) [OF assms(2)]])
  then have "small_ids (rs_peer s')" unfolding assms(4) by (intro run_small) simp
  then have none: "rp_episodes (rs_peer s') fresh = None"
    using assms(3) by (meson small_ids_def not_le)
  have status: "who \<noteq> None \<and> Option.bind body (get_bool ''member'') = Some True"
    if "rt_status (room_get_status env body fresh who (rs_peer s')) \<noteq> ''episode_not_found''"
    using that none by (cases who) (auto simp: room_get_status_def try_indexer_membership_def Let_def split: if_splits)
  have simple: "populate_auth env body fresh (kp_public kp) (rs_peer s') = rs_peer s'"
    using none by (simp add: populate_auth_def)
  have refused: "rt_status (room_get_status env body fresh None (rs_peer s')) = ''episode_not_found'' \<and>
    snd (room_verify_auth env n' (Some kp) fresh sg nonce (rs_peer s')) \<in> {http_error 400, http_ok
      \<lparr>rv_episode = fresh, rv_authenticated = False, rv_status = ''request_in_progress'', rv_tx = None\<rparr>} \<and>
    snd (room_revoke_session env n' (Some kp) fresh token sg (rs_peer s')) = http_error 404 \<and>
    (challenge_key fresh \<notin> rp_pending (rs_peer s') \<longrightarrow> room_key_of env key' \<noteq> None \<longrightarrow>
       snd (room_request_challenge env n' (Some kp) (Some (fresh, Some key')) (rs_peer s')) = Answered None)"
    using none assms(3)
    by (auto simp: room_get_status_def Let_def room_verify_auth_def room_revoke_session_def room_request_challenge_def)
  with reply status simple show ?thesis by (simp add: room_submit_simple_def)
qed

section \<open>Requests that never end\<close>

lemma pending_event [simp]: "rp_pending (notify (room_config env) ev p) = rp_pending p"
  by (cases ev) (simp_all add: notify_def room_config_def room_http_handler_def room_on_initialize_def room_on_command_def
      room_on_rollback_def room_broadcast_def room_store_def Let_def split: room_command.split)

interpretation room_pending: episode_watch "room_config env" "\<lambda>_ _ _. True" "\<lambda>p. rp_pending p = P" True for env P
  by unfold_locales simp_all

lemma engine_pending_step:
  assumes "engine_step (room_config env) m (e, p) = Some (e', p')"
  shows "rp_pending p' = rp_pending p"
proof -
  have "room_pending.watched (rp_pending p) (e, p)" by (simp only: room_pending.watched_def fst_conv snd_conv simp_thms)
  then have "room_pending.watched (rp_pending p) (e', p')" by (rule room_pending.watched_step [OF _ assms]) simp
  then show ?thesis by (simp only: room_pending.watched_def snd_conv)
qed

lemma engine_pending [simp]: "rp_pending (rs_peer (room_engine_step env m s)) = rp_pending (rs_peer s)"
  by (auto simp: room_engine_step_def dest: engine_pending_step split: option.split)

lemma engine_waiting [simp]: "rs_waiting (room_engine_step env m s) = rs_waiting s"
  by (simp add: room_engine_step_def split: option.split)

lemma challenge_key_inject [simp]: "challenge_key i = challenge_key j \<longleftrightarrow> i = j"
proof
  assume "challenge_key i = challenge_key j"
  then have "parse_u64 (show_u64 i) = parse_u64 (show_u64 j)" by (simp add: challenge_key_def)
  then show "i = j" by simp
qed simp

lemma request_challenge_cases:
  assumes "room_request_challenge env n w req p = (p', out)"
  obtains (same) r where "out = Answered r" "rp_pending p' = rp_pending p"
  | (leaked) i r where "out = Answered r" "rp_pending p' = insert (challenge_key i) (rp_pending p)"
  | (waits) i pk tid st where "out = Awaiting i pk tid st" "challenge_key i \<notin> rp_pending p"
      "rp_pending p' = insert (challenge_key i) (rp_pending p)"
proof (cases req)
  case (Some x)
  obtain i k where x: "req = Some (i, k)" using Some by (cases x) simp
  show ?thesis
  proof (cases "challenge_key i \<in> rp_pending p")
    case False
    define p1 where "p1 = p\<lparr>rp_pending := insert (challenge_key i) (rp_pending p)\<rparr>"
    have p1: "rp_pending p1 = insert (challenge_key i) (rp_pending p)" by (simp add: p1_def)
    let ?pk = "case k of Some text \<Rightarrow> room_key_of env text | None \<Rightarrow> Option.bind (rp_episodes p i) creator"
    let ?msg = "\<lambda>kp pk. new_signed_command (room_config env) (ucast i) RoomRequestChallenge (kp_secret kp) pk"
    show ?thesis
    proof (cases ?pk)
      case None
      with assms False x have "out = Answered (http_error 400)" "p' = p1" by (simp_all add: room_request_challenge_def p1_def Let_def)
      with p1 show ?thesis by (intro leaked) simp_all
    next
      case (Some pk)
      show ?thesis
      proof (cases "\<exists>kp. w = Some kp \<and> i < 2 ^ 32")
        case small: False
        then have "w = None \<or> (\<exists>kp. w = Some kp \<and> 2 ^ 32 \<le> i)" by (cases w) (auto simp: not_less)
        then have "out = Answered (http_error 500) \<or> out = Answered None" "p' = drop_pending (challenge_key i) p1"
          using assms Some False x by (auto simp: room_request_challenge_def p1_def Let_def split: option.splits)
        with False p1 show ?thesis by (elim disjE) (intro same, simp_all)+
      next
        case True
        then obtain kp where kp: "w = Some kp" "\<not> 2 ^ 32 \<le> i" by (auto simp: not_le)
        obtain p2 r where sub: "submit_and_reply env n (?msg kp pk) ''request_challenge_submitted'' ''request_challenge_failed'' (Awaiting i pk) p1
            = (p2, r)" by fastforce
        have p2: "rp_pending p2 = insert (challenge_key i) (rp_pending p)" using reply_keeps(2) [OF sub] p1 by simp
        have res: "r = None \<or> (\<exists>tid st. r = Some (Inr (Awaiting i pk tid st)))"
          using sub by (auto simp: submit_and_reply_def http_ok_def split: prod.splits option.splits sum.splits)
        have "room_request_challenge env n w req p =
            (case r of Some (Inr waiting) \<Rightarrow> (p2, waiting) | _ \<Rightarrow> (drop_pending (challenge_key i) p2, Answered None))"
          using Some False x kp sub unfolding p1_def
          by (simp add: room_request_challenge_def Let_def del: not_le split del: if_split)
        with assms have "(p', out) = (case r of Some (Inr waiting) \<Rightarrow> (p2, waiting) | _ \<Rightarrow> (drop_pending (challenge_key i) p2, Answered None))"
          by simp
        note out = this
        from res show ?thesis
        proof (elim disjE exE)
          assume "r = None"
          with out have "out = Answered None" "p' = drop_pending (challenge_key i) p2" by simp_all
          with p2 False show ?thesis by (intro same) simp_all
        next
          fix tid st assume "r = Some (Inr (Awaiting i pk tid st))"
          with out have "out = Awaiting i pk tid st" "p' = p2" by simp_all
          with p2 False show ?thesis by (intro waits) simp_all
        qed
      qed
    qed
  next
    case True
    with assms x have "out = Answered (http_ok \<lparr>ch_episode = i, ch_nonce = ''request_in_progress'', ch_tx = None,
        ch_status = ''request_in_progress''\<rparr>)" "p' = p" by (simp_all add: room_request_challenge_def)
    then show ?thesis by (intro same) simp_all
  qed
next
  case None
  with assms have "out = Answered (http_ok \<lparr>ch_episode = 0, ch_nonce = ''pending'', ch_tx = None, ch_status = ''request_in_progress''\<rparr>)"
      "p' = p" by (simp_all add: room_request_challenge_def)
  then show ?thesis by (intro same) simp_all
qed

text \<open>Whoever waits for a challenge holds its entry; nobody waits for \<open>i\<close> and its entry is there.\<close>

definition waiting_ok :: "room_server \<Rightarrow> bool" where
  "waiting_ok s \<longleftrightarrow> distinct (map fst (rs_waiting s)) \<and> (\<forall>x \<in> set (rs_waiting s). challenge_key (fst x) \<in> rp_pending (rs_peer s))"

definition blocked :: "u64 \<Rightarrow> room_server \<Rightarrow> bool" where
  "blocked i s \<longleftrightarrow> challenge_key i \<in> rp_pending (rs_peer s) \<and> i \<notin> fst ` set (rs_waiting s)"

lemma end_waiting:
  assumes "waiting_ok s" "k < length (rs_waiting s)"
  shows "waiting_ok (end_challenge env k seen s)" "blocked i s \<Longrightarrow> blocked i (end_challenge env k seen s)"
proof -
  obtain j pk tid st where x: "rs_waiting s ! k = (j, pk, tid, st)" by (cases "rs_waiting s ! k") auto
  let ?rest = "take k (rs_waiting s) @ drop (Suc k) (rs_waiting s)"
  have split: "rs_waiting s = take k (rs_waiting s) @ (j, pk, tid, st) # drop (Suc k) (rs_waiting s)"
    using id_take_nth_drop [OF assms(2)] x by simp
  have e: "rs_waiting (end_challenge env k seen s) = ?rest"
      "rp_pending (rs_peer (end_challenge env k seen s)) = rp_pending (rs_peer s) - {challenge_key j}"
    using assms(2) x by (simp_all add: end_challenge_def room_await_challenge_def Let_def)
  have d: "distinct (map fst ?rest)" "j \<notin> fst ` set ?rest" "fst ` set (rs_waiting s) = insert j (fst ` set ?rest)"
    using assms(1) unfolding waiting_ok_def by (subst (asm) split; auto; fail)+ (subst split, auto)
  have sub: "set ?rest \<subseteq> set (rs_waiting s)" by (subst (2) split) auto
  show "waiting_ok (end_challenge env k seen s)"
    using assms(1) d(1,2) sub unfolding waiting_ok_def e by (auto simp: image_iff)
  show "blocked i s \<Longrightarrow> blocked i (end_challenge env k seen s)"
    using d(3) unfolding blocked_def e by auto
qed

lemma step_waiting:
  assumes "waiting_ok s"
  shows "waiting_ok (room_server_step env ev s)" "blocked i s \<Longrightarrow> blocked i (room_server_step env ev s)"
proof -
  have "waiting_ok (room_server_step env ev s) \<and> (blocked i s \<longrightarrow> blocked i (room_server_step env ev s))"
  proof (cases ev)
    case (AskChallenge n w req)
    obtain p out where c: "room_request_challenge env n w req (rs_peer s) = (p, out)" by fastforce
    from c show ?thesis
      by (cases rule: request_challenge_cases)
        (use assms in \<open>auto simp: AskChallenge room_server_step_def ask_challenge_def c waiting_ok_def blocked_def\<close>)
  next
    case (EndChallenge k seen)
    then show ?thesis
      using assms end_waiting by (cases "k < length (rs_waiting s)") (auto simp: room_server_step_def end_challenge_def)
  qed (use assms in \<open>simp_all add: room_server_step_def waiting_ok_def blocked_def\<close>)
  then show "waiting_ok (room_server_step env ev s)" "blocked i s \<Longrightarrow> blocked i (room_server_step env ev s)" by blast+
qed

lemma run_waiting: "waiting_ok s \<Longrightarrow> waiting_ok (room_run env evs s) \<and> (blocked i s \<longrightarrow> blocked i (room_run env evs s))"
  by (induction evs arbitrary: s) (simp_all add: room_run_def step_waiting)

text \<open>
  C38: One bad request blocks an episode for good. Asking for a challenge with a key that is none, while
  no other request for the episode is under way, leaves the entry that keeps out duplicates. Whatever happens
  afterwards, every request for a challenge of that episode is answered as a duplicate and sends nothing.
\<close>
theorem bad_key_blocks_challenges:
  assumes "s = room_run env evs (room_server_new organizer)" and "challenge_key i \<notin> rp_pending (rs_peer s)" and "room_key_of env key = None"
    and "s' = room_run env (AskChallenge n w (Some (i, Some key)) # evs') s"
  shows "room_request_challenge env n' w' (Some (i, key')) (rs_peer s') =
    (rs_peer s', Answered (http_ok \<lparr>ch_episode = i, ch_nonce = ''request_in_progress'', ch_tx = None, ch_status = ''request_in_progress''\<rparr>))"
proof -
  have "waiting_ok (room_server_new organizer)" by (simp add: waiting_ok_def room_server_new_def)
  then have ok: "waiting_ok s" using run_waiting assms(1) by blast
  let ?s1 = "room_server_step env (AskChallenge n w (Some (i, Some key))) s"
  have "blocked i ?s1"
    using ok assms(2,3) by (auto simp: blocked_def waiting_ok_def room_server_step_def ask_challenge_def room_request_challenge_def)
  moreover have "waiting_ok ?s1" using step_waiting(1) [OF ok] .
  ultimately have "blocked i s'" using run_waiting assms(4) by (auto simp: room_run_def)
  then show ?thesis by (simp add: blocked_def room_request_challenge_def)
qed

end
