(* ===== verification/Room_Chain_Properties.thy ===== *)
theory Room_Chain_Properties
  imports Room_Properties Auth_Flows_Properties
begin

text \<open>
  The HTTP peer of comment-it towards the chain: which outputs it spends, what it takes over from the
  indexer after a restart, and what its clients and the WebSocket peer achieve.
\<close>

section \<open>Outputs in flight\<close>

datatype submit_event = Submission "room_node option" "room_command episode_message" | Release string

text \<open>The transactions the node took, with the ids of the outputs they spend, until their time is up.\<close>

fun flight_step :: "room_env \<Rightarrow> submit_event \<Rightarrow> room_peer \<times> (transaction \<times> string) list \<Rightarrow> room_peer \<times> (transaction \<times> string) list" where
  "flight_step env (Submission node msg) (p, fl) =
     (case submit_room_message env node msg p of
        (p', Some (Inr x)) \<Rightarrow> (p', fl @ [x])
      | (p', _) \<Rightarrow> (p', fl))"
| "flight_step env (Release uid) (p, fl) =
     (if uid \<in> snd ` set fl then (release_utxo uid p, filter (\<lambda>x. snd x \<noteq> uid) fl) else (p, fl))"

definition spends :: "transaction \<Rightarrow> outpoint list" where
  "spends tx = map previous_outpoint (tx_inputs tx)"

lemma find_unusedD:
  assumes "find_unused env used us = Some u"
  shows "snd u = re_utxo_id env (fst (fst u))" "snd u \<notin> used" "fst u \<in> set us"
proof -
  obtain x where x: "List.find (\<lambda>u. re_utxo_id env (fst u) \<notin> used) us = Some x" "u = (x, re_utxo_id env (fst x))"
    using assms by (auto simp: find_unused_def)
  then show "snd u = re_utxo_id env (fst (fst u))" "snd u \<notin> used" "fst u \<in> set us" by (auto simp: find_Some_iff)
qed

lemma sent_spends:
  assumes "plain_signing (re_tx env)" "send_reserved env n pk msg u p = (p', Some (Inr x))"
  shows "spends (fst x) = [fst (fst u)]" "snd x = snd u" "rp_used p' = rp_used p"
proof -
  from assms(2) obtain tx where tx: "build_command_transaction (re_tx env) auth_generator (fst u) (re_script env pk) (re_enc env msg) 5000 = Some tx"
      "x = (tx, snd u)" "p' = p\<lparr>rp_txs := rp_txs p @ [tx]\<rparr>"
    by (auto simp: send_reserved_def split: option.splits sum.splits)
  from built_transaction [OF tx(1) [unfolded build_command_transaction_def]] obtain tx0 where
    "tx = sign_tx (re_tx env) tx0 [snd (fst u)]" "tx_inputs tx0 = build_inputs [fst u]" by auto
  with assms(1) have "spends tx = [fst (fst u)]" by (auto simp: spends_def plain_signing_def build_inputs_def split: prod.split)
  with tx show "spends (fst x) = [fst (fst u)]" "snd x = snd u" "rp_used p' = rp_used p" by simp_all
qed

lemma submit_sent:
  assumes "plain_signing (re_tx env)" "submit_room_message env node msg p = (p', r)"
  shows "case r of Some (Inr x) \<Rightarrow> snd x \<notin> rp_used p \<and> rp_used p' = insert (snd x) (rp_used p) \<and>
      (\<exists>op. spends (fst x) = [op] \<and> re_utxo_id env op = snd x) | _ \<Rightarrow> rp_used p \<subseteq> rp_used p'"
proof (cases "\<exists>n pk c us u. node = Some n \<and> message_sender msg = Inr pk \<and>
      cache_get (rn_now n) (rn_utxos n) (re_address env pk) (rp_cache p) = (c, Inr us) \<and> us \<noteq> [] \<and> find_unused env (rp_used p) us = Some u")
  case True
  then obtain n pk c us u where u: "find_unused env (rp_used p) us = Some u"
      "send_reserved env n pk msg u (reserve_utxo (snd u) (p\<lparr>rp_cache := c\<rparr>)) = (p', r)"
    using assms(2) by (auto simp: submit_room_message_def)
  note f = find_unusedD [OF u(1)]
  show ?thesis
  proof (cases "\<exists>x. r = Some (Inr x)")
    case True
    then obtain x where x: "r = Some (Inr x)" by blast
    from sent_spends [OF assms(1) u(2) [unfolded x]] f x show ?thesis by (simp add: reserve_utxo_def)
  next
    case False
    with u(2) f(2) show ?thesis
      by (auto simp: send_reserved_def reserve_utxo_def release_utxo_def split: option.splits sum.splits)
  qed
next
  case False
  then have "rp_used p' = rp_used p \<and> (\<forall>x. r \<noteq> Some (Inr x))"
    using assms(2) by (auto simp: submit_room_message_def split: option.splits sum.splits prod.splits if_splits)
  then show ?thesis by (auto split: option.split sum.split)
qed

definition flights_ok :: "room_env \<Rightarrow> room_peer \<times> (transaction \<times> string) list \<Rightarrow> bool" where
  "flights_ok env s \<longleftrightarrow> distinct (map snd (snd s)) \<and> snd ` set (snd s) \<subseteq> rp_used (fst s) \<and>
     (\<forall>x \<in> set (snd s). \<exists>op. spends (fst x) = [op] \<and> re_utxo_id env op = snd x)"

lemma flight_step_ok:
  assumes "plain_signing (re_tx env)" "flights_ok env s" shows "flights_ok env (flight_step env ev s)"
proof (cases s)
  case (Pair p fl)
  show ?thesis
  proof (cases ev)
    case (Submission node msg)
    obtain p' r where sub: "submit_room_message env node msg p = (p', r)" by fastforce
    from submit_sent [OF assms(1) sub] assms(2) show ?thesis
      by (auto simp: Submission Pair sub flights_ok_def split: option.splits sum.splits)
  next
    case (Release uid)
    with assms(2) Pair show ?thesis by (auto simp: flights_ok_def release_utxo_def distinct_map_filter)
  qed
qed

text \<open>
  C35: No output is spent twice while it is in flight. Whatever messages are submitted one after the other,
  whatever the cache still shows and whenever reserved outputs are given back: transactions the node has
  taken and whose time is not up spend different outputs.
\<close>
theorem no_double_spend:
  assumes "plain_signing (re_tx env)" and "fold (flight_step env) evs (room_peer_new pk, []) = (p, fl)"
  shows "distinct (map (spends \<circ> fst) fl)"
proof -
  have keep: "flights_ok env s \<Longrightarrow> flights_ok env (fold (flight_step env) evs s)" for s
    by (induction evs arbitrary: s) (simp_all add: flight_step_ok [OF assms(1)])
  have "flights_ok env (room_peer_new pk, [])" by (simp add: flights_ok_def)
  from keep [OF this] have ok: "flights_ok env (p, fl)" using assms(2) by simp
  show ?thesis
  proof (rule distinct_map [THEN iffD2], intro conjI inj_onI)
    show "distinct fl" using ok by (auto simp: flights_ok_def distinct_map)
    fix x y assume xy: "x \<in> set fl" "y \<in> set fl" "(spends \<circ> fst) x = (spends \<circ> fst) y"
    then have "snd x = snd y" using ok by (auto simp: flights_ok_def) (metis list.inject)
    with xy ok show "x = y" by (auto simp: flights_ok_def distinct_map inj_on_def)
  qed
qed

text \<open>
  Two requests at once do spend an output twice. The look for an unused output and its reservation are
  two critical sections: when a second request looks in between, both reserve the same output, and the
  node gets two transactions that spend it.
\<close>
theorem reservation_race:
  assumes "plain_signing (re_tx env)" and "find_unused env (rp_used p) us = Some u" and "find_unused env (rp_used p) us = Some v"
    and "send_reserved env n pk msg u (reserve_utxo (snd u) p) = (p1, Some (Inr x))"
    and "send_reserved env n' pk' msg' v (reserve_utxo (snd v) p1) = (p2, Some (Inr y))"
  shows "spends (fst x) = spends (fst y)"
  using sent_spends(1) [OF assms(1,4)] sent_spends(1) [OF assms(1,5)] assms(2,3) by simp

section \<open>After a restart\<close>

text \<open>The episodes a peer takes over from the rows of the indexer: id, key and time.\<close>

definition row_key :: "room_env \<Rightarrow> episode_row \<Rightarrow> pubkey option" where
  "row_key env r = (case row_creator r of None \<Rightarrow> None | Some t \<Rightarrow> if t = [] then None else room_key_of env (unwrap_key t))"

definition taken_over :: "room_env \<Rightarrow> episode_row list \<Rightarrow> (episode_id \<times> pubkey \<times> u64) list" where
  "taken_over env rows = List.map_filter (\<lambda>r. if 2 ^ 32 \<le> row_episode r then None
     else map_option (\<lambda>pk. (ucast (row_episode r), pk, row_created r)) (row_key env r)) rows"

definition start_daa :: "u64 \<Rightarrow> u64" where
  "start_daa daa = (if daa > 0 then daa else 1)"

definition takeover_msg :: "room_env \<Rightarrow> u64 \<Rightarrow> episode_id \<times> pubkey \<times> u64 \<Rightarrow> engine_msg" where
  "takeover_msg env daa x = (case x of (i, pk, t) \<Rightarrow>
     BlkAccepted default_hash (start_daa daa) t [(default_hash, re_enc env (NewEpisode i [pk]), None)])"

lemma row_fields: "get_u64 ''episode_id'' (row_json r) = Some (row_episode r)" "get_u64 ''created_at'' (row_json r) = Some (row_created r)"
    "get_str ''creator_pubkey'' (row_json r) = row_creator r"
  by (simp_all add: get_u64_def get_str_def row_json_def del: as_u64.simps split: option.split)

lemma rehydrate_row:
  "rehydrate_episode env daa {} (row_json r) = (if 2 ^ 32 \<le> row_episode r then None
     else map_option (\<lambda>pk. takeover_msg env daa (ucast (row_episode r), pk, row_created r)) (row_key env r))"
  by (simp add: rehydrate_episode_def rehydrated_message_def row_fields row_key_def room_key_of_def takeover_msg_def start_daa_def
      split: option.split)

lemma rehydrate_rows:
  assumes "rp_episodes p = Map.empty"
  shows "rehydrate_from_indexer env daa p (recent_json rows) = map (takeover_msg env daa) (taken_over env rows)"
proof -
  have "rehydrate_from_indexer env daa p (recent_json rows) = List.map_filter (rehydrate_episode env daa {}) (map row_json rows)"
    using assms by (simp add: rehydrate_from_indexer_def recent_json_def)
  also have "\<dots> = map (takeover_msg env daa) (taken_over env rows)"
    by (induction rows) (simp_all add: map_filter_simps taken_over_def rehydrate_row split: option.split)
  finally show ?thesis .
qed

definition takeover_meta :: "u64 \<Rightarrow> u64 \<Rightarrow> metadata" where
  "takeover_meta daa t = \<lparr>accepting_hash = default_hash, accepting_daa = start_daa daa, accepting_time = t, tx_id = default_hash,
     tx_outputs = None\<rparr>"

definition same_age :: "u64 \<Rightarrow> room_server \<Rightarrow> bool" where
  "same_age daa s \<longleftrightarrow> (\<exists>e. rs_engine s = Some e \<and> ran (creation_times e) \<subseteq> {start_daa daa} \<and>
     (\<forall>i. rp_episodes (rs_peer s) (ucast i) = map_option ew_episode (episodes e i)))"

definition engine_room :: "room_server \<Rightarrow> episode_id \<Rightarrow> (room, room_rollback) wrapper option" where
  "engine_room s i = Option.bind (rs_engine s) (\<lambda>e. episodes e i)"

lemma filter_same_age:
  assumes "ran (creation_times e) \<subseteq> {d}"
  shows "episodes (filter_old_episodes e d) = episodes e" "creation_times (filter_old_episodes e d) = creation_times e"
proof -
  have "\<not> is_expired e d i" for i
  proof (cases "creation_times e i")
    case (Some t)
    then have "t = d" using assms by (auto simp: ran_def)
    with Some sat_sub_le [of d EPISODE_LIFETIME] show ?thesis by (simp add: is_expired_def not_less)
  qed (simp add: is_expired_def)
  then show "episodes (filter_old_episodes e d) = episodes e" "creation_times (filter_old_episodes e d) = creation_times e"
    by (simp_all add: filter_old_episodes_def)
qed

lemma takeover_step:
  assumes dec: "\<And>j k. re_dec env (re_enc env (NewEpisode j [k])) = Some (NewEpisode j [k])" and s: "same_age daa s"
  shows "same_age daa (room_server_step env (EngineMsg (takeover_msg env daa (i, pk, t))) s)"
    "engine_room (room_server_step env (EngineMsg (takeover_msg env daa (i, pk, t))) s) =
      (if engine_room s i = None then (engine_room s)(i \<mapsto> \<lparr>ew_episode = room_initialize [pk] (takeover_meta daa t), rollback_stack = []\<rparr>)
       else engine_room s)"
proof -
  let ?d = "start_daa daa" and ?md = "takeover_meta daa t"
  let ?wr = "\<lparr>ew_episode = room_initialize [pk] ?md, rollback_stack = []\<rparr> :: (room, room_rollback) wrapper"
  obtain e where e: "rs_engine s = Some e" "ran (creation_times e) \<subseteq> {?d}"
      "\<And>j. rp_episodes (rs_peer s) (ucast j) = map_option ew_episode (episodes e j)"
    using s by (auto simp: same_age_def)
  let ?f = "filter_old_episodes e ?d"
  note f = filter_same_age [OF e(2)]
  have msg: "decode_msg (room_config env) (re_enc env (NewEpisode i [pk])) = Some (NewEpisode i [pk])"
    using dec by (simp add: room_config_def)
  have init: "wrapper_initialize (room_config env) [pk] ?md = ?wr"
    by (simp add: wrapper_initialize_def room_episode_def)
  have st: "\<exists>e' p'. engine_step (room_config env) (takeover_msg env daa (i, pk, t)) (e, rs_peer s) = Some (e', p') \<and>
      (if episodes e i = None
       then episodes e' = (episodes e)(i \<mapsto> ?wr) \<and> creation_times e' = (creation_times e)(i \<mapsto> ?d) \<and>
         rp_episodes p' = (rp_episodes (rs_peer s))(ucast i \<mapsto> ew_episode ?wr)
       else episodes e' = episodes e \<and> creation_times e' = creation_times e \<and> p' = rs_peer s)"
    using msg init f by (simp add: takeover_msg_def takeover_meta_def Let_def room_event_rooms)
  then obtain e' p' where e': "engine_step (room_config env) (takeover_msg env daa (i, pk, t)) (e, rs_peer s) = Some (e', p')"
      "if episodes e i = None
       then episodes e' = (episodes e)(i \<mapsto> ?wr) \<and> creation_times e' = (creation_times e)(i \<mapsto> ?d) \<and>
         rp_episodes p' = (rp_episodes (rs_peer s))(ucast i \<mapsto> ew_episode ?wr)
       else episodes e' = episodes e \<and> creation_times e' = creation_times e \<and> p' = rs_peer s" by blast
  have step: "room_server_step env (EngineMsg (takeover_msg env daa (i, pk, t))) s = s\<lparr>rs_engine := Some e', rs_peer := p'\<rparr>"
    using e(1) e'(1) by (simp add: room_server_step_def room_engine_step_def takeover_msg_def del: engine_step.simps)
  show "same_age daa (room_server_step env (EngineMsg (takeover_msg env daa (i, pk, t))) s)"
    using e e'(2) by (auto simp: step same_age_def ran_def split: if_splits)
  show "engine_room (room_server_step env (EngineMsg (takeover_msg env daa (i, pk, t))) s) =
      (if engine_room s i = None then (engine_room s)(i \<mapsto> ?wr) else engine_room s)"
    using e(1) e'(2) by (auto simp: step engine_room_def fun_eq_iff split: if_splits)
qed

lemma takeover_run:
  assumes dec: "\<And>j k. re_dec env (re_enc env (NewEpisode j [k])) = Some (NewEpisode j [k])"
  shows "same_age daa s \<Longrightarrow> same_age daa (room_run env (map (\<lambda>x. EngineMsg (takeover_msg env daa x)) xs) s) \<and>
    engine_room (room_run env (map (\<lambda>x. EngineMsg (takeover_msg env daa x)) xs) s) = (\<lambda>i. case engine_room s i of Some wr \<Rightarrow> Some wr
      | None \<Rightarrow> map_option (\<lambda>(_, pk, t). \<lparr>ew_episode = room_initialize [pk] (takeover_meta daa t), rollback_stack = []\<rparr>)
          (List.find (\<lambda>x. fst x = i) xs))"
proof (induction xs arbitrary: s)
  case Nil
  then show ?case by (auto simp: room_run_def fun_eq_iff split: option.split)
next
  case (Cons x xs)
  obtain i pk t where x: "x = (i, pk, t)" by (cases x)
  from Cons.IH [OF takeover_step(1) [OF dec Cons.prems]] takeover_step(2) [OF dec Cons.prems, of i pk t] show ?case
    by (auto simp: x room_run_def fun_eq_iff split: option.split)
qed

text \<open>
  C36: What a peer has after a restart. It takes over the episodes of the indexer: its engine and its copy then
  hold exactly those with a readable creator and an id of 32 bits, in the order of the list the first of
  each id. Each is as if newly made by its creator at its time: the comments, the sessions and
  all other participants are lost, and what these send, the comments of members included, is refused.
\<close>
theorem restart_takes_over:
  assumes "\<And>j k. re_dec env (re_enc env (NewEpisode j [k])) = Some (NewEpisode j [k])" and "s = rehydrated env daa (recent_json rows) (room_server_new pk)"
  shows "\<exists>e. rs_engine s = Some e \<and> (\<forall>i. case List.find (\<lambda>x. fst x = i) (taken_over env rows) of
      None \<Rightarrow> episodes e i = None \<and> rp_episodes (rs_peer s) (ucast i) = None
    | Some (_, k, t) \<Rightarrow> \<exists>g. episodes e i = Some \<lparr>ew_episode = g, rollback_stack = []\<rparr> \<and> rp_episodes (rs_peer s) (ucast i) = Some g \<and>
        creator g = Some k \<and> room_created_at g = t \<and> room_comments g = [] \<and> authenticated_participants g = {} \<and>
        (\<forall>q c md. q \<noteq> k \<longrightarrow> room_execute (re_auth env) g c (Some q) md = (g, Inl (InvalidCommand RoomNotAuthorized))))"
proof -
  have "same_age daa (room_server_new pk)"
    by (simp add: same_age_def room_server_new_def new_engine_def room_peer_new_def)
  from takeover_run [OF assms(1) this, of "taken_over env rows"] have
    age: "same_age daa s" and rooms: "engine_room s = (\<lambda>i. map_option (\<lambda>(_, pk, t). \<lparr>ew_episode = room_initialize [pk] (takeover_meta daa t),
      rollback_stack = []\<rparr>) (List.find (\<lambda>x. fst x = i) (taken_over env rows)))"
    by (simp_all add: assms(2) rehydrated_def rehydrate_rows room_server_new_def room_peer_new_def engine_room_def new_engine_def comp_def)
  obtain e where e: "rs_engine s = Some e" "\<And>j. rp_episodes (rs_peer s) (ucast j) = map_option ew_episode (episodes e j)"
    using age by (auto simp: same_age_def)
  have "episodes e i = map_option (\<lambda>(_, pk, t). \<lparr>ew_episode = room_initialize [pk] (takeover_meta daa t), rollback_stack = []\<rparr>)
      (List.find (\<lambda>x. fst x = i) (taken_over env rows))" for i
    using fun_cong [OF rooms, of i] e(1) by (simp add: engine_room_def)
  with e show ?thesis
    by (auto simp: room_initialize_def takeover_meta_def room_execute_def split: option.split)
qed

section \<open>Clients\<close>

text \<open>What a client reads of the answer to a start: nothing came, a status without a body, or the reply.\<close>

definition start_answer :: "room_peer \<times> start_reply http_result \<Rightarrow> post_reply option" where
  "start_answer x =
     (case snd x of
        None \<Rightarrow> None
      | Some (Inl code) \<Rightarrow> Some \<lparr>pr_success = False, pr_body = None\<rparr>
      | Some (Inr r) \<Rightarrow> let j = start_reply_json r in
          Some \<lparr>pr_success = True, pr_body = Some \<lparr>rb_episode = get_u64 ''episode_id'' j, rb_signature = get_str ''signature'' j\<rparr>\<rparr>)"

lemma start_answer_no_id: "start_answer x = Some r \<Longrightarrow> pr_body r = Some b \<Longrightarrow> rb_episode b = None"
  by (auto simp: start_answer_def start_reply_json_def get_u64_def Let_def split: option.splits sum.splits)

text \<open>
  The client flow cannot work with this peer. The peer writes the id of the episode as text, the client reads
  a number. Whatever the peer answers to the start, with money or without, and whatever the node does, the flow
  and the full cycle of login and logout end with an error before anything is submitted.
\<close>
theorem client_never_logs_in:
  assumes "\<And>k. net_post net (PostStart k) = start_answer (room_start_auth env node wallet fresh k None p)"
  shows "\<exists>tr e. room_coordinated_flow fe net funder signer [] = Some (tr, Inl e) \<and> (\<forall>tx. SubmitTx tx \<notin> set tr) \<and>
    (\<exists>tr' e'. room_full_cycle fe net net' signer [] = Some (tr', Inl e') \<and> (\<forall>tx. SubmitTx tx \<notin> set tr'))"
proof -
  have flow: "\<exists>tr e. room_coordinated_flow fe net f signer [] = Some (tr, Inl e) \<and> (\<forall>tx. SubmitTx tx \<notin> set tr)" for f
  proof (cases "\<exists>u us. net_utxos net = Some (u # us)")
    case True
    then obtain u us where u: "net_utxos net = Some (u # us)" by blast
    let ?k = "pk_text (fe_auth fe) (kp_public signer)"
    have "\<exists>e. flow_bind (post_message net (PostStart ?k)) (started_episode False) [] = Some ([Post (PostStart ?k)], Inl e)"
      using start_answer_no_id [of "room_start_auth env node wallet fresh ?k None p"]
      by (auto simp: assms flow_bind_def post_message_def started_episode_def flow_fail_def split: option.split)
    then show ?thesis by (auto simp: room_coordinated_flow_def flow_bind_def first_utxo_def u flow_return_def)
  next
    case False
    then have "\<exists>e. first_utxo net [] = Some ([], Inl e)" by (auto simp: first_utxo_def flow_fail_def split: option.split list.split)
    then show ?thesis by (auto simp: room_coordinated_flow_def flow_bind_def)
  qed
  from flow [of funder] obtain tr e where one: "room_coordinated_flow fe net funder signer [] = Some (tr, Inl e)" "\<forall>tx. SubmitTx tx \<notin> set tr" by blast
  from flow [of signer] obtain tr' e' where two: "room_coordinated_flow fe net signer signer [] = Some (tr', Inl e')" "\<forall>tx. SubmitTx tx \<notin> set tr'" by blast
  from two have "room_full_cycle fe net net' signer [] = Some (tr', Inl e')" by (simp add: room_full_cycle_def flow_bind_def)
  with one two show ?thesis by blast
qed

text \<open>Every notice of a comment goes to a path that the peer does not serve, every other one to one it does.\<close>

theorem comment_notices_lost:
  assumes "(path, body) \<in> set (organizer_posts env ev)"
  shows "room_internal_post path body p = None \<longleftrightarrow> (\<exists>i g t token a md. ev = OnCommand i g (RoomSubmitComment t token) a md)"
proof (cases ev)
  case (OnCommand i g cmd a md)
  with assms show ?thesis
    by (cases cmd) (simp_all add: organizer_posts_def Let_def room_internal_post_def split: if_split_asm)
qed (use assms in \<open>simp_all add: organizer_posts_def\<close>)

section \<open>The WebSocket peer\<close>

text \<open>The later variants of the enum are shadowed by the second, which needs a part of their fields.\<close>

lemma parse_frontend_shadowed:
  "parse_frontend j = Some c \<Longrightarrow> (\<exists>t i. c = FrontComment t i) \<or> (\<exists>i. c = FrontChallenge i)"
  by (auto simp: parse_frontend_def split: option.splits)

definition front_sendable :: "room_command \<Rightarrow> bool" where
  "front_sendable cmd \<longleftrightarrow> (\<exists>t. cmd = RoomSubmitComment t []) \<or> cmd = RoomRequestChallenge"

lemma front_send_sent [simp]: "fc_sent (front_send inp r c) = fc_sent c"
  by (simp add: front_send_def)

lemma front_step_sent:
  "\<forall>x \<in> set (fc_sent c). front_sendable (snd x) \<Longrightarrow> \<forall>x \<in> set (fc_sent (front_step env lower kp inp c)). front_sendable (snd x)"
proof (cases "Option.bind (fi_json inp) parse_frontend")
  case (Some fc)
  obtain i cmd where cmd: "front_command fc = (i, cmd)" by fastforce
  have "front_sendable cmd"
    using Some cmd by (auto simp: bind_eq_Some_conv front_command_def front_sendable_def dest!: parse_frontend_shadowed)
  moreover assume "\<forall>x \<in> set (fc_sent c). front_sendable (snd x)"
  ultimately show ?thesis
    by (auto simp: front_step_def Some cmd split: option.split sum.split list.split)
qed (simp add: front_step_def)

lemma front_run_sent:
  "\<forall>x \<in> set (fc_sent c). front_sendable (snd x) \<Longrightarrow> \<forall>x \<in> set (fc_sent (front_connection env lower kp inps c)). front_sendable (snd x)"
proof (induction inps arbitrary: c)
  case (Cons inp inps)
  show ?case using Cons.IH [OF front_step_sent [OF Cons.prems]] Cons.prems by simp
qed simp

lemma sendable_keeps_out:
  "front_sendable c \<Longrightarrow> authenticated_participants g = {} \<Longrightarrow> room_comments g = [] \<Longrightarrow> room_execute env g c a md = (g', r) \<Longrightarrow>
     authenticated_participants g' = {} \<and> room_comments g' = []"
  by (auto simp: front_sendable_def room_execute_def room_request_def room_comment_cmd_def Let_def split: option.splits if_splits)

text \<open>
  C37: Nobody logs in over the WebSocket peer. Whatever its client sends, the commands that reach the chain are
  comments and requests for a challenge, never a response and never a revocation. A room that hears no other
  commands, whoever sends them, has nobody authenticated and no comment.
\<close>
theorem websocket_never_authenticates:
  assumes "c = front_connection env lower kp inps front_new"
    and "exec_calls (room_episode aenv) (room_initialize ps md) cs = Some (g, rs)" and "fst ` set cs \<subseteq> snd ` set (fc_sent c)"
  shows "(\<forall>(i, cmd) \<in> set (fc_sent c). (\<exists>t. cmd = RoomSubmitComment t []) \<or> cmd = RoomRequestChallenge) \<and>
    authenticated_participants g = {} \<and> room_comments g = []"
proof -
  have sent: "\<forall>x \<in> set (fc_sent c). front_sendable (snd x)" unfolding assms(1) by (rule front_run_sent) (simp add: front_new_def)
  then have "\<forall>x \<in> set cs. front_sendable (fst x)" using assms(3) by (metis image_eqI image_iff subsetD)
  then have "authenticated_participants g = {} \<and> room_comments g = []"
    if "authenticated_participants g0 = {}" "room_comments g0 = []" "exec_calls (room_episode aenv) g0 cs = Some (g, rs)" for g0
    using that
  proof (induction cs arbitrary: g0 rs)
    case (Cons x cs)
    obtain cmd a m where x: "x = (cmd, a, m)" by (cases x)
    have s: "front_sendable cmd" using Cons.prems(1) by (simp add: x)
    from Cons.prems(4) [unfolded x] show ?case
    proof (cases rule: exec_calls_ConsE)
      case (ok g1 r rs')
      then have "room_execute aenv g0 cmd a m = (g1, Inr r)" by (simp add: room_episode_def)
      from sendable_keeps_out [OF s Cons.prems(2,3) this] Cons.IH [of g1] Cons.prems(1) ok(2) show ?thesis by simp
    next
      case (err g1 e)
      then have "room_execute aenv g0 cmd a m = (g1, Inl e)" by (simp add: room_episode_def)
      from sendable_keeps_out [OF s Cons.prems(2,3) this] Cons.IH [of g1] Cons.prems(1) err(2) show ?thesis by simp
    qed
  qed simp
  from this [OF _ _ assms(2)] sent show ?thesis by (auto simp: room_initialize_def front_sendable_def)
qed

end
