(* ===== verification/Room_Demo.thy ===== *)
theory Room_Demo
  imports Room_Chain_Properties
begin

text \<open>
  Runs of the comment-it peer on concrete data, where the hypotheses of the properties of \<^verbatim>\<open>Room_Properties\<close>
  and \<^verbatim>\<open>Room_Chain_Properties\<close> hold: a wallet with two outputs, messages encoded as id and key.
\<close>

section \<open>Data\<close>

definition room_demo_env :: room_env where
  "room_demo_env = \<lparr>re_auth = demo_flow_auth, re_tx = demo_flow_tx, re_pk_of = (\<lambda>b. if b = [] then None else Some (PubKey b)),
     re_enc_cmd = (\<lambda>_. []),
     re_enc = (\<lambda>m. case m of NewEpisode i [k] \<Rightarrow> u32_le i @ pk_bytes k | _ \<Rightarrow> [1]),
     re_dec = (\<lambda>b. if length b < 4 then None else Some (NewEpisode (le_u32 (take 4 b)) [PubKey (drop 4 b)])),
     re_script = pk_bytes, re_address = (\<lambda>k. map (\<lambda>b. char_of (unat b)) (pk_bytes k)),
     re_utxo_id = (\<lambda>op. if op_index op = 0 then ''a'' else ''b''), re_tx_id = (\<lambda>_. ''t''), re_pick = (\<lambda>_. None)\<rparr>"

definition room_demo_utxo :: "u32 \<Rightarrow> utxo" where
  "room_demo_utxo k = (\<lparr>op_txid = [9], op_index = k\<rparr>, \<lparr>utxo_amount = 100000, utxo_script = []\<rparr>)"

definition room_demo_node :: room_node where
  "room_demo_node = \<lparr>rn_now = 0, rn_utxos = (\<lambda>_. Inr [room_demo_utxo 0, room_demo_utxo 1]), rn_answer = (\<lambda>_. Inr ())\<rparr>"

lemma room_demo_tx [simp]: "re_tx room_demo_env = demo_flow_tx" by (simp add: room_demo_env_def)

lemma room_demo_codec: "re_dec room_demo_env (re_enc room_demo_env (NewEpisode j [k])) = Some (NewEpisode j [k])"
  by (cases k) (simp add: room_demo_env_def)

lemma room_demo_signing: "plain_signing (re_tx room_demo_env)"
  by (simp add: plain_signing_def demo_flow_tx_def)

text \<open>A message spends the output it is given.\<close>

lemma room_demo_build:
  "\<exists>tx. build_command_transaction demo_flow_tx auth_generator u s m f = Some tx \<and> spends tx = [fst u]"
  by (cases u) (simp add: build_command_transaction_def build_transaction_def auth_generator_def demo_flow_nonce spends_def build_inputs_def Let_def)

lemma room_demo_send:
  "\<exists>tx. send_reserved room_demo_env room_demo_node pk m u p = (p\<lparr>rp_txs := rp_txs p @ [tx]\<rparr>, Some (Inr (tx, snd u))) \<and> spends tx = [fst (fst u)]"
proof -
  obtain tx where "build_command_transaction demo_flow_tx auth_generator (fst u) (re_script room_demo_env pk) (re_enc room_demo_env m) 5000
      = Some tx" "spends tx = [fst (fst u)]" using room_demo_build by blast
  then show ?thesis by (simp add: send_reserved_def room_demo_node_def)
qed

section \<open>The copy\<close>

lemma room_demo_same_age: "same_age daa (room_server_new pk)" "engine_room (room_server_new pk) = Map.empty"
  by (simp_all add: same_age_def engine_room_def room_server_new_def new_engine_def room_peer_new_def fun_eq_iff)

theorem room_copy_exact_witness:
  "\<exists>s g. s = room_run room_demo_env [EngineMsg (takeover_msg room_demo_env 5 (7, PubKey [80], 9)), TimeUp ''a''] (room_server_new (PubKey [90])) \<and>
     rp_episodes (rs_peer s) 7 = Some g \<and> creator g = Some (PubKey [80]) \<and> room_comments g = [] \<and> authenticated_participants g = {}"
proof -
  define evs where "evs = [EngineMsg (takeover_msg room_demo_env 5 (7, PubKey [80], 9)), TimeUp ''a'']"
  define s where "s = room_run room_demo_env evs (room_server_new (PubKey [90]))"
  let ?s1 = "room_server_step room_demo_env (EngineMsg (takeover_msg room_demo_env 5 (7, PubKey [80], 9))) (room_server_new (PubKey [90]))"
  have "engine_room s = engine_room ?s1" by (simp add: s_def evs_def room_run_def room_server_step_def engine_room_def room_request_step_def fun_eq_iff)
  with takeover_step(2) [OF room_demo_codec room_demo_same_age(1)] have
    "engine_room s 7 = Some \<lparr>ew_episode = room_initialize [PubKey [80]] (takeover_meta 5 9), rollback_stack = []\<rparr>"
    by (simp add: room_demo_same_age)
  then obtain e where e: "rs_engine s = Some e" "episodes e 7 = Some \<lparr>ew_episode = room_initialize [PubKey [80]] (takeover_meta 5 9), rollback_stack = []\<rparr>"
    by (auto simp: engine_room_def bind_eq_Some_conv)
  have "\<forall>h. EngineMsg (BlkReverted h) \<notin> set evs" by (simp add: evs_def takeover_msg_def)
  from room_copy_exact [OF s_def this e] show ?thesis
    unfolding s_def evs_def by (auto simp: room_initialize_def added_keys_def event_keys_def)
qed

section \<open>Requests\<close>

text \<open>The wallet of the demo has its first output free at the start.\<close>

lemma room_demo_submit:
  assumes "message_sender m = Inr k"
    and "cache_get 0 (\<lambda>_. Inr [room_demo_utxo 0, room_demo_utxo 1]) (re_address room_demo_env k) (rp_cache p) =
      (c, Inr [room_demo_utxo 0, room_demo_utxo 1] :: string + utxo list)"
    and "find_unused room_demo_env (rp_used p) [room_demo_utxo 0, room_demo_utxo 1] = Some u"
  shows "\<exists>p' tx. submit_room_message room_demo_env (Some room_demo_node) m p = (p', Some (Inr (tx, snd u))) \<and>
    rp_used p' = insert (snd u) (rp_used p) \<and> rp_cache p' = c \<and> spends tx = [fst (fst u)]"
proof -
  have n: "rn_now room_demo_node = 0" "rn_utxos room_demo_node = (\<lambda>_. Inr [room_demo_utxo 0, room_demo_utxo 1])"
    by (simp_all add: room_demo_node_def)
  show ?thesis
    using assms room_demo_send [of k m u "reserve_utxo (snd u) (p\<lparr>rp_cache := c\<rparr>)"]
    by (auto simp: submit_room_message_def n reserve_utxo_def)
qed

lemma room_demo_unused:
  "find_unused room_demo_env {} [room_demo_utxo 0, room_demo_utxo 1] = Some (room_demo_utxo 0, ''a'')"
  "find_unused room_demo_env {''a''} [room_demo_utxo 0, room_demo_utxo 1] = Some (room_demo_utxo 1, ''b'')"
  by (simp_all add: find_unused_def room_demo_env_def room_demo_utxo_def)

text \<open>A first look fills the cache, a second one at the same time finds it filled.\<close>

lemma room_demo_cache:
  fixes node :: "string \<Rightarrow> string + utxo list"
  assumes "node a = Inr us"
  shows "cache_get 0 node a (cache_new 750) = ((cache_new 750)\<lparr>uc_entries := [a \<mapsto> (0, us)]\<rparr>, Inr us)"
    "cache_get 0 node a ((cache_new 750)\<lparr>uc_entries := [a \<mapsto> (0, us)]\<rparr>) = ((cache_new 750)\<lparr>uc_entries := [a \<mapsto> (0, us)]\<rparr>, Inr us)"
proof -
  have "unat (clamp_ttl 750) > 0" using clamp_ttl_bounds(1) [of 750] by simp
  with assms show "cache_get 0 node a (cache_new 750) = ((cache_new 750)\<lparr>uc_entries := [a \<mapsto> (0, us)]\<rparr>, Inr us)"
    "cache_get 0 node a ((cache_new 750)\<lparr>uc_entries := [a \<mapsto> (0, us)]\<rparr>) = ((cache_new 750)\<lparr>uc_entries := [a \<mapsto> (0, us)]\<rparr>, Inr us)"
    by (simp_all add: cache_get_def cache_new_def millis_since_def)
qed

lemma room_demo_start:
  "\<exists>p r. room_start_auth room_demo_env (Some room_demo_node) (Some demo_keys) fresh ''P'' None (room_peer_new (PubKey [90])) = (p, Some (Inr r))"
proof -
  have k: "room_key_of room_demo_env ''P'' = Some (PubKey [80])"
    by (simp add: room_key_of_def room_demo_env_def demo_flow_auth_def ascii_def)
  let ?us = "[room_demo_utxo 0, room_demo_utxo 1]" and ?a = "re_address room_demo_env (PubKey [80])"
  let ?p = "(room_peer_new (PubKey [90]))\<lparr>rp_cache := (cache_new 750)\<lparr>uc_entries := [?a \<mapsto> (0, ?us)]\<rparr>\<rparr>"
  have n: "rn_now room_demo_node = 0" "rn_utxos room_demo_node = (\<lambda>_. Inr ?us)" by (simp_all add: room_demo_node_def)
  have c: "cache_get 0 (\<lambda>_. Inr ?us) ?a (rp_cache ?p) = (rp_cache ?p, Inr ?us :: string + utxo list)" by (simp add: room_demo_cache(2))
  have "find_unused room_demo_env (rp_used ?p) ?us = Some (room_demo_utxo 0, ''a'')"
    using room_demo_unused(1) by (simp add: room_peer_new_def)
  from room_demo_submit [of "NewEpisode (ucast fresh) [PubKey [80]]" "PubKey [80]" ?p, OF _ c this] obtain p' tx where
    "submit_room_message room_demo_env (Some room_demo_node) (NewEpisode (ucast fresh) [PubKey [80]]) ?p = (p', Some (Inr (tx, ''a'')))"
    by auto
  then show ?thesis
    by (simp add: room_start_auth_def k n demo_keys_def room_demo_cache(1) submit_and_reply_def http_ok_def room_peer_new_def)
qed

theorem start_names_no_episode_witness:
  "\<exists>p r. room_start_auth room_demo_env (Some room_demo_node) (Some demo_keys) (2 ^ 32 + 7) ''P'' None (room_peer_new (PubKey [90])) = (p, Some (Inr r)) \<and>
     st_episode r = 2 ^ 32 + 7 \<and> rt_status (room_get_status room_demo_env None (2 ^ 32 + 7) None p) = ''episode_not_found''"
proof -
  let ?s = "room_run room_demo_env [] (room_server_new (PubKey [90]))"
  obtain p r where start: "room_start_auth room_demo_env (Some room_demo_node) (Some demo_keys) (2 ^ 32 + 7) ''P'' None (rs_peer ?s) = (p, Some (Inr r))"
      "room_start_auth room_demo_env (Some room_demo_node) (Some demo_keys) (2 ^ 32 + 7) ''P'' None (room_peer_new (PubKey [90])) = (p, Some (Inr r))"
    using room_demo_start [of "2 ^ 32 + 7"] by (auto simp: room_run_def room_server_new_def)
  have "(2 :: u64) ^ 32 \<le> 2 ^ 32 + 7" by simp
  from start_names_no_episode [OF refl start(1) this refl, where evs' = "[]"] have
    "st_episode r = 2 ^ 32 + 7" "rt_status (room_get_status room_demo_env None (2 ^ 32 + 7) None p) = ''episode_not_found''"
    by (simp_all add: room_run_def)
  with start(2) show ?thesis by blast
qed

theorem bad_key_blocks_challenges_witness:
  "snd (room_request_challenge room_demo_env (Some room_demo_node) (Some demo_keys) (Some (7, Some ''P''))
     (rs_peer (room_run room_demo_env [AskChallenge None None (Some (7, Some [])), TimeUp ''a''] (room_server_new (PubKey [90]))))) =
   Answered (http_ok \<lparr>ch_episode = 7, ch_nonce = ''request_in_progress'', ch_tx = None, ch_status = ''request_in_progress''\<rparr>)"
proof -
  have none: "room_key_of room_demo_env [] = None" by (simp add: room_key_of_def room_demo_env_def demo_flow_auth_def ascii_def)
  have start: "room_server_new (PubKey [90]) = room_run room_demo_env [] (room_server_new (PubKey [90]))" by (simp add: room_run_def)
  have "challenge_key 7 \<notin> rp_pending (rs_peer (room_server_new (PubKey [90])))" by (simp add: room_server_new_def room_peer_new_def)
  from bad_key_blocks_challenges [OF start this none refl, where evs' = "[TimeUp ''a'']"] show ?thesis by simp
qed

section \<open>Outputs\<close>

theorem no_double_spend_witness:
  "\<exists>p x y. fold (flight_step room_demo_env) [Submission (Some room_demo_node) (NewEpisode 1 [PubKey [80]]),
       Submission (Some room_demo_node) (NewEpisode 2 [PubKey [80]])] (room_peer_new (PubKey [90]), []) = (p, [x, y]) \<and> spends (fst x) \<noteq> spends (fst y)"
proof -
  let ?us = "[room_demo_utxo 0, room_demo_utxo 1]" and ?a = "re_address room_demo_env (PubKey [80])"
  let ?c = "(cache_new 750)\<lparr>uc_entries := [?a \<mapsto> (0, ?us)]\<rparr>" and ?p = "room_peer_new (PubKey [90])"
  have c: "cache_get 0 (\<lambda>_. Inr ?us) ?a (rp_cache ?p) = (?c, Inr ?us :: string + utxo list)"
    by (simp add: room_peer_new_def room_demo_cache(1))
  from room_demo_submit [of "NewEpisode 1 [PubKey [80]]" "PubKey [80]" ?p, OF _ c] room_demo_unused(1) obtain p1 x where
    p1: "submit_room_message room_demo_env (Some room_demo_node) (NewEpisode 1 [PubKey [80]]) ?p = (p1, Some (Inr (x, ''a'')))"
      "rp_used p1 = {''a''}" "rp_cache p1 = ?c" by (auto simp: room_peer_new_def)
  have c2: "cache_get 0 (\<lambda>_. Inr ?us) ?a (rp_cache p1) = (?c, Inr ?us :: string + utxo list)"
    by (simp add: p1(3) room_demo_cache(2))
  from room_demo_submit [of "NewEpisode 2 [PubKey [80]]" "PubKey [80]" p1, OF _ c2] room_demo_unused(2) p1(2) obtain p2 y where
    p2: "submit_room_message room_demo_env (Some room_demo_node) (NewEpisode 2 [PubKey [80]]) p1 = (p2, Some (Inr (y, ''b'')))" by auto
  have run: "fold (flight_step room_demo_env) [Submission (Some room_demo_node) (NewEpisode 1 [PubKey [80]]),
      Submission (Some room_demo_node) (NewEpisode 2 [PubKey [80]])] (?p, []) = (p2, [(x, ''a''), (y, ''b'')])"
    by (simp add: p1(1) p2)
  with no_double_spend [OF room_demo_signing run] show ?thesis by auto
qed

section \<open>After a restart\<close>

definition room_demo_rows :: "episode_row list" where
  "room_demo_rows = [\<lparr>row_episode = 2 ^ 32, row_creator = Some ''Q'', row_created = 3, row_authenticated = 0\<rparr>,
     \<lparr>row_episode = 7, row_creator = Some ''PublicKey(P)'', row_created = 9, row_authenticated = 1\<rparr>]"

lemma room_demo_taken: "taken_over room_demo_env room_demo_rows = [(7, PubKey [80], 9)]"
  by (simp add: taken_over_def room_demo_rows_def row_key_def map_filter_simps unwrap_key_def room_key_of_def room_demo_env_def
      demo_flow_auth_def ascii_def)

theorem restart_takes_over_witness:
  "\<exists>s e g. s = rehydrated room_demo_env 5 (recent_json room_demo_rows) (room_server_new (PubKey [90])) \<and> rs_engine s = Some e \<and>
     episodes e 0 = None \<and> episodes e 7 = Some \<lparr>ew_episode = g, rollback_stack = []\<rparr> \<and> creator g = Some (PubKey [80]) \<and> room_created_at g = 9"
proof -
  from restart_takes_over [OF room_demo_codec refl, of 5 room_demo_rows "PubKey [90]"] obtain e where
    e: "rs_engine (rehydrated room_demo_env 5 (recent_json room_demo_rows) (room_server_new (PubKey [90]))) = Some e"
    and a: "\<forall>i. case List.find (\<lambda>x. fst x = i) (taken_over room_demo_env room_demo_rows) of
      None \<Rightarrow> episodes e i = None \<and> rp_episodes (rs_peer (rehydrated room_demo_env 5 (recent_json room_demo_rows) (room_server_new (PubKey [90])))) (ucast i) = None
    | Some (_, k, t) \<Rightarrow> \<exists>g. episodes e i = Some \<lparr>ew_episode = g, rollback_stack = []\<rparr> \<and>
        rp_episodes (rs_peer (rehydrated room_demo_env 5 (recent_json room_demo_rows) (room_server_new (PubKey [90])))) (ucast i) = Some g \<and>
        creator g = Some k \<and> room_created_at g = t \<and> room_comments g = [] \<and> authenticated_participants g = {} \<and>
        (\<forall>q c md. q \<noteq> k \<longrightarrow> room_execute (re_auth room_demo_env) g c (Some q) md = (g, Inl (InvalidCommand RoomNotAuthorized)))"
    by blast
  from spec [OF a, of 0] spec [OF a, of 7] e show ?thesis by (auto simp: room_demo_taken)
qed

section \<open>Clients\<close>

definition room_demo_flows :: "(room, room_command, room_rollback, room_error, room_peer) flow_env" where
  "room_demo_flows = \<lparr>fe_cfg = room_config room_demo_env, fe_auth = demo_flow_auth, fe_tx = demo_flow_tx, fe_enc = re_enc room_demo_env,
     fe_script = pk_bytes\<rparr>"

definition room_demo_net :: flow_net where
  "room_demo_net = demo_flow_net\<lparr>net_post := (\<lambda>b. case b of
     PostStart k \<Rightarrow> start_answer (room_start_auth room_demo_env (Some room_demo_node) (Some demo_keys) 7 k None (room_peer_new (PubKey [90])))
   | _ \<Rightarrow> None)\<rparr>"

theorem client_never_logs_in_witness:
  "\<exists>tr e. room_coordinated_flow room_demo_flows room_demo_net demo_keys demo_keys [] = Some (tr, Inl e) \<and> (\<forall>tx. SubmitTx tx \<notin> set tr)"
proof -
  have "net_post room_demo_net (PostStart k) =
      start_answer (room_start_auth room_demo_env (Some room_demo_node) (Some demo_keys) 7 k None (room_peer_new (PubKey [90])))" for k
    by (simp add: room_demo_net_def)
  from client_never_logs_in [OF this, of room_demo_flows demo_keys demo_keys] show ?thesis by blast
qed

section \<open>The WebSocket peer\<close>

definition room_demo_input :: front_input where
  "room_demo_input = \<lparr>fi_json = Some (JObj [(''episode_id'', JInt 7), (''signature'', JStr ''P''), (''nonce'', JStr ''n'')]),
     fi_utxos = Inr [room_demo_utxo 0], fi_answer = (\<lambda>_. Submitted), fi_write = True\<rparr>"

lemma room_demo_front:
  "fc_sent (front_connection room_demo_env id demo_keys [room_demo_input] front_new) = [(7, RoomRequestChallenge)]"
proof -
  obtain tx where tx: "build_command_transaction demo_flow_tx auth_generator (room_demo_utxo 0) (re_script room_demo_env (kp_public demo_keys))
      (re_enc room_demo_env (new_signed_command (room_config room_demo_env) 7 RoomRequestChallenge (kp_secret demo_keys) (kp_public demo_keys))) 1000 = Some tx"
    using room_demo_build by blast
  have p: "parse_frontend (JObj [(''episode_id'', JInt 7), (''signature'', JStr ''P''), (''nonce'', JStr ''n'')]) = Some (FrontChallenge 7)"
    by (simp add: parse_frontend_def front_text_def front_id_def front_field_def)
  show ?thesis
    using tx by (simp add: front_new_def front_step_def room_demo_input_def p front_command_def front_tx_retry.simps front_send_def)
qed

theorem websocket_never_authenticates_witness:
  "\<exists>g rs. exec_calls (room_episode demo_flow_auth) (room_initialize [PubKey [80]] (auth_demo_meta 1))
       [(RoomRequestChallenge, Some (PubKey [80]), auth_demo_meta 2)] = Some (g, rs) \<and>
     fc_sent (front_connection room_demo_env id demo_keys [room_demo_input] front_new) = [(7, RoomRequestChallenge)] \<and>
     authenticated_participants g = {}"
proof -
  let ?cs = "[(RoomRequestChallenge, Some (PubKey [80]), auth_demo_meta 2)]"
  obtain g r where "room_execute demo_flow_auth (room_initialize [PubKey [80]] (auth_demo_meta 1)) RoomRequestChallenge (Some (PubKey [80]))
      (auth_demo_meta 2) = (g, r)" by fastforce
  then have "\<exists>rs. exec_calls (room_episode demo_flow_auth) (room_initialize [PubKey [80]] (auth_demo_meta 1)) ?cs = Some (g, rs)"
    by (cases r) (simp_all add: room_episode_def)
  then obtain rs where run: "exec_calls (room_episode demo_flow_auth) (room_initialize [PubKey [80]] (auth_demo_meta 1)) ?cs = Some (g, rs)" by blast
  have "fst ` set ?cs \<subseteq> snd ` set (fc_sent (front_connection room_demo_env id demo_keys [room_demo_input] front_new))"
    unfolding room_demo_front by simp
  from websocket_never_authenticates [OF refl run this] room_demo_front run show ?thesis by blast
qed

end
