(* ===== verification/Spec2Isabelle.thy ===== *)
theory Spec2Isabelle
  imports Engine_Properties Proxy Draw_Services Comment_Episode Contract_Board_Properties Comment_Board Bond_Wallet_Properties
    Auth_Http_Properties Auth_Daemon_Properties Indexer_Properties Mcp_Properties Room_Demo
begin

text \<open>
  A verification library of the kdapp framework and its applications (\<^verbatim>\<open>src/applications/kdapps\<close>).

  \<^bold>\<open>The program.\<close> kdapp runs interactive applications over the Kaspa block DAG. A client packs a
  signed command into the payload of a transaction (\<^verbatim>\<open>kdapp/src/generator.rs\<close>). Every node listens
  to the chain (\<^verbatim>\<open>kdapp/src/proxy.rs\<close>), collects the payloads whose transaction id matches the
  pattern of an application and hands them, block by block, to an engine (\<^verbatim>\<open>kdapp/src/engine.rs\<close>)
  that executes them on episodes (\<^verbatim>\<open>kdapp/src/episode.rs\<close>). When the DAG reorganises, the engine rolls
  the commands of the reverted blocks back. The applications are implementations of the trait
  \<^verbatim>\<open>Episode\<close> with services around them: a game (\<^verbatim>\<open>tictactoe\<close>), a merchant who keeps invoices in a
  store and also takes messages off chain (\<^verbatim>\<open>kdapp-merchant\<close>), a lottery (\<^verbatim>\<open>kas-draw\<close>),
  authentication (\<^verbatim>\<open>kaspa-auth\<close>) and comments (\<^verbatim>\<open>comment-it\<close>, \<^verbatim>\<open>comment-board\<close>).

  \<^bold>\<open>Conventions.\<close> A struct is a record with the fields of the code, an enum a datatype. Machine
  integers are words, so arithmetic wraps as in a release build. A method on \<^verbatim>\<open>&mut self\<close> returns the
  new state beside its result, also when it fails; \<^verbatim>\<open>Err\<close> is \<^const>\<open>Inl\<close> and \<^verbatim>\<open>Ok\<close> is \<^const>\<open>Inr\<close>.
  \<^const>\<open>None\<close> as the result of an operation is a panic of the thread. A string is the list of its
  UTF-8 bytes. What is not under \<^verbatim>\<open>src/applications/kdapps\<close> (secp256k1, SHA-256, BLAKE2b, ChaCha8, the
  derived Borsh codecs, the node, the consensus crate, sockets, files, clocks and random numbers) is a
  parameter or an argument, with the laws the code relies on as hypotheses of the theorems.

  \<^bold>\<open>The framework.\<close> \<^verbatim>\<open>Prelude\<close> holds bytes, little endian words, codecs, byte maps and text
  (\<^verbatim>\<open>named_theorems\<close> for the wire format). \<^verbatim>\<open>Episode\<close> has keys, metadata, the trait as a record of its
  three methods and its contract as the locale \<^verbatim>\<open>episode_contract\<close>: a rollback leads back to a state
  that is similar to the one before the command. \<^verbatim>\<open>Generator\<close> models the transactions and their routing
  pattern, \<^verbatim>\<open>Engine\<close> the event loop, \<^verbatim>\<open>Reorg\<close> proves once, for every episode that meets the contract,
  that reverting blocks restores the engine up to the similarity of the contract, and for one that restores
  its state exactly that only the blocks still on the chain count (for blocks within the expiry filter's window
  and with hashes new to the engine), \<^verbatim>\<open>Proxy\<close> models the listener, \<^verbatim>\<open>Engine_Watch\<close> has the locales of a handler that follows the engine and of two engines whose
  handlers stay related. \<^verbatim>\<open>Engine_Properties\<close> states the promises on the model of the engine with the game of
  \<^verbatim>\<open>TicTacToe\<close>.

  \<^bold>\<open>The merchant.\<close> \<^verbatim>\<open>Merchant_Storage\<close> is the three trees of the store, \<^verbatim>\<open>Merchant_Episode\<close> the
  receipt episode with its write-through, \<^verbatim>\<open>Merchant_Contract\<close> shows that ledger and store agree and
  interprets the contract, \<^verbatim>\<open>Merchant_Properties\<close> states recovery, rollback and consistency of the
  payments. \<^verbatim>\<open>Tlv\<close>, \<^verbatim>\<open>Routers\<close> and \<^verbatim>\<open>Client_Sender\<close> are the off-chain path: the message format, the UDP
  and TCP routers (their common discipline of sequence numbers is a locale, interpreted for each of
  them and for the lottery) and the client that retries over a lossy link. \<^verbatim>\<open>Merchant_Services\<close> has
  the scheduler, the checkpoints, the watcher that anchors them and the HTTP handlers.

  \<^bold>\<open>The lottery.\<close> \<^verbatim>\<open>Lottery\<close> is the episode: money is conserved, tickets are well formed, and exactly
  which fields a rollback fails to restore. \<^verbatim>\<open>Draw_Offchain\<close> models its transport without digests, the
  client and the file of sequence numbers, \<^verbatim>\<open>Draw_Services\<close> the handler, the tower and the submission
  of transactions.

  \<^bold>\<open>Authentication.\<close> \<^verbatim>\<open>Auth\<close> and \<^verbatim>\<open>Auth_Properties\<close> model challenges, signatures, commit and
  reveal and the episode of kaspa-auth, with its contract up to owner and attempts. Around it:
  \<^verbatim>\<open>Auth_Flows\<close> has the sequences of transactions and requests by which a client authenticates (a
  monad over the actions, the answers of node and peer being arguments), and
  \<^verbatim>\<open>Auth_Flows_Properties\<close> runs their messages through the engine; \<^verbatim>\<open>Auth_Http\<close> is the peer that shows
  the episodes over HTTP, with \<^verbatim>\<open>Auth_Http_Properties\<close> on how far its copy follows the engine;
  \<^verbatim>\<open>Auth_Keychain\<close> stores keys and password hashes, \<^verbatim>\<open>Auth_Daemon\<close> is the daemon that holds identities
  and sessions and answers framed requests, and \<^verbatim>\<open>Auth_Daemon_Properties\<close> states what it keeps.

  \<^bold>\<open>Comments.\<close> \<^verbatim>\<open>Comment_Log\<close> is the locale of an episode that keeps a numbered log of comments;
  \<^verbatim>\<open>Comment_Room\<close>, \<^verbatim>\<open>Comment_Episode\<close> (comment-it) and \<^verbatim>\<open>Contract_Board_Properties\<close> (comment-board)
  interpret it. \<^verbatim>\<open>Bond_Scripts\<close> holds the scripts of bonds and the descriptors the episode reads,
  \<^verbatim>\<open>Contract_Board\<close> the contract with its bonds, \<^verbatim>\<open>Comment_Board\<close> the open board of fifty comments as a
  step relation with executions and rollbacks, \<^verbatim>\<open>Bond_Wallet\<close> the wallet that selects outputs, locks
  and releases bonds, and \<^verbatim>\<open>Bond_Wallet_Properties\<close> its books and the balance of its transactions.

  \<^bold>\<open>The peer of comment-it.\<close> \<^verbatim>\<open>Utxo_Cache\<close> is the short-lived cache of outputs (\<^verbatim>\<open>kdapp/src/utils\<close>),
  \<^verbatim>\<open>Json\<close> the values of requests and replies. \<^verbatim>\<open>Room_Peer\<close> has the state of the HTTP peer, the handler of its
  engine, the submission with reserved outputs and what it takes over from the indexer, \<^verbatim>\<open>Room_Api\<close> the endpoints,
  \<^verbatim>\<open>Room_Server\<close> the running server as a fold over blocks, requests, ends of waits and timers in any order,
  \<^verbatim>\<open>Room_Clients\<close> the handler of the organizer, the client flows and the WebSocket peer. \<^verbatim>\<open>Room_Properties\<close>
  interprets the locale of a handler that follows the engine three times and shows how far the copy of the rooms is right
  and which requests never end; \<^verbatim>\<open>Room_Chain_Properties\<close> is about the outputs in flight, the restart, the flows and
  the WebSocket peer; \<^verbatim>\<open>Room_Demo\<close> has the runs on concrete data.

  \<^bold>\<open>The indexer.\<close> \<^verbatim>\<open>Indexer_Store\<close> has the trait of the stores of \<^verbatim>\<open>kdapp-indexer\<close> and its two
  implementations, in memory and on a database of byte keys, \<^verbatim>\<open>Indexer\<close> the handler that writes the
  rows of the comment rooms and the endpoints. \<^verbatim>\<open>Indexer_Contract\<close> states as locales what the indexer
  relies on in a store, the writes and on top of them the reads, and derives from the writes what the index shows;
  \<^verbatim>\<open>Indexer_Properties\<close> interprets the first for both stores and the second for the store in memory. The
  iterator of the database does not stop at its prefix, so reading there answers with comments of later
  episodes as well; how far the answers of the two stores agree is stated exactly.

  \<^bold>\<open>The tool server.\<close> \<^verbatim>\<open>Mcp_Game\<close> is the game of \<^verbatim>\<open>kdapp-mcp-server\<close>, which meets the contract for any
  participants, \<^verbatim>\<open>Mcp_Server\<close> the event handler with its files, the tools and the JSON-RPC loop as runs of
  lines and turns of the engine's thread, \<^verbatim>\<open>Mcp_Properties\<close> what is answered, shown and left after a restart.

  \<^bold>\<open>Bounds.\<close> No definition uses fuel. Loops are structural or, where the code counts, recursive on what
  is left to try (the nonce search, the retries, the backfill of the listener). A theorem that needs a
  counter not to wrap says so (fewer than 2^64 - 1 comments, locked values whose sum fits). The loops of
  the services that never end (listener, watcher, router, scheduler) are modelled by one pass, and runs
  of them as lists of inputs.

  \<^bold>\<open>Not modelled.\<close> The vendored rusty-kaspa sources outside \<^verbatim>\<open>applications/kdapps\<close>. Glue that connects to
  the node, starts threads, parses command lines, logs or prints. Within the applications: the
  WebSocket loops of kaspa-auth, the forwarding organizer and the wallet file of comment-it, the main
  loop of comment-board and the wallet (\<^verbatim>\<open>kdapp-wallet\<close>); the manifest lists
  them with the reason. Files that no module declares (\<^verbatim>\<open>service-fixed.rs\<close>, \<^verbatim>\<open>auth-fixed.rs\<close>,
  \<^verbatim>\<open>comment-it/src/auth/flow.rs\<close>) are not compiled. Floating point values (bond prices, reputation averages) are left out, as are the data
  types of features that are off.
\<close>

end
